(* ===== verification/Collections.thy ===== *)
theory Collections
  imports Prelude
begin

text \<open>
  \<open>BTreeSet\<close> and \<open>BTreeMap\<close> as the crates use them: a set is its elements in ascending order, a
  map its entries in ascending order of the keys, so iteration order is list order. The two
  contracts are the locales \<open>ordered_set\<close> and \<open>ordered_map\<close>; what the clients need is proved
  there and reached through the interpretations \<open>bts\<close> and \<open>btm\<close>.
\<close>

section \<open>The contract of an ordered set\<close>

locale ordered_set =
  fixes empty :: "'s"
    and ins :: "'a::linorder \<Rightarrow> 's \<Rightarrow> 's"
    and elems :: "'s \<Rightarrow> 'a list"
    and invar :: "'s \<Rightarrow> bool"
  assumes invar_empty: "invar empty"
    and elems_empty: "elems empty = []"
    and invar_ins: "invar s \<Longrightarrow> invar (ins x s)"
    and set_ins: "invar s \<Longrightarrow> set (elems (ins x s)) = insert x (set (elems s))"
    and ascending: "invar s \<Longrightarrow> sorted_wrt (<) (elems s)"
begin

lemma invar_fold: "invar s \<Longrightarrow> invar (fold ins xs s)"
  by (induction xs arbitrary: s) (auto intro: invar_ins)

lemma set_fold: "invar s \<Longrightarrow> set (elems (fold ins xs s)) = set xs \<union> set (elems s)"
  by (induction xs arbitrary: s) (auto simp: set_ins invar_ins)

lemma distinct_elems: "invar s \<Longrightarrow> distinct (elems s)"
  using ascending strict_sorted_iff by blast

text \<open>The elements alone determine what iteration sees.\<close>

lemma elems_eqI: "invar s \<Longrightarrow> invar t \<Longrightarrow> set (elems s) = set (elems t) \<Longrightarrow> elems s = elems t"
  by (metis ascending strict_sorted_equal)

lemma elems_fold_empty: "elems (fold ins xs empty) = sorted_list_of_set (set xs)"
proof -
  have "set (elems (fold ins xs empty)) = set xs"
    by (simp add: set_fold invar_empty elems_empty)
  then show ?thesis
    by (metis ascending invar_empty invar_fold sorted_list_of_set.idem_if_sorted_distinct
        strict_sorted_iff)
qed

lemma ins_present: "invar s \<Longrightarrow> x \<in> set (elems s) \<Longrightarrow> elems (ins x s) = elems s"
  by (rule elems_eqI) (auto simp: set_ins invar_ins)

lemma length_ins:
  "invar s \<Longrightarrow> length (elems (ins x s)) = (if x \<in> set (elems s) then 0 else 1) + length (elems s)"
proof -
  assume s: "invar s"
  have "length (elems (ins x s)) = card (insert x (set (elems s)))"
    using distinct_card [OF distinct_elems [OF invar_ins [OF s]]] by (simp add: set_ins s)
  moreover have "card (set (elems s)) = length (elems s)"
    by (rule distinct_card) (rule distinct_elems [OF s])
  ultimately show ?thesis by (simp add: card_insert_if)
qed

end

section \<open>The contract of an ordered map\<close>

locale ordered_map =
  fixes empty :: "'m"
    and ins :: "'k::linorder \<Rightarrow> 'v \<Rightarrow> 'm \<Rightarrow> 'm"
    and get :: "'m \<Rightarrow> 'k \<Rightarrow> 'v option"
    and entries :: "'m \<Rightarrow> ('k \<times> 'v) list"
    and invar :: "'m \<Rightarrow> bool"
  assumes invar_empty: "invar empty"
    and entries_empty: "entries empty = []"
    and invar_ins: "invar m \<Longrightarrow> invar (ins k v m)"
    and get_ins: "invar m \<Longrightarrow> get (ins k v m) = (get m)(k \<mapsto> v)"
    and get_entries: "get m k = map_of (entries m) k"
    and ascending: "invar m \<Longrightarrow> sorted_wrt (<) (map fst (entries m))"
begin

lemma distinct_keys: "invar m \<Longrightarrow> distinct (map fst (entries m))"
  using ascending strict_sorted_iff by blast

lemma get_Some_iff: "invar m \<Longrightarrow> get m k = Some v \<longleftrightarrow> (k, v) \<in> set (entries m)"
  by (simp add: get_entries distinct_keys)

lemma keys_ins: "invar m \<Longrightarrow> fst ` set (entries (ins k v m)) = insert k (fst ` set (entries m))"
proof -
  assume m: "invar m"
  have dom: "dom (get m') = fst ` set (entries m')" for m'
    by (simp add: get_entries [abs_def] dom_map_of_conv_image_fst)
  have "dom (get (ins k v m)) = insert k (dom (get m))" by (simp add: get_ins m)
  then show ?thesis by (simp add: dom)
qed

lemma invar_fold: "invar m \<Longrightarrow> invar (fold (\<lambda>(k, v). ins k v) kvs m)"
  by (induction kvs arbitrary: m) (auto intro: invar_ins)

text \<open>Collecting entries into a map: the last entry of a key wins.\<close>

lemma get_fold: "invar m \<Longrightarrow> get (fold (\<lambda>(k, v). ins k v) kvs m) = get m ++ map_of (rev kvs)"
proof (induction kvs arbitrary: m)
  case (Cons kv kvs)
  obtain k v where kv: "kv = (k, v)" by fastforce
  have "get (fold (\<lambda>(k, v). ins k v) kvs (ins k v m)) = (get m)(k \<mapsto> v) ++ map_of (rev kvs)"
    using Cons.IH [OF invar_ins [OF Cons.prems]] by (simp only: get_ins [OF Cons.prems])
  also have "(get m)(k \<mapsto> v) ++ map_of (rev kvs) = get m ++ ([k \<mapsto> v] ++ map_of (rev kvs))"
    by (subst map_add_assoc) simp
  also have "[k \<mapsto> v] ++ map_of (rev kvs) = map_of (rev (kv # kvs))"
    by (simp add: kv)
  finally show ?case by (simp only: kv fold_simps prod.case)
qed simp

end

text \<open>The keys of an ordered map, inserted with any value, are an ordered set.\<close>

sublocale ordered_map \<subseteq> keyset: ordered_set empty "\<lambda>k. ins k v" "\<lambda>m. map fst (entries m)" invar
  for v
  by unfold_locales (auto simp: invar_empty entries_empty invar_ins keys_ins ascending)

section \<open>Ascending lists\<close>

fun bts_insert :: "'a::linorder \<Rightarrow> 'a list \<Rightarrow> 'a list" where
  "bts_insert x [] = [x]"
| "bts_insert x (y # ys) =
     (if x < y then x # y # ys else if x = y then y # ys else y # bts_insert x ys)"

definition bts_extend :: "'a::linorder list \<Rightarrow> 'a list \<Rightarrow> 'a list" where
  "bts_extend xs s = fold bts_insert xs s"

definition bts_of_list :: "'a::linorder list \<Rightarrow> 'a list" where
  "bts_of_list xs = bts_extend xs []"

abbreviation ascending :: "'a::linorder list \<Rightarrow> bool" where
  "ascending \<equiv> sorted_wrt (<)"

lemma set_bts_insert [simp]: "set (bts_insert x ys) = insert x (set ys)"
  by (induction ys) auto

lemma ascending_bts_insert: "ascending ys \<Longrightarrow> ascending (bts_insert x ys)"
  by (induction ys) auto

interpretation bts: ordered_set "[]" bts_insert "\<lambda>s. s" ascending
  by unfold_locales (auto simp: ascending_bts_insert)

lemma set_bts_extend [simp]: "set (bts_extend xs s) = set xs \<union> set s"
  by (induction xs arbitrary: s) (auto simp: bts_extend_def)

lemma ascending_bts_extend: "ascending s \<Longrightarrow> ascending (bts_extend xs s)"
  by (simp add: bts_extend_def bts.invar_fold)

lemma set_bts_of_list [simp]: "set (bts_of_list xs) = set xs"
  by (simp add: bts_of_list_def)

lemma ascending_bts_of_list [simp]: "ascending (bts_of_list xs)"
  by (simp add: bts_of_list_def ascending_bts_extend)

lemma bts_of_list_eq: "bts_of_list xs = sorted_list_of_set (set xs)"
  by (simp add: bts_of_list_def bts_extend_def bts.elems_fold_empty)

lemma bts_of_list_cong: "set xs = set ys \<Longrightarrow> bts_of_list xs = bts_of_list ys"
  by (simp add: bts_of_list_eq)

lemma bts_of_list_Nil_iff [simp]: "bts_of_list xs = [] \<longleftrightarrow> xs = []"
  by (metis set_bts_of_list set_empty)

lemma length_bts_of_list: "length (bts_of_list xs) = card (set xs)"
  by (simp add: bts_of_list_eq)

lemma bts_of_list_ascending: "ascending xs \<Longrightarrow> bts_of_list xs = xs"
  by (metis ascending_bts_of_list set_bts_of_list strict_sorted_equal)

lemma ascending_distinct: "ascending xs \<Longrightarrow> distinct xs"
  by (rule bts.distinct_elems)

lemma ascending_filter: "ascending xs \<Longrightarrow> ascending (filter P xs)"
  by (rule sorted_wrt_filter)

section \<open>Entries in ascending order of the keys\<close>

fun btm_insert :: "'k::linorder \<Rightarrow> 'v \<Rightarrow> ('k \<times> 'v) list \<Rightarrow> ('k \<times> 'v) list" where
  "btm_insert k v [] = [(k, v)]"
| "btm_insert k v ((k', v') # m) =
     (if k < k' then (k, v) # (k', v') # m
      else if k = k' then (k, v) # m else (k', v') # btm_insert k v m)"

abbreviation btm_get :: "('k \<times> 'v) list \<Rightarrow> 'k \<Rightarrow> 'v option" where
  "btm_get m k \<equiv> map_of m k"

abbreviation ascending_keys :: "('k::linorder \<times> 'v) list \<Rightarrow> bool" where
  "ascending_keys m \<equiv> ascending (map fst m)"

text \<open>\<open>entry(k).or_default()\<close> (default \<open>d\<close>), then an update through the reference.\<close>

definition btm_update :: "'k::linorder \<Rightarrow> 'v \<Rightarrow> ('v \<Rightarrow> 'v) \<Rightarrow> ('k \<times> 'v) list \<Rightarrow> ('k \<times> 'v) list" where
  "btm_update k d f m = btm_insert k (f (case btm_get m k of None \<Rightarrow> d | Some v \<Rightarrow> v)) m"

definition btm_of_list :: "('k::linorder \<times> 'v) list \<Rightarrow> ('k \<times> 'v) list" where
  "btm_of_list kvs = fold (\<lambda>(k, v). btm_insert k v) kvs []"

lemma keys_btm_insert [simp]: "fst ` set (btm_insert k v m) = insert k (fst ` set m)"
  by (induction k v m rule: btm_insert.induct) auto

lemma ascending_btm_insert: "ascending_keys m \<Longrightarrow> ascending_keys (btm_insert k v m)"
proof (induction k v m rule: btm_insert.induct)
  case (2 k v k' v' m)
  then have "\<forall>x\<in>fst ` set m. k' < x" by auto
  with 2 show ?case
    using keys_btm_insert [of k v m] by (auto simp del: keys_btm_insert)
qed simp

lemma get_btm_insert [simp]: "ascending_keys m \<Longrightarrow> btm_get (btm_insert k v m) = (btm_get m)(k \<mapsto> v)"
proof (induction k v m rule: btm_insert.induct)
  case (2 k v k' v' m)
  then show ?case by (auto simp: fun_upd_twist)
qed simp

interpretation btm: ordered_map "[]" btm_insert btm_get "\<lambda>m. m" ascending_keys
  by unfold_locales (auto simp: ascending_btm_insert)

lemma ascending_btm_update: "ascending_keys m \<Longrightarrow> ascending_keys (btm_update k d f m)"
  by (simp add: btm_update_def ascending_btm_insert)

lemma get_btm_update:
  "ascending_keys m \<Longrightarrow>
   btm_get (btm_update k d f m) k' =
     (if k' = k then Some (f (case btm_get m k of None \<Rightarrow> d | Some v \<Rightarrow> v)) else btm_get m k')"
  by (simp add: btm_update_def)

lemma ascending_btm_of_list [simp]: "ascending_keys (btm_of_list kvs)"
  by (simp add: btm_of_list_def btm.invar_fold)

lemma get_btm_of_list: "btm_get (btm_of_list kvs) = map_of (rev kvs)"
  by (simp add: btm_of_list_def btm.get_fold)

lemma keys_btm_of_list: "fst ` set (btm_of_list kvs) = fst ` set kvs"
proof -
  have "dom (btm_get (btm_of_list kvs)) = dom (map_of (rev kvs))"
    by (simp add: get_btm_of_list)
  then show ?thesis by (simp add: dom_map_of_conv_image_fst)
qed

lemma get_btm_of_list_distinct:
  "distinct (map fst kvs) \<Longrightarrow> btm_get (btm_of_list kvs) = map_of kvs"
  by (simp add: get_btm_of_list) (rule map_of_inject_set [THEN iffD2], simp_all add: rev_map [symmetric])

text \<open>A loop over \<open>entry(k).or_default()\<close>: each key holds the fold of the values that came under it.\<close>

definition values_of :: "'k \<Rightarrow> ('k \<times> 'a) list \<Rightarrow> 'a list" where
  "values_of k kxs = map snd (filter (\<lambda>kx. fst kx = k) kxs)"

lemma values_of_simps [simp]:
  "values_of k [] = []" "values_of k ((k', x) # kxs) = (if k' = k then x # values_of k kxs else values_of k kxs)"
  by (simp_all add: values_of_def)

lemma values_of_Nil_iff: "values_of k kxs = [] \<longleftrightarrow> k \<notin> fst ` set kxs"
  by (auto simp: values_of_def filter_empty_conv)

lemma ascending_fold_update:
  "ascending_keys m \<Longrightarrow> ascending_keys (fold (\<lambda>(k, x). btm_update k z (f x)) kxs m)"
  by (induction kxs arbitrary: m) (auto simp: ascending_btm_update)

lemma get_fold_update:
  "ascending_keys m \<Longrightarrow>
   btm_get (fold (\<lambda>(k, x). btm_update k z (f x)) kxs m) k =
     (if values_of k kxs = [] then btm_get m k
      else Some (fold f (values_of k kxs) (case btm_get m k of None \<Rightarrow> z | Some v \<Rightarrow> v)))"
proof (induction kxs arbitrary: m)
  case (Cons kx kxs)
  then show ?case
    by (cases kx) (simp add: ascending_btm_update get_btm_update del: get_btm_insert)
qed simp

lemma get_fold_update_empty:
  "btm_get (fold (\<lambda>(k, x). btm_update k z (f x)) kxs []) k =
     (if values_of k kxs = [] then None else Some (fold f (values_of k kxs) z))"
  by (simp add: get_fold_update)

lemma set_fold_update:
  "set (fold (\<lambda>(k, x). btm_update k z (f x)) kxs []) =
     (\<lambda>k. (k, fold f (values_of k kxs) z)) ` fst ` set kxs"
proof -
  let ?m = "fold (\<lambda>(k, x). btm_update k z (f x)) kxs []"
  have "ascending_keys ?m" by (rule ascending_fold_update) simp
  then have "(k, v) \<in> set ?m \<longleftrightarrow> btm_get ?m k = Some v" for k v using btm.get_Some_iff by metis
  then have "(k, v) \<in> set ?m \<longleftrightarrow> k \<in> fst ` set kxs \<and> v = fold f (values_of k kxs) z" for k v
    using get_fold_update_empty [of z f kxs k] values_of_Nil_iff [of k kxs] by auto
  then show ?thesis by (auto simp: set_eq_iff image_iff)
qed

lemma btm_insert_last: "\<forall>x\<in>fst ` set m. x < k \<Longrightarrow> btm_insert k v m = m @ [(k, v)]"
  by (induction k v m rule: btm_insert.induct) auto

lemma btm_of_list_ascending: "ascending_keys m \<Longrightarrow> btm_of_list m = m"
proof (induction m rule: rev_induct)
  case (snoc kv m)
  then have "\<forall>x\<in>fst ` set m. x < fst kv" by (auto simp: sorted_wrt_append)
  moreover have "btm_of_list m = m" using snoc by (auto simp: sorted_wrt_append)
  ultimately show ?case
    using btm_insert_last [of m "fst kv" "snd kv"] by (simp add: btm_of_list_def case_prod_beta)
qed (simp add: btm_of_list_def)

section \<open>Lookup by a key\<close>

text \<open>
  \<open>items.iter().find(|item| item.key == k)\<close>, the contract of every lookup by identifier: a
  result has the key, a missing result means no item has it, and where the keys are unique
  every item is found under its own key.
\<close>

locale keyed_lookup =
  fixes items :: "'c \<Rightarrow> 'a list"
    and key :: "'a \<Rightarrow> 'k"
    and look :: "'c \<Rightarrow> 'k \<Rightarrow> 'a option"
  assumes look_find: "look c k = find (\<lambda>x. key x = k) (items c)"
begin

lemma look_Some: "look c k = Some x \<Longrightarrow> x \<in> set (items c) \<and> key x = k"
  by (auto simp: look_find find_Some_iff)

lemma look_None: "look c k = None \<longleftrightarrow> k \<notin> key ` set (items c)"
  by (auto simp: look_find find_None_iff)

lemma look_unique:
  "distinct (map key (items c)) \<Longrightarrow> x \<in> set (items c) \<Longrightarrow> look c (key x) = Some x"
proof -
  assume d: "distinct (map key (items c))" and x: "x \<in> set (items c)"
  have "look c (key x) \<noteq> None" using x by (auto simp: look_None)
  then obtain y where "look c (key x) = Some y" by blast
  moreover from this have "y \<in> set (items c)" "key y = key x" by (auto dest: look_Some)
  ultimately show ?thesis using d x by (metis distinct_map inj_on_def)
qed

lemma look_in_keys: "k \<in> key ` set (items c) \<Longrightarrow> \<exists>x. look c k = Some x"
  using look_None by fastforce

end

end
