(* ===== verification/Paths.thy ===== *)
theory Paths
  imports Prelude
begin

text \<open>
  The parts of \<open>std::path\<close> (on Unix) the crates use, over byte strings, and
  \<open>normalize_repo_relative_path\<close> of \<open>crates/chromifer-manifest/src/lib.rs\<close>.
\<close>

section \<open>Components of a path\<close>

datatype component = RootDir | CurDir | ParentDir | Normal string

text \<open>
  \<open>Path::components\<close>: an absolute path starts with \<open>RootDir\<close>; empty segments are skipped; a
  segment \<open>.\<close> counts only as the first one of a relative path.
\<close>

definition segment_component :: "string \<Rightarrow> component list" where
  "segment_component w =
     (if w = [] \<or> w = ''.'' then [] else if w = ''..'' then [ParentDir] else [Normal w])"

definition components :: "string \<Rightarrow> component list" where
  "components s =
     (let ws = split_on (CHR ''/'') s
      in (if starts_with ''/'' s then [RootDir] else if hd ws = ''.'' then [CurDir] else [])
         @ concat (map segment_component ws))"

definition file_name :: "string \<Rightarrow> string option" where
  "file_name s =
     (case rev (components s) of Normal f # _ \<Rightarrow> Some f | _ \<Rightarrow> None)"

text \<open>\<open>Path::extension\<close>: what follows the last dot of the file name, unless the name starts
  with that dot.\<close>

definition extension :: "string \<Rightarrow> string option" where
  "extension s =
     (case file_name s of None \<Rightarrow> None
      | Some f \<Rightarrow> (case rsplit_once ''.'' f of None \<Rightarrow> None
                   | Some (b, a) \<Rightarrow> if b = [] then None else Some a))"

section \<open>Repository-relative paths\<close>

fun push_components :: "component list \<Rightarrow> string list \<Rightarrow> string list option" where
  "push_components [] segs = Some segs"
| "push_components (Normal w # cs) segs = push_components cs (segs @ [w])"
| "push_components (CurDir # cs) segs = push_components cs segs"
| "push_components (_ # cs) segs = None"

definition second_byte_is_colon :: "string \<Rightarrow> bool" where
  "second_byte_is_colon s = (case s of _ # c # _ \<Rightarrow> c = CHR '':'' | _ \<Rightarrow> False)"

definition normalize_repo_relative_path :: "string \<Rightarrow> string option" where
  "normalize_repo_relative_path value =
     (let normalized = replace_char (CHR 0x5C) (CHR ''/'') value;
          relative =
            (case strip_prefix ''//'' normalized of
               Some r \<Rightarrow> Some r
             | None \<Rightarrow>
                 if starts_with ''/'' normalized \<or> second_byte_is_colon normalized then None
                 else Some normalized)
      in case relative of
           None \<Rightarrow> None
         | Some r \<Rightarrow>
             (case push_components (components r) [] of
                None \<Rightarrow> None
              | Some segments \<Rightarrow> if segments = [] then None else Some (join ''/'' segments)))"

text \<open>What the function promises: a non-empty sequence of proper segments, joined by slashes.\<close>

definition proper_segment :: "string \<Rightarrow> bool" where
  "proper_segment w \<longleftrightarrow>
     w \<noteq> [] \<and> w \<noteq> ''.'' \<and> w \<noteq> ''..'' \<and> CHR ''/'' \<notin> set w \<and> CHR 0x5C \<notin> set w"

definition repo_path :: "string \<Rightarrow> bool" where
  "repo_path s \<longleftrightarrow> (\<exists>ws. ws \<noteq> [] \<and> list_all proper_segment ws \<and> s = join ''/'' ws)"

definition normal_segments :: "component list \<Rightarrow> string list" where
  "normal_segments cs = concat (map (\<lambda>c. case c of Normal w \<Rightarrow> [w] | _ \<Rightarrow> []) cs)"

lemma set_normal_segments: "w \<in> set (normal_segments cs) \<longleftrightarrow> Normal w \<in> set cs"
  by (induction cs) (auto simp: normal_segments_def split: component.splits)

lemma push_components_Some:
  "push_components cs segs = Some out \<longleftrightarrow>
     RootDir \<notin> set cs \<and> ParentDir \<notin> set cs \<and>
     out = segs @ normal_segments cs"
  by (induction cs segs rule: push_components.induct) (auto simp: normal_segments_def)

lemma components_Normal:
  assumes "Normal w \<in> set (components s)"
  shows "w \<noteq> [] \<and> w \<noteq> ''.'' \<and> w \<noteq> ''..'' \<and> w \<in> set (split_on (CHR ''/'') s)"
  using assms
  by (auto simp: components_def segment_component_def Let_def split: if_splits)

lemma join_subset: "c \<in> set w \<Longrightarrow> w \<in> set ws \<Longrightarrow> c \<in> set (join sep ws)"
  by (induction sep ws rule: join.induct) auto

lemma split_on_subset: "c \<in> set w \<Longrightarrow> w \<in> set (split_on d s) \<Longrightarrow> c \<in> set s"
  using join_subset [of c w "split_on d s" "[d]"] by (simp add: join_split_on)

lemma replace_strip_free:
  "strip_prefix p (replace_char a b v) = Some r \<Longrightarrow> a \<noteq> b \<Longrightarrow> a \<notin> set r"
  using replace_char_free [of a b v] by (auto simp: strip_prefix_Some)

lemma normalize_segments:
  assumes "normalize_repo_relative_path v = Some s"
  obtains r where "CHR 0x5C \<notin> set r"
    and "RootDir \<notin> set (components r)" and "ParentDir \<notin> set (components r)"
    and "s = join ''/'' (normal_segments (components r))"
    and "normal_segments (components r) \<noteq> []"
  using assms replace_char_free [of "CHR 0x5C" "CHR ''/''" v]
  by (auto simp: normalize_repo_relative_path_def Let_def push_components_Some
      split: option.splits if_splits dest: replace_strip_free)

lemma normalize_repo_path:
  assumes "normalize_repo_relative_path v = Some s"
  shows "repo_path s"
proof -
  from assms obtain r where r: "CHR 0x5C \<notin> set r"
    "s = join ''/'' (normal_segments (components r))"
    "normal_segments (components r) \<noteq> []"
    by (rule normalize_segments)
  have "proper_segment w" if "Normal w \<in> set (components r)" for w
  proof -
    have w: "w \<noteq> [] \<and> w \<noteq> ''.'' \<and> w \<noteq> ''..''" "w \<in> set (split_on (CHR ''/'') r)"
      using components_Normal [OF that] by blast+
    have "CHR 0x5C \<notin> set w" using r(1) split_on_subset [OF _ w(2)] by blast
    with w split_on_segments [OF w(2)] show ?thesis by (simp only: proper_segment_def simp_thms)
  qed
  then have "list_all proper_segment (normal_segments (components r))"
    by (simp add: list_all_iff set_normal_segments)
  with r(2,3) show ?thesis unfolding repo_path_def by blast
qed

lemma components_repo_path:
  assumes ws: "ws \<noteq> []" and proper: "list_all proper_segment ws"
  shows "components (join ''/'' ws) = map Normal ws"
proof -
  have split: "split_on (CHR ''/'') (join ''/'' ws) = ws"
    using ws proper by (intro split_on_join) (auto simp: list_all_iff proper_segment_def)
  have hd: "proper_segment (hd ws)" using ws proper by (simp add: list_all_iff)
  obtain w ws' where w: "ws = w # ws'" using ws by (cases ws) auto
  obtain c w' where c: "w = c # w'" "c \<noteq> CHR ''/''"
    using hd w by (cases w) (auto simp: proper_segment_def)
  have "\<not> starts_with ''/'' (join ''/'' ws)"
    using w c by (cases ws') (auto simp: starts_with_iff)
  moreover have "concat (map segment_component ws) = map Normal ws"
    using proper by (induction ws) (auto simp: segment_component_def proper_segment_def)
  moreover have "hd ws \<noteq> ''.''" using hd by (auto simp: proper_segment_def)
  ultimately show ?thesis by (simp add: components_def split)
qed

lemma push_components_Normal: "push_components (map Normal ws) segs = Some (segs @ ws)"
  by (induction ws arbitrary: segs) auto

lemma repo_path_bytes:
  assumes "repo_path s"
  shows "CHR 0x5C \<notin> set s" and "\<not> starts_with ''/'' s"
proof -
  from assms obtain ws where ws: "ws \<noteq> []" "list_all proper_segment ws" "s = join ''/'' ws"
    by (auto simp: repo_path_def)
  have "c \<in> set (join sep xs) \<Longrightarrow> c \<in> set sep \<or> (\<exists>x\<in>set xs. c \<in> set x)" for c :: char and sep xs
    by (induction sep xs rule: join.induct) auto
  from this [of "CHR 0x5C" "''/''" ws] show "CHR 0x5C \<notin> set s"
    using ws by (auto simp: list_all_iff proper_segment_def)
  have "RootDir \<notin> set (components s)"
    using ws components_repo_path [of ws] by auto
  then show "\<not> starts_with ''/'' s" by (auto simp: components_def Let_def)
qed

text \<open>A path of the promised form is left alone, unless its second byte is a colon.\<close>

lemma normalize_fixpoint:
  assumes "repo_path s"
  shows "normalize_repo_relative_path s = (if second_byte_is_colon s then None else Some s)"
proof -
  from assms obtain ws where ws: "ws \<noteq> []" "list_all proper_segment ws" "s = join ''/'' ws"
    by (auto simp: repo_path_def)
  note b = repo_path_bytes [OF assms]
  have "strip_prefix ''//'' s = None"
    using b(2) by (cases "strip_prefix ''//'' s") (auto simp: strip_prefix_Some starts_with_iff)
  with b show ?thesis
    using components_repo_path [OF ws(1,2)] ws
    by (simp add: normalize_repo_relative_path_def replace_char_id push_components_Normal)
qed

section \<open>Properties\<close>

text \<open>C37: a path that \<open>normalize_repo_relative_path\<close> accepts is a non-empty sequence of proper
  segments joined by slashes, with no dot segment, no backslash and no leading slash: it cannot leave
  the repository.\<close>

theorem normalize_repo_relative_path_sound:
  assumes "normalize_repo_relative_path value = Some path"
  shows "repo_path path"
  using assms by (rule normalize_repo_path)

lemma normalize_repo_relative_path_sound_witness: "repo_path ''src/base/x.cc''"
  by (rule normalize_repo_relative_path_sound
      [of "''//src'' @ [CHR 0x5C] @ ''./base//x.cc''"])
    code_simp

text \<open>Normalisation is idempotent, but for one class of results: when the accepted path has a colon
  as its second byte (a \<open>//\<close> prefix hid a drive letter), normalising it again is refused.\<close>

theorem normalize_repo_relative_path_again:
  assumes "normalize_repo_relative_path value = Some path"
  shows "normalize_repo_relative_path path = (if second_byte_is_colon path then None else Some path)"
  using normalize_fixpoint [OF normalize_repo_path [OF assms]] .

lemma normalize_repo_relative_path_again_witness:
  "normalize_repo_relative_path ''//C:/x'' = Some ''C:/x'' \<and> normalize_repo_relative_path ''C:/x'' = None"
proof
  show s: "normalize_repo_relative_path ''//C:/x'' = Some ''C:/x''" by code_simp
  have "second_byte_is_colon ''C:/x''" by code_simp
  then show "normalize_repo_relative_path ''C:/x'' = None"
    using normalize_repo_relative_path_again [OF s] by simp
qed

end
