(* ===== verification/Manifest.thy ===== *)
theory Manifest
  imports Collections Paths
begin

text \<open>
  The data model of \<open>crates/chromifer-manifest/src/lib.rs\<close>: manifests, gates, modules,
  dependencies and their boundaries, with the textual forms of the enumerations. Fields carry
  their struct's name where two structs share one. A \<open>usize\<close> count is a \<open>nat\<close>; structs that
  derive \<open>Ord\<close> are datatypes with the derived lexicographic order.
\<close>

section \<open>Enumerations\<close>

datatype migration_state = LegacyCpp | Bridged | RustOwned

datatype boundary = Unclassified | CppInternal | Cxx | CAbi | Mojo | Rust

datatype boundary_evidence_kind =
  CxxGeneratedHeader | CxxBridgeInclude | CAbiSymbol | MojoGeneratedHeader

datatype boundary_review_kind = Callback | Observer

fun evidence_boundary :: "boundary_evidence_kind \<Rightarrow> boundary" where
  "evidence_boundary CxxGeneratedHeader = Cxx"
| "evidence_boundary CxxBridgeInclude = Cxx"
| "evidence_boundary CAbiSymbol = CAbi"
| "evidence_boundary MojoGeneratedHeader = Mojo"

fun next_state :: "migration_state \<Rightarrow> migration_state option" where
  "next_state LegacyCpp = Some Bridged"
| "next_state Bridged = Some RustOwned"
| "next_state RustOwned = None"

fun is_audited_cross_language :: "boundary \<Rightarrow> bool" where
  "is_audited_cross_language Cxx = True"
| "is_audited_cross_language CAbi = True"
| "is_audited_cross_language Mojo = True"
| "is_audited_cross_language _ = False"

text \<open>\<open>Display\<close> and \<open>FromStr\<close>.\<close>

fun show_migration_state :: "migration_state \<Rightarrow> string" where
  "show_migration_state LegacyCpp = ''legacy_cpp''"
| "show_migration_state Bridged = ''bridged''"
| "show_migration_state RustOwned = ''rust_owned''"

datatype parse_migration_state_error = ParseMigrationStateError string

definition parse_migration_state ::
    "string \<Rightarrow> (parse_migration_state_error, migration_state) result" where
  "parse_migration_state value =
     (if value = ''legacy_cpp'' then Inr LegacyCpp
      else if value = ''bridged'' then Inr Bridged
      else if value = ''rust_owned'' then Inr RustOwned
      else Inl (ParseMigrationStateError value))"

fun show_boundary :: "boundary \<Rightarrow> string" where
  "show_boundary Unclassified = ''unclassified''"
| "show_boundary CppInternal = ''cpp_internal''"
| "show_boundary Cxx = ''cxx''"
| "show_boundary CAbi = ''c_abi''"
| "show_boundary Mojo = ''mojo''"
| "show_boundary Rust = ''rust''"

fun show_review_kind :: "boundary_review_kind \<Rightarrow> string" where
  "show_review_kind Callback = ''callback''"
| "show_review_kind Observer = ''observer''"

text \<open>The derived orders: declaration order of the variants.\<close>

fun state_rank :: "migration_state \<Rightarrow> nat" where
  "state_rank LegacyCpp = 0"
| "state_rank Bridged = 1"
| "state_rank RustOwned = 2"

fun boundary_rank :: "boundary \<Rightarrow> nat" where
  "boundary_rank Unclassified = 0"
| "boundary_rank CppInternal = 1"
| "boundary_rank Cxx = 2"
| "boundary_rank CAbi = 3"
| "boundary_rank Mojo = 4"
| "boundary_rank Rust = 5"

fun evidence_kind_rank :: "boundary_evidence_kind \<Rightarrow> nat" where
  "evidence_kind_rank CxxGeneratedHeader = 0"
| "evidence_kind_rank CxxBridgeInclude = 1"
| "evidence_kind_rank CAbiSymbol = 2"
| "evidence_kind_rank MojoGeneratedHeader = 3"

fun review_kind_rank :: "boundary_review_kind \<Rightarrow> nat" where
  "review_kind_rank Callback = 0"
| "review_kind_rank Observer = 1"

lemma state_rank_inj: "state_rank a = state_rank b \<Longrightarrow> a = b"
  by (cases a; cases b) auto

lemma boundary_rank_inj: "boundary_rank a = boundary_rank b \<Longrightarrow> a = b"
  by (cases a; cases b) auto

lemma evidence_kind_rank_inj: "evidence_kind_rank a = evidence_kind_rank b \<Longrightarrow> a = b"
  by (cases a; cases b) auto

lemma review_kind_rank_inj: "review_kind_rank a = review_kind_rank b \<Longrightarrow> a = b"
  by (cases a; cases b) auto

instantiation migration_state :: linorder
begin

definition less_eq_migration_state :: "migration_state \<Rightarrow> migration_state \<Rightarrow> bool" where
  "less_eq_migration_state a b = (state_rank a \<le> state_rank b)"

definition less_migration_state :: "migration_state \<Rightarrow> migration_state \<Rightarrow> bool" where
  "less_migration_state a b = (state_rank a < state_rank b)"

instance
  by standard (auto simp: less_eq_migration_state_def less_migration_state_def dest: state_rank_inj)

end

instantiation boundary :: linorder
begin

definition less_eq_boundary :: "boundary \<Rightarrow> boundary \<Rightarrow> bool" where
  "less_eq_boundary a b = (boundary_rank a \<le> boundary_rank b)"

definition less_boundary :: "boundary \<Rightarrow> boundary \<Rightarrow> bool" where
  "less_boundary a b = (boundary_rank a < boundary_rank b)"

instance
  by standard (auto simp: less_eq_boundary_def less_boundary_def dest: boundary_rank_inj)

end

instantiation boundary_evidence_kind :: linorder
begin

definition less_eq_boundary_evidence_kind ::
    "boundary_evidence_kind \<Rightarrow> boundary_evidence_kind \<Rightarrow> bool" where
  "less_eq_boundary_evidence_kind a b = (evidence_kind_rank a \<le> evidence_kind_rank b)"

definition less_boundary_evidence_kind ::
    "boundary_evidence_kind \<Rightarrow> boundary_evidence_kind \<Rightarrow> bool" where
  "less_boundary_evidence_kind a b = (evidence_kind_rank a < evidence_kind_rank b)"

instance
  by standard
    (auto simp: less_eq_boundary_evidence_kind_def less_boundary_evidence_kind_def
      dest: evidence_kind_rank_inj)

end

instantiation boundary_review_kind :: linorder
begin

definition less_eq_boundary_review_kind ::
    "boundary_review_kind \<Rightarrow> boundary_review_kind \<Rightarrow> bool" where
  "less_eq_boundary_review_kind a b = (review_kind_rank a \<le> review_kind_rank b)"

definition less_boundary_review_kind ::
    "boundary_review_kind \<Rightarrow> boundary_review_kind \<Rightarrow> bool" where
  "less_boundary_review_kind a b = (review_kind_rank a < review_kind_rank b)"

instance
  by standard
    (auto simp: less_eq_boundary_review_kind_def less_boundary_review_kind_def
      dest: review_kind_rank_inj)

end

section \<open>Structs\<close>

record project =
  project_name :: string
  project_upstream :: string
  project_baseline :: string

record inventory_metadata =
  inv_source_format :: string
  inv_build_dir :: string
  inv_default_toolchain :: string
  inv_roots :: "string list"
  inv_include_all_toolchains :: bool
  inv_include_testonly :: bool
  inv_include_meta_targets :: bool
  inv_infer_state :: bool
  inv_omitted_dependency_count :: nat

record target =
  target_id :: string
  target_description :: string
  target_required :: bool

datatype gate_execution = Shell string | Direct string "string list"

datatype gate_input = GateInput (input_path: string) (input_sha256: string)

record compatibility_gate =
  gate_id :: string
  gate_execution :: gate_execution
  gate_inputs :: "gate_input list"
  gate_targets :: "string list"

datatype ownership_include = OwnershipInclude (owner_file: string) (include_name: string)

record source_ownership =
  so_source :: string
  so_primary_owners :: "string list"
  so_effective_owners :: "string list"
  so_owner_files :: "string list"
  so_unresolved_includes :: "ownership_include list"
  so_inheritance_stopped_at :: "string option"

record module_ownership =
  mo_primary_owners :: "string list"
  mo_effective_owners :: "string list"
  mo_common_effective_owners :: "string list"
  mo_owner_files :: "string list"
  mo_unresolved_sources :: "string list"
  mo_unresolved_includes :: "ownership_include list"
  mo_split_ownership :: bool
  mo_sources :: "source_ownership list"

datatype boundary_evidence =
  BoundaryEvidence (evidence_kind: boundary_evidence_kind) (evidence_file: string)
    (evidence_line: nat) (evidence_detail: string)

datatype boundary_review =
  BoundaryReview (review_kind: boundary_review_kind) (review_file: string)
    (review_line: nat) (review_detail: string) (review_resolved: bool)

record dependency =
  dep_module :: string
  dep_boundary :: boundary
  dep_evidence :: "boundary_evidence list"
  dep_reviews :: "boundary_review list"

record module =
  module_id :: string
  module_path :: string
  module_owner :: string
  module_ownership :: "module_ownership option"
  module_source_label :: "string option"
  module_source_type :: "string option"
  module_sources :: "string list"
  module_state :: migration_state
  module_gates :: "string list"
  module_reviews :: "boundary_review list"
  module_dependencies :: "dependency list"

record manifest =
  schema_version :: "32 word"
  manifest_project :: project
  manifest_inventory :: "inventory_metadata option"
  manifest_targets :: "target list"
  manifest_gates :: "compatibility_gate list"
  manifest_modules :: "module list"

text \<open>The derived orders compare the fields in declaration order.\<close>

definition include_key :: "ownership_include \<Rightarrow> string \<times> string" where
  "include_key i = (owner_file i, include_name i)"

definition evidence_key ::
    "boundary_evidence \<Rightarrow> boundary_evidence_kind \<times> string \<times> nat \<times> string" where
  "evidence_key e = (evidence_kind e, evidence_file e, evidence_line e, evidence_detail e)"

definition review_key ::
    "boundary_review \<Rightarrow> boundary_review_kind \<times> string \<times> nat \<times> string \<times> bool" where
  "review_key r = (review_kind r, review_file r, review_line r, review_detail r, review_resolved r)"

lemma include_key_inj: "include_key a = include_key b \<Longrightarrow> a = b"
  by (cases a; cases b) (simp add: include_key_def)

lemma evidence_key_inj: "evidence_key a = evidence_key b \<Longrightarrow> a = b"
  by (cases a; cases b) (simp add: evidence_key_def)

lemma review_key_inj: "review_key a = review_key b \<Longrightarrow> a = b"
  by (cases a; cases b) (simp add: review_key_def)

instantiation ownership_include :: linorder
begin

definition less_eq_ownership_include :: "ownership_include \<Rightarrow> ownership_include \<Rightarrow> bool" where
  "less_eq_ownership_include a b = (include_key a \<le> include_key b)"

definition less_ownership_include :: "ownership_include \<Rightarrow> ownership_include \<Rightarrow> bool" where
  "less_ownership_include a b = (include_key a < include_key b)"

instance
  by standard
    (unfold less_eq_ownership_include_def less_ownership_include_def,
      auto dest: include_key_inj intro: order_trans)

end

instantiation boundary_evidence :: linorder
begin

definition less_eq_boundary_evidence :: "boundary_evidence \<Rightarrow> boundary_evidence \<Rightarrow> bool" where
  "less_eq_boundary_evidence a b = (evidence_key a \<le> evidence_key b)"

definition less_boundary_evidence :: "boundary_evidence \<Rightarrow> boundary_evidence \<Rightarrow> bool" where
  "less_boundary_evidence a b = (evidence_key a < evidence_key b)"

instance
  by standard
    (unfold less_eq_boundary_evidence_def less_boundary_evidence_def,
      auto dest: evidence_key_inj intro: order_trans)

end

instantiation boundary_review :: linorder
begin

definition less_eq_boundary_review :: "boundary_review \<Rightarrow> boundary_review \<Rightarrow> bool" where
  "less_eq_boundary_review a b = (review_key a \<le> review_key b)"

definition less_boundary_review :: "boundary_review \<Rightarrow> boundary_review \<Rightarrow> bool" where
  "less_boundary_review a b = (review_key a < review_key b)"

instance
  by standard
    (unfold less_eq_boundary_review_def less_boundary_review_def,
      auto dest: review_key_inj intro: order_trans)

end

section \<open>Lookups\<close>

definition manifest_module :: "manifest \<Rightarrow> string \<Rightarrow> module option" where
  "manifest_module m ident = find (\<lambda>module. module_id module = ident) (manifest_modules m)"

definition manifest_gate :: "manifest \<Rightarrow> string \<Rightarrow> compatibility_gate option" where
  "manifest_gate m ident = find (\<lambda>gate. gate_id gate = ident) (manifest_gates m)"

interpretation module_lookup: keyed_lookup manifest_modules module_id manifest_module
  by unfold_locales (simp add: manifest_module_def)

interpretation gate_lookup: keyed_lookup manifest_gates gate_id manifest_gate
  by unfold_locales (simp add: manifest_gate_def)

section \<open>Deserialising a gate\<close>

text \<open>
  \<open>WireGate\<close> is what \<open>serde\<close> reads from the table of a gate; the conversion decides between
  the shell form and the direct form.
\<close>

record wire_gate =
  wire_id :: string
  wire_command :: "string option"
  wire_program :: "string option"
  wire_args :: "string list"
  wire_inputs :: "gate_input list"
  wire_targets :: "string list"

datatype gate_error = ShellWithArgs | NotExactlyOne

definition wire_execution :: "wire_gate \<Rightarrow> (gate_error, gate_execution) result" where
  "wire_execution wire =
     (case (wire_command wire, wire_program wire) of
        (Some command, None) \<Rightarrow>
          if wire_args wire = [] then Inr (Shell command) else Inl ShellWithArgs
      | (None, Some program) \<Rightarrow> Inr (Direct program (wire_args wire))
      | (Some _, Some _) \<Rightarrow> Inl NotExactlyOne
      | (None, None) \<Rightarrow> Inl NotExactlyOne)"

definition deserialize_gate :: "wire_gate \<Rightarrow> (gate_error, compatibility_gate) result" where
  "deserialize_gate wire =
     (case wire_execution wire of
        Inl e \<Rightarrow> Inl e
      | Inr execution \<Rightarrow>
          Inr \<lparr>gate_id = wire_id wire, gate_execution = execution,
               gate_inputs = wire_inputs wire, gate_targets = wire_targets wire\<rparr>)"

text \<open>
  The derived serialiser flattens the untagged execution into the gate's table: a shell gate
  writes \<open>command\<close>, a direct one \<open>program\<close> and, unless empty, \<open>args\<close>.
\<close>

definition serialize_gate :: "compatibility_gate \<Rightarrow> wire_gate" where
  "serialize_gate gate =
     (case gate_execution gate of
        Shell command \<Rightarrow>
          \<lparr>wire_id = gate_id gate, wire_command = Some command, wire_program = None,
           wire_args = [], wire_inputs = gate_inputs gate, wire_targets = gate_targets gate\<rparr>
      | Direct program args \<Rightarrow>
          \<lparr>wire_id = gate_id gate, wire_command = None, wire_program = Some program,
           wire_args = args, wire_inputs = gate_inputs gate, wire_targets = gate_targets gate\<rparr>)"

lemma wire_execution_ok_iff:
  "(\<exists>x. wire_execution wire = Inr x) \<longleftrightarrow>
     (wire_command wire = None) \<noteq> (wire_program wire = None) \<and>
     (wire_command wire \<noteq> None \<longrightarrow> wire_args wire = [])"
  by (auto simp: wire_execution_def split: option.splits)

section \<open>Properties\<close>

text \<open>Reading a gate back gives the gate that was written, and what a table of a gate must hold to be
  read: exactly one of \<open>command\<close> and \<open>program\<close>, and no \<open>args\<close> with a command.\<close>

theorem gate_roundtrip:
  "deserialize_gate (serialize_gate gate) = Inr gate \<and>
   ((\<exists>g. deserialize_gate wire = Inr g) \<longleftrightarrow>
      (wire_command wire = None) \<noteq> (wire_program wire = None) \<and>
      (wire_command wire = None \<or> wire_args wire = []))"
proof
  show "deserialize_gate (serialize_gate gate) = Inr gate"
    by (cases gate; cases "gate_execution gate")
      (simp_all add: deserialize_gate_def serialize_gate_def wire_execution_def)
  have "(\<exists>g. deserialize_gate wire = Inr g) \<longleftrightarrow> (\<exists>x. wire_execution wire = Inr x)"
    by (auto simp: deserialize_gate_def split: sum.splits)
  then show "(\<exists>g. deserialize_gate wire = Inr g) \<longleftrightarrow>
      (wire_command wire = None) \<noteq> (wire_program wire = None) \<and>
      (wire_command wire = None \<or> wire_args wire = [])"
    unfolding wire_execution_ok_iff by auto
qed

text \<open>\<open>FromStr\<close> and \<open>Display\<close> of a migration state are inverse, and no other text is accepted.\<close>

theorem migration_state_roundtrip:
  "parse_migration_state text = Inr state \<longleftrightarrow> show_migration_state state = text"
  by (cases state) (auto simp: parse_migration_state_def)

end
