(* ===== verification/Cycles.thy ===== *)
theory Cycles
  imports Manifest
begin

text \<open>
  \<open>find_cycle\<close> of \<open>crates/chromifer-manifest/src/lib.rs\<close>: a depth-first search over the module
  dependencies whose targets are known, with the visit state and the stack the code keeps. The
  search ends on every graph (each visited node that has successors becomes \<open>Active\<close> and stays
  known), a reported cycle is a closed walk of the graph, and no report means the graph is acyclic.
\<close>

section \<open>The search\<close>

datatype visit = Active | Complete

type_synonym graph = "(string \<times> string list) list"

type_synonym visit_state = "(string \<Rightarrow> visit option) \<times> string list"

text \<open>\<open>let graph: BTreeMap<_, _> = modules.iter().map(...).collect()\<close>\<close>

definition known_dependencies :: "string list \<Rightarrow> module \<Rightarrow> string list" where
  "known_dependencies known m = filter (\<lambda>d. d \<in> set known) (map dep_module (module_dependencies m))"

definition module_graph :: "module list \<Rightarrow> string list \<Rightarrow> graph" where
  "module_graph modules known =
     btm_of_list (map (\<lambda>m. (module_id m, known_dependencies known m)) modules)"

definition graph_dependencies :: "graph \<Rightarrow> string \<Rightarrow> string list" where
  "graph_dependencies graph i = (case btm_get graph i of Some dependencies \<Rightarrow> dependencies | None \<Rightarrow> [])"

text \<open>\<open>stack[position..]\<close> with the first position of \<open>i\<close> (0 if there is none), then \<open>i\<close> itself.\<close>

definition cycle_from :: "string \<Rightarrow> string list \<Rightarrow> string list" where
  "cycle_from i stack =
     (if i \<in> set stack then dropWhile (\<lambda>item. item \<noteq> i) stack else stack) @ [i]"

text \<open>\<open>Some(cycle)\<close> leaves every call at once, so it is \<open>Inl cycle\<close>; \<open>None\<close> hands the visit states
  and the stack on.\<close>

function (domintros)
  visit_node :: "graph \<Rightarrow> string \<Rightarrow> visit_state \<Rightarrow> (string list, visit_state) result" and
  visit_dependencies :: "graph \<Rightarrow> string list \<Rightarrow> visit_state \<Rightarrow> (string list, visit_state) result"
where
  "visit_node graph i (states, stack) =
     (case states i of
        Some Complete \<Rightarrow> Inr (states, stack)
      | Some Active \<Rightarrow> Inl (cycle_from i stack)
      | None \<Rightarrow>
          (case visit_dependencies graph (graph_dependencies graph i)
                  (states(i \<mapsto> Active), stack @ [i]) of
             Inl cycle \<Rightarrow> Inl cycle
           | Inr (states', stack') \<Rightarrow> Inr (states'(i \<mapsto> Complete), butlast stack')))"
| "visit_dependencies graph [] st = Inr st"
| "visit_dependencies graph (d # ds) st =
     (case visit_node graph d st of
        Inl cycle \<Rightarrow> Inl cycle
      | Inr st' \<Rightarrow> visit_dependencies graph ds st')"
  by pat_completeness auto

section \<open>Termination\<close>

text \<open>Visit states are only ever added.\<close>

lemma visit_mono:
  "visit_node_visit_dependencies_dom (Inl (g, i, st)) \<Longrightarrow>
     visit_node g i st = Inr st' \<Longrightarrow> dom (fst st) \<subseteq> dom (fst st')"
  "visit_node_visit_dependencies_dom (Inr (g, ds, st)) \<Longrightarrow>
     visit_dependencies g ds st = Inr st' \<Longrightarrow> dom (fst st) \<subseteq> dom (fst st')"
proof (induction g i st and g ds st arbitrary: st' and st'
    rule: visit_node_visit_dependencies.pinduct)
  case (1 g i states stack)
  show ?case
  proof (cases "states i")
    case None
    let ?st = "(states(i \<mapsto> Active), stack @ [i])"
    from 1 None obtain t where
      t: "visit_dependencies g (graph_dependencies g i) ?st = Inr t"
         "st' = ((fst t)(i \<mapsto> Complete), butlast (snd t))"
      by (auto simp: visit_node.psimps split: sum.splits prod.splits)
    have "dom (fst ?st) \<subseteq> dom (fst t)" using "1.IH" None t(1) by blast
    with t(2) show ?thesis by auto
  next
    case (Some v)
    with 1 show ?thesis by (cases v) (auto simp: visit_node.psimps)
  qed
next
  case (2 g st)
  then show ?case by (simp add: visit_dependencies.psimps)
next
  case (3 g d ds st)
  from 3 obtain t where
    t: "visit_node g d st = Inr t" "visit_dependencies g ds t = Inr st'"
    by (auto simp: visit_dependencies.psimps split: sum.splits)
  have "dom (fst st) \<subseteq> dom (fst t)" by (rule "3.IH"(1) [OF t(1)])
  also have "\<dots> \<subseteq> dom (fst st')" by (rule "3.IH"(2) [OF t])
  finally show ?case .
qed

definition unvisited :: "graph \<Rightarrow> (string \<Rightarrow> visit option) \<Rightarrow> nat" where
  "unvisited g states = card (fst ` set g - dom states)"

lemma unvisited_mono: "dom s \<subseteq> dom t \<Longrightarrow> unvisited g t \<le> unvisited g s"
  unfolding unvisited_def by (rule card_mono) auto

lemma unvisited_less:
  assumes "i \<in> fst ` set g" and "states i = None"
  shows "unvisited g (states(i \<mapsto> v)) < unvisited g states"
  unfolding unvisited_def
proof (rule psubset_card_mono)
  show "fst ` set g - dom (states(i \<mapsto> v)) \<subset> fst ` set g - dom states"
    using assms by (auto simp: dom_def)
qed simp

lemma graph_dependencies_outside: "i \<notin> fst ` set g \<Longrightarrow> graph_dependencies g i = []"
  by (simp add: graph_dependencies_def map_of_eq_None_iff [THEN iffD2])

text \<open>Entering a node either marks one more node of the graph or has no dependency to follow.\<close>

termination visit_node
proof (relation "measures
    [\<lambda>x. case x of Inl (g, i, st) \<Rightarrow> unvisited g (fst st) | Inr (g, ds, st) \<Rightarrow> unvisited g (fst st),
     \<lambda>x. case x of Inl (g, i, st) \<Rightarrow> 1 | Inr (g, ds, st) \<Rightarrow> 2 * length ds]", goal_cases)
  case (2 g i states stack)
  show ?case
  proof (cases "i \<in> fst ` set g")
    case True
    then show ?thesis using unvisited_less 2 by simp
  next
    case False
    then show ?thesis
      using unvisited_mono [of states "states(i \<mapsto> Active)" g] graph_dependencies_outside
      by (auto simp: le_less)
  qed
next
  case (4 g d ds st st')
  then have "unvisited g (fst st') \<le> unvisited g (fst st)"
    by (intro unvisited_mono visit_mono)
  then show ?case by auto
qed auto

declare visit_node.simps [simp del] visit_dependencies.simps(2) [simp del]

text \<open>\<open>for module in modules { if let Some(cycle) = visit(...) { return Some(cycle) } }\<close>\<close>

definition find_cycle :: "module list \<Rightarrow> string list \<Rightarrow> string list option" where
  "find_cycle modules known =
     (case visit_dependencies (module_graph modules known) (map module_id modules)
             (Map.empty, []) of
        Inl cycle \<Rightarrow> Some cycle
      | Inr _ \<Rightarrow> None)"

section \<open>What the search finds\<close>

definition dep_edges :: "graph \<Rightarrow> (string \<times> string) set" where
  "dep_edges g = {(u, v). v \<in> set (graph_dependencies g u)}"

text \<open>A closed walk: what the message of \<open>DependencyCycle\<close> prints, first node repeated at the end.\<close>

definition closed_walk :: "(string \<times> string) set \<Rightarrow> string list \<Rightarrow> bool" where
  "closed_walk E c \<longleftrightarrow> 2 \<le> length c \<and> hd c = last c \<and> successively (\<lambda>u v. (u, v) \<in> E) c"

text \<open>The stack is a path of active nodes; complete nodes are closed under edges and on no cycle.\<close>

definition visit_inv :: "graph \<Rightarrow> visit_state \<Rightarrow> bool" where
  "visit_inv g st \<longleftrightarrow>
     successively (\<lambda>u v. (u, v) \<in> dep_edges g) (snd st) \<and>
     distinct (snd st) \<and> {v. fst st v = Some Active} = set (snd st) \<and>
     (\<forall>v w. fst st v = Some Complete \<longrightarrow> (v, w) \<in> dep_edges g \<longrightarrow> fst st w = Some Complete) \<and>
     (\<forall>v. fst st v = Some Complete \<longrightarrow> (v, v) \<notin> (dep_edges g)\<^sup>+)"

definition leads_to :: "graph \<Rightarrow> string list \<Rightarrow> string list \<Rightarrow> bool" where
  "leads_to g stack ds \<longleftrightarrow> (stack = [] \<or> (\<forall>d\<in>set ds. (last stack, d) \<in> dep_edges g))"

definition visit_post ::
    "graph \<Rightarrow> string list \<Rightarrow> visit_state \<Rightarrow> (string list, visit_state) result \<Rightarrow> bool" where
  "visit_post g ds st r \<longleftrightarrow>
     (case r of
        Inl c \<Rightarrow> closed_walk (dep_edges g) c
      | Inr st' \<Rightarrow>
          visit_inv g st' \<and> snd st' = snd st \<and> (\<forall>d\<in>set ds. fst st' d = Some Complete) \<and>
          (\<forall>v. fst st v = Some Complete \<longrightarrow> fst st' v = Some Complete))"

lemma successively_dropWhile: "successively P xs \<Longrightarrow> successively P (dropWhile Q xs)"
  by (induction xs rule: induct_list012) auto

lemma cycle_from_closed_walk:
  assumes "successively (\<lambda>u v. (u, v) \<in> E) stack" and "i \<in> set stack" and "(last stack, i) \<in> E"
  shows "closed_walk E (cycle_from i stack)"
proof -
  let ?d = "dropWhile (\<lambda>item. item \<noteq> i) stack"
  have ne: "?d \<noteq> []" using assms(2) by (auto simp: dropWhile_eq_Nil_conv)
  have hd: "hd ?d = i" using hd_dropWhile [OF ne] by simp
  have last: "last ?d = last stack"
    using ne by (metis last_appendR takeWhile_dropWhile_id)
  have "successively (\<lambda>u v. (u, v) \<in> E) (?d @ [i])"
    using assms last ne by (auto simp: successively_append_iff successively_dropWhile)
  then show ?thesis
    using assms(2) ne hd by (cases ?d) (auto simp: closed_walk_def cycle_from_def)
qed

lemma visit_inv_enter:
  assumes "visit_inv g (states, stack)" and "states i = None" and "leads_to g stack [i]"
  shows "visit_inv g (states(i \<mapsto> Active), stack @ [i])"
proof -
  have "i \<notin> {v. states v = Some Active}" using assms(2) by simp
  moreover have "{v. states v = Some Active} = set stack"
    using assms(1) by (simp add: visit_inv_def)
  ultimately have "i \<notin> set stack" by blast
  then show ?thesis
    using assms by (auto simp: visit_inv_def leads_to_def successively_append_iff)
qed

lemma complete_closed:
  assumes "visit_inv g st" and "(v, w) \<in> (dep_edges g)\<^sup>*" and "fst st v = Some Complete"
  shows "fst st w = Some Complete"
  using assms(2,3)
proof (induction rule: rtrancl_induct)
  case (step w x)
  then show ?case using assms(1) unfolding visit_inv_def by blast
qed

lemma visit_inv_leave:
  assumes inv: "visit_inv g (states, stack @ [i])"
    and deps: "\<forall>d\<in>set (graph_dependencies g i). states d = Some Complete"
  shows "visit_inv g (states(i \<mapsto> Complete), stack)"
proof -
  have active: "states i = Some Active" using inv by (auto simp: visit_inv_def)
  have notin: "(i, i) \<notin> (dep_edges g)\<^sup>+"
  proof
    assume "(i, i) \<in> (dep_edges g)\<^sup>+"
    then obtain d where d: "(i, d) \<in> dep_edges g" "(d, i) \<in> (dep_edges g)\<^sup>*"
      by (meson tranclD)
    then have "states d = Some Complete" using deps by (auto simp: dep_edges_def)
    with complete_closed [OF inv d(2)] active show False by simp
  qed
  show ?thesis
    unfolding visit_inv_def
  proof (intro conjI)
    show "successively (\<lambda>u v. (u, v) \<in> dep_edges g) (snd (states(i \<mapsto> Complete), stack))"
      using inv by (auto simp: visit_inv_def successively_append_iff)
  qed (use inv deps active notin in \<open>auto simp: visit_inv_def dep_edges_def\<close>)
qed


lemma leave_post:
  assumes post: "visit_post g (graph_dependencies g i) (states(i \<mapsto> Active), stack @ [i]) (Inr st')"
    and new: "states i = None"
  shows "visit_post g [i] (states, stack) (Inr ((fst st')(i \<mapsto> Complete), butlast (snd st')))"
proof -
  have "visit_inv g (fst st', stack @ [i])" "snd st' = stack @ [i]"
    "\<forall>d\<in>set (graph_dependencies g i). fst st' d = Some Complete"
    using post by (cases st'; simp add: visit_post_def)+
  then have "visit_inv g ((fst st')(i \<mapsto> Complete), stack)" by (intro visit_inv_leave)
  then show ?thesis
    using post new by (auto simp: visit_post_def)
qed

lemma visit_correct:
  "visit_inv g st \<Longrightarrow> leads_to g (snd st) [i] \<Longrightarrow> visit_post g [i] st (visit_node g i st)"
  "visit_inv g st \<Longrightarrow> leads_to g (snd st) ds \<Longrightarrow> visit_post g ds st (visit_dependencies g ds st)"
proof (induction g i st and g ds st rule: visit_node_visit_dependencies.induct)
  case (1 g i states stack)
  consider "states i = None" | "states i = Some Active" | "states i = Some Complete"
    by (metis not_None_eq visit.exhaust)
  then show ?case
  proof cases
    case 1
    let ?st = "(states(i \<mapsto> Active), stack @ [i])"
    have "visit_post g (graph_dependencies g i) ?st
        (visit_dependencies g (graph_dependencies g i) ?st)"
      using "1.IH" [OF 1] "1.prems" 1
      by (simp add: visit_inv_enter leads_to_def dep_edges_def)
    then show ?thesis
    proof (cases "visit_dependencies g (graph_dependencies g i) ?st")
      case (Inl c)
      with \<open>visit_post _ _ _ _\<close> 1 show ?thesis by (simp add: visit_node.simps visit_post_def)
    next
      case (Inr st')
      with \<open>visit_post _ _ _ _\<close> have
        "visit_post g [i] (states, stack) (Inr ((fst st')(i \<mapsto> Complete), butlast (snd st')))"
        using leave_post 1 by metis
      with 1 Inr show ?thesis by (cases st') (simp add: visit_node.simps)
    qed
  next
    case 2
    then have "i \<in> set stack" using "1.prems" by (auto simp: visit_inv_def)
    then have "closed_walk (dep_edges g) (cycle_from i stack)"
      using "1.prems" by (intro cycle_from_closed_walk) (auto simp: visit_inv_def leads_to_def)
    with 2 show ?thesis by (simp add: visit_node.simps visit_post_def)
  next
    case 3
    with "1.prems" show ?thesis by (simp add: visit_node.simps visit_post_def)
  qed
next
  case (2 g st)
  then show ?case by (simp add: visit_post_def)
next
  case (3 g d ds st)
  have d: "visit_post g [d] st (visit_node g d st)"
    using 3 by (auto simp: leads_to_def)
  show ?case
  proof (cases "visit_node g d st")
    case (Inl c)
    with d show ?thesis by (simp add: visit_post_def visit_dependencies.simps)
  next
    case (Inr t)
    with d have t: "visit_inv g t" "snd t = snd st" by (simp_all add: visit_post_def)
    then have "visit_post g ds t (visit_dependencies g ds t)"
      using "3.IH"(2) [OF Inr] "3.prems" by (auto simp: leads_to_def)
    with d Inr show ?thesis
      by (auto simp: visit_post_def visit_dependencies.simps split: sum.splits)
  qed
qed

text \<open>A search with nothing visited finds a closed walk, or there is none from where it started.\<close>

lemma search_post:
  "visit_post g nodes (Map.empty, []) (visit_dependencies g nodes (Map.empty, []))"
  by (rule visit_correct) (auto simp: visit_inv_def leads_to_def)

lemma search_closed_walk:
  "visit_dependencies g nodes (Map.empty, []) = Inl c \<Longrightarrow> closed_walk (dep_edges g) c"
  using search_post [of g nodes] by (simp add: visit_post_def)

lemma search_acyclic:
  assumes "visit_dependencies g nodes (Map.empty, []) = Inr st" and "Domain (dep_edges g) \<subseteq> set nodes"
  shows "acyclic (dep_edges g)"
proof (rule acyclicI, rule allI, rule notI)
  fix v assume v: "(v, v) \<in> (dep_edges g)\<^sup>+"
  then obtain w where "(v, w) \<in> dep_edges g" by (meson tranclD)
  then have "v \<in> set nodes" using assms(2) by blast
  then have "visit_inv g st" "fst st v = Some Complete"
    using search_post [of g nodes] assms(1) by (auto simp: visit_post_def)
  with v show False by (auto simp: visit_inv_def)
qed

lemma Domain_dep_edges: "Domain (dep_edges g) \<subseteq> fst ` set g"
  using graph_dependencies_outside by (fastforce simp: dep_edges_def)

lemma find_cycle_Some_closed_walk:
  "find_cycle ms known = Some c \<Longrightarrow> closed_walk (dep_edges (module_graph ms known)) c"
  by (auto simp: find_cycle_def search_closed_walk split: sum.splits)

lemma find_cycle_None_acyclic:
  assumes "find_cycle ms known = None"
  shows "acyclic (dep_edges (module_graph ms known))"
proof -
  have "Domain (dep_edges (module_graph ms known)) \<subseteq> set (map module_id ms)"
    using Domain_dep_edges [of "module_graph ms known"] by (auto simp: module_graph_def keys_btm_of_list)
  moreover obtain st where
    "visit_dependencies (module_graph ms known) (map module_id ms) (Map.empty, []) = Inr st"
    using assms by (auto simp: find_cycle_def split: sum.splits)
  ultimately show ?thesis by (intro search_acyclic)
qed

lemma successively_trancl:
  "successively (\<lambda>u v. (u, v) \<in> E) (u # w # c) \<Longrightarrow> (u, last (w # c)) \<in> E\<^sup>+"
proof (induction c arbitrary: u w)
  case (Cons x c)
  then have "(u, w) \<in> E" "(w, last (x # c)) \<in> E\<^sup>+" by auto
  then show ?case by (auto intro: trancl_into_trancl2)
qed auto

lemma closed_walk_cyclic: "closed_walk E c \<Longrightarrow> \<not> acyclic E"
proof -
  assume c: "closed_walk E c"
  then obtain u w c' where e: "c = u # w # c'"
    by (cases c; cases "tl c") (auto simp: closed_walk_def)
  have "successively (\<lambda>u v. (u, v) \<in> E) (u # w # c')"
    using c unfolding e closed_walk_def by blast
  then have "(u, last (w # c')) \<in> E\<^sup>+" by (rule successively_trancl)
  moreover have "last (w # c') = u" using c e by (simp add: closed_walk_def)
  ultimately have "(u, u) \<in> E\<^sup>+" by metis
  then show ?thesis by (auto simp: acyclic_def)
qed

lemma find_cycle_None_iff:
  "find_cycle ms known = None \<longleftrightarrow> acyclic (dep_edges (module_graph ms known))"
  using find_cycle_None_acyclic find_cycle_Some_closed_walk closed_walk_cyclic
  by (metis not_None_eq)

text \<open>With unique identifiers the graph is the one the manifest writes down.\<close>

lemma dep_edges_module_graph:
  assumes "distinct (map module_id ms)"
  shows "dep_edges (module_graph ms known) =
    {(module_id m, dep_module d) | m d.
       m \<in> set ms \<and> d \<in> set (module_dependencies m) \<and> dep_module d \<in> set known}"
proof -
  let ?kv = "\<lambda>m. (module_id m, known_dependencies known m)"
  have get: "btm_get (module_graph ms known) = map_of (map ?kv ms)"
    using assms by (simp add: module_graph_def get_btm_of_list_distinct o_def)
  have "btm_get (module_graph ms known) u = Some ds \<longleftrightarrow>
      (\<exists>m\<in>set ms. u = module_id m \<and> ds = known_dependencies known m)" for u ds
    unfolding get using assms by (subst map_of_eq_Some_iff) (auto simp: o_def)
  note get_iff = this
  have "v \<in> set (graph_dependencies (module_graph ms known) u) \<longleftrightarrow>
      (\<exists>m\<in>set ms. u = module_id m \<and> v \<in> set (known_dependencies known m))" for u v
  proof (cases "btm_get (module_graph ms known) u")
    case None
    then show ?thesis using get_iff [of u] by (auto simp: graph_dependencies_def)
  next
    case (Some ds)
    then have "(\<exists>m\<in>set ms. u = module_id m \<and> es = known_dependencies known m) \<longleftrightarrow> es = ds" for es
      using get_iff [of u es] by auto
    with Some show ?thesis unfolding graph_dependencies_def by (metis option.simps(5))
  qed
  then show ?thesis
    unfolding dep_edges_def known_dependencies_def by auto
qed

section \<open>Properties\<close>

text \<open>C19: \<open>find_cycle\<close> finds nothing exactly when the dependency graph of the modules is acyclic.\<close>

theorem find_cycle_complete:
  "find_cycle modules known = None \<longleftrightarrow> acyclic (dep_edges (module_graph modules known))"
  by (rule find_cycle_None_iff)

text \<open>C20: what \<open>find_cycle\<close> reports is a cycle: at least two entries, the first repeated at the end, each
  step a dependency between known modules written in the manifest.\<close>

theorem find_cycle_sound:
  assumes "distinct (map module_id modules)" and "find_cycle modules known = Some cycle"
  shows "2 \<le> length cycle \<and> hd cycle = last cycle \<and>
    successively (\<lambda>u v. v \<in> set known \<and>
      (\<exists>m\<in>set modules. module_id m = u \<and> (\<exists>d\<in>set (module_dependencies m). dep_module d = v))) cycle"
proof -
  have "closed_walk (dep_edges (module_graph modules known)) cycle"
    using assms(2) by (rule find_cycle_Some_closed_walk)
  then have c: "2 \<le> length cycle" "hd cycle = last cycle"
    "successively (\<lambda>u v. (u, v) \<in> dep_edges (module_graph modules known)) cycle"
    by (auto simp: closed_walk_def)
  have "successively (\<lambda>u v. v \<in> set known \<and>
      (\<exists>m\<in>set modules. module_id m = u \<and> (\<exists>d\<in>set (module_dependencies m). dep_module d = v))) cycle"
    by (rule successively_mono [OF c(3)]) (auto simp: dep_edges_module_graph [OF assms(1)])
  with c show ?thesis by blast
qed

definition example_module :: "string \<Rightarrow> string list \<Rightarrow> module" where
  "example_module i deps =
     \<lparr>module_id = i, module_path = ''src'', module_owner = ''team'', module_ownership = None,
      module_source_label = None, module_source_type = None, module_sources = [],
      module_state = LegacyCpp, module_gates = [], module_reviews = [],
      module_dependencies = map (\<lambda>d. \<lparr>dep_module = d, dep_boundary = CppInternal,
        dep_evidence = [], dep_reviews = []\<rparr>) deps\<rparr>"

lemma find_cycle_sound_witness:
  "find_cycle [example_module ''a'' [''b''], example_module ''b'' [''a'']] [''a'', ''b'']
     = Some [''a'', ''b'', ''a''] \<and>
   hd [''a'', ''b'', ''a''] = last [''a'', ''b'', ''a'']"
proof -
  let ?ms = "[example_module ''a'' [''b''], example_module ''b'' [''a'']]"
  have d: "distinct (map module_id ?ms)" by code_simp
  have c: "find_cycle ?ms [''a'', ''b''] = Some [''a'', ''b'', ''a'']" by code_simp
  show ?thesis using c find_cycle_sound [OF d c] by blast
qed

end
