(* ===== verification/Checks.thy ===== *)
theory Checks
  imports Collections
begin

text \<open>
  The shape of the validators (\<open>Manifest::validate\<close> and \<open>MigrationEvidence::validate\<close>): checks that push
  onto one error vector. Two contracts carry the proofs: \<open>error_pass\<close> (a check only appends) and
  \<open>seen_pass\<close> (a loop that also collects the keys it has seen).
\<close>

named_theorems appends \<comment> \<open>a check on a vector is the vector and what the check reports\<close>
named_theorems clean \<comment> \<open>when a check on the empty vector reports nothing\<close>

text \<open>\<open>if condition { errors.push(error) }\<close>\<close>

definition push_if :: "bool \<Rightarrow> 'e \<Rightarrow> 'e list \<Rightarrow> 'e list" where
  "push_if condition e errors = (if condition then errors @ [e] else errors)"

lemma push_if_appends: "push_if b e errors = errors @ push_if b e []"
  by (simp add: push_if_def)

text \<open>As rewrite rules the append laws apply to a vector that is not literally empty.\<close>

lemma push_if_appends_rule [appends]: "NO_MATCH [] errors \<Longrightarrow> push_if b e errors = errors @ push_if b e []"
  by (rule push_if_appends)

lemma push_if_clean [clean]: "push_if b e [] = [] \<longleftrightarrow> \<not> b"
  by (simp add: push_if_def)

locale error_pass =
  fixes pass :: "'a \<Rightarrow> 'e list \<Rightarrow> 'e list"
  assumes pass_appends: "pass x errors = errors @ pass x []"
begin

lemma pass_appends_rule [appends]: "NO_MATCH [] errors \<Longrightarrow> pass x errors = errors @ pass x []"
  by (rule pass_appends)

lemma fold_appends: "fold pass xs errors = errors @ fold pass xs []"
proof (induction xs arbitrary: errors)
  case (Cons x xs)
  have "fold pass (x # xs) errors = (errors @ pass x []) @ fold pass xs []"
    using Cons [of "pass x errors"] by (simp add: pass_appends [of x errors])
  moreover have "fold pass (x # xs) [] = pass x [] @ fold pass xs []"
    using Cons [of "pass x []"] by simp
  ultimately show ?case by simp
qed simp

lemma fold_concat: "fold pass xs [] = concat (map (\<lambda>x. pass x []) xs)"
proof (induction xs)
  case (Cons x xs)
  then show ?case using fold_appends [of xs "pass x []"] by simp
qed simp

lemma fold_appends_rule [appends]:
  "NO_MATCH [] errors \<Longrightarrow> fold pass xs errors = errors @ fold pass xs []"
  by (rule fold_appends)

lemma fold_clean [clean]: "fold pass xs [] = [] \<longleftrightarrow> (\<forall>x\<in>set xs. pass x [] = [])"
  by (auto simp: fold_concat)

end

text \<open>
  A loop with a \<open>BTreeSet\<close> of the keys met so far, which reports an element differently when its key
  was met before.
\<close>

locale seen_pass =
  fixes step :: "'a \<Rightarrow> 'k::linorder list \<times> 'e list \<Rightarrow> 'k list \<times> 'e list"
    and key :: "'a \<Rightarrow> 'k"
    and report :: "'a \<Rightarrow> bool \<Rightarrow> 'e list"
  assumes step_eq:
      "step x (seen, errors) = (bts_insert (key x) seen, errors @ report x (key x \<in> set seen))"
    and report_seen: "report x True \<noteq> []"
begin

lemma fst_fold: "fst (fold step xs (seen, errors)) = bts_extend (map key xs) seen"
  by (induction xs arbitrary: seen errors) (auto simp: step_eq bts_extend_def)

lemma snd_fold_appends:
  "snd (fold step xs (seen, errors)) = errors @ snd (fold step xs (seen, []))"
proof (induction xs arbitrary: seen errors)
  case (Cons x xs)
  show ?case
    using Cons [of "bts_insert (key x) seen" "errors @ report x (key x \<in> set seen)"]
      Cons [of "bts_insert (key x) seen" "report x (key x \<in> set seen)"]
    by (simp add: step_eq)
qed simp

lemma snd_fold_appends_rule [appends]:
  "NO_MATCH [] errors \<Longrightarrow>
   snd (fold step xs (seen, errors)) = errors @ snd (fold step xs (seen, []))"
  by (rule snd_fold_appends)

lemma snd_fold_clean [clean]:
  "snd (fold step xs (seen, [])) = [] \<longleftrightarrow>
     distinct (map key xs) \<and> (\<forall>x\<in>set xs. key x \<notin> set seen \<and> report x False = [])"
proof (induction xs arbitrary: seen)
  case (Cons x xs)
  have "snd (fold step (x # xs) (seen, [])) = [] \<longleftrightarrow>
      report x (key x \<in> set seen) = [] \<and> snd (fold step xs (bts_insert (key x) seen, [])) = []"
    using snd_fold_appends [of xs "bts_insert (key x) seen" "report x (key x \<in> set seen)"]
    by (simp add: step_eq)
  moreover have "snd (fold step xs (bts_insert (key x) seen, [])) = [] \<longleftrightarrow>
      distinct (map key xs) \<and>
      (\<forall>y\<in>set xs. key y \<noteq> key x \<and> key y \<notin> set seen \<and> report y False = [])"
    unfolding Cons by auto
  moreover have "key x \<notin> key ` set xs \<longleftrightarrow> (\<forall>y\<in>set xs. key y \<noteq> key x)"
    by (metis (no_types, opaque_lifting) imageE imageI)
  ultimately show ?case
    using report_seen [of x] by (cases "key x \<in> set seen") (simp_all, blast)
qed simp

end

end
