(* ===== verification/Validation.thy ===== *)
theory Validation
  imports Cycles Checks
begin

text \<open>
  \<open>Manifest::validate\<close> of \<open>crates/chromifer-manifest/src/lib.rs\<close>. Every check of the code pushes onto
  one error vector; a check is modelled as a function on that vector, in the order of the code, and meets
  one of the contracts of \<open>Checks\<close>. \<open>valid_manifest\<close> is the declarative reading of an empty vector.
\<close>

section \<open>Errors\<close>

datatype validation_error =
    UnsupportedSchema "32 word" "32 word"
  | EmptyProjectField string
  | EmptyInventoryField string
  | DuplicateId string string
  | EmptyField string string string
  | UnknownTarget string string
  | InvalidGateExecution string string
  | InvalidGateInputPath string string
  | InvalidGateInputDigest string string string
  | DuplicateGateInput string string
  | UnknownGate string string
  | UnknownDependency string string
  | SelfDependency string
  | DuplicateDependency string string
  | InvalidOwnershipValue string string
  | InvalidSourceLocation string string string nat
  | DependencyCycle string
  | MissingCompatibilityGate string migration_state

type_synonym errors = "validation_error list"

section \<open>The checks\<close>

definition collect_id :: "string \<Rightarrow> string \<Rightarrow> string list \<times> errors \<Rightarrow> string list \<times> errors" where
  "collect_id kind i = (\<lambda>(found, errors).
     (bts_insert i found, push_if (i \<in> set found) (DuplicateId kind i) errors))"

definition collect_ids :: "string \<Rightarrow> string list \<Rightarrow> errors \<Rightarrow> string list \<times> errors" where
  "collect_ids kind ids errors = fold (collect_id kind) ids ([], errors)"

interpretation ids: seen_pass "collect_id kind" "\<lambda>i. i"
    "\<lambda>i seen. push_if seen (DuplicateId kind i) []" for kind
  by unfold_locales (simp_all add: collect_id_def push_if_def)

definition check_nonempty :: "string \<Rightarrow> string \<Rightarrow> string \<Rightarrow> string \<Rightarrow> errors \<Rightarrow> errors" where
  "check_nonempty kind i field value errors =
     push_if (is_blank value) (EmptyField kind i field) errors"

definition check_source_location ::
    "string \<Rightarrow> string \<Rightarrow> string \<Rightarrow> nat \<Rightarrow> string \<Rightarrow> errors \<Rightarrow> errors" where
  "check_source_location kind i file line detail errors =
     push_if (is_blank file \<or> is_blank detail \<or> line = 0)
       (InvalidSourceLocation kind i file line) errors"

definition has_nul :: "string \<Rightarrow> bool" where
  "has_nul s = (CHR 0x00 \<in> set s)"

definition gate_execution_error :: "gate_execution \<Rightarrow> string option" where
  "gate_execution_error execution =
     (case execution of
        Shell command \<Rightarrow>
          if is_blank command then Some ''shell command must not be empty''
          else if has_nul command then Some ''shell command must not contain NUL''
          else None
      | Direct program args \<Rightarrow>
          if is_blank program then Some ''program must not be empty''
          else if has_nul program then Some ''program must not contain NUL''
          else if list_ex has_nul args then Some ''arguments must not contain NUL''
          else None)"

definition validate_gate_execution :: "compatibility_gate \<Rightarrow> errors \<Rightarrow> errors" where
  "validate_gate_execution gate errors =
     (case gate_execution_error (gate_execution gate) of
        Some detail \<Rightarrow> errors @ [InvalidGateExecution (gate_id gate) detail]
      | None \<Rightarrow> errors)"

definition is_sha256_hex :: "string \<Rightarrow> bool" where
  "is_sha256_hex s \<longleftrightarrow>
     length s = 64 \<and>
     list_all (\<lambda>byte. is_ascii_digit byte \<or> (97 \<le> byte_of byte \<and> byte_of byte \<le> 102)) s"

definition check_gate_input ::
    "string \<Rightarrow> gate_input \<Rightarrow> string list \<times> errors \<Rightarrow> string list \<times> errors" where
  "check_gate_input gate input = (\<lambda>(input_paths, errors).
     let errors = push_if (normalize_repo_relative_path (input_path input) \<noteq> Some (input_path input))
                    (InvalidGateInputPath gate (input_path input)) errors;
         errors = push_if (\<not> is_sha256_hex (input_sha256 input))
                    (InvalidGateInputDigest gate (input_path input) (input_sha256 input)) errors;
         errors = push_if (input_path input \<in> set input_paths)
                    (DuplicateGateInput gate (input_path input)) errors
     in (bts_insert (input_path input) input_paths, errors))"

definition check_gate_target :: "string list \<Rightarrow> string \<Rightarrow> string \<Rightarrow> errors \<Rightarrow> errors" where
  "check_gate_target target_ids gate t errors =
     push_if (t \<notin> set target_ids) (UnknownTarget gate t) errors"

definition check_gate :: "string list \<Rightarrow> compatibility_gate \<Rightarrow> errors \<Rightarrow> errors" where
  "check_gate target_ids gate errors =
     (let errors = validate_gate_execution gate errors;
          (input_paths, errors) =
            fold (check_gate_input (gate_id gate)) (gate_inputs gate) ([], errors)
      in fold (check_gate_target target_ids (gate_id gate)) (gate_targets gate) errors)"

definition check_values :: "string \<Rightarrow> string \<times> string list \<Rightarrow> errors \<Rightarrow> errors" where
  "check_values i = (\<lambda>(field, values) errors.
     push_if (list_ex is_blank values) (InvalidOwnershipValue i field) errors)"

definition check_include :: "string \<Rightarrow> string \<Rightarrow> ownership_include \<Rightarrow> errors \<Rightarrow> errors" where
  "check_include i field inc errors =
     push_if (is_blank (owner_file inc) \<or> is_blank (include_name inc))
       (InvalidOwnershipValue i field) errors"

definition check_source_ownership :: "string \<Rightarrow> source_ownership \<Rightarrow> errors \<Rightarrow> errors" where
  "check_source_ownership i source errors =
     (let errors = push_if (is_blank (so_source source))
                     (InvalidOwnershipValue i ''ownership.sources.source'') errors;
          errors = fold (check_values i)
                     [(''ownership.sources.primary_owners'', so_primary_owners source),
                      (''ownership.sources.effective_owners'', so_effective_owners source),
                      (''ownership.sources.owner_files'', so_owner_files source)] errors;
          errors = fold (check_include i ''ownership.sources.unresolved_includes'')
                     (so_unresolved_includes source) errors
      in push_if (case so_inheritance_stopped_at source of None \<Rightarrow> False | Some path \<Rightarrow> is_blank path)
           (InvalidOwnershipValue i ''ownership.sources.inheritance_stopped_at'') errors)"

definition check_ownership :: "module \<Rightarrow> module_ownership \<Rightarrow> errors \<Rightarrow> errors" where
  "check_ownership m ownership errors =
     (let i = module_id m;
          errors = fold (check_values i)
                     [(''ownership.primary_owners'', mo_primary_owners ownership),
                      (''ownership.effective_owners'', mo_effective_owners ownership),
                      (''ownership.common_effective_owners'', mo_common_effective_owners ownership),
                      (''ownership.owner_files'', mo_owner_files ownership),
                      (''ownership.unresolved_sources'', mo_unresolved_sources ownership)] errors;
          errors = fold (check_include i ''ownership.unresolved_includes'')
                     (mo_unresolved_includes ownership) errors
      in fold (check_source_ownership i) (mo_sources ownership) errors)"

definition check_review :: "string \<Rightarrow> string \<Rightarrow> boundary_review \<Rightarrow> errors \<Rightarrow> errors" where
  "check_review kind i review errors =
     check_source_location kind i (review_file review) (review_line review) (review_detail review)
       errors"

definition check_evidence :: "string \<Rightarrow> boundary_evidence \<Rightarrow> errors \<Rightarrow> errors" where
  "check_evidence i evidence errors =
     check_source_location ''boundary evidence'' i (evidence_file evidence) (evidence_line evidence)
       (evidence_detail evidence) errors"

definition edge_name :: "module \<Rightarrow> dependency \<Rightarrow> string" where
  "edge_name m d = module_id m @ '' -> '' @ dep_module d"

definition check_dependency ::
    "string list \<Rightarrow> module \<Rightarrow> dependency \<Rightarrow> string list \<times> errors \<Rightarrow> string list \<times> errors" where
  "check_dependency module_ids m d = (\<lambda>(dependencies, errors).
     let errors = (if dep_module d = module_id m then errors @ [SelfDependency (module_id m)]
                   else push_if (dep_module d \<notin> set module_ids)
                          (UnknownDependency (module_id m) (dep_module d)) errors);
         errors = push_if (dep_module d \<in> set dependencies)
                    (DuplicateDependency (module_id m) (dep_module d)) errors;
         errors = fold (check_evidence (edge_name m d)) (dep_evidence d) errors;
         errors = fold (check_review ''boundary review'' (edge_name m d)) (dep_reviews d) errors
     in (bts_insert (dep_module d) dependencies, errors))"

definition check_module_gate :: "string list \<Rightarrow> module \<Rightarrow> string \<Rightarrow> errors \<Rightarrow> errors" where
  "check_module_gate gate_ids m gate errors =
     push_if (gate \<notin> set gate_ids) (UnknownGate (module_id m) gate) errors"

definition check_module :: "string list \<Rightarrow> string list \<Rightarrow> module \<Rightarrow> errors \<Rightarrow> errors" where
  "check_module gate_ids module_ids m errors =
     (let i = module_id m;
          errors = check_nonempty ''module'' i ''path'' (module_path m) errors;
          errors = check_nonempty ''module'' i ''owner'' (module_owner m) errors;
          errors = (case module_ownership m of
                      Some ownership \<Rightarrow> check_ownership m ownership errors
                    | None \<Rightarrow> errors);
          errors = fold (check_nonempty ''module'' i ''source'') (module_sources m) errors;
          errors = fold (check_review ''module review'' i) (module_reviews m) errors;
          errors = push_if (module_state m \<noteq> LegacyCpp \<and> module_gates m = [])
                     (MissingCompatibilityGate i (module_state m)) errors;
          errors = fold (check_module_gate gate_ids m) (module_gates m) errors
      in snd (fold (check_dependency module_ids m) (module_dependencies m) ([], errors)))"

definition check_project_field :: "string \<times> string \<Rightarrow> errors \<Rightarrow> errors" where
  "check_project_field = (\<lambda>(field, value) errors.
     push_if (is_blank value) (EmptyProjectField field) errors)"

definition check_inventory_field :: "string \<times> string \<Rightarrow> errors \<Rightarrow> errors" where
  "check_inventory_field = (\<lambda>(field, value) errors.
     push_if (is_blank value) (EmptyInventoryField field) errors)"

definition check_inventory :: "inventory_metadata option \<Rightarrow> errors \<Rightarrow> errors" where
  "check_inventory inventory errors =
     (case inventory of
        None \<Rightarrow> errors
      | Some metadata \<Rightarrow>
          fold check_inventory_field
            [(''source_format'', inv_source_format metadata), (''build_dir'', inv_build_dir metadata),
             (''default_toolchain'', inv_default_toolchain metadata)] errors)"

definition check_target :: "target \<Rightarrow> errors \<Rightarrow> errors" where
  "check_target t errors =
     check_nonempty ''target'' (target_id t) ''description'' (target_description t) errors"

definition check_cycle :: "module list \<Rightarrow> string list \<Rightarrow> errors \<Rightarrow> errors" where
  "check_cycle modules module_ids errors =
     (case find_cycle modules module_ids of
        Some cycle \<Rightarrow> errors @ [DependencyCycle (join '' -> '' cycle)]
      | None \<Rightarrow> errors)"

section \<open>\<open>Manifest::validate\<close>\<close>

definition supported_schema_version :: "32 word" where
  "supported_schema_version = 1"

definition validation_errors :: "manifest \<Rightarrow> errors" where
  "validation_errors m =
     (let errors = push_if (schema_version m \<noteq> supported_schema_version)
                     (UnsupportedSchema (schema_version m) supported_schema_version) [];
          errors = fold check_project_field
                     [(''name'', project_name (manifest_project m)),
                      (''upstream'', project_upstream (manifest_project m)),
                      (''baseline'', project_baseline (manifest_project m))] errors;
          errors = check_inventory (manifest_inventory m) errors;
          (target_ids, errors) = collect_ids ''target'' (map target_id (manifest_targets m)) errors;
          (gate_ids, errors) = collect_ids ''gate'' (map gate_id (manifest_gates m)) errors;
          (module_ids, errors) = collect_ids ''module'' (map module_id (manifest_modules m)) errors;
          errors = fold check_target (manifest_targets m) errors;
          errors = fold (check_gate target_ids) (manifest_gates m) errors;
          errors = fold (check_module gate_ids module_ids) (manifest_modules m) errors
      in check_cycle (manifest_modules m) module_ids errors)"

definition validate :: "manifest \<Rightarrow> (errors, unit) result" where
  "validate m =
     (let errors = validation_errors m in if errors = [] then Inr () else Inl errors)"

section \<open>Every check is an error pass\<close>

interpretation nonempty: error_pass "check_nonempty k i f" for k i f
  by unfold_locales (simp add: check_nonempty_def push_if_def)

interpretation gate_target: error_pass "check_gate_target ids g" for ids g
  by unfold_locales (simp add: check_gate_target_def push_if_def)

interpretation field_values: error_pass "check_values i" for i
  by unfold_locales (simp add: check_values_def push_if_def split: prod.splits)

interpretation includes_of: error_pass "check_include i f" for i f
  by unfold_locales (simp add: check_include_def push_if_def)

interpretation reviews_of: error_pass "check_review k i" for k i
  by unfold_locales (simp add: check_review_def check_source_location_def push_if_def)

interpretation evidence_of: error_pass "check_evidence i" for i
  by unfold_locales (simp add: check_evidence_def check_source_location_def push_if_def)

interpretation module_gate: error_pass "check_module_gate ids m" for ids m
  by unfold_locales (simp add: check_module_gate_def push_if_def)

interpretation project_field: error_pass check_project_field
  by unfold_locales (simp add: check_project_field_def push_if_def split: prod.splits)

interpretation inventory_field: error_pass check_inventory_field
  by unfold_locales (simp add: check_inventory_field_def push_if_def split: prod.splits)

interpretation targets_of: error_pass check_target
  by unfold_locales (simp add: check_target_def check_nonempty_def push_if_def)

interpretation sources_of: error_pass "check_source_ownership i" for i
  by unfold_locales (simp add: check_source_ownership_def Let_def appends)

interpretation ownership: error_pass "check_ownership m" for m
  by unfold_locales (simp add: check_ownership_def Let_def appends)

interpretation execution: error_pass validate_gate_execution
  by unfold_locales (simp add: validate_gate_execution_def split: option.splits)

interpretation gate_inputs_of: seen_pass "check_gate_input g" input_path
    "\<lambda>input seen. snd (check_gate_input g input (if seen then [input_path input] else [], []))" for g
  by unfold_locales (simp_all add: check_gate_input_def push_if_def Let_def)

interpretation gates_of: error_pass "check_gate ids" for ids
  by unfold_locales (simp add: check_gate_def Let_def case_prod_beta appends)

interpretation dependencies_of: seen_pass "check_dependency ids m" dep_module
    "\<lambda>d seen. snd (check_dependency ids m d (if seen then [dep_module d] else [], []))" for ids m
  by unfold_locales (simp_all add: check_dependency_def Let_def appends push_if_clean)

interpretation modules_of: error_pass "check_module gate_ids module_ids" for gate_ids module_ids
  by unfold_locales (simp add: check_module_def Let_def appends split: option.split)

interpretation inventory: error_pass check_inventory
  by unfold_locales (simp add: check_inventory_def appends split: option.split)

interpretation cycles: error_pass "\<lambda>ms. check_cycle ms ids" for ids
  by unfold_locales (simp add: check_cycle_def split: option.split)

section \<open>What an empty error vector means\<close>

definition valid_location :: "string \<Rightarrow> nat \<Rightarrow> string \<Rightarrow> bool" where
  "valid_location file line detail \<longleftrightarrow> \<not> is_blank file \<and> \<not> is_blank detail \<and> line \<noteq> 0"

definition valid_review :: "boundary_review \<Rightarrow> bool" where
  "valid_review r \<longleftrightarrow> valid_location (review_file r) (review_line r) (review_detail r)"

definition valid_evidence :: "boundary_evidence \<Rightarrow> bool" where
  "valid_evidence e \<longleftrightarrow> valid_location (evidence_file e) (evidence_line e) (evidence_detail e)"

definition valid_include :: "ownership_include \<Rightarrow> bool" where
  "valid_include i \<longleftrightarrow> \<not> is_blank (owner_file i) \<and> \<not> is_blank (include_name i)"

definition no_blank :: "string list \<Rightarrow> bool" where
  "no_blank values \<longleftrightarrow> (\<forall>v\<in>set values. \<not> is_blank v)"

definition valid_source_ownership :: "source_ownership \<Rightarrow> bool" where
  "valid_source_ownership s \<longleftrightarrow>
     \<not> is_blank (so_source s) \<and> no_blank (so_primary_owners s) \<and> no_blank (so_effective_owners s) \<and>
     no_blank (so_owner_files s) \<and> (\<forall>i\<in>set (so_unresolved_includes s). valid_include i) \<and>
     so_inheritance_stopped_at s \<notin> Some ` Collect is_blank"

definition valid_ownership :: "module_ownership \<Rightarrow> bool" where
  "valid_ownership o' \<longleftrightarrow>
     no_blank (mo_primary_owners o') \<and> no_blank (mo_effective_owners o') \<and>
     no_blank (mo_common_effective_owners o') \<and> no_blank (mo_owner_files o') \<and>
     no_blank (mo_unresolved_sources o') \<and> (\<forall>i\<in>set (mo_unresolved_includes o'). valid_include i) \<and>
     (\<forall>s\<in>set (mo_sources o'). valid_source_ownership s)"

definition valid_gate_input :: "gate_input \<Rightarrow> bool" where
  "valid_gate_input i \<longleftrightarrow>
     normalize_repo_relative_path (input_path i) = Some (input_path i) \<and>
     is_sha256_hex (input_sha256 i)"

definition valid_gate :: "string set \<Rightarrow> compatibility_gate \<Rightarrow> bool" where
  "valid_gate target_ids g \<longleftrightarrow>
     gate_execution_error (gate_execution g) = None \<and> distinct (map input_path (gate_inputs g)) \<and>
     (\<forall>i\<in>set (gate_inputs g). valid_gate_input i) \<and> set (gate_targets g) \<subseteq> target_ids"

definition valid_dependency :: "string set \<Rightarrow> string \<Rightarrow> dependency \<Rightarrow> bool" where
  "valid_dependency module_ids i d \<longleftrightarrow>
     dep_module d \<noteq> i \<and> dep_module d \<in> module_ids \<and>
     (\<forall>e\<in>set (dep_evidence d). valid_evidence e) \<and> (\<forall>r\<in>set (dep_reviews d). valid_review r)"

definition valid_module :: "string set \<Rightarrow> string set \<Rightarrow> module \<Rightarrow> bool" where
  "valid_module gate_ids module_ids m \<longleftrightarrow>
     \<not> is_blank (module_path m) \<and> \<not> is_blank (module_owner m) \<and>
     (\<forall>o'. module_ownership m = Some o' \<longrightarrow> valid_ownership o') \<and> no_blank (module_sources m) \<and>
     (\<forall>r\<in>set (module_reviews m). valid_review r) \<and>
     (module_state m \<noteq> LegacyCpp \<longrightarrow> module_gates m \<noteq> []) \<and> set (module_gates m) \<subseteq> gate_ids \<and>
     distinct (map dep_module (module_dependencies m)) \<and>
     (\<forall>d\<in>set (module_dependencies m). valid_dependency module_ids (module_id m) d)"

definition depends_on :: "manifest \<Rightarrow> (string \<times> string) set" where
  "depends_on m =
     {(module_id a, dep_module d) | a d. a \<in> set (manifest_modules m) \<and> d \<in> set (module_dependencies a)}"

definition valid_inventory :: "inventory_metadata \<Rightarrow> bool" where
  "valid_inventory i \<longleftrightarrow>
     \<not> is_blank (inv_source_format i) \<and> \<not> is_blank (inv_build_dir i) \<and>
     \<not> is_blank (inv_default_toolchain i)"

definition valid_manifest :: "manifest \<Rightarrow> bool" where
  "valid_manifest m \<longleftrightarrow>
     schema_version m = supported_schema_version \<and>
     \<not> is_blank (project_name (manifest_project m)) \<and>
     \<not> is_blank (project_upstream (manifest_project m)) \<and>
     \<not> is_blank (project_baseline (manifest_project m)) \<and>
     (\<forall>i. manifest_inventory m = Some i \<longrightarrow> valid_inventory i) \<and>
     distinct (map target_id (manifest_targets m)) \<and> distinct (map gate_id (manifest_gates m)) \<and>
     distinct (map module_id (manifest_modules m)) \<and>
     (\<forall>t\<in>set (manifest_targets m). \<not> is_blank (target_description t)) \<and>
     (\<forall>g\<in>set (manifest_gates m). valid_gate (target_id ` set (manifest_targets m)) g) \<and>
     (\<forall>a\<in>set (manifest_modules m).
        valid_module (gate_id ` set (manifest_gates m)) (module_id ` set (manifest_modules m)) a) \<and>
     acyclic (depends_on m)"

lemma check_location_clean [clean]:
  "check_source_location k i f l d [] = [] \<longleftrightarrow> valid_location f l d"
  by (auto simp: check_source_location_def valid_location_def push_if_def)

lemma check_review_clean [clean]: "check_review k i r [] = [] \<longleftrightarrow> valid_review r"
  by (simp add: check_review_def valid_review_def clean)

lemma check_evidence_clean [clean]: "check_evidence i e [] = [] \<longleftrightarrow> valid_evidence e"
  by (simp add: check_evidence_def valid_evidence_def clean)

lemma check_include_clean [clean]: "check_include i f x [] = [] \<longleftrightarrow> valid_include x"
  by (simp add: check_include_def valid_include_def clean)

lemma check_values_clean [clean]: "check_values i (f, vs) [] = [] \<longleftrightarrow> no_blank vs"
  by (simp add: check_values_def no_blank_def clean list_ex_iff)

lemma check_nonempty_clean [clean]: "check_nonempty k i f v [] = [] \<longleftrightarrow> \<not> is_blank v"
  by (simp add: check_nonempty_def clean)

lemma check_source_ownership_clean [clean]:
  "check_source_ownership i s [] = [] \<longleftrightarrow> valid_source_ownership s"
  by (auto simp: check_source_ownership_def Let_def appends clean valid_source_ownership_def
      split: option.splits)

lemma check_ownership_clean [clean]: "check_ownership m o' [] = [] \<longleftrightarrow> valid_ownership o'"
  by (simp add: check_ownership_def Let_def appends clean valid_ownership_def)

lemma check_gate_clean [clean]:
  "check_gate target_ids g [] = [] \<longleftrightarrow> valid_gate (set target_ids) g"
proof -
  have input: "snd (check_gate_input i x ([], [])) = [] \<longleftrightarrow> valid_gate_input x" for i x
    by (simp add: check_gate_input_def valid_gate_input_def Let_def appends clean)
  show ?thesis
    by (auto simp: check_gate_def Let_def case_prod_beta appends clean input valid_gate_def
        check_gate_target_def validate_gate_execution_def split: option.splits)
qed

lemma check_module_clean [clean]:
  "check_module gate_ids module_ids m [] = [] \<longleftrightarrow> valid_module (set gate_ids) (set module_ids) m"
proof -
  have dep: "snd (check_dependency module_ids m d ([], [])) = [] \<longleftrightarrow>
      valid_dependency (set module_ids) (module_id m) d" for d
    by (auto simp: check_dependency_def valid_dependency_def Let_def appends clean)
  have own: "(case module_ownership m of None \<Rightarrow> es | Some o' \<Rightarrow> check_ownership m o' es) = [] \<longleftrightarrow>
      es = [] \<and> (\<forall>o'. module_ownership m = Some o' \<longrightarrow> valid_ownership o')" for es
    by (auto simp: clean appends split: option.split)
  show ?thesis
    by (auto simp: check_module_def Let_def appends clean own dep valid_module_def no_blank_def
        check_module_gate_def)
qed

lemma collect_ids_fst [simp]: "set (fst (collect_ids k ids errors)) = set ids"
  by (simp add: collect_ids_def ids.fst_fold)

lemma collect_ids_appends [appends]:
  "NO_MATCH [] errors \<Longrightarrow> snd (collect_ids k ids errors) = errors @ snd (collect_ids k ids [])"
  unfolding collect_ids_def by (rule ids.snd_fold_appends)

lemma collect_ids_clean [clean]: "snd (collect_ids k ids []) = [] \<longleftrightarrow> distinct ids"
  unfolding collect_ids_def by (simp add: clean)

lemma check_target_clean [clean]: "check_target t [] = [] \<longleftrightarrow> \<not> is_blank (target_description t)"
  by (simp add: check_target_def clean)

lemma check_inventory_clean [clean]:
  "check_inventory inventory [] = [] \<longleftrightarrow> (\<forall>i. inventory = Some i \<longrightarrow> valid_inventory i)"
  by (auto simp: check_inventory_def check_inventory_field_def valid_inventory_def appends clean
      split: option.split)

lemma check_project_clean [clean]: "check_project_field (f, v) [] = [] \<longleftrightarrow> \<not> is_blank v"
  by (simp add: check_project_field_def clean)

lemma check_cycle_clean [clean]:
  "check_cycle modules ids [] = [] \<longleftrightarrow> acyclic (dep_edges (module_graph modules ids))"
  by (auto simp: check_cycle_def find_cycle_None_iff [symmetric] split: option.split)

text \<open>Once the modules themselves are valid, the searched graph is the dependency relation.\<close>

lemma dep_edges_depends_on:
  assumes "distinct (map module_id (manifest_modules m))"
    and "\<forall>a\<in>set (manifest_modules m). valid_module G (module_id ` set (manifest_modules m)) a"
    and "set known = module_id ` set (manifest_modules m)"
  shows "dep_edges (module_graph (manifest_modules m) known) = depends_on m"
proof -
  have "dep_module d \<in> set known"
    if "a \<in> set (manifest_modules m)" and "d \<in> set (module_dependencies a)" for a d
    using assms(2,3) that by (simp add: valid_module_def valid_dependency_def)
  then show ?thesis
    unfolding dep_edges_module_graph [OF assms(1)] depends_on_def by blast
qed

text \<open>The vector, with its eight segments in the order of the code.\<close>

definition error_segments :: "manifest \<Rightarrow> errors list" where
  "error_segments m =
     (let ids = \<lambda>k xs. fst (collect_ids k xs []);
          module_ids = ids ''module'' (map module_id (manifest_modules m))
      in [push_if (schema_version m \<noteq> supported_schema_version)
            (UnsupportedSchema (schema_version m) supported_schema_version) [],
          fold check_project_field
            [(''name'', project_name (manifest_project m)),
             (''upstream'', project_upstream (manifest_project m)),
             (''baseline'', project_baseline (manifest_project m))] [],
          check_inventory (manifest_inventory m) [],
          snd (collect_ids ''target'' (map target_id (manifest_targets m)) []),
          snd (collect_ids ''gate'' (map gate_id (manifest_gates m)) []),
          snd (collect_ids ''module'' (map module_id (manifest_modules m)) []),
          fold check_target (manifest_targets m) [],
          fold (check_gate (ids ''target'' (map target_id (manifest_targets m)))) (manifest_gates m) [],
          fold (check_module (ids ''gate'' (map gate_id (manifest_gates m))) module_ids)
            (manifest_modules m) [],
          check_cycle (manifest_modules m) module_ids []])"

lemma collect_ids_known: "fst (collect_ids k ids errors) = bts_of_list ids"
  by (simp add: collect_ids_def ids.fst_fold bts_of_list_def)

lemma validation_errors_segments: "validation_errors m = concat (error_segments m)"
  unfolding validation_errors_def error_segments_def Let_def case_prod_beta collect_ids_known
  by (simp add: appends)

lemma validation_errors_clean: "validation_errors m = [] \<longleftrightarrow> valid_manifest m"
proof -
  let ?ids = "bts_of_list (map module_id (manifest_modules m))"
  let ?ok = "distinct (map module_id (manifest_modules m)) \<and>
    (\<forall>a\<in>set (manifest_modules m).
       valid_module (gate_id ` set (manifest_gates m)) (module_id ` set (manifest_modules m)) a)"
  have "?ok \<Longrightarrow> dep_edges (module_graph (manifest_modules m) ?ids) = depends_on m"
    by (rule dep_edges_depends_on) auto
  then have cycle: "?ok \<and> acyclic (dep_edges (module_graph (manifest_modules m) ?ids)) \<longleftrightarrow>
      ?ok \<and> acyclic (depends_on m)" by metis
  show ?thesis
    unfolding validation_errors_segments error_segments_def valid_manifest_def Let_def
      collect_ids_known
    using cycle by (simp add: clean appends) blast
qed

section \<open>Properties\<close>

text \<open>C1: \<open>validate\<close> accepts a manifest exactly when it has the supported schema, unique identifiers, no
  blank field, only references that resolve, well-formed inputs and locations, gates for every module
  past the legacy state, and an acyclic dependency relation.\<close>

theorem validate_accepts_iff: "validate m = Inr () \<longleftrightarrow> valid_manifest m"
  by (auto simp: validate_def validation_errors_clean [symmetric] Let_def)

end
