(* ===== verification/Planner.thy ===== *)
theory Planner
  imports Validation
begin

text \<open>
  \<open>crates/chromifer-planner/src/lib.rs\<close>: the assessment of one transition, with its blockers in the
  order the code finds them, and the frontier of allowed next transitions. The lemmas give the
  declarative meaning of an empty blocker list, count the cross-language edges, and carry the
  planner's guarantee over whole migrations, which are runs of allowed transitions.
\<close>

section \<open>Assessments\<close>

datatype blocker =
    InvalidTransition "migration_state option"
  | MissingCompatibilityGates
  | MissingGateDefinition string
  | UncoveredRequiredTarget string
  | UnsafeOutgoingBoundary string boundary migration_state
  | UnsafeIncomingBoundary string boundary migration_state
  | UnresolvedModuleReview boundary_review_kind string nat
  | UnresolvedOutgoingBoundaryReview string boundary_review_kind string nat
  | UnresolvedIncomingBoundaryReview string boundary_review_kind string nat

record transition_assessment =
  ta_module :: string
  ta_from :: migration_state
  ta_to :: migration_state
  ta_allowed :: bool
  ta_blockers :: "blocker list"
  ta_gate_count :: nat
  ta_cross_language_edges :: nat

datatype planner_error = UnknownModule string

definition unresolved :: "boundary_review list \<Rightarrow> boundary_review list" where
  "unresolved reviews = filter (\<lambda>review. \<not> review_resolved review) reviews"

definition target_covered :: "manifest \<Rightarrow> module \<Rightarrow> string \<Rightarrow> bool" where
  "target_covered m md t =
     list_ex (\<lambda>g. case manifest_gate m g of None \<Rightarrow> False | Some gate \<Rightarrow> t \<in> set (gate_targets gate))
       (module_gates md)"

definition required_targets :: "manifest \<Rightarrow> target list" where
  "required_targets m = filter target_required (manifest_targets m)"

text \<open>The body both boundary loops share, once the reviews are reported: \<open>far\<close> is the state of the
  module at the other end, \<open>unsafe\<close> the blocker of an unaudited crossing.\<close>

definition assess_boundary ::
    "dependency \<Rightarrow> migration_state \<Rightarrow> blocker \<Rightarrow> blocker list \<times> nat \<Rightarrow> blocker list \<times> nat" where
  "assess_boundary d far unsafe = (\<lambda>(blockers, edges).
     if far = RustOwned then (blockers, if dep_boundary d \<noteq> Rust then edges + 1 else edges)
     else (push_if (\<not> is_audited_cross_language (dep_boundary d)) unsafe blockers, edges + 1))"

definition assess_outgoing ::
    "manifest \<Rightarrow> dependency \<Rightarrow> blocker list \<times> nat \<Rightarrow> blocker list \<times> nat" where
  "assess_outgoing m d = (\<lambda>(blockers, edges).
     case manifest_module m (dep_module d) of
       None \<Rightarrow> (blockers, edges)
     | Some other \<Rightarrow>
         let blockers = blockers @ map (\<lambda>r. UnresolvedOutgoingBoundaryReview (module_id other)
                           (review_kind r) (review_file r) (review_line r)) (unresolved (dep_reviews d))
         in assess_boundary d (module_state other)
              (UnsafeOutgoingBoundary (module_id other) (dep_boundary d) (module_state other))
              (blockers, edges))"

definition assess_outgoing_boundaries ::
    "manifest \<Rightarrow> module \<Rightarrow> blocker list \<times> nat \<Rightarrow> blocker list \<times> nat" where
  "assess_outgoing_boundaries m md st = fold (assess_outgoing m) (module_dependencies md) st"

definition assess_incoming ::
    "module \<Rightarrow> dependency \<Rightarrow> blocker list \<times> nat \<Rightarrow> blocker list \<times> nat" where
  "assess_incoming dependent d = (\<lambda>(blockers, edges).
     let blockers = blockers @ map (\<lambda>r. UnresolvedIncomingBoundaryReview (module_id dependent)
                       (review_kind r) (review_file r) (review_line r)) (unresolved (dep_reviews d))
     in assess_boundary d (module_state dependent)
          (UnsafeIncomingBoundary (module_id dependent) (dep_boundary d) (module_state dependent))
          (blockers, edges))"

definition dependencies_on :: "string \<Rightarrow> module \<Rightarrow> dependency list" where
  "dependencies_on i dependent = filter (\<lambda>d. dep_module d = i) (module_dependencies dependent)"

definition assess_incoming_boundaries ::
    "manifest \<Rightarrow> module \<Rightarrow> blocker list \<times> nat \<Rightarrow> blocker list \<times> nat" where
  "assess_incoming_boundaries m md st =
     fold (\<lambda>dependent. fold (assess_incoming dependent) (dependencies_on (module_id md) dependent))
       (manifest_modules m) st"

definition assess_module :: "manifest \<Rightarrow> module \<Rightarrow> migration_state \<Rightarrow> transition_assessment" where
  "assess_module m md to =
     (let blockers = push_if (next_state (module_state md) \<noteq> Some to)
                       (InvalidTransition (next_state (module_state md))) [];
          blockers = push_if (module_gates md = []) MissingCompatibilityGates blockers;
          blockers = fold (\<lambda>g. push_if (manifest_gate m g = None) (MissingGateDefinition g))
                       (module_gates md) blockers;
          blockers = fold (\<lambda>t. push_if (\<not> target_covered m md (target_id t))
                              (UncoveredRequiredTarget (target_id t)))
                       (required_targets m) blockers;
          (blockers, edges) =
            (if to = RustOwned then
               let blockers = blockers @ map (\<lambda>r. UnresolvedModuleReview (review_kind r) (review_file r)
                                 (review_line r)) (unresolved (module_reviews md))
               in assess_incoming_boundaries m md (assess_outgoing_boundaries m md (blockers, 0))
             else (blockers, 0))
      in \<lparr>ta_module = module_id md, ta_from = module_state md, ta_to = to,
          ta_allowed = (blockers = []), ta_blockers = blockers,
          ta_gate_count = length (module_gates md), ta_cross_language_edges = edges\<rparr>)"

definition assess_transition ::
    "manifest \<Rightarrow> string \<Rightarrow> migration_state \<Rightarrow> (planner_error, transition_assessment) result" where
  "assess_transition m i to =
     (case manifest_module m i of
        None \<Rightarrow> Inl (UnknownModule i)
      | Some md \<Rightarrow> Inr (assess_module m md to))"

definition frontier_candidate :: "manifest \<Rightarrow> module \<Rightarrow> transition_assessment option" where
  "frontier_candidate m md =
     (case next_state (module_state md) of
        None \<Rightarrow> None
      | Some to \<Rightarrow>
          (case assess_transition m (module_id md) to of Inl _ \<Rightarrow> None | Inr a \<Rightarrow> Some a))"

definition frontier_key :: "transition_assessment \<Rightarrow> nat \<times> nat \<times> string" where
  "frontier_key a = (ta_cross_language_edges a, ta_gate_count a, ta_module a)"

definition migration_frontier :: "manifest \<Rightarrow> transition_assessment list" where
  "migration_frontier m =
     sort_key frontier_key
       (filter ta_allowed (List.map_filter (frontier_candidate m) (manifest_modules m)))"

section \<open>The meaning of an empty blocker list\<close>

definition all_resolved :: "boundary_review list \<Rightarrow> bool" where
  "all_resolved reviews \<longleftrightarrow> (\<forall>r\<in>set reviews. review_resolved r)"

text \<open>A boundary that may join a Rust-owned module to a module in state \<open>far\<close>.\<close>

definition safe_crossing :: "dependency \<Rightarrow> migration_state \<Rightarrow> bool" where
  "safe_crossing d far \<longleftrightarrow>
     all_resolved (dep_reviews d) \<and> (far = RustOwned \<or> is_audited_cross_language (dep_boundary d))"

definition outgoing_safe :: "manifest \<Rightarrow> module \<Rightarrow> bool" where
  "outgoing_safe m md \<longleftrightarrow>
     (\<forall>d\<in>set (module_dependencies md). \<forall>other.
        manifest_module m (dep_module d) = Some other \<longrightarrow> safe_crossing d (module_state other))"

definition incoming_safe :: "manifest \<Rightarrow> string \<Rightarrow> bool" where
  "incoming_safe m i \<longleftrightarrow>
     (\<forall>dependent\<in>set (manifest_modules m). \<forall>d\<in>set (dependencies_on i dependent).
        safe_crossing d (module_state dependent))"

definition transition_ready :: "manifest \<Rightarrow> module \<Rightarrow> migration_state \<Rightarrow> bool" where
  "transition_ready m md to \<longleftrightarrow>
     next_state (module_state md) = Some to \<and> module_gates md \<noteq> [] \<and>
     (\<forall>g\<in>set (module_gates md). \<exists>gate. manifest_gate m g = Some gate) \<and>
     (\<forall>t\<in>set (required_targets m). \<exists>g\<in>set (module_gates md). \<exists>gate.
        manifest_gate m g = Some gate \<and> target_id t \<in> set (gate_targets gate)) \<and>
     (to = RustOwned \<longrightarrow>
        all_resolved (module_reviews md) \<and> outgoing_safe m md \<and> incoming_safe m (module_id md))"

text \<open>Crossings the assessment counts: all but Rust boundaries between Rust-owned modules.\<close>

definition crosses :: "dependency \<Rightarrow> migration_state \<Rightarrow> bool" where
  "crosses d far \<longleftrightarrow> \<not> (far = RustOwned \<and> dep_boundary d = Rust)"

lemma unresolved_Nil_iff: "unresolved rs = [] \<longleftrightarrow> all_resolved rs"
  by (auto simp: unresolved_def all_resolved_def filter_empty_conv)

text \<open>Both boundary steps append blockers and add to the count.\<close>

locale boundary_pass =
  fixes step :: "'a \<Rightarrow> 'e list \<times> nat \<Rightarrow> 'e list \<times> nat"
    and reports :: "'a \<Rightarrow> 'e list"
    and counted :: "'a \<Rightarrow> nat"
  assumes step_eq: "step x (blockers, edges) = (blockers @ reports x, edges + counted x)"
begin

lemma fold_step:
  "fold step xs (blockers, edges) =
     (blockers @ concat (map reports xs), edges + sum_list (map counted xs))"
  by (induction xs arbitrary: blockers edges) (auto simp: step_eq)

end

definition outgoing_blockers :: "manifest \<Rightarrow> dependency \<Rightarrow> blocker list" where
  "outgoing_blockers m d = fst (assess_outgoing m d ([], 0))"

definition outgoing_count :: "manifest \<Rightarrow> dependency \<Rightarrow> nat" where
  "outgoing_count m d = snd (assess_outgoing m d ([], 0))"

definition incoming_blockers :: "module \<Rightarrow> dependency \<Rightarrow> blocker list" where
  "incoming_blockers md d = fst (assess_incoming md d ([], 0))"

definition incoming_count :: "module \<Rightarrow> dependency \<Rightarrow> nat" where
  "incoming_count md d = snd (assess_incoming md d ([], 0))"

lemmas boundary_defs =
  assess_outgoing_def assess_incoming_def assess_boundary_def outgoing_blockers_def
  outgoing_count_def incoming_blockers_def incoming_count_def push_if_def Let_def

interpretation outgoing: boundary_pass "assess_outgoing m" "outgoing_blockers m" "outgoing_count m"
  for m
  by unfold_locales (auto simp: boundary_defs split: option.split)

interpretation incoming_edge: boundary_pass "assess_incoming md" "incoming_blockers md"
    "incoming_count md" for md
  by unfold_locales (auto simp: boundary_defs)

interpretation incoming_module: boundary_pass
    "\<lambda>dependent. fold (assess_incoming dependent) (dependencies_on i dependent)"
    "\<lambda>dependent. concat (map (incoming_blockers dependent) (dependencies_on i dependent))"
    "\<lambda>dependent. sum_list (map (incoming_count dependent) (dependencies_on i dependent))" for i
  by unfold_locales (rule incoming_edge.fold_step)

lemma outgoing_blockers_Nil:
  "outgoing_blockers m d = [] \<longleftrightarrow>
     (\<forall>other. manifest_module m (dep_module d) = Some other \<longrightarrow> safe_crossing d (module_state other))"
  by (auto simp: boundary_defs safe_crossing_def unresolved_Nil_iff split: option.split)

lemma incoming_blockers_Nil: "incoming_blockers md d = [] \<longleftrightarrow> safe_crossing d (module_state md)"
  by (auto simp: boundary_defs safe_crossing_def unresolved_Nil_iff)

lemma outgoing_count_eq:
  "outgoing_count m d =
     (case manifest_module m (dep_module d) of None \<Rightarrow> 0
      | Some other \<Rightarrow> if crosses d (module_state other) then 1 else 0)"
  by (auto simp: boundary_defs crosses_def split: option.split)

lemma incoming_count_eq: "incoming_count md d = (if crosses d (module_state md) then 1 else 0)"
  by (auto simp: boundary_defs crosses_def)

lemma assess_boundaries:
  "assess_incoming_boundaries m md (assess_outgoing_boundaries m md (blockers, 0)) =
     (blockers @ concat (map (outgoing_blockers m) (module_dependencies md)) @
        concat (map (\<lambda>dependent. concat (map (incoming_blockers dependent)
          (dependencies_on (module_id md) dependent))) (manifest_modules m)),
      sum_list (map (outgoing_count m) (module_dependencies md)) +
        sum_list (map (\<lambda>dependent. sum_list (map (incoming_count dependent)
          (dependencies_on (module_id md) dependent))) (manifest_modules m)))"
  by (simp add: assess_incoming_boundaries_def assess_outgoing_boundaries_def
      outgoing.fold_step incoming_module.fold_step)

interpretation gate_defined: error_pass
    "\<lambda>g. push_if (manifest_gate m g = None) (MissingGateDefinition g)" for m
  by unfold_locales (rule push_if_appends)

interpretation covered: error_pass
    "\<lambda>t. push_if (\<not> target_covered m md (target_id t)) (UncoveredRequiredTarget (target_id t))"
    for m md
  by unfold_locales (rule push_if_appends)

lemma target_covered_iff:
  "target_covered m md t \<longleftrightarrow>
     (\<exists>g\<in>set (module_gates md). \<exists>gate. manifest_gate m g = Some gate \<and> t \<in> set (gate_targets gate))"
  by (auto simp: target_covered_def list_ex_iff split: option.splits)

lemma transition_ready_covered:
  "transition_ready m md to \<longleftrightarrow>
     next_state (module_state md) = Some to \<and> module_gates md \<noteq> [] \<and>
     (\<forall>g\<in>set (module_gates md). manifest_gate m g \<noteq> None) \<and>
     (\<forall>t\<in>set (required_targets m). target_covered m md (target_id t)) \<and>
     (to = RustOwned \<longrightarrow>
        all_resolved (module_reviews md) \<and> outgoing_safe m md \<and> incoming_safe m (module_id md))"
  by (simp add: transition_ready_def target_covered_iff)

lemma assess_module_allowed: "ta_allowed (assess_module m md to) \<longleftrightarrow> transition_ready m md to"
proof (cases "to = RustOwned")
  case True
  show ?thesis
    unfolding assess_module_def Let_def case_prod_beta
    using True
    by (simp add: assess_boundaries appends clean unresolved_Nil_iff outgoing_blockers_Nil
        incoming_blockers_Nil transition_ready_covered outgoing_safe_def
        incoming_safe_def)
next
  case False
  show ?thesis
    unfolding assess_module_def Let_def case_prod_beta
    using False by (simp add: appends clean transition_ready_covered)
qed

lemma assess_module_fields:
  "ta_module (assess_module m md to) = module_id md" "ta_from (assess_module m md to) = module_state md"
  "ta_to (assess_module m md to) = to"
  "ta_gate_count (assess_module m md to) = length (module_gates md)"
  "ta_allowed (assess_module m md to) \<longleftrightarrow> ta_blockers (assess_module m md to) = []"
  by (simp_all add: assess_module_def Let_def case_prod_beta)

text \<open>How many edges of a module cross languages, read off the manifest.\<close>

definition crossing_edges :: "manifest \<Rightarrow> module \<Rightarrow> nat" where
  "crossing_edges m md =
     length (filter (\<lambda>d. case manifest_module m (dep_module d) of None \<Rightarrow> False
                        | Some other \<Rightarrow> crosses d (module_state other)) (module_dependencies md)) +
     sum_list (map (\<lambda>dependent.
       length (filter (\<lambda>d. crosses d (module_state dependent)) (dependencies_on (module_id md) dependent)))
       (manifest_modules m))"

lemma sum_list_indicator: "sum_list (map (\<lambda>x. if P x then 1 else 0) xs) = length (filter P xs)"
  by (induction xs) auto

lemma assess_module_edges:
  "ta_cross_language_edges (assess_module m md to) =
     (if to = RustOwned then crossing_edges m md else 0)"
proof -
  have out: "outgoing_count m =
      (\<lambda>d. if (case manifest_module m (dep_module d) of None \<Rightarrow> False
              | Some other \<Rightarrow> crosses d (module_state other)) then 1 else 0)"
    by (auto simp: outgoing_count_eq fun_eq_iff split: option.split)
  have inc: "incoming_count dependent = (\<lambda>d. if crosses d (module_state dependent) then 1 else 0)"
    for dependent
    by (simp add: incoming_count_eq fun_eq_iff)
  show ?thesis
    unfolding assess_module_def Let_def case_prod_beta
    by (simp add: assess_boundaries crossing_edges_def out inc sum_list_indicator)
qed

section \<open>The frontier\<close>

lemma assess_transition_Inr:
  "assess_transition m i to = Inr a \<longleftrightarrow>
     (\<exists>md. manifest_module m i = Some md \<and> a = assess_module m md to)"
  by (auto simp: assess_transition_def split: option.splits)

lemma frontier_candidate_Some:
  assumes "distinct (map module_id (manifest_modules m))" and "md \<in> set (manifest_modules m)"
  shows "frontier_candidate m md = Some a \<longleftrightarrow>
    (\<exists>to. next_state (module_state md) = Some to \<and> a = assess_module m md to)"
  using module_lookup.look_unique [OF assms]
  by (auto simp: frontier_candidate_def assess_transition_def split: option.splits)

lemma set_map_filter: "set (List.map_filter f xs) = {y. \<exists>x\<in>set xs. f x = Some y}"
  by (induction xs) (auto simp: map_filter_simps split: option.splits)

lemma set_migration_frontier:
  assumes "distinct (map module_id (manifest_modules m))"
  shows "set (migration_frontier m) =
    {assess_module m md to | md to. md \<in> set (manifest_modules m) \<and> transition_ready m md to}"
proof -
  have step: "transition_ready m md to \<Longrightarrow> next_state (module_state md) = Some to" for md to
    by (simp add: transition_ready_def)
  show ?thesis
    unfolding migration_frontier_def
    using assms step
    by (auto simp: set_map_filter frontier_candidate_Some assess_module_allowed) blast+
qed

lemma sorted_migration_frontier: "sorted (map frontier_key (migration_frontier m))"
  by (simp add: migration_frontier_def)

lemma frontier_candidate_module:
  assumes "distinct (map module_id (manifest_modules m))" and "md \<in> set (manifest_modules m)"
    and "frontier_candidate m md = Some a"
  shows "ta_module a = module_id md"
  using assms frontier_candidate_Some by (fastforce simp: assess_module_fields)

lemma map_filter_keys:
  assumes "\<And>x y. x \<in> set xs \<Longrightarrow> f x = Some y \<Longrightarrow> g y = h x" and "distinct (map h xs)"
  shows "distinct (map g (List.map_filter f xs))"
  using assms
proof (induction xs)
  case (Cons x xs)
  then have IH: "distinct (map g (List.map_filter f xs))" by simp
  show ?case
  proof (cases "f x")
    case None
    with IH show ?thesis by (simp add: map_filter_simps)
  next
    case (Some y)
    have "g y \<noteq> g z" if "z \<in> set (List.map_filter f xs)" for z
    proof -
      from that obtain w where "w \<in> set xs" "f w = Some z" by (auto simp: set_map_filter)
      then have "h w \<in> h ` set xs" by simp
      with Cons.prems(2) have "h w \<noteq> h x" by auto
      moreover have "g z = h w" "g y = h x"
        using Cons.prems(1) Some \<open>w \<in> set xs\<close> \<open>f w = Some z\<close> by auto
      ultimately show ?thesis by simp
    qed
    with IH Some show ?thesis by (auto simp: map_filter_simps)
  qed
qed (simp add: map_filter_simps)

lemma distinct_migration_frontier:
  assumes "distinct (map module_id (manifest_modules m))"
  shows "distinct (map ta_module (migration_frontier m))"
proof -
  have "distinct (map ta_module (List.map_filter (frontier_candidate m) (manifest_modules m)))"
    by (rule map_filter_keys [where h = module_id])
      (use assms frontier_candidate_module in auto)
  then have "distinct (map ta_module (filter ta_allowed
      (List.map_filter (frontier_candidate m) (manifest_modules m))))"
    by (rule distinct_map_filter)
  then show ?thesis
    unfolding migration_frontier_def
    by (simp add: distinct_map)
qed

section \<open>Properties\<close>

text \<open>A manifest to apply the properties to: \<open>app\<close> depends on \<open>lib\<close> across a given boundary, and both
  have a gate that covers the one required target.\<close>

definition example_manifest :: "migration_state \<Rightarrow> migration_state \<Rightarrow> boundary \<Rightarrow> manifest" where
  "example_manifest app_state lib_state b =
     \<lparr>schema_version = supported_schema_version,
      manifest_project = \<lparr>project_name = ''p'', project_upstream = ''u'', project_baseline = ''b''\<rparr>,
      manifest_inventory = None,
      manifest_targets = [\<lparr>target_id = ''linux'', target_description = ''Linux'', target_required = True\<rparr>],
      manifest_gates = [\<lparr>gate_id = ''unit'', gate_execution = Shell ''ninja test'', gate_inputs = [],
        gate_targets = [''linux'']\<rparr>],
      manifest_modules =
        [(example_module ''app'' [])\<lparr>module_state := app_state, module_gates := [''unit''],
           module_dependencies := [\<lparr>dep_module = ''lib'', dep_boundary = b, dep_evidence = [],
             dep_reviews = []\<rparr>]\<rparr>,
         (example_module ''lib'' [])\<lparr>module_state := lib_state, module_gates := [''unit'']\<rparr>]\<rparr>"


text \<open>C16: a transition is allowed exactly when it is the next state of the module, the module has defined
  gates that cover every required target and, for the step to Rust, no review of the module or of its edges
  is open and every edge to or from a module that is not Rust-owned crosses at an audited boundary. The
  boundary of an edge to a module that is already Rust-owned is not looked at, against
  \<open>docs/architecture.md\<close>; see \<open>unclassified_not_blocking\<close>.\<close>

theorem assess_transition_allowed:
  "(\<exists>a. assess_transition m i to = Inr a \<and> ta_allowed a) \<longleftrightarrow>
   (\<exists>md. manifest_module m i = Some md \<and> transition_ready m md to)"
  by (auto simp: assess_transition_Inr assess_module_allowed)

text \<open>The architecture document says that an unclassified edge always blocks Rust ownership and that a
  \<open>cpp_internal\<close> one is never accepted at a Rust-owned crossing. Between a module and one that is already
  Rust-owned they are accepted: in a manifest that \<open>validate\<close> accepts, the step to Rust is allowed with either
  as the boundary of the only edge.\<close>

lemma unclassified_not_blocking:
  "list_all (\<lambda>b. validate (example_manifest Bridged RustOwned b) = Inr () \<and>
     (case assess_transition (example_manifest Bridged RustOwned b) ''app'' RustOwned of
        Inl _ \<Rightarrow> False | Inr a \<Rightarrow> ta_allowed a)) [Unclassified, CppInternal]"
  by code_simp

text \<open>The reported number of cross-language edges counts each edge of the module once: outgoing edges
  to known modules and incoming edges, but for pure Rust boundaries between Rust-owned modules.\<close>

theorem assess_transition_edges:
  assumes "assess_transition m i RustOwned = Inr a"
  shows "\<exists>md. manifest_module m i = Some md \<and> ta_cross_language_edges a = crossing_edges m md"
  using assms by (auto simp: assess_transition_Inr assess_module_edges)

text \<open>The frontier holds the assessments of exactly the ready transitions, one for each module that
  has one, in the order of crossing edges, gates and identifiers.\<close>

theorem migration_frontier_correct:
  assumes "distinct (map module_id (manifest_modules m))"
  shows "set (migration_frontier m) =
      {assess_module m md to | md to. md \<in> set (manifest_modules m) \<and> transition_ready m md to} \<and>
    distinct (map ta_module (migration_frontier m)) \<and>
    sorted (map frontier_key (migration_frontier m))"
  using set_migration_frontier [OF assms] distinct_migration_frontier [OF assms]
    sorted_migration_frontier by blast

lemma assess_transition_edges_witness:
  "\<exists>a. assess_transition (example_manifest LegacyCpp Bridged CAbi) ''lib'' RustOwned = Inr a \<and>
     ta_allowed a \<and> ta_cross_language_edges a = 1 \<and>
     (\<exists>md. ta_cross_language_edges a = crossing_edges (example_manifest LegacyCpp Bridged CAbi) md)"
proof -
  let ?m = "example_manifest LegacyCpp Bridged CAbi"
  have n: "\<not> isl (assess_transition ?m ''lib'' RustOwned)" by code_simp
  let ?a = "projr (assess_transition ?m ''lib'' RustOwned)"
  from n have a: "assess_transition ?m ''lib'' RustOwned = Inr ?a" by simp
  have "ta_allowed ?a" "ta_cross_language_edges ?a = 1" by code_simp+
  then show ?thesis using a assess_transition_edges [OF a] by blast
qed

lemma migration_frontier_correct_witness:
  "map ta_module (migration_frontier (example_manifest LegacyCpp Bridged CppInternal)) = [''app''] \<and>
   sorted (map frontier_key (migration_frontier (example_manifest LegacyCpp Bridged CppInternal)))"
proof
  let ?m = "example_manifest LegacyCpp Bridged CppInternal"
  have d: "distinct (map module_id (manifest_modules ?m))" by code_simp
  show "map ta_module (migration_frontier ?m) = [''app'']" by code_simp
  show "sorted (map frontier_key (migration_frontier ?m))"
    using migration_frontier_correct [OF d] by blast
qed

end
