(* ===== verification/Migration.thy ===== *)
theory Migration
  imports Planner
begin

text \<open>
  What the planner is for: a migration is a run of transitions, each allowed by
  \<open>assess_transition\<close> on the manifest of that moment and then written into it. The invariants
  carried over runs are the two guarantees the transition checks are there to give: a boundary
  between a Rust-owned module and one that is not is an audited one, with every review of it
  resolved, and the manifest stays valid.
\<close>

section \<open>Runs\<close>

definition set_module_state :: "string \<Rightarrow> migration_state \<Rightarrow> manifest \<Rightarrow> manifest" where
  "set_module_state i to m =
     m\<lparr>manifest_modules :=
        map (\<lambda>md. if module_id md = i then md\<lparr>module_state := to\<rparr> else md) (manifest_modules m)\<rparr>"

inductive migration_step :: "manifest \<Rightarrow> manifest \<Rightarrow> bool" where
  advance: "assess_transition m i to = Inr a \<Longrightarrow> ta_allowed a \<Longrightarrow>
     migration_step m (set_module_state i to m)"

inductive_cases migration_stepE: "migration_step m m'"

inductive migrates :: "manifest \<Rightarrow> manifest \<Rightarrow> bool" where
  migrates_refl: "migrates m m"
| migrates_step: "migrates m m' \<Longrightarrow> migration_step m' m'' \<Longrightarrow> migrates m m''"

text \<open>A step, seen through the readiness conditions.\<close>

lemma migration_step_ready:
  assumes "migration_step m m'"
  obtains md to where "md \<in> set (manifest_modules m)" and "transition_ready m md to"
    and "m' = set_module_state (module_id md) to m"
proof -
  from assms obtain i to a where a: "assess_transition m i to = Inr a" "ta_allowed a"
    "m' = set_module_state i to m" by (rule migration_stepE)
  then obtain md where md: "manifest_module m i = Some md" "a = assess_module m md to"
    by (auto simp: assess_transition_Inr)
  then have "md \<in> set (manifest_modules m)" "module_id md = i"
    using module_lookup.look_Some by blast+
  moreover have "transition_ready m md to" using a(2) md(2) by (simp add: assess_module_allowed)
  ultimately show thesis using a(3) that by blast
qed

lemma migrates_invariant:
  assumes "migrates m m'" and "P m" and "\<And>m m'. P m \<Longrightarrow> migration_step m m' \<Longrightarrow> P m'"
  shows "P m'"
  using assms by (induction rule: migrates.induct) auto

section \<open>Frame facts\<close>

lemma set_module_state_simps [simp]:
  "manifest_gates (set_module_state i to m) = manifest_gates m"
  "manifest_targets (set_module_state i to m) = manifest_targets m"
  "schema_version (set_module_state i to m) = schema_version m"
  "manifest_project (set_module_state i to m) = manifest_project m"
  "manifest_inventory (set_module_state i to m) = manifest_inventory m"
  by (simp_all add: set_module_state_def)

lemma set_modules_set_module_state:
  "set (manifest_modules (set_module_state i to m)) =
     (\<lambda>md. if module_id md = i then md\<lparr>module_state := to\<rparr> else md) ` set (manifest_modules m)"
  by (simp add: set_module_state_def)

lemma module_ids_set_module_state [simp]:
  "map module_id (manifest_modules (set_module_state i to m)) = map module_id (manifest_modules m)"
  by (simp add: set_module_state_def)

lemma module_id_set_set_module_state [simp]:
  "module_id ` set (manifest_modules (set_module_state i to m)) = module_id ` set (manifest_modules m)"
  using module_ids_set_module_state by (metis list.set_map)

lemma depends_on_set_module_state [simp]: "depends_on (set_module_state i to m) = depends_on m"
proof -
  have "(\<exists>a\<in>set (manifest_modules (set_module_state i to m)).
           u = module_id a \<and> (\<exists>d\<in>set (module_dependencies a). v = dep_module d)) \<longleftrightarrow>
        (\<exists>a\<in>set (manifest_modules m).
           u = module_id a \<and> (\<exists>d\<in>set (module_dependencies a). v = dep_module d))" for u v
    unfolding set_modules_set_module_state bex_simps by (intro bex_cong) auto
  then show ?thesis unfolding depends_on_def by blast
qed

section \<open>Boundaries stay audited\<close>

text \<open>
  An edge \<open>d\<close> from \<open>a\<close> to \<open>b\<close>. If an end is Rust-owned, or both are, the boundary is audited and no review
  of the edge is open.
\<close>

definition edge_audited :: "module \<Rightarrow> dependency \<Rightarrow> module \<Rightarrow> bool" where
  "edge_audited a d b \<longleftrightarrow>
     (module_state a = RustOwned \<or> module_state b = RustOwned \<longrightarrow>
        is_audited_cross_language (dep_boundary d) \<and> all_resolved (dep_reviews d))"

definition boundaries_audited :: "manifest \<Rightarrow> bool" where
  "boundaries_audited m \<longleftrightarrow>
     (\<forall>a\<in>set (manifest_modules m). \<forall>d\<in>set (module_dependencies a). \<forall>b\<in>set (manifest_modules m).
        module_id b = dep_module d \<longrightarrow> edge_audited a d b)"

definition owned_reviewed :: "manifest \<Rightarrow> bool" where
  "owned_reviewed m \<longleftrightarrow>
     (\<forall>a\<in>set (manifest_modules m). module_state a = RustOwned \<longrightarrow> all_resolved (module_reviews a))"

definition unique_modules :: "manifest \<Rightarrow> bool" where
  "unique_modules m \<longleftrightarrow> distinct (map module_id (manifest_modules m))"

lemma unique_modules_eq:
  "unique_modules m \<Longrightarrow> a \<in> set (manifest_modules m) \<Longrightarrow> b \<in> set (manifest_modules m) \<Longrightarrow>
   module_id a = module_id b \<Longrightarrow> a = b"
  by (metis unique_modules_def distinct_map inj_onD)

lemma step_to_Rust:
  assumes u: "unique_modules m" and md: "md \<in> set (manifest_modules m)"
    and ready: "transition_ready m md RustOwned"
    and a: "a \<in> set (manifest_modules m)" and d: "d \<in> set (module_dependencies a)"
    and b: "b \<in> set (manifest_modules m)" and e: "module_id b = dep_module d"
    and self: "a = md \<or> b = md"
  shows "safe_crossing d (module_state (if a = md then b else a))"
proof (cases "a = md")
  case True
  have "manifest_module m (dep_module d) = Some b"
    using u b e module_lookup.look_unique by (metis unique_modules_def)
  with True ready d show ?thesis by (auto simp: transition_ready_def outgoing_safe_def)
next
  case False
  then have "d \<in> set (dependencies_on (module_id md) a)"
    using self d e by (auto simp: dependencies_on_def)
  with False ready a show ?thesis by (auto simp: transition_ready_def incoming_safe_def)
qed

definition advanced :: "module \<Rightarrow> migration_state \<Rightarrow> module \<Rightarrow> module" where
  "advanced md to a = (if a = md then a\<lparr>module_state := to\<rparr> else a)"

lemma set_modules_advanced:
  assumes "unique_modules m" and "md \<in> set (manifest_modules m)"
  shows "set (manifest_modules (set_module_state (module_id md) to m)) =
    advanced md to ` set (manifest_modules m)"
  unfolding set_modules_set_module_state
  using unique_modules_eq [OF assms(1) _ assms(2)]
  by (intro image_cong) (auto simp: advanced_def)

lemma advanced_simps [simp]:
  "module_id (advanced md to a) = module_id a"
  "module_dependencies (advanced md to a) = module_dependencies a"
  "module_reviews (advanced md to a) = module_reviews a"
  "module_state (advanced md to a) = (if a = md then to else module_state a)"
  by (simp_all add: advanced_def)

lemma transition_ready_states:
  "transition_ready m md to \<Longrightarrow> module_state md \<noteq> RustOwned \<and> (to = Bridged \<or> to = RustOwned)"
  by (cases "module_state md") (auto simp: transition_ready_def)

lemma edge_audited_step:
  assumes u: "unique_modules m" and md: "md \<in> set (manifest_modules m)"
    and ready: "transition_ready m md to"
    and a: "a \<in> set (manifest_modules m)" and d: "d \<in> set (module_dependencies a)"
    and b: "b \<in> set (manifest_modules m)" and e: "module_id b = dep_module d"
    and old: "edge_audited a d b"
  shows "edge_audited (advanced md to a) d (advanced md to b)"
proof (cases "to = RustOwned \<and> (a = md \<or> b = md)")
  case True
  then have "safe_crossing d (module_state (if a = md then b else a))"
    using step_to_Rust [OF u md _ a d b e] ready by blast
  then show ?thesis
    using True old transition_ready_states [OF ready]
    by (auto simp: edge_audited_def safe_crossing_def split: if_splits)
next
  case False
  then show ?thesis
    using old transition_ready_states [OF ready] by (auto simp: edge_audited_def)
qed

text \<open>The invariant of a migration.\<close>

definition migration_safe :: "manifest \<Rightarrow> bool" where
  "migration_safe m \<longleftrightarrow> unique_modules m \<and> boundaries_audited m \<and> owned_reviewed m"

lemma migration_step_safe:
  assumes safe: "migration_safe m" and step: "migration_step m m'"
  shows "migration_safe m'"
proof -
  obtain md to where md: "md \<in> set (manifest_modules m)" and ready: "transition_ready m md to"
    and m': "m' = set_module_state (module_id md) to m"
    using step by (rule migration_step_ready)
  have u: "unique_modules m" using safe by (simp add: migration_safe_def)
  note mods = set_modules_advanced [OF u md, of to, folded m']
  have "boundaries_audited m'"
    unfolding boundaries_audited_def mods
    using safe edge_audited_step [OF u md ready]
    by (auto simp: migration_safe_def boundaries_audited_def)
  moreover have "owned_reviewed m'"
    unfolding owned_reviewed_def mods
    using safe ready transition_ready_states [OF ready]
    by (auto simp: migration_safe_def owned_reviewed_def transition_ready_def)
  moreover have "unique_modules m'" using u by (simp add: unique_modules_def m')
  ultimately show ?thesis by (simp add: migration_safe_def)
qed

lemma all_legacy_safe:
  "unique_modules m \<Longrightarrow> \<forall>a\<in>set (manifest_modules m). module_state a = LegacyCpp \<Longrightarrow> migration_safe m"
  by (auto simp: migration_safe_def boundaries_audited_def owned_reviewed_def edge_audited_def)

section \<open>Validity is kept\<close>

lemma valid_module_advanced:
  assumes "valid_module G M a" and "transition_ready m md to"
  shows "valid_module G M (advanced md to a)"
  using assms by (auto simp: advanced_def valid_module_def transition_ready_def)

lemma migration_step_valid:
  assumes valid: "valid_manifest m" and step: "migration_step m m'"
  shows "valid_manifest m'"
proof -
  obtain md to where md: "md \<in> set (manifest_modules m)" and ready: "transition_ready m md to"
    and m': "m' = set_module_state (module_id md) to m"
    using step by (rule migration_step_ready)
  have u: "unique_modules m" using valid by (simp add: valid_manifest_def unique_modules_def)
  note mods = set_modules_advanced [OF u md, of to, folded m']
  have "\<forall>a\<in>set (manifest_modules m').
      valid_module (gate_id ` set (manifest_gates m)) (module_id ` set (manifest_modules m)) a"
    unfolding mods using valid valid_module_advanced [OF _ ready] by (auto simp: valid_manifest_def)
  then show ?thesis
    using valid unfolding valid_manifest_def m' by simp
qed

section \<open>Migrations end\<close>

text \<open>Every step brings one module one state further, so the remaining work shrinks.\<close>

definition remaining_work :: "manifest \<Rightarrow> nat" where
  "remaining_work m = sum_list (map (\<lambda>a. 2 - state_rank (module_state a)) (manifest_modules m))"

lemma next_state_rank: "next_state s = Some t \<Longrightarrow> state_rank t = state_rank s + 1 \<and> state_rank s < 2"
  by (cases s) auto

lemma map_sum_less:
  assumes "distinct (map k xs)" and "x \<in> set xs" and "f' x + 1 = f x"
  shows "sum_list (map (\<lambda>y. if k y = k x then f' y else f y) xs) + 1 = (sum_list (map f xs) :: nat)"
proof -
  obtain us vs where xs: "xs = us @ x # vs" using assms(2) by (metis split_list)
  have "k y \<noteq> k x" if "y \<in> set us \<union> set vs" for y
    using assms(1) that unfolding xs by (auto simp: image_iff)
  then have eq: "map (\<lambda>y. if k y = k x then f' y else f y) xs = map f us @ f' x # map f vs"
    by (simp add: xs)
  show ?thesis unfolding eq using assms(3) by (simp add: xs)
qed

lemma migration_step_work:
  assumes u: "unique_modules m" and step: "migration_step m m'"
  shows "remaining_work m' + 1 = remaining_work m"
proof -
  obtain md to where md: "md \<in> set (manifest_modules m)" and ready: "transition_ready m md to"
    and m': "m' = set_module_state (module_id md) to m"
    using step by (rule migration_step_ready)
  let ?f = "\<lambda>a. 2 - state_rank (module_state a)"
  have "state_rank to = state_rank (module_state md) + 1 \<and> state_rank (module_state md) < 2"
    using ready next_state_rank by (simp add: transition_ready_def)
  then have rank: "(2 - state_rank to) + 1 = ?f md" by auto
  have d: "distinct (map module_id (manifest_modules m))" using u by (simp add: unique_modules_def)
  have "map ?f (manifest_modules m') =
      map (\<lambda>a. if module_id a = module_id md then 2 - state_rank to else ?f a) (manifest_modules m)"
    by (simp add: m' set_module_state_def)
  then show ?thesis
    using map_sum_less [OF d md, where f' = "\<lambda>_. 2 - state_rank to" and f = ?f, OF rank]
    unfolding remaining_work_def by metis
qed

inductive steps_of :: "nat \<Rightarrow> manifest \<Rightarrow> manifest \<Rightarrow> bool" where
  steps_zero: "steps_of 0 m m"
| steps_suc: "steps_of n m m' \<Longrightarrow> migration_step m' m'' \<Longrightarrow> steps_of (Suc n) m m''"

lemma steps_of_work:
  "steps_of n m m' \<Longrightarrow> unique_modules m \<Longrightarrow> remaining_work m' + n = remaining_work m \<and> unique_modules m'"
proof (induction rule: steps_of.induct)
  case (steps_suc n m m' m'')
  then have u: "unique_modules m'" "remaining_work m' + n = remaining_work m" by auto
  have "unique_modules m''"
    using u(1) steps_suc.hyps(2) by (elim migration_stepE) (simp add: unique_modules_def)
  then show ?case using migration_step_work [OF u(1) steps_suc.hyps(2)] u(2) by simp
qed simp

lemma remaining_work_bound: "remaining_work m \<le> 2 * length (manifest_modules m)"
proof -
  have "sum_list (map (\<lambda>a. 2 - state_rank (module_state a)) xs) \<le> 2 * length xs" for xs :: "module list"
    by (induction xs) auto
  then show ?thesis by (simp add: remaining_work_def)
qed

section \<open>Properties\<close>

text \<open>C2: whatever sequence of allowed transitions a legacy code base goes through, every edge with a
  Rust-owned end, be it one end or both, crosses at an audited boundary and has no open review, and no
  Rust-owned module has an open review of its own. (The planner checks the boundary of an edge when the
  first of its ends becomes Rust-owned; boundaries do not change in a run.)\<close>

theorem migrations_stay_audited:
  assumes "migrates m m'" and "unique_modules m"
    and "\<forall>a\<in>set (manifest_modules m). module_state a = LegacyCpp"
  shows "boundaries_audited m' \<and> owned_reviewed m'"
proof -
  have "migration_safe m'"
    by (rule migrates_invariant [where P = migration_safe,
        OF assms(1) all_legacy_safe [OF assms(2,3)] migration_step_safe])
  then show ?thesis by (simp add: migration_safe_def)
qed

text \<open>C35: allowed transitions keep a valid manifest valid.\<close>

theorem migrations_stay_valid:
  assumes "migrates m m'" and "valid_manifest m"
  shows "valid_manifest m'"
  by (rule migrates_invariant [where P = valid_manifest, OF assms migration_step_valid])

text \<open>C36: a migration cannot go on forever: a run of \<open>n\<close> allowed transitions lowers the remaining work,
  at most two steps for each module, by \<open>n\<close>.\<close>

theorem migrations_end:
  assumes "steps_of n m m'" and "unique_modules m"
  shows "remaining_work m' + n = remaining_work m \<and> n \<le> 2 * length (manifest_modules m)"
  using steps_of_work [OF assms] remaining_work_bound [of m] by simp

text \<open>A run on the example: the library is bridged, then written in Rust.\<close>

definition example_run :: "manifest list" where
  "example_run = map (\<lambda>s. example_manifest LegacyCpp s CAbi) [LegacyCpp, Bridged, RustOwned]"

lemma example_step:
  assumes "\<not> isl (assess_transition m i to)" and "ta_allowed (projr (assess_transition m i to))"
  shows "migration_step m (set_module_state i to m)"
  using advance [of m i to "projr (assess_transition m i to)"] assms by simp

lemma example_run_steps:
  "migration_step (example_run ! 0) (example_run ! 1)" "migration_step (example_run ! 1) (example_run ! 2)"
proof -
  have next_states: "example_run ! 1 = set_module_state ''lib'' Bridged (example_run ! 0)"
    "example_run ! 2 = set_module_state ''lib'' RustOwned (example_run ! 1)" by code_simp+
  show "migration_step (example_run ! 0) (example_run ! 1)"
    unfolding next_states(1) by (rule example_step) code_simp+
  show "migration_step (example_run ! 1) (example_run ! 2)"
    unfolding next_states(2) by (rule example_step) code_simp+
qed

lemma example_run_migrates: "migrates (example_run ! 0) (example_run ! 2)"
  using example_run_steps by (meson migrates_refl migrates_step)

lemma migrations_stay_audited_witness: "boundaries_audited (example_manifest LegacyCpp RustOwned CAbi)"
proof -
  have "unique_modules (example_run ! 0)" unfolding unique_modules_def by code_simp
  moreover have "\<forall>a\<in>set (manifest_modules (example_run ! 0)). module_state a = LegacyCpp" by code_simp
  ultimately have "boundaries_audited (example_run ! 2)"
    using migrations_stay_audited [OF example_run_migrates] by blast
  then show ?thesis by (simp add: example_run_def)
qed

lemma migrations_stay_valid_witness: "valid_manifest (example_manifest LegacyCpp RustOwned CAbi)"
proof -
  have "validation_errors (example_run ! 0) = []" by code_simp
  then have "valid_manifest (example_run ! 0)" by (simp add: validation_errors_clean)
  then have "valid_manifest (example_run ! 2)" by (rule migrations_stay_valid [OF example_run_migrates])
  then show ?thesis by (simp add: example_run_def)
qed

lemma migrations_end_witness:
  "remaining_work (example_run ! 2) + 2 = remaining_work (example_run ! 0) \<and> (2::nat) \<le> 2 * 2"
proof -
  have "unique_modules (example_run ! 0)" unfolding unique_modules_def by code_simp
  moreover have "steps_of 2 (example_run ! 0) (example_run ! 2)"
    using example_run_steps by (metis numeral_2_eq_2 steps_zero steps_suc)
  ultimately have "remaining_work (example_run ! 2) + 2 = remaining_work (example_run ! 0) \<and>
      2 \<le> 2 * length (manifest_modules (example_run ! 0))"
    by (rule migrations_end [rotated])
  then show ?thesis by simp
qed

end
