(* ===== verification/Gn.thy ===== *)
theory Gn
  imports Validation
begin

text \<open>
  \<open>crates/chromifer-gn/src/lib.rs\<close>: the import of a GN project graph into a manifest. This theory
  holds the definitions in the order of the code; \<open>GnGraph\<close> and \<open>GnImport\<close> prove what they guarantee. Indexing a
  map (\<open>map[&key]\<close>) panics on a missing key: that is the error \<open>IndexPanic\<close> here, which
  \<open>GnImport\<close> shows unreachable. The pending stack of the closure is a list with its top first.
\<close>

section \<open>Data\<close>

record gn_build_settings =
  bs_root_path :: string
  bs_build_dir :: string
  bs_default_toolchain :: string

record gn_target =
  gt_target_type :: string
  gt_toolchain :: string
  gt_sources :: "string list"
  gt_deps :: "string list"
  gt_testonly :: bool
  gt_crate_root :: "string option"

record gn_project =
  gp_build_settings :: gn_build_settings
  gp_targets :: "(string \<times> gn_target) list"

record gate_options =
  go_id :: string
  go_command :: string
  go_target_id :: string
  go_target_description :: string

record import_options =
  io_project_name :: string
  io_upstream :: string
  io_baseline :: string
  io_roots :: "string list"
  io_include_all_toolchains :: bool
  io_include_testonly :: bool
  io_include_meta_targets :: bool
  io_infer_state :: bool
  io_gate :: "gate_options option"

record omitted_dependency =
  od_target :: string
  od_dependency :: string
  od_reason :: string

record import_summary =
  is_total_targets :: nat
  is_selected_targets :: nat
  is_imported_modules :: nat
  is_skipped_meta_targets :: nat
  is_skipped_testonly_targets :: nat
  is_skipped_other_toolchain_targets :: nat
  is_omitted_dependencies :: "omitted_dependency list"

record import_output =
  out_manifest :: manifest
  out_summary :: import_summary

datatype import_error =
    UnknownLabel string
  | AmbiguousLabel string
  | ExcludedRoot string string
  | UnknownTargetDependency string string
  | MissingGateForInferredState
  | ManifestValidation errors
  | IndexPanic string

definition default_toolchain :: "gn_project \<Rightarrow> string" where
  "default_toolchain project = bs_default_toolchain (gp_build_settings project)"

text \<open>\<open>map[&key]\<close>\<close>

definition index :: "(string \<times> 'v) list \<Rightarrow> string \<Rightarrow> (import_error, 'v) result" where
  "index m key = ok_or (btm_get m key) (IndexPanic key)"

section \<open>Labels\<close>

definition split_toolchain :: "string \<Rightarrow> string \<times> string option" where
  "split_toolchain label =
     (case rsplit_once ''('' label of
        None \<Rightarrow> (label, None)
      | Some (base, rest) \<Rightarrow>
          if ends_with '')'' label then (base, Some (butlast rest)) else (label, None))"

definition is_default_toolchain_target :: "gn_project \<Rightarrow> string \<Rightarrow> gn_target \<Rightarrow> bool" where
  "is_default_toolchain_target project label t =
     (if gt_toolchain t \<noteq> [] then gt_toolchain t = default_toolchain project
      else (case snd (split_toolchain label) of
              None \<Rightarrow> True | Some toolchain \<Rightarrow> toolchain = default_toolchain project))"

definition label_path :: "string \<Rightarrow> string" where
  "label_path label =
     (let base = trim_start_matches ''//'' (fst (split_toolchain label));
          path = (case split_once '':'' base of None \<Rightarrow> base | Some (p, _) \<Rightarrow> p)
      in if path = [] then ''.'' else path)"

definition inferred_owner :: "string \<Rightarrow> string" where
  "inferred_owner label =
     (let segment = hd (split_on (CHR ''/'') (label_path label))
      in if segment \<noteq> [] \<and> segment \<noteq> ''.'' then segment else ''root'')"

definition identity_label :: "gn_project \<Rightarrow> string \<Rightarrow> string" where
  "identity_label project label =
     (let (base, toolchain) = split_toolchain label
      in if (case toolchain of None \<Rightarrow> True | Some t \<Rightarrow> t = default_toolchain project)
         then base else label)"

text \<open>The character loop of \<open>sanitize_id\<close>: a run of other characters becomes one underscore, none at
  the start. A code point outside ASCII is a run of such bytes, so bytes and characters agree.\<close>

definition sanitize_step :: "char \<Rightarrow> string \<times> bool \<Rightarrow> string \<times> bool" where
  "sanitize_step c = (\<lambda>(result, previous_separator).
     if is_ascii_alphanumeric c then (result @ [to_ascii_lowercase c], False)
     else if \<not> previous_separator \<and> result \<noteq> [] then (result @ ''_'', True)
     else (result, previous_separator))"

definition drop_trailing :: "char \<Rightarrow> string \<Rightarrow> string" where
  "drop_trailing c s = rev (dropWhile (\<lambda>x. x = c) (rev s))"

definition sanitize_id :: "string \<Rightarrow> string" where
  "sanitize_id label =
     (let result = fst (fold sanitize_step (trim_start_matches ''//'' label) ([], False));
          result = drop_trailing (CHR ''_'') result
      in if result = [] then ''root''
         else if is_ascii_digit (hd result) then ''module_'' @ result else result)"

section \<open>Aliases\<close>

type_synonym aliases = "(string \<times> string option) list"

definition insert_alias :: "string \<Rightarrow> string \<Rightarrow> aliases \<Rightarrow> aliases" where
  "insert_alias alias label aliases =
     (case btm_get aliases alias of
        Some slot \<Rightarrow> if slot \<noteq> Some label then btm_insert alias None aliases else aliases
      | None \<Rightarrow> btm_insert alias (Some label) aliases)"

definition target_aliases :: "gn_project \<Rightarrow> string \<times> gn_target \<Rightarrow> aliases \<Rightarrow> aliases" where
  "target_aliases project = (\<lambda>(label, t) aliases.
     let aliases = insert_alias label label aliases
     in if is_default_toolchain_target project label t then
          let base = fst (split_toolchain label)
          in insert_alias (base @ ''('' @ default_toolchain project @ '')'') label
               (insert_alias base label aliases)
        else aliases)"

definition build_aliases :: "gn_project \<Rightarrow> aliases" where
  "build_aliases project = fold (target_aliases project) (gp_targets project) []"

definition resolve_label ::
    "gn_project \<Rightarrow> aliases \<Rightarrow> string \<Rightarrow> (import_error, string) result" where
  "resolve_label project aliases label =
     (if btm_get (gp_targets project) label \<noteq> None then Inr label
      else (case btm_get aliases label of
              Some (Some resolved) \<Rightarrow> Inr resolved
            | Some None \<Rightarrow> Inl (AmbiguousLabel label)
            | None \<Rightarrow> Inl (UnknownLabel label)))"

definition resolve_dependency ::
    "gn_project \<Rightarrow> aliases \<Rightarrow> string \<Rightarrow> string \<Rightarrow> (import_error, string) result" where
  "resolve_dependency project aliases t dependency =
     (case resolve_label project aliases dependency of
        Inl (UnknownLabel _) \<Rightarrow> Inl (UnknownTargetDependency t dependency)
      | other \<Rightarrow> other)"

section \<open>Selecting targets\<close>

definition eligible_step ::
    "gn_project \<Rightarrow> import_options \<Rightarrow> string \<times> gn_target \<Rightarrow>
     string list \<times> nat \<times> nat \<Rightarrow> string list \<times> nat \<times> nat" where
  "eligible_step project options = (\<lambda>(label, t) (eligible, testonly, other).
     if \<not> io_include_all_toolchains options \<and> \<not> is_default_toolchain_target project label t
     then (eligible, testonly, other + 1)
     else if \<not> io_include_testonly options \<and> gt_testonly t then (eligible, testonly + 1, other)
     else (bts_insert label eligible, testonly, other))"

definition eligible_targets ::
    "gn_project \<Rightarrow> import_options \<Rightarrow> string list \<times> nat \<times> nat" where
  "eligible_targets project options =
     fold (eligible_step project options) (gp_targets project) ([], 0, 0)"

definition push_root ::
    "gn_project \<Rightarrow> import_options \<Rightarrow> aliases \<Rightarrow> string list \<Rightarrow> string \<Rightarrow> string list \<Rightarrow>
     (import_error, string list) result" where
  "push_root project options aliases eligible root pending =
     and_then (resolve_label project aliases root) (\<lambda>resolved.
       if resolved \<notin> set eligible then
         and_then (index (gp_targets project) resolved) (\<lambda>t.
           Inl (ExcludedRoot root
             (if \<not> io_include_all_toolchains options \<and>
                 \<not> is_default_toolchain_target project resolved t
              then ''the default-toolchain-only policy'' else ''the test-only target policy'')))
       else Inr (resolved # pending))"

definition push_dependency ::
    "gn_project \<Rightarrow> aliases \<Rightarrow> string list \<Rightarrow> string \<Rightarrow> string \<Rightarrow> string list \<Rightarrow>
     (import_error, string list) result" where
  "push_dependency project aliases eligible label dependency pending =
     and_then (resolve_dependency project aliases label dependency) (\<lambda>d.
       Inr (if d \<in> set eligible then d # pending else pending))"

function select_loop ::
    "gn_project \<Rightarrow> aliases \<Rightarrow> string list \<Rightarrow> string list \<Rightarrow> string list \<Rightarrow>
     (import_error, string list) result" where
  "select_loop project aliases eligible [] selected = Inr selected"
| "select_loop project aliases eligible (label # pending) selected =
     (if label \<in> set selected then select_loop project aliases eligible pending selected
      else
        and_then (index (gp_targets project) label) (\<lambda>t.
          and_then (try_fold (push_dependency project aliases eligible label) (gt_deps t) pending)
            (\<lambda>pending'.
              select_loop project aliases eligible pending' (bts_insert label selected))))"
  by pat_completeness auto

text \<open>Each round takes a label off the stack or selects one more target of the project.\<close>

termination
proof (relation "measures
    [\<lambda>(project, aliases, eligible, pending, selected). card (fst ` set (gp_targets project) - set selected),
     \<lambda>(project, aliases, eligible, pending, selected). length pending]", goal_cases)
  case (3 project aliases eligible label pending selected t pending')
  then have "label \<in> fst ` set (gp_targets project)"
    by (auto simp: index_def ok_or_Inr_iff dest: map_of_SomeD intro: rev_image_eqI)
  with 3 have "fst ` set (gp_targets project) - set (bts_insert label selected)
      \<subset> fst ` set (gp_targets project) - set selected" by auto
  then show ?case by (simp add: psubset_card_mono del: set_bts_insert)
qed auto

definition select_root_closure ::
    "gn_project \<Rightarrow> import_options \<Rightarrow> aliases \<Rightarrow> string list \<Rightarrow> (import_error, string list) result" where
  "select_root_closure project options aliases eligible =
     and_then (try_fold (push_root project options aliases eligible) (io_roots options) [])
       (\<lambda>pending. select_loop project aliases eligible pending [])"

definition omit_dependency ::
    "gn_project \<Rightarrow> aliases \<Rightarrow> string list \<Rightarrow> string \<Rightarrow> string \<Rightarrow> omitted_dependency list \<Rightarrow>
     (import_error, omitted_dependency list) result" where
  "omit_dependency project aliases selected label dependency omitted =
     and_then (resolve_dependency project aliases label dependency) (\<lambda>d.
       if d \<notin> set selected then
         and_then (index (gp_targets project) d) (\<lambda>t.
           Inr (omitted @ [\<lparr>od_target = label, od_dependency = d,
             od_reason = (if gt_testonly t then ''test_only'' else ''other_toolchain'')\<rparr>]))
       else Inr omitted)"

definition collect_omitted_dependencies ::
    "gn_project \<Rightarrow> aliases \<Rightarrow> string list \<Rightarrow> (import_error, omitted_dependency list) result" where
  "collect_omitted_dependencies project aliases selected =
     try_fold (\<lambda>label omitted.
       and_then (index (gp_targets project) label) (\<lambda>t.
         try_fold (omit_dependency project aliases selected label) (gt_deps t) omitted))
       selected []"

section \<open>Effective dependencies\<close>

text \<open>The state is \<open>(visited_meta, result)\<close>.\<close>

type_synonym effective_state = "string list \<times> string list"

function (domintros)
  collect_effective_dependencies ::
    "gn_project \<Rightarrow> aliases \<Rightarrow> string list \<Rightarrow> string list \<Rightarrow> string \<Rightarrow> effective_state \<Rightarrow>
     (import_error, effective_state) result" and
  collect_effective_list ::
    "gn_project \<Rightarrow> aliases \<Rightarrow> string list \<Rightarrow> string list \<Rightarrow> string \<Rightarrow> string list \<Rightarrow> effective_state \<Rightarrow>
     (import_error, effective_state) result"
where
  "collect_effective_dependencies project aliases selected imported label (visited, result) =
     (if label \<notin> set selected then Inr (visited, result)
      else if label \<in> set imported then Inr (visited, bts_insert label result)
      else if label \<in> set visited then Inr (visited, result)
      else
        (case index (gp_targets project) label of
           Inl e \<Rightarrow> Inl e
         | Inr t \<Rightarrow>
             collect_effective_list project aliases selected imported label (gt_deps t)
               (bts_insert label visited, result)))"
| "collect_effective_list project aliases selected imported label [] st = Inr st"
| "collect_effective_list project aliases selected imported label (d # ds) st =
     (case resolve_dependency project aliases label d of
        Inl e \<Rightarrow> Inl e
      | Inr dependency \<Rightarrow>
          (case collect_effective_dependencies project aliases selected imported dependency st of
             Inl e \<Rightarrow> Inl e
           | Inr st' \<Rightarrow> collect_effective_list project aliases selected imported label ds st'))"
  by pat_completeness auto

lemma effective_mono:
  "collect_effective_dependencies_collect_effective_list_dom (Inl (p, al, sel, imp, l, st)) \<Longrightarrow>
     collect_effective_dependencies p al sel imp l st = Inr st' \<Longrightarrow> set (fst st) \<subseteq> set (fst st')"
  "collect_effective_dependencies_collect_effective_list_dom (Inr (p, al, sel, imp, l, ds, st)) \<Longrightarrow>
     collect_effective_list p al sel imp l ds st = Inr st' \<Longrightarrow> set (fst st) \<subseteq> set (fst st')"
proof (induction p al sel imp l st and p al sel imp l ds st arbitrary: st' and st'
    rule: collect_effective_dependencies_collect_effective_list.pinduct)
  case (1 p al sel imp l visited result)
  show ?case
  proof (cases "l \<in> set sel \<and> l \<notin> set imp \<and> l \<notin> set visited")
    case True
    then obtain t where t: "index (gp_targets p) l = Inr t"
      "collect_effective_list p al sel imp l (gt_deps t) (bts_insert l visited, result) = Inr st'"
      using "1.prems" "1.hyps"
      by (auto simp: collect_effective_dependencies.psimps split: sum.splits)
    show ?thesis using "1.IH" [of t] True t by auto
  next
    case False
    then show ?thesis using 1 by (auto simp: collect_effective_dependencies.psimps split: if_splits)
  qed
next
  case (2 p al sel imp l st)
  then show ?case by (simp add: collect_effective_list.psimps)
next
  case (3 p al sel imp l d ds st)
  from "3.prems" "3.hyps" obtain dep u where u: "resolve_dependency p al l d = Inr dep"
    "collect_effective_dependencies p al sel imp dep st = Inr u"
    "collect_effective_list p al sel imp l ds u = Inr st'"
    by (auto simp: collect_effective_list.psimps split: sum.splits)
  have "set (fst st) \<subseteq> set (fst u)" by (rule "3.IH"(1) [OF u(1,2)])
  also have "\<dots> \<subseteq> set (fst st')" by (rule "3.IH"(2) [OF u])
  finally show ?case .
qed

definition unvisited_targets :: "gn_project \<Rightarrow> string list \<Rightarrow> nat" where
  "unvisited_targets project visited = card (fst ` set (gp_targets project) - set visited)"

lemma unvisited_targets_mono:
  "set v \<subseteq> set w \<Longrightarrow> unvisited_targets p w \<le> unvisited_targets p v"
  unfolding unvisited_targets_def by (rule card_mono) auto

lemma index_key: "index m k = Inr v \<Longrightarrow> k \<in> fst ` set m"
  by (auto simp: index_def ok_or_Inr_iff dest: map_of_SomeD intro: rev_image_eqI)

lemma unvisited_targets_less:
  "index (gp_targets p) l = Inr t \<Longrightarrow> l \<notin> set v \<Longrightarrow>
   unvisited_targets p (bts_insert l v) < unvisited_targets p v"
  unfolding unvisited_targets_def by (rule psubset_card_mono) (auto dest: index_key)

termination collect_effective_dependencies
proof (relation "measures
    [\<lambda>x. case x of Inl (p, al, sel, imp, l, st) \<Rightarrow> unvisited_targets p (fst st)
                 | Inr (p, al, sel, imp, l, ds, st) \<Rightarrow> unvisited_targets p (fst st),
     \<lambda>x. case x of Inl (p, al, sel, imp, l, st) \<Rightarrow> 1
                 | Inr (p, al, sel, imp, l, ds, st) \<Rightarrow> 2 * length ds]", goal_cases)
  case (2 p al sel imp l visited result t)
  then show ?case using unvisited_targets_less [of p l t visited] by (auto simp del: set_bts_insert)
next
  case (4 p al sel imp l d ds st dep st')
  then have "unvisited_targets p (fst st') \<le> unvisited_targets p (fst st)"
    by (intro unvisited_targets_mono effective_mono)
  then show ?case by auto
qed auto

section \<open>States, boundaries and sources\<close>

definition source_extension :: "string \<Rightarrow> string option" where
  "source_extension source = map_option (map to_ascii_lowercase) (extension source)"

definition cpp_extensions :: "string list" where
  "cpp_extensions = [''c'', ''cc'', ''cpp'', ''cxx'', ''m'', ''mm'', ''s'', ''asm'']"

definition has_extension :: "string list \<Rightarrow> string \<Rightarrow> bool" where
  "has_extension exts source =
     (case source_extension source of None \<Rightarrow> False | Some e \<Rightarrow> e \<in> set exts)"

definition is_source_target :: "gn_target \<Rightarrow> bool" where
  "is_source_target t =
     (gt_crate_root t \<noteq> None \<or> list_ex (has_extension (cpp_extensions @ [''rs''])) (gt_sources t))"

definition infer_state_step :: "string \<Rightarrow> bool \<times> bool \<Rightarrow> bool \<times> bool" where
  "infer_state_step source = (\<lambda>(has_cpp, has_rust).
     case source_extension source of
       None \<Rightarrow> (has_cpp, has_rust)
     | Some e \<Rightarrow>
         if e = ''rs'' then (has_cpp, True)
         else if e \<in> set cpp_extensions then (True, has_rust) else (has_cpp, has_rust))"

definition infer_state :: "gn_target \<Rightarrow> migration_state" where
  "infer_state t =
     (let has_rust = (gt_crate_root t \<noteq> None \<or> starts_with ''rust_'' (gt_target_type t))
      in case fold infer_state_step (gt_sources t) (False, has_rust) of
           (True, True) \<Rightarrow> Bridged
         | (False, True) \<Rightarrow> RustOwned
         | (_, _) \<Rightarrow> LegacyCpp)"

definition infer_boundary :: "migration_state \<Rightarrow> migration_state \<Rightarrow> bool \<Rightarrow> boundary" where
  "infer_boundary source dependency inference_enabled =
     (if \<not> inference_enabled then CppInternal
      else (case (source, dependency) of
              (LegacyCpp, LegacyCpp) \<Rightarrow> CppInternal
            | (RustOwned, RustOwned) \<Rightarrow> Rust
            | _ \<Rightarrow> Unclassified))"

definition normalize_source :: "string \<Rightarrow> string \<Rightarrow> string" where
  "normalize_source label source =
     (let source = replace_char (CHR 0x5C) (CHR ''/'') source
      in if starts_with ''//'' source then trim_start_matches ''//'' source
         else if starts_with ''/'' source then trim_start_matches ''/'' source
         else let path = label_path label
              in if path = ''.'' \<or> starts_with (path @ ''/'') source then source
                 else path @ ''/'' @ source)"

definition normalized_sources :: "string \<Rightarrow> gn_target \<Rightarrow> string list" where
  "normalized_sources label t =
     bts_of_list (map (normalize_source label)
       (gt_sources t @ (case gt_crate_root t of None \<Rightarrow> [] | Some r \<Rightarrow> [r])))"

section \<open>Module identifiers\<close>

definition numbered_id :: "string \<Rightarrow> string \<Rightarrow> nat \<Rightarrow> string" where
  "numbered_id base label sequence =
     base @ ''_'' @ hex8 (fnv1a_32 label) @ ''_'' @ show_nat sequence"

lemma numbered_id_inj: "numbered_id b l m = numbered_id b l n \<Longrightarrow> m = n"
  by (simp add: numbered_id_def show_nat_inj)

text \<open>\<open>while used.contains(&candidate) { candidate = format!(...); sequence += 1; }\<close>\<close>

function next_free_id :: "string list \<Rightarrow> string \<Rightarrow> string \<Rightarrow> string \<Rightarrow> nat \<Rightarrow> string" where
  "next_free_id used base label candidate sequence =
     (if candidate \<in> set used
      then next_free_id used base label (numbered_id base label sequence) (sequence + 1)
      else candidate)"
  by pat_completeness auto

text \<open>The numbered candidates differ, and only finitely many names are taken.\<close>

termination
proof (relation "measure (\<lambda>(used, base, label, candidate, sequence).
    if candidate \<in> set used then 1 + card (set used - numbered_id base label ` {..<sequence}) else 0)",
    goal_cases)
  case (2 used base label candidate sequence)
  let ?n = "numbered_id base label"
  have "card (set used - ?n ` {..<sequence + 1}) < card (set used - ?n ` {..<sequence})"
    if "?n sequence \<in> set used"
  proof (rule psubset_card_mono)
    have "?n sequence \<notin> ?n ` {..<sequence}"
    proof
      assume "?n sequence \<in> ?n ` {..<sequence}"
      then obtain k where "k < sequence" "?n sequence = ?n k" by auto
      with numbered_id_inj [of base label sequence k] show False by simp
    qed
    then show "set used - ?n ` {..<sequence + 1} \<subset> set used - ?n ` {..<sequence}"
      using that by (auto simp: lessThan_Suc)
  qed simp
  then show ?case using 2 by auto
qed simp

declare next_free_id.simps [simp del]

definition module_id_for :: "gn_project \<Rightarrow> string list \<Rightarrow> string \<Rightarrow> string" where
  "module_id_for project used label =
     (let base = sanitize_id (identity_label project label)
      in if base \<in> set used
         then next_free_id used base label (base @ ''_'' @ hex8 (fnv1a_32 label)) 2
         else base)"

definition assign_id_step ::
    "gn_project \<Rightarrow> string \<Rightarrow> (string \<times> string) list \<times> string list \<Rightarrow>
     (string \<times> string) list \<times> string list" where
  "assign_id_step project label = (\<lambda>(assigned, used).
     let candidate = module_id_for project used label
     in (btm_insert label candidate assigned, bts_insert candidate used))"

definition assign_module_ids :: "gn_project \<Rightarrow> string list \<Rightarrow> (string \<times> string) list" where
  "assign_module_ids project labels = fst (fold (assign_id_step project) labels ([], []))"

section \<open>The import\<close>

definition imported_targets ::
    "gn_project \<Rightarrow> import_options \<Rightarrow> string list \<Rightarrow> (import_error, string list) result" where
  "imported_targets project options selected =
     try_fold (\<lambda>label imported.
       if io_include_meta_targets options then Inr (bts_insert label imported)
       else and_then (index (gp_targets project) label) (\<lambda>t.
         Inr (if is_source_target t then bts_insert label imported else imported)))
       selected []"

definition module_states ::
    "gn_project \<Rightarrow> import_options \<Rightarrow> string list \<Rightarrow>
     (import_error, (string \<times> migration_state) list) result" where
  "module_states project options imported =
     try_fold (\<lambda>label states.
       if io_infer_state options then
         and_then (index (gp_targets project) label)
           (\<lambda>t. Inr (btm_insert label (infer_state t) states))
       else Inr (btm_insert label LegacyCpp states))
       imported []"

definition build_dependency ::
    "import_options \<Rightarrow> (string \<times> string) list \<Rightarrow> (string \<times> migration_state) list \<Rightarrow>
     migration_state \<Rightarrow> string \<Rightarrow> (import_error, dependency) result" where
  "build_dependency options ids states state dependency_label =
     and_then (index ids dependency_label) (\<lambda>i.
     and_then (index states dependency_label) (\<lambda>dependency_state.
       Inr \<lparr>dep_module = i,
            dep_boundary = infer_boundary state dependency_state (io_infer_state options),
            dep_evidence = [], dep_reviews = []\<rparr>))"

definition build_module ::
    "gn_project \<Rightarrow> import_options \<Rightarrow> aliases \<Rightarrow> string list \<Rightarrow> string list \<Rightarrow>
     (string \<times> string) list \<Rightarrow> (string \<times> migration_state) list \<Rightarrow> string \<Rightarrow>
     (import_error, module) result" where
  "build_module project options aliases selected imported ids states label =
     and_then (index (gp_targets project) label) (\<lambda>t.
     and_then (collect_effective_list project aliases selected imported label (gt_deps t) ([], []))
       (\<lambda>(visited_meta, effective).
     and_then (index states label) (\<lambda>state.
     and_then (try_map (build_dependency options ids states state)
                 (filter (\<lambda>l. l \<noteq> label) effective)) (\<lambda>dependencies.
     and_then (index ids label) (\<lambda>i.
       Inr \<lparr>module_id = i, module_path = label_path label, module_owner = inferred_owner label,
            module_ownership = None, module_source_label = Some label,
            module_source_type = Some (gt_target_type t),
            module_sources = normalized_sources label t, module_state = state,
            module_gates = (case io_gate options of None \<Rightarrow> [] | Some gate \<Rightarrow> [go_id gate]),
            module_reviews = [], module_dependencies = sort_key dep_module dependencies\<rparr>)))))"

definition gate_tables ::
    "gate_options option \<Rightarrow> target list \<times> compatibility_gate list" where
  "gate_tables gate =
     (case gate of
        None \<Rightarrow> ([], [])
      | Some g \<Rightarrow>
          ([\<lparr>target_id = go_target_id g, target_description = go_target_description g,
             target_required = True\<rparr>],
           [\<lparr>gate_id = go_id g, gate_execution = Shell (go_command g), gate_inputs = [],
             gate_targets = [go_target_id g]\<rparr>]))"

definition build_manifest ::
    "gn_project \<Rightarrow> import_options \<Rightarrow> nat \<Rightarrow> module list \<Rightarrow> manifest" where
  "build_manifest project options omitted_count modules =
     \<lparr>schema_version = supported_schema_version,
      manifest_project = \<lparr>project_name = io_project_name options,
        project_upstream = io_upstream options, project_baseline = io_baseline options\<rparr>,
      manifest_inventory = Some \<lparr>inv_source_format = ''gn-project-json'',
        inv_build_dir = bs_build_dir (gp_build_settings project),
        inv_default_toolchain = default_toolchain project, inv_roots = io_roots options,
        inv_include_all_toolchains = io_include_all_toolchains options,
        inv_include_testonly = io_include_testonly options,
        inv_include_meta_targets = io_include_meta_targets options,
        inv_infer_state = io_infer_state options,
        inv_omitted_dependency_count = omitted_count\<rparr>,
      manifest_targets = fst (gate_tables (io_gate options)),
      manifest_gates = snd (gate_tables (io_gate options)),
      manifest_modules = modules\<rparr>"

definition import_gn_project ::
    "gn_project \<Rightarrow> import_options \<Rightarrow> (import_error, import_output) result" where
  "import_gn_project project options =
     (let aliases = build_aliases project;
          (eligible, skipped_testonly, skipped_other) = eligible_targets project options
      in and_then (if io_roots options = [] then Inr eligible
                   else select_root_closure project options aliases eligible) (\<lambda>selected.
         and_then (collect_omitted_dependencies project aliases selected) (\<lambda>omitted.
         and_then (imported_targets project options selected) (\<lambda>imported.
         let ids = assign_module_ids project imported
         in and_then (module_states project options imported) (\<lambda>states.
         if io_infer_state options \<and> io_gate options = None \<and>
            list_ex (\<lambda>state. state \<noteq> LegacyCpp) (map snd states)
         then Inl MissingGateForInferredState
         else
           and_then (try_map (build_module project options aliases selected imported ids states) imported)
             (\<lambda>modules.
           let m = build_manifest project options (length omitted) (sort_key module_id modules)
           in case validate m of
                Inl e \<Rightarrow> Inl (ManifestValidation e)
              | Inr _ \<Rightarrow>
                  Inr \<lparr>out_manifest = m,
                       out_summary = \<lparr>is_total_targets = length (gp_targets project),
                         is_selected_targets = length selected,
                         is_imported_modules = length imported,
                         is_skipped_meta_targets = length selected - length imported,
                         is_skipped_testonly_targets = skipped_testonly,
                         is_skipped_other_toolchain_targets = skipped_other,
                         is_omitted_dependencies = omitted\<rparr>\<rparr>))))))"

end
