(* ===== verification/GnGraph.thy ===== *)
theory GnGraph
  imports Gn
begin

text \<open>
  What the graph part of the GN importer computes: aliases resolve exactly when one target claims
  them, the root closure is reachability, and the effective dependencies of a module are the imported
  targets reachable through targets that are not imported.
\<close>

section \<open>Aliases\<close>

definition target_keys :: "gn_project \<Rightarrow> string set" where
  "target_keys project = fst ` set (gp_targets project)"

text \<open>The names a target answers to.\<close>

definition alias_names :: "gn_project \<Rightarrow> string \<times> gn_target \<Rightarrow> (string \<times> string) list" where
  "alias_names project = (\<lambda>(label, t).
     (label, label) #
     (if is_default_toolchain_target project label t then
        let base = fst (split_toolchain label)
        in [(base, label), (base @ ''('' @ default_toolchain project @ '')'', label)]
      else []))"

definition claimants :: "gn_project \<Rightarrow> string \<Rightarrow> string set" where
  "claimants project a = {l. (a, l) \<in> set (concat (map (alias_names project) (gp_targets project)))}"

definition alias_class :: "string set \<Rightarrow> string option option" where
  "alias_class S = (if S = {} then None else if \<exists>l. S = {l} then Some (Some (the_elem S)) else Some None)"

lemma alias_class_simps [simp]: "alias_class {} = None" "alias_class {l} = Some (Some l)"
  by (simp_all add: alias_class_def)

lemma alias_class_insert:
  "alias_class (insert l S) =
     (case alias_class S of None \<Rightarrow> Some (Some l)
      | Some slot \<Rightarrow> if slot = Some l then Some (Some l) else Some None)"
proof (cases "S = {}")
  case False
  show ?thesis
  proof (cases "\<exists>k. S = {k}")
    case True
    then obtain k where "S = {k}" by blast
    then show ?thesis by (cases "k = l") (auto simp: alias_class_def doubleton_eq_iff)
  next
    case no: False
    then have "\<nexists>k. insert l S = {k}" using False by (auto simp: subset_singleton_iff)
    then show ?thesis using no False by (simp add: alias_class_def)
  qed
qed simp

lemma ascending_insert_alias: "ascending_keys al \<Longrightarrow> ascending_keys (insert_alias a l al)"
  by (auto simp: insert_alias_def ascending_btm_insert split: option.split)

lemma get_insert_alias:
  "ascending_keys al \<Longrightarrow>
   btm_get (insert_alias a l al) b =
     (if b = a then (case btm_get al a of None \<Rightarrow> Some (Some l)
                     | Some slot \<Rightarrow> if slot = Some l then Some (Some l) else Some None)
      else btm_get al b)"
  by (auto simp: insert_alias_def split: option.split)

lemma insert_aliases_class:
  assumes "ascending_keys al" and "\<And>b. btm_get al b = alias_class (S b)"
  shows "btm_get (fold (\<lambda>(a, l). insert_alias a l) ps al) b = alias_class (S b \<union> {l. (b, l) \<in> set ps})"
  using assms
proof (induction ps arbitrary: al S)
  case (Cons p ps)
  obtain a l where p: "p = (a, l)" by fastforce
  let ?S = "\<lambda>b. if b = a then insert l (S b) else S b"
  have asc: "ascending_keys (insert_alias a l al)" using Cons.prems(1) by (rule ascending_insert_alias)
  have get: "btm_get (insert_alias a l al) b = alias_class (?S b)" for b
    using Cons.prems by (auto simp: get_insert_alias alias_class_insert)
  note IH = Cons.IH [OF asc get]
  have "?S b \<union> {k. (b, k) \<in> set ps} = S b \<union> {k. (b, k) \<in> set (p # ps)}"
    by (auto simp: p)
  with IH show ?case by (simp add: p)
qed simp_all

lemma target_aliases_fold:
  "target_aliases project lt al = fold (\<lambda>(a, l). insert_alias a l) (alias_names project lt) al"
  by (cases lt) (simp add: target_aliases_def alias_names_def Let_def)

lemma build_aliases_fold:
  "build_aliases project =
     fold (\<lambda>(a, l). insert_alias a l) (concat (map (alias_names project) (gp_targets project))) []"
proof -
  have "fold (target_aliases project) ts al =
      fold (\<lambda>(a, l). insert_alias a l) (concat (map (alias_names project) ts)) al" for ts al
    by (induction ts arbitrary: al) (auto simp: target_aliases_fold)
  then show ?thesis by (simp add: build_aliases_def)
qed

lemma get_build_aliases: "btm_get (build_aliases project) a = alias_class (claimants project a)"
  using insert_aliases_class [of "[]" "\<lambda>_. {}"
      "concat (map (alias_names project) (gp_targets project))" a]
  by (simp add: build_aliases_fold claimants_def)

lemma claimants_keys: "claimants project a \<subseteq> target_keys project"
  by (force simp: claimants_def alias_names_def target_keys_def Let_def split: if_splits)

lemma alias_class_Some: "alias_class S = Some (Some l) \<longleftrightarrow> S = {l}"
  by (auto simp: alias_class_def split: if_splits)

lemma get_targets_iff: "btm_get (gp_targets p) l \<noteq> None \<longleftrightarrow> l \<in> target_keys p"
  by (auto simp: target_keys_def map_of_eq_None_iff)

lemma resolve_label_iff:
  "resolve_label project (build_aliases project) a = Inr l \<longleftrightarrow>
     (if a \<in> target_keys project then l = a else claimants project a = {l})"
  by (auto simp: resolve_label_def get_targets_iff [symmetric] get_build_aliases
      alias_class_Some [symmetric] split: option.splits)

lemma resolve_label_key:
  "resolve_label project (build_aliases project) a = Inr l \<Longrightarrow> l \<in> target_keys project"
  using claimants_keys [of project a] by (auto simp: resolve_label_iff split: if_splits)

lemma resolve_dependency_Inr:
  "resolve_dependency p al t d = Inr l \<longleftrightarrow> resolve_label p al d = Inr l"
  by (auto simp: resolve_dependency_def split: sum.splits import_error.splits)

lemma resolve_label_no_panic: "resolve_label p al a \<noteq> Inl (IndexPanic k)"
  by (auto simp: resolve_label_def split: option.splits)

lemma resolve_dependency_no_panic: "resolve_dependency p al t d \<noteq> Inl (IndexPanic k)"
  using resolve_label_no_panic by (auto simp: resolve_dependency_def split: sum.splits import_error.splits)

lemma index_Inr_iff: "index m k = Inr v \<longleftrightarrow> btm_get m k = Some v"
  by (simp add: index_def ok_or_Inr_iff)

lemma index_total: "k \<in> fst ` set m \<Longrightarrow> \<exists>v. index m k = Inr v"
  unfolding index_Inr_iff by (metis map_of_eq_None_iff not_None_eq)

section \<open>The root closure\<close>

text \<open>One dependency edge between targets, kept when its end is eligible.\<close>

definition dep_step :: "gn_project \<Rightarrow> aliases \<Rightarrow> string list \<Rightarrow> (string \<times> string) set" where
  "dep_step p al eligible =
     {(u, v). v \<in> set eligible \<and>
        (\<exists>t d. btm_get (gp_targets p) u = Some t \<and> d \<in> set (gt_deps t) \<and>
               resolve_dependency p al u d = Inr v)}"

lemma push_dependency_Inr:
  "push_dependency p al eligible u d pending = Inr pending' \<longleftrightarrow>
     (\<exists>v. resolve_dependency p al u d = Inr v \<and>
          pending' = (if v \<in> set eligible then v # pending else pending))"
  unfolding push_dependency_def by (cases "resolve_dependency p al u d") (simp_all, metis)

lemma push_root_Inr:
  "push_root p options al eligible r pending = Inr pending' \<longleftrightarrow>
     (\<exists>v\<in>set eligible. resolve_label p al r = Inr v \<and> pending' = v # pending)"
proof (cases "resolve_label p al r")
  case (Inr v)
  then show ?thesis
    unfolding push_root_def by (cases "index (gp_targets p) v") auto
qed (simp add: push_root_def)

lemma push_dependencies:
  "try_fold (push_dependency p al eligible u) ds pending = Inr pending' \<Longrightarrow>
   set pending' = set pending \<union> {v \<in> set eligible. \<exists>d\<in>set ds. resolve_dependency p al u d = Inr v}"
proof (induction ds arbitrary: pending)
  case (Cons d ds)
  then obtain v where v: "resolve_dependency p al u d = Inr v"
    "try_fold (push_dependency p al eligible u) ds (if v \<in> set eligible then v # pending else pending)
       = Inr pending'"
    unfolding try_fold_Cons_Inr push_dependency_Inr by blast
  from Cons.IH [OF v(2)] v(1) show ?case by auto
qed simp

lemma select_loop_closure:
  assumes "select_loop p al eligible pending selected = Inr out"
    and "dep_step p al eligible `` set selected \<subseteq> set selected \<union> set pending"
    and "ascending selected"
  shows "set selected \<union> set pending \<subseteq> set out \<and> dep_step p al eligible `` set out \<subseteq> set out \<and>
    set out \<subseteq> set selected \<union> (dep_step p al eligible)\<^sup>* `` set pending \<and> ascending out"
  using assms
proof (induction p al eligible pending selected rule: select_loop.induct)
  case (2 p al eligible label pending selected)
  let ?E = "dep_step p al eligible"
  show ?case
  proof (cases "label \<in> set selected")
    case True
    then have "set selected \<union> set (label # pending) = set selected \<union> set pending" by auto
    moreover have "select_loop p al eligible pending selected = Inr out"
      using True "2.prems"(1) by simp
    ultimately have "set selected \<union> set pending \<subseteq> set out \<and> ?E `` set out \<subseteq> set out \<and>
        set out \<subseteq> set selected \<union> ?E\<^sup>* `` set pending \<and> ascending out"
      using "2.IH"(1) [OF True] "2.prems"(2,3) by simp
    then show ?thesis using True by auto
  next
    case False
    with "2.prems"(1) obtain t pending' where t: "index (gp_targets p) label = Inr t"
      "try_fold (push_dependency p al eligible label) (gt_deps t) pending = Inr pending'"
      "select_loop p al eligible pending' (bts_insert label selected) = Inr out"
      by (auto simp: and_then_Inr_iff)
    have succ: "?E `` {label} =
        {v \<in> set eligible. \<exists>d\<in>set (gt_deps t). resolve_dependency p al label d = Inr v}"
      using t(1) by (auto simp: dep_step_def index_Inr_iff)
    have pend: "set pending' = set pending \<union> ?E `` {label}"
      using push_dependencies [OF t(2)] succ by simp
    have "?E `` set (bts_insert label selected) \<subseteq> set (bts_insert label selected) \<union> set pending'"
      using "2.prems"(2) pend by auto
    then have IH: "set (bts_insert label selected) \<union> set pending' \<subseteq> set out \<and>
        ?E `` set out \<subseteq> set out \<and>
        set out \<subseteq> set (bts_insert label selected) \<union> ?E\<^sup>* `` set pending' \<and> ascending out"
      by (intro "2.IH"(2) [OF False t]) (use "2.prems"(3) ascending_bts_insert in blast)+
    have reach: "?E\<^sup>* `` set pending' \<subseteq> ?E\<^sup>* `` set (label # pending)"
      unfolding pend by (auto intro: converse_rtrancl_into_rtrancl)
    have "set out \<subseteq> set (bts_insert label selected) \<union> ?E\<^sup>* `` set (label # pending)"
      using IH reach by blast
    then have "set out \<subseteq> set selected \<union> ?E\<^sup>* `` set (label # pending)" by auto
    moreover have "set selected \<union> set (label # pending) \<subseteq> set out" using IH pend by auto
    ultimately show ?thesis using IH by blast
  qed
qed auto

lemma push_roots:
  "try_fold (push_root p options al eligible) roots pending = Inr pending' \<Longrightarrow>
   set pending' = set pending \<union> {v. \<exists>r\<in>set roots. resolve_label p al r = Inr v} \<and>
   (\<forall>r\<in>set roots. \<exists>v\<in>set eligible. resolve_label p al r = Inr v)"
proof (induction roots arbitrary: pending)
  case (Cons r roots)
  then obtain v where v: "resolve_label p al r = Inr v" "v \<in> set eligible"
    "try_fold (push_root p options al eligible) roots (v # pending) = Inr pending'"
    unfolding try_fold_Cons_Inr push_root_Inr by blast
  from Cons.IH [OF v(3)] v(1,2) show ?case by auto
qed simp

lemma closed_rtrancl: "E `` S \<subseteq> S \<Longrightarrow> R \<subseteq> S \<Longrightarrow> E\<^sup>* `` R \<subseteq> S"
  by (metis Image_closed_trancl Image_mono order_refl)

lemma select_root_closure_correct:
  assumes "select_root_closure p options al eligible = Inr selected"
  shows "set selected =
      (dep_step p al eligible)\<^sup>* `` {v. \<exists>r\<in>set (io_roots options). resolve_label p al r = Inr v}"
    and "ascending selected" and "\<forall>r\<in>set (io_roots options). \<exists>v\<in>set eligible. resolve_label p al r = Inr v"
proof -
  from assms obtain pending where p:
    "try_fold (push_root p options al eligible) (io_roots options) [] = Inr pending"
    "select_loop p al eligible pending [] = Inr selected"
    by (auto simp: select_root_closure_def and_then_Inr_iff)
  note pend = push_roots [OF p(1)]
  have closure: "set pending \<subseteq> set selected \<and> dep_step p al eligible `` set selected \<subseteq> set selected \<and>
      set selected \<subseteq> (dep_step p al eligible)\<^sup>* `` set pending \<and> ascending selected"
    using select_loop_closure [OF p(2)] by simp
  then have "set selected = (dep_step p al eligible)\<^sup>* `` set pending"
    using closed_rtrancl [of "dep_step p al eligible" "set selected" "set pending"] by blast
  then show "set selected =
      (dep_step p al eligible)\<^sup>* `` {v. \<exists>r\<in>set (io_roots options). resolve_label p al r = Inr v}"
    using pend by simp
  show "ascending selected" using closure by blast
  show "\<forall>r\<in>set (io_roots options). \<exists>v\<in>set eligible. resolve_label p al r = Inr v" using pend by blast
qed

lemma dep_step_rtrancl_eligible:
  "(u, v) \<in> (dep_step p al eligible)\<^sup>* \<Longrightarrow> u \<in> set eligible \<Longrightarrow> v \<in> set eligible"
  by (induction rule: rtrancl_induct) (auto simp: dep_step_def)

section \<open>Effective dependencies\<close>

text \<open>\<open>effective p al sel imp x l\<close>: target \<open>x\<close> leads to the imported target \<open>l\<close> through selected
  targets that are not imported.\<close>

inductive effective ::
    "gn_project \<Rightarrow> aliases \<Rightarrow> string list \<Rightarrow> string list \<Rightarrow> string \<Rightarrow> string \<Rightarrow> bool"
  for p al sel imp where
  effective_here: "x \<in> set sel \<Longrightarrow> x \<in> set imp \<Longrightarrow> effective p al sel imp x x"
| effective_meta: "x \<in> set sel \<Longrightarrow> x \<notin> set imp \<Longrightarrow> btm_get (gp_targets p) x = Some t \<Longrightarrow>
    d \<in> set (gt_deps t) \<Longrightarrow> resolve_dependency p al x d = Inr y \<Longrightarrow> effective p al sel imp y l \<Longrightarrow>
    effective p al sel imp x l"

text \<open>A target has been dealt with in the state \<open>(visited, result)\<close>.\<close>

definition handled :: "string list \<Rightarrow> string list \<Rightarrow> effective_state \<Rightarrow> string \<Rightarrow> bool" where
  "handled sel imp st x \<longleftrightarrow>
     x \<notin> set sel \<or> (if x \<in> set imp then x \<in> set (snd st) else x \<in> set (fst st))"

definition successors_handled ::
    "gn_project \<Rightarrow> aliases \<Rightarrow> string list \<Rightarrow> string list \<Rightarrow> effective_state \<Rightarrow> string \<Rightarrow> bool" where
  "successors_handled p al sel imp st x \<longleftrightarrow>
     (\<forall>t d y. btm_get (gp_targets p) x = Some t \<longrightarrow> d \<in> set (gt_deps t) \<longrightarrow>
        resolve_dependency p al x d = Inr y \<longrightarrow> handled sel imp st y)"

text \<open>What one call leaves behind: it only adds, all it adds to the result is effective, and whatever
  meta target it visits has its successors dealt with.\<close>

definition effective_post ::
    "gn_project \<Rightarrow> aliases \<Rightarrow> string list \<Rightarrow> string list \<Rightarrow> string set \<Rightarrow>
     effective_state \<Rightarrow> effective_state \<Rightarrow> bool" where
  "effective_post p al sel imp X st st' \<longleftrightarrow>
     set (fst st) \<subseteq> set (fst st') \<and> set (snd st) \<subseteq> set (snd st') \<and>
     (\<forall>x\<in>X. handled sel imp st' x) \<and>
     (\<forall>l\<in>set (snd st') - set (snd st). \<exists>x\<in>X. effective p al sel imp x l) \<and>
     (\<forall>v\<in>set (fst st') - set (fst st). v \<notin> set imp \<and> successors_handled p al sel imp st' v)"

lemma handled_mono:
  "handled sel imp st x \<Longrightarrow> set (fst st) \<subseteq> set (fst st') \<Longrightarrow> set (snd st) \<subseteq> set (snd st') \<Longrightarrow>
   handled sel imp st' x"
  by (auto simp: handled_def split: if_splits)

lemma successors_handled_mono:
  "successors_handled p al sel imp st x \<Longrightarrow> set (fst st) \<subseteq> set (fst st') \<Longrightarrow>
   set (snd st) \<subseteq> set (snd st') \<Longrightarrow> successors_handled p al sel imp st' x"
  unfolding successors_handled_def using handled_mono by blast

lemma effective_post_trans:
  assumes "effective_post p al sel imp X st u" and "effective_post p al sel imp Y u st'"
  shows "effective_post p al sel imp (X \<union> Y) st st'"
proof -
  have sub: "set (fst st) \<subseteq> set (fst u)" "set (snd st) \<subseteq> set (snd u)"
    "set (fst u) \<subseteq> set (fst st')" "set (snd u) \<subseteq> set (snd st')"
    using assms by (simp_all add: effective_post_def)
  moreover have "\<forall>x\<in>X \<union> Y. handled sel imp st' x"
    using assms sub handled_mono [of sel imp u _ st'] by (auto simp: effective_post_def)
  moreover have "\<forall>v\<in>set (fst st') - set (fst st). v \<notin> set imp \<and> successors_handled p al sel imp st' v"
    using assms sub successors_handled_mono [of p al sel imp u _ st']
    by (auto simp: effective_post_def)
  moreover have "\<exists>x\<in>X \<union> Y. effective p al sel imp x l" if "l \<in> set (snd st') - set (snd st)" for l
  proof (cases "l \<in> set (snd u)")
    case True
    then have "\<exists>x\<in>X. effective p al sel imp x l"
      using assms(1) that unfolding effective_post_def by blast
    then show ?thesis by blast
  next
    case False
    then have "\<exists>x\<in>Y. effective p al sel imp x l"
      using assms(2) that unfolding effective_post_def by blast
    then show ?thesis by blast
  qed
  ultimately show ?thesis unfolding effective_post_def by blast
qed

lemma effective_post_refl: "effective_post p al sel imp {} st st"
  by (simp add: effective_post_def)

lemma collect_effective_post:
  "collect_effective_dependencies p al sel imp l st = Inr st' \<Longrightarrow> effective_post p al sel imp {l} st st'"
  "collect_effective_list p al sel imp l ds st = Inr st' \<Longrightarrow>
     effective_post p al sel imp {y. \<exists>d\<in>set ds. resolve_dependency p al l d = Inr y} st st'"
proof (induction p al sel imp l st and p al sel imp l ds st arbitrary: st' and st'
    rule: collect_effective_dependencies_collect_effective_list.induct)
  case (1 p al sel imp l visited result)
  consider "l \<notin> set sel" | "l \<in> set sel" "l \<in> set imp"
    | "l \<in> set sel" "l \<notin> set imp" "l \<in> set visited"
    | "l \<in> set sel" "l \<notin> set imp" "l \<notin> set visited" by blast
  then show ?case
  proof cases
    case 4
    with "1.prems" obtain t where t: "index (gp_targets p) l = Inr t"
      "collect_effective_list p al sel imp l (gt_deps t) (bts_insert l visited, result) = Inr st'"
      by (auto simp: collect_effective_dependencies.simps split: sum.splits)
    let ?Y = "{y. \<exists>d\<in>set (gt_deps t). resolve_dependency p al l d = Inr y}"
    have post: "effective_post p al sel imp ?Y (bts_insert l visited, result) st'"
      using "1.IH" 4 t by simp
    have get: "btm_get (gp_targets p) l = Some t" using t(1) by (simp add: index_Inr_iff)
    then have "successors_handled p al sel imp st' l"
      using post by (auto simp: successors_handled_def effective_post_def)
    moreover have "effective p al sel imp l k" if "effective p al sel imp y k" "y \<in> ?Y" for y k
      using that get 4 by (auto intro: effective_meta)
    ultimately show ?thesis
      using post 4 by (auto simp: effective_post_def handled_def) blast
  qed (use 1 in \<open>auto simp: collect_effective_dependencies.simps effective_post_def handled_def
      intro: effective_here\<close>)
next
  case (2 p al sel imp l st)
  then show ?case by (simp add: effective_post_refl)
next
  case (3 p al sel imp l d ds st)
  from "3.prems" obtain dep u where u: "resolve_dependency p al l d = Inr dep"
    "collect_effective_dependencies p al sel imp dep st = Inr u"
    "collect_effective_list p al sel imp l ds u = Inr st'"
    by (auto simp: collect_effective_list.simps split: sum.splits)
  have "effective_post p al sel imp ({dep} \<union> {y. \<exists>d\<in>set ds. resolve_dependency p al l d = Inr y}) st st'"
    by (rule effective_post_trans [OF "3.IH"(1) [OF u(1,2)] "3.IH"(2) [OF u]])
  moreover have "{dep} \<union> {y. \<exists>d\<in>set ds. resolve_dependency p al l d = Inr y} =
      {y. \<exists>d'\<in>set (d # ds). resolve_dependency p al l d' = Inr y}"
    using u(1) by auto
  ultimately show ?case by simp
qed

text \<open>Starting from nothing, every meta target visited is dealt with, so nothing is missed.\<close>

lemma effective_handled:
  assumes "effective p al sel imp x l" and "handled sel imp st x"
    and "\<forall>v\<in>set (fst st). successors_handled p al sel imp st v"
  shows "l \<in> set (snd st)"
  using assms
proof (induction rule: effective.induct)
  case (effective_here x)
  then show ?case by (simp add: handled_def)
next
  case (effective_meta x t d y l)
  then have "x \<in> set (fst st)" by (simp add: handled_def)
  then have "successors_handled p al sel imp st x" using effective_meta.prems by blast
  then have "handled sel imp st y"
    using effective_meta.hyps unfolding successors_handled_def by blast
  then show ?case using effective_meta.IH effective_meta.prems by blast
qed

lemma collect_effective_correct:
  assumes "collect_effective_list p al sel imp l ds ([], []) = Inr (visited, result)"
  shows "set result =
    {k. \<exists>d\<in>set ds. \<exists>y. resolve_dependency p al l d = Inr y \<and> effective p al sel imp y k}"
proof -
  have post: "effective_post p al sel imp {y. \<exists>d\<in>set ds. resolve_dependency p al l d = Inr y}
      ([], []) (visited, result)"
    by (rule collect_effective_post(2) [OF assms])
  show ?thesis
  proof (intro equalityI subsetI)
    fix k assume "k \<in> set result"
    then show "k \<in> {k. \<exists>d\<in>set ds. \<exists>y. resolve_dependency p al l d = Inr y \<and>
        effective p al sel imp y k}"
      using post unfolding effective_post_def by fastforce
  next
    fix k assume "k \<in> {k. \<exists>d\<in>set ds. \<exists>y. resolve_dependency p al l d = Inr y \<and>
        effective p al sel imp y k}"
    then obtain d y where "d \<in> set ds" "resolve_dependency p al l d = Inr y"
      "effective p al sel imp y k" by blast
    moreover from this have "handled sel imp (visited, result) y"
      using post by (auto simp: effective_post_def)
    ultimately show "k \<in> set result"
      using effective_handled [of p al sel imp y k "(visited, result)"] post
      by (simp add: effective_post_def)
  qed
qed

section \<open>Properties\<close>

text \<open>C31: a label resolves to itself when it names a target, and otherwise to a target exactly when that
  target is the only one answering to it; a name that several answer to is refused as ambiguous, a name
  that none answers to as unknown.\<close>

theorem resolve_label_correct:
  "resolve_label project (build_aliases project) a =
     (if a \<in> target_keys project then Inr a
      else if claimants project a = {} then Inl (UnknownLabel a)
      else if is_singleton (claimants project a) then Inr (the_elem (claimants project a))
      else Inl (AmbiguousLabel a))"
  by (auto simp: resolve_label_def get_targets_iff [symmetric] get_build_aliases alias_class_def
      is_singleton_def)

text \<open>C30: the closure of the roots holds exactly the eligible targets that the roots resolve to or that
  these depend on, directly or indirectly, through eligible targets; every root resolves to one.\<close>

theorem select_root_closure_reachable:
  assumes "select_root_closure project options aliases eligible = Inr selected"
  shows "set selected = (dep_step project aliases eligible)\<^sup>* ``
      {v. \<exists>r\<in>set (io_roots options). resolve_label project aliases r = Inr v} \<and>
    ascending selected \<and>
    (\<forall>r\<in>set (io_roots options). \<exists>v\<in>set eligible. resolve_label project aliases r = Inr v)"
  using select_root_closure_correct [OF assms] by blast

text \<open>A project to apply the properties to: an executable over a meta target over two libraries, one of
  them in Rust.\<close>

definition example_target :: "string \<Rightarrow> string list \<Rightarrow> string list \<Rightarrow> gn_target" where
  "example_target kind sources deps =
     \<lparr>gt_target_type = kind, gt_toolchain = [], gt_sources = sources, gt_deps = deps,
      gt_testonly = False, gt_crate_root = None\<rparr>"

definition example_project :: gn_project where
  "example_project =
     \<lparr>gp_build_settings = \<lparr>bs_root_path = ''/'', bs_build_dir = ''//out/'', bs_default_toolchain = ''//tc''\<rparr>,
      gp_targets =
        [(''//a:a'', example_target ''executable'' [''//a/main.cc''] [''//a:deps'']),
         (''//a:deps'', example_target ''group'' [] [''//b:b'', ''//c:c(//tc)'']),
         (''//b:b'', example_target ''source_set'' [''b.cc''] []),
         (''//c:c'', example_target ''rust_library'' [''lib.rs''] [])]\<rparr>"

definition example_options :: import_options where
  "example_options =
     \<lparr>io_project_name = ''p'', io_upstream = ''u'', io_baseline = ''b'', io_roots = [''//a:a''],
      io_include_all_toolchains = False, io_include_testonly = False, io_include_meta_targets = False,
      io_infer_state = True,
      io_gate = Some \<lparr>go_id = ''unit'', go_command = ''test'', go_target_id = ''linux'',
        go_target_description = ''Linux''\<rparr>\<rparr>"

lemma select_root_closure_reachable_witness:
  "\<exists>selected. select_root_closure example_project example_options (build_aliases example_project)
     (map fst (gp_targets example_project)) = Inr selected \<and> length selected = 4 \<and> ascending selected"
proof -
  let ?r = "select_root_closure example_project example_options (build_aliases example_project)
     (map fst (gp_targets example_project))"
  have "\<not> isl ?r" "length (projr ?r) = 4" by code_simp+
  then have r: "?r = Inr (projr ?r)" by simp
  show ?thesis using r \<open>length (projr ?r) = 4\<close> select_root_closure_reachable [OF r] by blast
qed

end
