(* ===== verification/GnImport.thy ===== *)
theory GnImport
  imports GnGraph
begin

text \<open>
  The rest of the GN importer: identifiers are well formed and never shared, no map index panics, and
  what a successful import says about every module it builds.
\<close>

section \<open>Well-formed identifiers\<close>

definition id_char :: "char \<Rightarrow> bool" where
  "id_char c \<longleftrightarrow> is_ascii_digit c \<or> is_ascii_lower c \<or> c = CHR ''_''"

definition module_id_format :: "string \<Rightarrow> bool" where
  "module_id_format s \<longleftrightarrow>
     s \<noteq> [] \<and> is_ascii_lower (hd s) \<and> last s \<noteq> CHR ''_'' \<and> list_all id_char s"

lemma lowercase_alphanumeric:
  "is_ascii_alphanumeric c \<Longrightarrow>
   is_ascii_digit (to_ascii_lowercase c) \<or> is_ascii_lower (to_ascii_lowercase c)"
  by (auto simp: is_ascii_alphanumeric_def to_ascii_lowercase_def is_ascii_upper_def
      is_ascii_lower_def is_ascii_digit_def byte_of_def)

text \<open>What the character loop keeps of the result.\<close>

definition sanitized :: "string \<Rightarrow> bool" where
  "sanitized s \<longleftrightarrow>
     list_all id_char s \<and> (s \<noteq> [] \<longrightarrow> is_ascii_digit (hd s) \<or> is_ascii_lower (hd s))"

lemma sanitize_step_sanitized: "sanitized (fst st) \<Longrightarrow> sanitized (fst (sanitize_step c st))"
  using lowercase_alphanumeric [of c]
  by (cases st; cases "fst st") (auto simp: sanitize_step_def sanitized_def id_char_def)

lemma fold_sanitized: "sanitized (fst st) \<Longrightarrow> sanitized (fst (fold sanitize_step s st))"
proof (induction s arbitrary: st)
  case (Cons c s)
  then show ?case using sanitize_step_sanitized [of st c] by simp
qed simp

lemma drop_trailing_prefix: "\<exists>k. s = drop_trailing c s @ replicate k c"
proof -
  let ?t = "takeWhile (\<lambda>x. x = c) (rev s)"
  have "s = rev (?t @ dropWhile (\<lambda>x. x = c) (rev s))"
    unfolding takeWhile_dropWhile_id by simp
  also have "\<dots> = drop_trailing c s @ rev ?t"
    unfolding drop_trailing_def rev_append ..
  finally have "s = drop_trailing c s @ rev ?t" .
  moreover have "?t = replicate (length ?t) c"
    by (rule replicate_eqI) (auto dest: set_takeWhileD)
  then have "rev ?t = replicate (length ?t) c"
    using rev_replicate [of "length ?t" c] by simp
  ultimately show ?thesis by auto
qed

lemma drop_trailing_last: "drop_trailing c s \<noteq> [] \<Longrightarrow> last (drop_trailing c s) \<noteq> c"
proof -
  assume "drop_trailing c s \<noteq> []"
  then have "dropWhile (\<lambda>x. x = c) (rev s) \<noteq> []" unfolding drop_trailing_def rev_is_Nil_conv .
  then show "last (drop_trailing c s) \<noteq> c"
    using hd_dropWhile [of "\<lambda>x. x = c" "rev s"] unfolding drop_trailing_def last_rev by blast
qed

lemma sanitized_drop_trailing: "sanitized s \<Longrightarrow> sanitized (drop_trailing c s)"
proof -
  assume s: "sanitized s"
  obtain k where k: "s = drop_trailing c s @ replicate k c" using drop_trailing_prefix by blast
  have "list_all id_char (drop_trailing c s)"
    using s by (subst (asm) k) (simp add: sanitized_def)
  moreover have "drop_trailing c s \<noteq> [] \<Longrightarrow> hd (drop_trailing c s) = hd s"
    by (subst (2) k) simp
  moreover have "drop_trailing c s \<noteq> [] \<Longrightarrow> s \<noteq> []" using k by auto
  ultimately show ?thesis using s by (auto simp: sanitized_def)
qed

lemma sanitize_id_format: "module_id_format (sanitize_id label)"
proof -
  define r where
    "r = drop_trailing (CHR ''_'') (fst (fold sanitize_step (trim_start_matches ''//'' label) ([], False)))"
  have r: "sanitized r" "r \<noteq> [] \<Longrightarrow> last r \<noteq> CHR ''_''"
    unfolding r_def
    by (rule sanitized_drop_trailing, rule fold_sanitized, simp add: sanitized_def)
      (rule drop_trailing_last)
  have "sanitize_id label =
      (if r = [] then ''root'' else if is_ascii_digit (hd r) then ''module_'' @ r else r)"
    by (simp add: sanitize_id_def r_def)
  then show ?thesis
    using r
    by (auto simp: module_id_format_def sanitized_def id_char_def is_ascii_lower_def
        is_ascii_digit_def byte_of_def)
qed

section \<open>Identifiers are not shared\<close>

lemma next_free_id_fresh: "next_free_id used base label candidate n \<notin> set used"
proof (induction used base label candidate n rule: next_free_id.induct)
  case (1 used base label candidate n)
  then show ?case by (subst next_free_id.simps) auto
qed

text \<open>A table of names: as many values as names in use, each given to one key.\<close>

definition id_table :: "(string \<times> string) list \<times> string list \<Rightarrow> bool" where
  "id_table = (\<lambda>(assigned, used).
     ascending_keys assigned \<and> snd ` set assigned = set used \<and>
     inj_on (btm_get assigned) (fst ` set assigned))"

text \<open>The contract of an allocator of names: a name handed out is not among the used ones.\<close>

locale fresh_names =
  fixes fresh :: "string list \<Rightarrow> string \<Rightarrow> string"
    and assign :: "string \<Rightarrow> (string \<times> string) list \<times> string list \<Rightarrow>
      (string \<times> string) list \<times> string list"
  assumes is_fresh: "fresh used label \<notin> set used"
    and assign_eq: "assign label (assigned, used) =
      (btm_insert label (fresh used label) assigned, bts_insert (fresh used label) used)"
begin

lemma assign_id_table:
  assumes t: "id_table (assigned, used)" and l: "l \<notin> fst ` set assigned"
  shows "id_table (assign l (assigned, used))"
    and "fst ` set (fst (assign l (assigned, used))) = insert l (fst ` set assigned)"
proof -
  let ?f = "fresh used l" and ?a = "btm_insert l (fresh used l) assigned"
  have asc: "ascending_keys assigned" "ascending_keys ?a"
    using t ascending_btm_insert by (auto simp: id_table_def)
  have get: "btm_get ?a k = (if k = l then Some ?f else btm_get assigned k)" for k
    using asc(1) by simp
  have none: "btm_get assigned l = None" using l by (simp add: map_of_eq_None_iff)
  have "btm_get ?a = (btm_get assigned)(l \<mapsto> ?f)"
    using get by (auto simp: fun_eq_iff)
  then have "ran (btm_get ?a) = insert ?f (ran (btm_get assigned))"
    using ran_map_upd [of "btm_get assigned" l ?f] none by metis
  then have "snd ` set ?a = insert ?f (snd ` set assigned)"
    unfolding ran_distinct [OF btm.distinct_keys [OF asc(1)]]
      ran_distinct [OF btm.distinct_keys [OF asc(2)]] .
  then have ran: "snd ` set ?a = set (bts_insert ?f used)"
    using t by (simp add: id_table_def)
  have free: "btm_get assigned k \<noteq> Some ?f" for k
    using t is_fresh [of used l] by (force simp: id_table_def dest: map_of_SomeD)
  have inj: "inj_on (btm_get ?a) (insert l (fst ` set assigned))"
  proof (rule inj_onI)
    fix a b assume ab: "a \<in> insert l (fst ` set assigned)" "b \<in> insert l (fst ` set assigned)"
      and eq: "btm_get ?a a = btm_get ?a b"
    have "inj_on (btm_get assigned) (fst ` set assigned)" using t by (simp add: id_table_def)
    then show "a = b"
      using ab eq free [of a] free [of b] unfolding get by (auto simp: inj_on_def split: if_splits)
  qed
  show "id_table (assign l (assigned, used))"
    using asc ran inj unfolding id_table_def assign_eq case_prod_conv keys_btm_insert by blast
  show "fst ` set (fst (assign l (assigned, used))) = insert l (fst ` set assigned)"
    by (simp add: assign_eq)
qed

lemma assign_fold:
  "id_table st \<Longrightarrow> distinct labels \<Longrightarrow> set labels \<inter> fst ` set (fst st) = {} \<Longrightarrow>
   id_table (fold assign labels st) \<and>
   fst ` set (fst (fold assign labels st)) = set labels \<union> fst ` set (fst st)"
proof (induction labels arbitrary: st)
  case (Cons l ls)
  obtain assigned used where st: "st = (assigned, used)" by fastforce
  note step = assign_id_table [of assigned used l]
  have "id_table (assign l st)" "fst ` set (fst (assign l st)) = insert l (fst ` set (fst st))"
    using step Cons.prems by (simp_all add: st)
  moreover from this have "set ls \<inter> fst ` set (fst (assign l st)) = {}"
    using Cons.prems by auto
  ultimately show ?case using Cons.IH [of "assign l st"] Cons.prems(2) by auto
qed simp

end

lemma module_id_for_fresh: "module_id_for project used label \<notin> set used"
  by (simp add: module_id_for_def Let_def next_free_id_fresh)

interpretation gn_ids: fresh_names "module_id_for project" "assign_id_step project" for project
  by unfold_locales (simp_all add: module_id_for_fresh assign_id_step_def Let_def)

lemma assign_module_ids_spec:
  assumes "distinct labels"
  shows "ascending_keys (assign_module_ids project labels)"
    and "fst ` set (assign_module_ids project labels) = set labels"
    and "inj_on (btm_get (assign_module_ids project labels)) (set labels)"
  using gn_ids.assign_fold [of "([], [])" labels project] assms
  by (auto simp: assign_module_ids_def id_table_def split: prod.splits)

section \<open>No map index panics\<close>

definition no_panic :: "(import_error, 'a) result \<Rightarrow> bool" where
  "no_panic r \<longleftrightarrow> (\<forall>k. r \<noteq> Inl (IndexPanic k))"

lemma no_panic_Inr [simp]: "no_panic (Inr x)"
  by (simp add: no_panic_def)

lemma no_panic_and_then:
  "no_panic r \<Longrightarrow> (\<And>x. r = Inr x \<Longrightarrow> no_panic (f x)) \<Longrightarrow> no_panic (and_then r f)"
  by (cases r) (auto simp: no_panic_def)

lemma no_panic_index: "k \<in> fst ` set m \<Longrightarrow> no_panic (index m k)"
  using index_total [of k m] by (auto simp: no_panic_def)

lemma no_panic_resolve: "no_panic (resolve_dependency p al t d)" "no_panic (resolve_label p al a)"
  using resolve_dependency_no_panic resolve_label_no_panic by (auto simp: no_panic_def)

lemma no_panic_try_fold:
  assumes "\<And>x u. x \<in> set xs \<Longrightarrow> P u \<Longrightarrow> no_panic (f x u)"
    and "\<And>x u v. x \<in> set xs \<Longrightarrow> P u \<Longrightarrow> f x u = Inr v \<Longrightarrow> P v" and "P s"
  shows "no_panic (try_fold f xs s)"
  unfolding no_panic_def
proof
  fix k
  show "try_fold f xs s \<noteq> Inl (IndexPanic k)"
    using try_fold_no_error [where P = P and e = "IndexPanic k" and f = f and xs = xs and s = s] assms
    unfolding no_panic_def by blast
qed

lemma no_panic_try_map: "(\<And>x. x \<in> set xs \<Longrightarrow> no_panic (f x)) \<Longrightarrow> no_panic (try_map f xs)"
  unfolding no_panic_def using try_map_Inl by metis

lemma ascending_assign_ids: "distinct labels \<Longrightarrow> ascending_keys (assign_module_ids project labels)"
  by (rule assign_module_ids_spec)

lemma collect_effective_no_panic:
  assumes "set sel \<subseteq> target_keys p"
  shows "no_panic (collect_effective_dependencies p al sel imp l st)"
    and "no_panic (collect_effective_list p al sel imp l ds st)"
  using assms
proof (induction p al sel imp l st and p al sel imp l ds st
    rule: collect_effective_dependencies_collect_effective_list.induct)
  case (1 p al sel imp l visited result)
  consider "l \<notin> set sel \<or> l \<in> set imp \<or> l \<in> set visited"
    | "l \<in> set sel" "l \<notin> set imp" "l \<notin> set visited" by blast
  then show ?case
  proof cases
    case 2
    then obtain t where "index (gp_targets p) l = Inr t"
      using "1.prems" index_total [of l "gp_targets p"] by (auto simp: target_keys_def)
    with 2 "1.IH" [of t] "1.prems" show ?thesis by simp
  qed auto
next
  case (3 p al sel imp l d ds st)
  show ?case
  proof (cases "resolve_dependency p al l d")
    case (Inl e)
    then show ?thesis using no_panic_resolve(1) [of p al l d] by (simp add: no_panic_def)
  next
    case (Inr x)
    note IH = "3.IH" [OF Inr] and prems = "3.prems"
    show ?thesis
    proof (cases "collect_effective_dependencies p al sel imp x st")
      case (Inl e)
      then show ?thesis using IH(1) prems Inr by (simp add: no_panic_def)
    next
      case (Inr st')
      then show ?thesis using IH(2) [OF Inr] prems \<open>resolve_dependency p al l d = Inr x\<close> by simp
    qed
  qed
qed simp

section \<open>The stages of the import\<close>

definition selects :: "gn_project \<Rightarrow> import_options \<Rightarrow> string \<times> gn_target \<Rightarrow> bool" where
  "selects p options = (\<lambda>(label, t).
     (io_include_all_toolchains options \<or> is_default_toolchain_target p label t) \<and>
     (io_include_testonly options \<or> \<not> gt_testonly t))"

lemma eligible_step_selects:
  "selects p options lt \<Longrightarrow> eligible_step p options lt (el, a, b) = (bts_insert (fst lt) el, a, b)"
  "\<not> selects p options lt \<Longrightarrow>
     \<exists>a' b'. eligible_step p options lt (el, a, b) = (el, a', b') \<and> a' + b' = Suc (a + b)"
  by (cases lt; auto simp: selects_def eligible_step_def)+

definition eligible_post ::
    "gn_project \<Rightarrow> import_options \<Rightarrow> (string \<times> gn_target) list \<Rightarrow>
     string list \<times> nat \<times> nat \<Rightarrow> string list \<times> nat \<times> nat \<Rightarrow> bool" where
  "eligible_post p options ts = (\<lambda>(el, a, b) (el', a', b').
     set el' = set el \<union> fst ` {lt \<in> set ts. selects p options lt} \<and>
     (ascending el \<longrightarrow> ascending el') \<and>
     length (filter (selects p options) ts) + a' + b' = length ts + a + b)"

lemma eligible_fold: "eligible_post p options ts st (fold (eligible_step p options) ts st)"
proof (induction ts arbitrary: st)
  case (Cons lt ts)
  obtain el a b where st: "st = (el, a, b)" by (cases st)
  show ?case
  proof (cases "selects p options lt")
    case True
    have "{x \<in> set (lt # ts). selects p options x} = insert lt {x \<in> set ts. selects p options x}"
      using True by auto
    then show ?thesis
      using Cons [of "(bts_insert (fst lt) el, a, b)"] True ascending_bts_insert [of el "fst lt"]
      by (simp add: st eligible_step_selects(1) eligible_post_def split: prod.splits)
  next
    case False
    then obtain a' b' where step: "eligible_step p options lt (el, a, b) = (el, a', b')"
      "a' + b' = Suc (a + b)" using eligible_step_selects(2) by blast
    have "{x \<in> set (lt # ts). selects p options x} = {x \<in> set ts. selects p options x}"
      using False by auto
    then show ?thesis
      using Cons [of "(el, a', b')"] False step
      by (simp add: st eligible_post_def split: prod.splits)
  qed
qed (simp add: eligible_post_def split: prod.splits)

definition eligible_labels :: "gn_project \<Rightarrow> import_options \<Rightarrow> string set" where
  "eligible_labels p options = fst ` {lt \<in> set (gp_targets p). selects p options lt}"

lemma eligible_targets_set:
  "set (fst (eligible_targets p options)) = eligible_labels p options"
  "ascending (fst (eligible_targets p options))"
  using eligible_fold [of p options "gp_targets p" "([], 0, 0)"]
  by (auto simp: eligible_targets_def eligible_labels_def eligible_post_def split: prod.splits)

lemma length_fst_filter:
  "ascending_keys ts \<Longrightarrow> length (filter P ts) = card (fst ` {lt \<in> set ts. P lt})"
proof -
  assume "ascending_keys ts"
  then have "distinct (map fst ts)" using btm.distinct_keys by blast
  then have "distinct (map fst (filter P ts))" using distinct_map_filter by blast
  then have "card (fst ` set (filter P ts)) = length (filter P ts)"
    using distinct_card [of "map fst (filter P ts)"] by simp
  then show ?thesis by simp
qed

lemma eligible_targets_count:
  assumes "ascending_keys (gp_targets p)" and "eligible_targets p options = (el, testonly, other)"
  shows "length el + testonly + other = length (gp_targets p)"
proof -
  have facts: "set el = fst ` {lt \<in> set (gp_targets p). selects p options lt}" "ascending el"
    "length (filter (selects p options) (gp_targets p)) + testonly + other = length (gp_targets p)"
    using eligible_fold [of p options "gp_targets p" "([], 0, 0)"] assms(2)
    by (simp_all add: eligible_targets_def eligible_post_def)
  have "distinct el" using facts(2) ascending_distinct by blast
  then have "length el = card (fst ` {lt \<in> set (gp_targets p). selects p options lt})"
    using facts(1) distinct_card [of el] by metis
  then show ?thesis using facts(3) length_fst_filter [OF assms(1), of "selects p options"] by simp
qed

text \<open>The selection of \<open>import_gn_project\<close>, as the code computes it and as the policies define it.\<close>

definition selection :: "gn_project \<Rightarrow> import_options \<Rightarrow> (import_error, string list) result" where
  "selection p options =
     (if io_roots options = [] then Inr (fst (eligible_targets p options))
      else select_root_closure p options (build_aliases p) (fst (eligible_targets p options)))"

definition root_targets :: "gn_project \<Rightarrow> import_options \<Rightarrow> string set" where
  "root_targets p options =
     {v. \<exists>r\<in>set (io_roots options). resolve_label p (build_aliases p) r = Inr v}"

definition selected_labels :: "gn_project \<Rightarrow> import_options \<Rightarrow> string set" where
  "selected_labels p options =
     (if io_roots options = [] then eligible_labels p options
      else (dep_step p (build_aliases p) (fst (eligible_targets p options)))\<^sup>* `` root_targets p options)"

lemma selection_correct:
  assumes "selection p options = Inr sel"
  shows "set sel = selected_labels p options" "ascending sel" "set sel \<subseteq> eligible_labels p options"
proof -
  have "set sel = selected_labels p options \<and> ascending sel \<and> set sel \<subseteq> eligible_labels p options"
  proof (cases "io_roots options = []")
    case True
    then show ?thesis
      using assms eligible_targets_set [of p options] by (auto simp: selection_def selected_labels_def)
  next
    case False
    then have c: "select_root_closure p options (build_aliases p) (fst (eligible_targets p options)) = Inr sel"
      using assms by (simp add: selection_def)
    note closure = select_root_closure_correct [OF c]
    have "set sel \<subseteq> set (fst (eligible_targets p options))"
    proof
      fix v assume "v \<in> set sel"
      then obtain r u where "r \<in> set (io_roots options)" "resolve_label p (build_aliases p) r = Inr u"
        "(u, v) \<in> (dep_step p (build_aliases p) (fst (eligible_targets p options)))\<^sup>*"
        unfolding closure(1) by blast
      moreover from this have "u \<in> set (fst (eligible_targets p options))" using closure(3) by auto
      ultimately show "v \<in> set (fst (eligible_targets p options))"
        using dep_step_rtrancl_eligible by blast
    qed
    then show ?thesis
      using closure False eligible_targets_set [of p options]
      by (simp add: selected_labels_def root_targets_def)
  qed
  then show "set sel = selected_labels p options" "ascending sel" "set sel \<subseteq> eligible_labels p options"
    by auto
qed

lemma eligible_labels_keys: "eligible_labels p options \<subseteq> target_keys p"
  by (auto simp: eligible_labels_def target_keys_def)

definition imported_by :: "gn_project \<Rightarrow> import_options \<Rightarrow> string \<Rightarrow> bool" where
  "imported_by p options l \<longleftrightarrow>
     io_include_meta_targets options \<or>
     (\<exists>t. btm_get (gp_targets p) l = Some t \<and> is_source_target t)"

lemma imported_targets_correct:
  assumes "imported_targets p options sel = Inr imp"
  shows "ascending imp" and "set imp = {l \<in> set sel. imported_by p options l}"
proof -
  let ?step = "\<lambda>label imported.
      if io_include_meta_targets options then Inr (bts_insert label imported)
      else and_then (index (gp_targets p) label) (\<lambda>t.
        Inr (if is_source_target t then bts_insert label imported else imported))"
  have step: "v = (if imported_by p options l then bts_insert l u else u)" if "?step l u = Inr v" for l u v
    using that by (cases "io_include_meta_targets options")
      (auto simp: imported_by_def and_then_Inr_iff index_Inr_iff)
  let ?P = "\<lambda>pre imp. ascending imp \<and> set imp = {l \<in> set pre. imported_by p options l}"
  have "?P ([] @ sel) imp"
  proof (rule try_fold_prefix_invariant [OF assms [unfolded imported_targets_def]])
    fix pre x u v assume u: "?P pre u" and "?step x u = Inr v"
    from step [OF this(2)] have v: "v = (if imported_by p options x then bts_insert x u else u)" .
    show "?P (pre @ [x]) v"
    proof (cases "imported_by p options x")
      case True
      then show ?thesis using u ascending_bts_insert [of u x] unfolding v by auto
    next
      case False
      then show ?thesis using u unfolding v by auto
    qed
  qed simp
  then show "ascending imp" and "set imp = {l \<in> set sel. imported_by p options l}" by auto
qed

text \<open>The state the import gives a target.\<close>

definition import_state :: "gn_project \<Rightarrow> import_options \<Rightarrow> string \<Rightarrow> migration_state" where
  "import_state p options l =
     (if io_infer_state options then
        (case btm_get (gp_targets p) l of None \<Rightarrow> LegacyCpp | Some t \<Rightarrow> infer_state t)
      else LegacyCpp)"

lemma module_states_correct:
  assumes "module_states p options imp = Inr states"
  shows "ascending_keys states"
    and "btm_get states l = (if l \<in> set imp then Some (import_state p options l) else None)"
proof -
  let ?P = "\<lambda>pre states. ascending_keys states \<and>
    (\<forall>l. btm_get states l = (if l \<in> set pre then Some (import_state p options l) else None))"
  have "?P ([] @ imp) states"
  proof (rule try_fold_prefix_invariant [OF assms [unfolded module_states_def]])
    fix pre x u v
    assume u: "?P pre u" and step: "(if io_infer_state options
        then and_then (index (gp_targets p) x) (\<lambda>t. Inr (btm_insert x (infer_state t) u))
        else Inr (btm_insert x LegacyCpp u)) = Inr v"
    from step have "v = btm_insert x (import_state p options x) u"
      by (auto simp: import_state_def and_then_Inr_iff index_Inr_iff split: if_splits)
    then show "?P (pre @ [x]) v" using u ascending_btm_insert by auto
  qed simp
  then show "ascending_keys states"
    and "btm_get states l = (if l \<in> set imp then Some (import_state p options l) else None)" by auto
qed

lemma stages_no_panic:
  assumes "set sel \<subseteq> target_keys p"
  shows "no_panic (collect_omitted_dependencies p (build_aliases p) sel)"
    and "no_panic (imported_targets p options sel)" and "no_panic (module_states p options sel)"
proof -
  have ix: "no_panic (index (gp_targets p) l)" if "l \<in> target_keys p" for l
    using that by (simp add: no_panic_index target_keys_def)
  have keys: "resolve_dependency p (build_aliases p) u d = Inr v \<Longrightarrow> v \<in> target_keys p" for u d v
    using resolve_label_key by (simp add: resolve_dependency_Inr)
  have omit: "no_panic (omit_dependency p (build_aliases p) sel u d om)" for u d om
    unfolding omit_dependency_def
    by (intro no_panic_and_then no_panic_resolve) (simp add: keys ix no_panic_and_then)
  show "no_panic (collect_omitted_dependencies p (build_aliases p) sel)"
    unfolding collect_omitted_dependencies_def
    by (intro no_panic_try_fold [where P = "\<lambda>_. True"] no_panic_and_then ix omit TrueI)
      (use assms in auto)
  show "no_panic (imported_targets p options sel)"
    unfolding imported_targets_def
    by (rule no_panic_try_fold [where P = "\<lambda>_. True"])
      (use assms ix in \<open>auto intro!: no_panic_and_then\<close>)
  show "no_panic (module_states p options sel)"
    unfolding module_states_def
    by (rule no_panic_try_fold [where P = "\<lambda>_. True"])
      (use assms ix in \<open>auto intro!: no_panic_and_then\<close>)
qed

lemma push_dependency_no_panic: "no_panic (push_dependency p al el u d pending)"
  unfolding push_dependency_def by (rule no_panic_and_then [OF no_panic_resolve(1)]) simp

lemma select_loop_no_panic:
  "set pending \<subseteq> target_keys p \<Longrightarrow> set el \<subseteq> target_keys p \<Longrightarrow>
   no_panic (select_loop p al el pending selected)"
proof (induction p al el pending selected rule: select_loop.induct)
  case (2 p al el label pending selected)
  show ?case
  proof (cases "label \<in> set selected")
    case False
    obtain t where t: "index (gp_targets p) label = Inr t"
      using index_total [of label "gp_targets p"] "2.prems" by (auto simp: target_keys_def)
    have "no_panic (try_fold (push_dependency p al el label) (gt_deps t) pending)"
      by (rule no_panic_try_fold [where P = "\<lambda>_. True"]) (auto simp: push_dependency_no_panic)
    then have "no_panic (and_then (try_fold (push_dependency p al el label) (gt_deps t) pending)
        (\<lambda>pending'. select_loop p al el pending' (bts_insert label selected)))"
    proof (rule no_panic_and_then)
      fix pending' assume p': "try_fold (push_dependency p al el label) (gt_deps t) pending = Inr pending'"
      then have "set pending' \<subseteq> target_keys p" using push_dependencies "2.prems" by fastforce
      then show "no_panic (select_loop p al el pending' (bts_insert label selected))"
        using "2.IH"(2) [OF False t p'] "2.prems" by blast
    qed
    then show ?thesis using False t by simp
  next
    case True
    then show ?thesis using "2.IH"(1) "2.prems" by simp
  qed
qed simp

lemma push_root_no_panic: "no_panic (push_root p options (build_aliases p) el r pending)"
proof (cases "resolve_label p (build_aliases p) r")
  case (Inl e)
  then show ?thesis
    using no_panic_resolve(2) [of p "build_aliases p" r] by (simp add: push_root_def no_panic_def)
next
  case (Inr v)
  then have "v \<in> target_keys p" using resolve_label_key by blast
  then obtain t where "index (gp_targets p) v = Inr t"
    using index_total [of v "gp_targets p"] by (auto simp: target_keys_def)
  then show ?thesis using Inr by (simp add: push_root_def no_panic_def)
qed

lemma selection_no_panic: "no_panic (selection p options)"
proof -
  let ?el = "fst (eligible_targets p options)" and ?al = "build_aliases p"
  have el: "set ?el \<subseteq> target_keys p"
    using eligible_targets_set eligible_labels_keys by metis
  have "no_panic (select_root_closure p options ?al ?el)"
    unfolding select_root_closure_def
  proof (rule no_panic_and_then)
    show "no_panic (try_fold (push_root p options ?al ?el) (io_roots options) [])"
      by (rule no_panic_try_fold [where P = "\<lambda>_. True"]) (auto simp: push_root_no_panic)
    fix pending assume "try_fold (push_root p options ?al ?el) (io_roots options) [] = Inr pending"
    then have "set pending \<subseteq> target_keys p" using push_roots resolve_label_key by fastforce
    then show "no_panic (select_loop p ?al ?el pending [])" using select_loop_no_panic el by blast
  qed
  then show ?thesis by (simp add: selection_def)
qed

lemma no_panic_build_module:
  assumes "label \<in> set imp" and "set imp \<subseteq> set sel" and "set sel \<subseteq> target_keys p"
    and "set imp \<subseteq> fst ` set ids" and "set imp \<subseteq> fst ` set states"
  shows "no_panic (build_module p options al sel imp ids states label)"
proof -
  have t: "no_panic (index (gp_targets p) label)"
    using assms by (intro no_panic_index) (auto simp: target_keys_def)
  have dependency: "no_panic (build_dependency options ids states state l)" if "l \<in> set imp" for state l
    unfolding build_dependency_def
    by (intro no_panic_and_then no_panic_index no_panic_Inr) (use that assms in auto)
  have closed: "set eff \<subseteq> set imp"
    if "collect_effective_list p al sel imp label ds ([], []) = Inr (visited, eff)"
    for ds visited eff
  proof -
    have "effective p al sel imp y k \<Longrightarrow> k \<in> set imp" for y k
      by (induction rule: effective.induct) auto
    then show ?thesis using collect_effective_correct [OF that] by auto
  qed
  have m: "no_panic (index ids label)" "no_panic (index states label)"
    using assms by (auto intro!: no_panic_index)
  show ?thesis
    unfolding build_module_def
    by (intro no_panic_and_then t m collect_effective_no_panic assms(3))
      (auto intro!: no_panic_and_then no_panic_try_map dependency m dest!: closed)
qed

section \<open>The whole import\<close>

text \<open>The import once the targets are selected, and once the modules are built.\<close>

definition import_modules ::
    "gn_project \<Rightarrow> import_options \<Rightarrow> string list \<Rightarrow> omitted_dependency list \<Rightarrow> string list \<Rightarrow>
     module list \<Rightarrow> (import_error, import_output) result" where
  "import_modules p options sel omitted imp modules =
     (let m = build_manifest p options (length omitted) (sort_key module_id modules)
      in case validate m of
           Inl e \<Rightarrow> Inl (ManifestValidation e)
         | Inr _ \<Rightarrow>
             Inr \<lparr>out_manifest = m,
                  out_summary = \<lparr>is_total_targets = length (gp_targets p),
                    is_selected_targets = length sel, is_imported_modules = length imp,
                    is_skipped_meta_targets = length sel - length imp,
                    is_skipped_testonly_targets = fst (snd (eligible_targets p options)),
                    is_skipped_other_toolchain_targets = snd (snd (eligible_targets p options)),
                    is_omitted_dependencies = omitted\<rparr>\<rparr>)"

definition import_selected ::
    "gn_project \<Rightarrow> import_options \<Rightarrow> string list \<Rightarrow> (import_error, import_output) result" where
  "import_selected p options sel =
     and_then (collect_omitted_dependencies p (build_aliases p) sel) (\<lambda>omitted.
     and_then (imported_targets p options sel) (\<lambda>imp.
     and_then (module_states p options imp) (\<lambda>states.
     if io_infer_state options \<and> io_gate options = None \<and>
        list_ex (\<lambda>state. state \<noteq> LegacyCpp) (map snd states)
     then Inl MissingGateForInferredState
     else
       and_then (try_map (build_module p options (build_aliases p) sel imp
           (assign_module_ids p imp) states) imp)
         (import_modules p options sel omitted imp))))"

lemma import_gn_project_eq:
  "import_gn_project p options = and_then (selection p options) (import_selected p options)"
proof -
  obtain el a b where el: "eligible_targets p options = (el, a, b)"
    by (cases "eligible_targets p options")
  show ?thesis
    unfolding import_gn_project_def selection_def import_selected_def [abs_def]
      import_modules_def [abs_def] Let_def el case_prod_conv fst_conv snd_conv ..
qed

lemma module_states_keys: "module_states p options imp = Inr states \<Longrightarrow> fst ` set states = set imp"
proof (rule set_eqI)
  fix l assume "module_states p options imp = Inr states"
  from module_states_correct(2) [OF this, of l] show "l \<in> fst ` set states \<longleftrightarrow> l \<in> set imp"
    by (metis map_of_eq_None_iff option.discI)
qed

lemma import_modules_no_panic: "no_panic (import_modules p options sel omitted imp modules)"
  by (simp add: import_modules_def no_panic_def Let_def split: sum.splits)

lemma import_selected_no_panic:
  assumes "set sel \<subseteq> target_keys p"
  shows "no_panic (import_selected p options sel)"
  unfolding import_selected_def
proof (intro no_panic_and_then)
  show "no_panic (collect_omitted_dependencies p (build_aliases p) sel)"
    "no_panic (imported_targets p options sel)"
    using stages_no_panic [OF assms] by blast+
  fix omitted imp assume imp: "imported_targets p options sel = Inr imp"
  note c = imported_targets_correct [OF imp]
  have d: "distinct imp" using c(1) ascending_distinct by blast
  have "set imp \<subseteq> target_keys p" using c(2) assms by auto
  then show "no_panic (module_states p options imp)" using stages_no_panic(3) by blast
  fix states assume states: "module_states p options imp = Inr states"
  have "no_panic (try_map (build_module p options (build_aliases p) sel imp
      (assign_module_ids p imp) states) imp)"
    using assms c(2) module_states_keys [OF states] assign_module_ids_spec(2) [OF d, of p]
    by (intro no_panic_try_map no_panic_build_module) auto
  then have "no_panic (and_then (try_map (build_module p options (build_aliases p) sel imp
      (assign_module_ids p imp) states) imp) (import_modules p options sel omitted imp))"
    by (rule no_panic_and_then) (rule import_modules_no_panic)
  then show "no_panic (if io_infer_state options \<and> io_gate options = None \<and>
        list_ex (\<lambda>state. state \<noteq> LegacyCpp) (map snd states)
     then Inl MissingGateForInferredState
     else and_then (try_map (build_module p options (build_aliases p) sel imp
           (assign_module_ids p imp) states) imp) (import_modules p options sel omitted imp))"
    by (simp add: no_panic_def)
qed

lemma import_no_panic: "no_panic (import_gn_project p options)"
  unfolding import_gn_project_eq
proof (rule no_panic_and_then [OF selection_no_panic])
  fix sel assume "selection p options = Inr sel"
  then have "set sel \<subseteq> target_keys p" using selection_correct(3) eligible_labels_keys by blast
  then show "no_panic (import_selected p options sel)" by (rule import_selected_no_panic)
qed

section \<open>What a successful import says\<close>

definition imported_labels :: "gn_project \<Rightarrow> import_options \<Rightarrow> string set" where
  "imported_labels p options = {l \<in> selected_labels p options. imported_by p options l}"

text \<open>\<open>u\<close> depends on the imported target \<open>k\<close>, directly or through targets that are selected but not
  imported; as a set of labels, independent of the lists the code computes with.\<close>

inductive leads_to_import :: "gn_project \<Rightarrow> import_options \<Rightarrow> string \<Rightarrow> string \<Rightarrow> bool"
  for p options where
  lead_here: "x \<in> imported_labels p options \<Longrightarrow> leads_to_import p options x x"
| lead_meta: "x \<in> selected_labels p options \<Longrightarrow> \<not> imported_by p options x \<Longrightarrow>
    btm_get (gp_targets p) x = Some t \<Longrightarrow> d \<in> set (gt_deps t) \<Longrightarrow>
    resolve_label p (build_aliases p) d = Inr y \<Longrightarrow> leads_to_import p options y l \<Longrightarrow>
    leads_to_import p options x l"

definition import_dependencies :: "gn_project \<Rightarrow> import_options \<Rightarrow> string \<Rightarrow> string set" where
  "import_dependencies p options u =
     {k. k \<noteq> u \<and> (\<exists>t d y. btm_get (gp_targets p) u = Some t \<and> d \<in> set (gt_deps t) \<and>
        resolve_label p (build_aliases p) d = Inr y \<and> leads_to_import p options y k)}"

lemma effective_leads_to_import:
  assumes "set sel = selected_labels p options" and "set imp = imported_labels p options"
  shows "effective p (build_aliases p) sel imp x k \<longleftrightarrow> leads_to_import p options x k"
proof
  have imp: "y \<in> set imp \<longleftrightarrow> y \<in> set sel \<and> imported_by p options y" for y
    using assms by (simp add: imported_labels_def)
  show "effective p (build_aliases p) sel imp x k \<Longrightarrow> leads_to_import p options x k"
  proof (induction rule: effective.induct)
    case (effective_meta x t d y l)
    then show ?case
      using imp assms by (intro lead_meta [of x p options t d y l]) (auto simp: resolve_dependency_Inr)
  qed (use assms in \<open>auto intro: lead_here\<close>)
  show "leads_to_import p options x k \<Longrightarrow> effective p (build_aliases p) sel imp x k"
  proof (induction rule: leads_to_import.induct)
    case (lead_here x)
    then show ?case using assms imp by (auto intro: effective_here)
  next
    case (lead_meta x t d y l)
    then show ?case
      using imp assms by (intro effective_meta [of x sel imp p t d "build_aliases p" y l])
        (auto simp: resolve_dependency_Inr)
  qed
qed

text \<open>What the import makes of one target, up to the names of the modules.\<close>

definition describes ::
    "gn_project \<Rightarrow> import_options \<Rightarrow> (string \<Rightarrow> string) \<Rightarrow> string \<Rightarrow> module \<Rightarrow> bool" where
  "describes p options name l md \<longleftrightarrow>
     module_id md = name l \<and> module_source_label md = Some l \<and> module_path md = label_path l \<and>
     module_state md = import_state p options l \<and>
     map dep_module (module_dependencies md)
       = sorted_list_of_set (name ` import_dependencies p options l) \<and>
     (\<forall>d\<in>set (module_dependencies md). \<exists>k\<in>import_dependencies p options l. dep_module d = name k \<and>
        dep_boundary d = infer_boundary (import_state p options l) (import_state p options k)
          (io_infer_state options))"

lemma effective_ascending:
  "collect_effective_dependencies p al sel imp l st = Inr st' \<Longrightarrow> ascending (snd st) \<Longrightarrow> ascending (snd st')"
  "collect_effective_list p al sel imp l ds st = Inr st' \<Longrightarrow> ascending (snd st) \<Longrightarrow> ascending (snd st')"
proof (induction p al sel imp l st and p al sel imp l ds st arbitrary: st' and st'
    rule: collect_effective_dependencies_collect_effective_list.induct)
  case (1 p al sel imp l visited result)
  consider "l \<notin> set sel" | "l \<in> set sel" "l \<in> set imp" | "l \<in> set sel" "l \<notin> set imp" "l \<in> set visited"
    | "l \<in> set sel" "l \<notin> set imp" "l \<notin> set visited" by blast
  then show ?case
  proof cases
    case 2
    then show ?thesis using "1.prems" ascending_bts_insert [of result l] by auto
  next
    case 4
    then obtain t where t: "index (gp_targets p) l = Inr t"
      "collect_effective_list p al sel imp l (gt_deps t) (bts_insert l visited, result) = Inr st'"
      using "1.prems" by (auto split: sum.splits)
    show ?thesis using "1.IH" [OF _ _ _ t] 4 "1.prems"(2) by simp
  qed (use "1.prems" in auto)
next
  case (3 p al sel imp l d ds st)
  from "3.prems"(1) obtain y u where u: "resolve_dependency p al l d = Inr y"
    "collect_effective_dependencies p al sel imp y st = Inr u"
    "collect_effective_list p al sel imp l ds u = Inr st'"
    by (auto split: sum.splits)
  show ?case by (rule "3.IH"(2) [OF u]) (rule "3.IH"(1) [OF u(1,2) "3.prems"(2)])
qed simp

lemma sort_key_names:
  assumes "distinct (map f xs)" and "f ` set xs = A"
  shows "map f (sort_key f xs) = sorted_list_of_set A"
proof (rule sorted_distinct_set_unique)
  show "distinct (map f (sort_key f xs))" using assms(1) by (simp add: distinct_map)
  have "finite A" using assms(2) by auto
  then show "set (map f (sort_key f xs)) = set (sorted_list_of_set A)" using assms(2) by simp
qed simp_all

lemma build_dependency_Inr:
  "build_dependency options ids states state l = Inr d \<longleftrightarrow>
     (\<exists>i s. btm_get ids l = Some i \<and> btm_get states l = Some s \<and>
        d = \<lparr>dep_module = i, dep_boundary = infer_boundary state s (io_infer_state options),
             dep_evidence = [], dep_reviews = []\<rparr>)"
  by (auto simp: build_dependency_def and_then_Inr_iff index_Inr_iff)

lemma build_module_describes:
  assumes b: "build_module p options (build_aliases p) sel imp ids states l = Inr md"
    and sel: "set sel = selected_labels p options" and imp: "set imp = imported_labels p options"
    and l: "l \<in> set imp"
    and states: "\<And>k. btm_get states k = (if k \<in> set imp then Some (import_state p options k) else None)"
    and inj: "inj_on (btm_get ids) (set imp)"
  shows "describes p options (\<lambda>k. the (btm_get ids k)) l md"
proof -
  let ?name = "\<lambda>k. the (btm_get ids k)"
  from b obtain t visited eff deps i where m:
    "index (gp_targets p) l = Inr t"
    "collect_effective_list p (build_aliases p) sel imp l (gt_deps t) ([], []) = Inr (visited, eff)"
    "try_map (build_dependency options ids states (import_state p options l))
       (filter (\<lambda>k. k \<noteq> l) eff) = Inr deps"
    "btm_get ids l = Some i"
    "module_id md = i" "module_source_label md = Some l" "module_path md = label_path l"
    "module_state md = import_state p options l"
    "module_dependencies md = sort_key dep_module deps"
    using states l by (auto simp: build_module_def and_then_Inr_iff index_Inr_iff)
  let ?ks = "filter (\<lambda>k. k \<noteq> l) eff"
  have ks: "set ?ks = import_dependencies p options l"
    using collect_effective_correct [OF m(2)] m(1)
    by (auto simp: import_dependencies_def effective_leads_to_import [OF sel imp]
        resolve_dependency_Inr index_Inr_iff)
  have "leads_to_import p options y k \<Longrightarrow> k \<in> set imp" for y k
    by (induction rule: leads_to_import.induct) (simp_all add: imp)
  then have sub: "set ?ks \<subseteq> set imp" unfolding ks by (auto simp: import_dependencies_def)
  have "ascending eff" using effective_ascending(2) [OF m(2)] by simp
  then have dist: "distinct ?ks" using ascending_distinct ascending_filter by blast
  have all: "list_all2 (\<lambda>k d. build_dependency options ids states (import_state p options l) k = Inr d)
      ?ks deps" using m(3) unfolding try_map_Inr_iff .
  have each: "list_all2 (\<lambda>k d. k \<in> set ?ks \<and> btm_get ids k = Some (dep_module d) \<and>
      dep_boundary d = infer_boundary (import_state p options l) (import_state p options k)
        (io_infer_state options)) ?ks deps"
    using all
  proof (rule list.rel_mono_strong)
    fix k d assume k: "k \<in> set ?ks"
      and b: "build_dependency options ids states (import_state p options l) k = Inr d"
    then have "k \<in> set imp" using sub by blast
    then show "k \<in> set ?ks \<and> btm_get ids k = Some (dep_module d) \<and>
      dep_boundary d = infer_boundary (import_state p options l) (import_state p options k)
        (io_infer_state options)"
      using b k states [of k] unfolding build_dependency_Inr by auto
  qed
  have names: "map dep_module deps = map ?name ?ks"
    using each by (induction rule: list_all2_induct) simp_all
  have "inj_on ?name (set ?ks)"
  proof (rule inj_onI)
    fix a b assume ab: "a \<in> set ?ks" "b \<in> set ?ks" and eq: "?name a = ?name b"
    have "btm_get ids k \<noteq> None" if "k \<in> set ?ks" for k
      using that each unfolding list_all2_conv_all_nth by (metis in_set_conv_nth option.discI)
    then have "btm_get ids a = btm_get ids b" using ab eq by (metis option.expand)
    then show "a = b" using ab sub inj by (meson inj_onD subsetD)
  qed
  then have "distinct (map dep_module deps)" using dist by (simp add: names distinct_map)
  moreover have "dep_module ` set deps = ?name ` import_dependencies p options l"
    using arg_cong [OF names, of set] ks by simp
  ultimately have sorted: "map dep_module (module_dependencies md) =
      sorted_list_of_set (?name ` import_dependencies p options l)"
    unfolding m(9) by (rule sort_key_names)
  have "\<exists>k\<in>import_dependencies p options l. dep_module d = ?name k \<and>
      dep_boundary d = infer_boundary (import_state p options l) (import_state p options k)
        (io_infer_state options)" if "d \<in> set (module_dependencies md)" for d
  proof -
    from that obtain j where "j < length deps" "d = deps ! j" by (auto simp: m(9) in_set_conv_nth)
    then show ?thesis
      using each ks unfolding list_all2_conv_all_nth by (intro bexI [of _ "?ks ! j"]) auto
  qed
  then show ?thesis using m sorted unfolding describes_def by simp
qed

lemma import_stages:
  assumes "import_gn_project p options = Inr out"
  obtains sel omitted imp states modules where "selection p options = Inr sel"
    and "set sel = selected_labels p options" and "ascending sel"
    and "ascending imp" and "set imp = imported_labels p options"
    and "module_states p options imp = Inr states"
    and "try_map (build_module p options (build_aliases p) sel imp (assign_module_ids p imp) states) imp
      = Inr modules"
    and "import_modules p options sel omitted imp modules = Inr out"
proof -
  from assms obtain sel where sel: "selection p options = Inr sel" "import_selected p options sel = Inr out"
    unfolding import_gn_project_eq and_then_Inr_iff by blast
  from sel(2) obtain omitted imp states modules where r: "imported_targets p options sel = Inr imp"
    "module_states p options imp = Inr states"
    "try_map (build_module p options (build_aliases p) sel imp (assign_module_ids p imp) states) imp
      = Inr modules"
    "import_modules p options sel omitted imp modules = Inr out"
    by (auto simp: import_selected_def and_then_Inr_iff split: if_splits)
  note s = selection_correct [OF sel(1)] and i = imported_targets_correct [OF r(1)]
  have "set imp = imported_labels p options" using i(2) s(1) by (simp add: imported_labels_def)
  then show thesis using that sel(1) s i r by blast
qed

lemma list_all2_describes_ids:
  "list_all2 (\<lambda>l md. describes p options name l md) ls mds \<Longrightarrow> map module_id mds = map name ls"
proof (induction rule: list_all2_induct)
  case (Cons l ls md mds)
  have "module_id md = name l" using Cons.hyps(1) unfolding describes_def by blast
  then show ?case using Cons.IH by simp
qed simp

lemma import_describes:
  assumes "import_gn_project p options = Inr out"
  obtains name where "inj_on name (imported_labels p options)"
    and "map module_id (manifest_modules (out_manifest out)) =
      sorted_list_of_set (name ` imported_labels p options)"
    and "\<And>md. md \<in> set (manifest_modules (out_manifest out)) \<Longrightarrow>
      \<exists>l\<in>imported_labels p options. describes p options name l md"
proof -
  from assms obtain sel omitted imp states modules where s:
    "selection p options = Inr sel" "set sel = selected_labels p options"
    "ascending imp" "set imp = imported_labels p options" "module_states p options imp = Inr states"
    "try_map (build_module p options (build_aliases p) sel imp (assign_module_ids p imp) states) imp
      = Inr modules"
    "import_modules p options sel omitted imp modules = Inr out"
    by (rule import_stages)
  let ?ids = "assign_module_ids p imp" and ?name = "\<lambda>k. the (btm_get (assign_module_ids p imp) k)"
  have d: "distinct imp" using s(3) ascending_distinct by blast
  note ids = assign_module_ids_spec [OF d, of p]
  have each: "list_all2 (\<lambda>l md. describes p options ?name l md) imp modules"
    using s(6) unfolding try_map_Inr_iff
  proof (rule list.rel_mono_strong)
    fix l md assume l: "l \<in> set imp"
      and b: "build_module p options (build_aliases p) sel imp ?ids states l = Inr md"
    show "describes p options ?name l md"
      by (rule build_module_describes [OF b s(2,4) l module_states_correct(2) [OF s(5)] ids(3)])
  qed
  have names: "map module_id modules = map ?name imp"
    using each by (rule list_all2_describes_ids)
  have some: "btm_get ?ids k \<noteq> None" if "k \<in> set imp" for k
    using that ids(2) by (metis map_of_eq_None_iff)
  have inj: "inj_on ?name (set imp)"
  proof (rule inj_onI)
    fix a b assume ab: "a \<in> set imp" "b \<in> set imp" and eq: "?name a = ?name b"
    then have "btm_get ?ids a = btm_get ?ids b" using some by (metis option.expand)
    then show "a = b" using ab ids(3) by (meson inj_onD)
  qed
  have out: "manifest_modules (out_manifest out) = sort_key module_id modules"
    using s(7) by (auto simp: import_modules_def build_manifest_def Let_def split: sum.splits)
  show thesis
  proof (rule that)
    show "inj_on ?name (imported_labels p options)" using inj s(4) by simp
    have "distinct (map module_id modules)" unfolding names using inj d by (simp add: distinct_map)
    moreover have "module_id ` set modules = ?name ` imported_labels p options"
      using arg_cong [OF names, of set] s(4) by simp
    ultimately show "map module_id (manifest_modules (out_manifest out)) =
        sorted_list_of_set (?name ` imported_labels p options)"
      unfolding out by (rule sort_key_names)
    fix md assume "md \<in> set (manifest_modules (out_manifest out))"
    then obtain j where "j < length modules" "md = modules ! j" by (auto simp: out in_set_conv_nth)
    then show "\<exists>l\<in>imported_labels p options. describes p options ?name l md"
      using each s(4) unfolding list_all2_conv_all_nth by (metis nth_mem)
  qed
qed

lemma import_valid:
  assumes "import_gn_project p options = Inr out"
  shows "valid_manifest (out_manifest out)"
proof -
  from assms obtain sel omitted imp modules where
    "import_modules p options sel omitted imp modules = Inr out" by (rule import_stages)
  then have "validate (out_manifest out) = Inr ()"
    by (auto simp: import_modules_def Let_def split: sum.splits)
  then show ?thesis by (auto simp: validate_def validation_errors_clean split: if_splits)
qed

text \<open>Without inference the import claims nothing that was not proved: all modules are legacy C++ and
  all edges internal.\<close>

lemma import_conservative:
  assumes "import_gn_project p options = Inr out" and "\<not> io_infer_state options"
    and "md \<in> set (manifest_modules (out_manifest out))"
  shows "module_state md = LegacyCpp" and "\<forall>d\<in>set (module_dependencies md). dep_boundary d = CppInternal"
proof -
  obtain name l where "describes p options name l md"
    by (rule import_describes [OF assms(1)]) (use assms(3) in blast)
  then show "module_state md = LegacyCpp"
    and "\<forall>d\<in>set (module_dependencies md). dep_boundary d = CppInternal"
    using assms(2) by (auto simp: describes_def import_state_def infer_boundary_def)
qed

lemma import_counts:
  assumes "import_gn_project p options = Inr out" and "ascending_keys (gp_targets p)"
    and "io_roots options = []"
  shows "is_selected_targets (out_summary out) + is_skipped_testonly_targets (out_summary out)
      + is_skipped_other_toolchain_targets (out_summary out) = is_total_targets (out_summary out)"
proof -
  obtain el a b where el: "eligible_targets p options = (el, a, b)"
    by (cases "eligible_targets p options")
  from assms(1) obtain sel omitted imp modules where s: "selection p options = Inr sel"
    "import_modules p options sel omitted imp modules = Inr out" by (rule import_stages)
  have "sel = el" using s(1) assms(3) by (simp add: selection_def el)
  then show ?thesis
    using s(2) eligible_targets_count [OF assms(2) el]
    by (auto simp: import_modules_def Let_def el split: sum.splits)
qed

text \<open>\<open>infer_state\<close> by what the target holds.\<close>

definition has_cpp :: "gn_target \<Rightarrow> bool" where
  "has_cpp t \<longleftrightarrow> (\<exists>s\<in>set (gt_sources t). has_extension cpp_extensions s)"

definition has_rust :: "gn_target \<Rightarrow> bool" where
  "has_rust t \<longleftrightarrow> gt_crate_root t \<noteq> None \<or> starts_with ''rust_'' (gt_target_type t) \<or>
     (\<exists>s\<in>set (gt_sources t). has_extension [''rs''] s)"

lemma rs_not_cpp: "''rs'' \<notin> set cpp_extensions"
  by (simp add: cpp_extensions_def)

lemma infer_state_iff:
  "infer_state t =
     (if has_rust t then (if has_cpp t then Bridged else RustOwned) else LegacyCpp)"
proof -
  have "fold infer_state_step ss (c, r) =
      (c \<or> (\<exists>s\<in>set ss. has_extension cpp_extensions s), r \<or> (\<exists>s\<in>set ss. has_extension [''rs''] s))"
    for ss c r
    using rs_not_cpp
    by (induction ss arbitrary: c r) (auto simp: infer_state_step_def has_extension_def split: option.split)
  then show ?thesis
    by (auto simp: infer_state_def has_cpp_def has_rust_def Let_def split: bool.splits)
qed

section \<open>Properties\<close>

text \<open>A sanitised label is a well-formed identifier: it starts with a lower-case letter, holds only
  lower-case letters, digits and underscores, and does not end with an underscore.\<close>

theorem sanitize_id_well_formed: "module_id_format (sanitize_id label)"
  by (rule sanitize_id_format)

text \<open>C29: every imported label gets an identifier and no two labels share one, whatever the labels.\<close>

theorem assign_module_ids_injective:
  assumes "distinct labels"
  shows "fst ` set (assign_module_ids project labels) = set labels \<and>
    inj_on (btm_get (assign_module_ids project labels)) (set labels)"
  using assign_module_ids_spec [OF assms] by blast

lemma assign_module_ids_injective_witness:
  "inj_on (btm_get (assign_module_ids example_project [''//a:b'', ''//a/b''])) {''//a:b'', ''//a/b''}"
proof -
  have "distinct [''//a:b'', ''//a/b'']" by code_simp
  from assign_module_ids_injective [OF this, of example_project] show ?thesis by simp
qed

text \<open>C28: the import indexes its maps only with keys they hold: no project and no options make it panic.\<close>

theorem import_gn_project_no_panic: "import_gn_project project options \<noteq> Inl (IndexPanic key)"
  using import_no_panic [of project options] by (simp add: no_panic_def)

text \<open>C15: a successful import is a valid manifest whose modules are the imported targets, each under an
  identifier of its own, in the order of the identifiers; a module depends on exactly the other imported
  targets that its target leads to through targets selected but not imported.\<close>

theorem import_gn_project_correct:
  assumes "import_gn_project project options = Inr out"
  shows "valid_manifest (out_manifest out) \<and>
    (\<exists>name. inj_on name (imported_labels project options) \<and>
       map module_id (manifest_modules (out_manifest out)) =
         sorted_list_of_set (name ` imported_labels project options) \<and>
       (\<forall>md\<in>set (manifest_modules (out_manifest out)).
          \<exists>l\<in>imported_labels project options. describes project options name l md))"
proof (rule conjI [OF import_valid [OF assms]])
  show "\<exists>name. inj_on name (imported_labels project options) \<and>
       map module_id (manifest_modules (out_manifest out)) =
         sorted_list_of_set (name ` imported_labels project options) \<and>
       (\<forall>md\<in>set (manifest_modules (out_manifest out)).
          \<exists>l\<in>imported_labels project options. describes project options name l md)"
    by (rule import_describes [OF assms]) blast
qed

lemma example_import:
  obtains out where "import_gn_project example_project example_options = Inr out"
    and "map (\<lambda>md. (module_id md, map dep_module (module_dependencies md))) (manifest_modules (out_manifest out))
      = [(''a_a'', [''b_b'', ''c_c'']), (''b_b'', []), (''c_c'', [])]"
proof
  let ?r = "import_gn_project example_project example_options"
  have "\<not> isl ?r" by code_simp
  then show "?r = Inr (projr ?r)" by simp
  show "map (\<lambda>md. (module_id md, map dep_module (module_dependencies md)))
      (manifest_modules (out_manifest (projr ?r)))
    = [(''a_a'', [''b_b'', ''c_c'']), (''b_b'', []), (''c_c'', [])]" by code_simp
qed

lemma import_gn_project_correct_witness:
  "\<exists>out. import_gn_project example_project example_options = Inr out \<and> valid_manifest (out_manifest out) \<and>
     map module_id (manifest_modules (out_manifest out)) = [''a_a'', ''b_b'', ''c_c'']"
proof (rule example_import)
  fix out assume o: "import_gn_project example_project example_options = Inr out"
    "map (\<lambda>md. (module_id md, map dep_module (module_dependencies md))) (manifest_modules (out_manifest out))
      = [(''a_a'', [''b_b'', ''c_c'']), (''b_b'', []), (''c_c'', [])]"
  from arg_cong [OF o(2), of "map fst"]
  have "map module_id (manifest_modules (out_manifest out)) = [''a_a'', ''b_b'', ''c_c'']"
    by (simp add: o_def)
  then show "\<exists>out. import_gn_project example_project example_options = Inr out \<and>
      valid_manifest (out_manifest out) \<and>
      map module_id (manifest_modules (out_manifest out)) = [''a_a'', ''b_b'', ''c_c'']"
    using o(1) conjunct1 [OF import_gn_project_correct [OF o(1)]] by (intro exI conjI)
qed

text \<open>Without state inference the import claims nothing: every module is legacy C++ and every edge
  internal to it. With inference a target is Rust-owned only if it has Rust and no C++ source.\<close>

theorem import_gn_project_conservative:
  assumes "import_gn_project project options = Inr out" and "\<not> io_infer_state options"
    and "md \<in> set (manifest_modules (out_manifest out))"
  shows "module_state md = LegacyCpp \<and> (\<forall>d\<in>set (module_dependencies md). dep_boundary d = CppInternal)"
  using import_conservative [OF assms] by blast

text \<open>With no roots the summary accounts for every target: selected, skipped as test-only, or skipped
  for its toolchain.\<close>

theorem import_gn_project_counts:
  assumes "import_gn_project project options = Inr out" and "ascending_keys (gp_targets project)"
    and "io_roots options = []"
  shows "is_selected_targets (out_summary out) + is_skipped_testonly_targets (out_summary out)
      + is_skipped_other_toolchain_targets (out_summary out) = is_total_targets (out_summary out)"
  by (rule import_counts [OF assms])

text \<open>The inferred state of a target, by what it holds: Rust-owned needs Rust and excludes C++.\<close>

lemma infer_state_by_sources:
  "infer_state t = (if has_rust t then (if has_cpp t then Bridged else RustOwned) else LegacyCpp)"
  by (rule infer_state_iff)

end
