(* ===== verification/FileSystem.thy ===== *)
theory FileSystem
  imports Paths
begin

text \<open>
  What the crates use of \<open>std::fs\<close>: a finite tree of directories, files with their bytes and symbolic
  links, read but not written while a command runs. A \<open>Path\<close> is the list of its components; absolute
  real paths are the segments below the root. The operating system gives up after forty links.
\<close>

section \<open>Paths and nodes\<close>

type_synonym path = "component list"

datatype fs_node = RegularFile string | Directory | Symlink string

record file_system =
  fs_nodes :: "(string list \<times> fs_node) list"
  fs_cwd :: "string list"

definition fs_lookup :: "file_system \<Rightarrow> string list \<Rightarrow> fs_node option" where
  "fs_lookup fs real = (if real = [] then Some Directory else map_of (fs_nodes fs) real)"

definition absolute :: "string list \<Rightarrow> path" where
  "absolute real = RootDir # map Normal real"

definition is_absolute :: "path \<Rightarrow> bool" where
  "is_absolute p \<longleftrightarrow> (case p of RootDir # _ \<Rightarrow> True | _ \<Rightarrow> False)"

text \<open>\<open>Path::join\<close>\<close>

definition path_join :: "path \<Rightarrow> path \<Rightarrow> path" where
  "path_join p q = (if is_absolute q then q else p @ q)"

text \<open>\<open>Path::join\<close> on the texts of paths\<close>

definition join_path :: "string \<Rightarrow> string \<Rightarrow> string" where
  "join_path base path =
     (if starts_with ''/'' path then path
      else if base = [] \<or> ends_with ''/'' base then base @ path else base @ ''/'' @ path)"

section \<open>Resolution\<close>

definition max_links :: nat where
  "max_links = 40"

text \<open>Walks from the real directory \<open>dir\<close>, with at most \<open>links\<close> symbolic links.\<close>

fun follow :: "file_system \<Rightarrow> nat \<Rightarrow> string list \<Rightarrow> path \<Rightarrow> string list option" where
  "follow fs links dir [] = Some dir"
| "follow fs links dir (RootDir # cs) = follow fs links [] cs"
| "follow fs links dir (CurDir # cs) = follow fs links dir cs"
| "follow fs links dir (ParentDir # cs) = follow fs links (butlast dir) cs"
| "follow fs links dir (Normal w # cs) =
     (case fs_lookup fs (dir @ [w]) of
        None \<Rightarrow> None
      | Some Directory \<Rightarrow> follow fs links (dir @ [w]) cs
      | Some (RegularFile _) \<Rightarrow> if cs = [] then Some (dir @ [w]) else None
      | Some (Symlink target) \<Rightarrow>
          if links = 0 then None else follow fs (links - 1) dir (components target @ cs))"

text \<open>\<open>canonicalize\<close>, \<open>is_file\<close>, \<open>is_dir\<close>, \<open>symlink_metadata\<close> and \<open>read\<close>; the errors of the operating
  system are not told apart.\<close>

definition canonicalize :: "file_system \<Rightarrow> path \<Rightarrow> string list option" where
  "canonicalize fs p = (if p = [] then None else follow fs max_links (fs_cwd fs) p)"

definition metadata :: "file_system \<Rightarrow> path \<Rightarrow> fs_node option" where
  "metadata fs p = Option.bind (canonicalize fs p) (fs_lookup fs)"

definition is_regular :: "fs_node option \<Rightarrow> bool" where
  "is_regular n \<longleftrightarrow> (case n of Some (RegularFile _) \<Rightarrow> True | _ \<Rightarrow> False)"

definition is_symlink :: "fs_node option \<Rightarrow> bool" where
  "is_symlink n \<longleftrightarrow> (case n of Some (Symlink _) \<Rightarrow> True | _ \<Rightarrow> False)"

definition is_file :: "file_system \<Rightarrow> path \<Rightarrow> bool" where
  "is_file fs p \<longleftrightarrow> is_regular (metadata fs p)"

definition is_dir :: "file_system \<Rightarrow> path \<Rightarrow> bool" where
  "is_dir fs p \<longleftrightarrow> metadata fs p = Some Directory"

definition symlink_metadata :: "file_system \<Rightarrow> path \<Rightarrow> fs_node option" where
  "symlink_metadata fs p =
     (if p = [] then None
      else (case last p of
              Normal w \<Rightarrow>
                (case follow fs max_links (fs_cwd fs) (butlast p) of
                   None \<Rightarrow> None
                 | Some dir \<Rightarrow>
                     if fs_lookup fs dir = Some Directory then fs_lookup fs (dir @ [w]) else None)
            | _ \<Rightarrow> metadata fs p))"

definition read_file :: "file_system \<Rightarrow> path \<Rightarrow> string option" where
  "read_file fs p = (case metadata fs p of Some (RegularFile bytes) \<Rightarrow> Some bytes | _ \<Rightarrow> None)"

section \<open>UTF-8\<close>

text \<open>\<open>String::from_utf8\<close>: the ranges of the bytes after a leading byte, for well-formed sequences.\<close>

definition utf8_tail :: "nat \<Rightarrow> (nat \<times> nat) list option" where
  "utf8_tail b =
     (if b < 0x80 then Some []
      else if 0xC2 \<le> b \<and> b \<le> 0xDF then Some [(0x80, 0xBF)]
      else if b = 0xE0 then Some [(0xA0, 0xBF), (0x80, 0xBF)]
      else if b = 0xED then Some [(0x80, 0x9F), (0x80, 0xBF)]
      else if 0xE1 \<le> b \<and> b \<le> 0xEF then Some [(0x80, 0xBF), (0x80, 0xBF)]
      else if b = 0xF0 then Some [(0x90, 0xBF), (0x80, 0xBF), (0x80, 0xBF)]
      else if 0xF1 \<le> b \<and> b \<le> 0xF3 then Some [(0x80, 0xBF), (0x80, 0xBF), (0x80, 0xBF)]
      else if b = 0xF4 then Some [(0x80, 0x8F), (0x80, 0xBF), (0x80, 0xBF)]
      else None)"

fun in_ranges :: "(nat \<times> nat) list \<Rightarrow> string \<Rightarrow> bool" where
  "in_ranges [] s = True"
| "in_ranges ((lo, hi) # ranges) [] = False"
| "in_ranges ((lo, hi) # ranges) (c # s) = (lo \<le> byte_of c \<and> byte_of c \<le> hi \<and> in_ranges ranges s)"

fun valid_utf8 :: "string \<Rightarrow> bool" where
  "valid_utf8 [] = True"
| "valid_utf8 (c # s) =
     (case utf8_tail (byte_of c) of
        None \<Rightarrow> False
      | Some ranges \<Rightarrow> in_ranges ranges s \<and> valid_utf8 (drop (length ranges) s))"

text \<open>\<open>fs::read_to_string\<close>, and \<open>char::is_control\<close> of some character: U+0000 to U+001F and
  U+007F to U+009F.\<close>

definition read_to_string :: "file_system \<Rightarrow> path \<Rightarrow> string option" where
  "read_to_string fs p =
     (case read_file fs p of Some bytes \<Rightarrow> if valid_utf8 bytes then Some bytes else None | None \<Rightarrow> None)"

fun has_control :: "string \<Rightarrow> bool" where
  "has_control [] = False"
| "has_control (c # s) =
     (byte_of c < 0x20 \<or> byte_of c = 0x7F \<or>
      (byte_of c = 0xC2 \<and> s \<noteq> [] \<and> 0x80 \<le> byte_of (hd s) \<and> byte_of (hd s) \<le> 0x9F) \<or> has_control s)"

text \<open>\<open>str::chars\<close>: the characters of a string, each as its bytes.\<close>

definition is_continuation :: "char \<Rightarrow> bool" where
  "is_continuation c \<longleftrightarrow> 0x80 \<le> byte_of c \<and> byte_of c \<le> 0xBF"

function chars :: "string \<Rightarrow> string list" where
  "chars [] = []"
| "chars (c # s) = (c # takeWhile is_continuation s) # chars (dropWhile is_continuation s)"
  by pat_completeness auto
termination by (relation "measure length") (auto simp: le_imp_less_Suc length_dropWhile_le)

lemma concat_chars [simp]: "concat (chars s) = s"
  by (induction s rule: chars.induct) simp_all

text \<open>\<open>String::from_utf8_lossy\<close>: every maximal prefix of a sequence that is not completed becomes U+FFFD.\<close>

fun matched_ranges :: "(nat \<times> nat) list \<Rightarrow> string \<Rightarrow> nat" where
  "matched_ranges [] s = 0"
| "matched_ranges ((lo, hi) # ranges) [] = 0"
| "matched_ranges ((lo, hi) # ranges) (c # s) =
     (if lo \<le> byte_of c \<and> byte_of c \<le> hi then Suc (matched_ranges ranges s) else 0)"

fun utf8_lossy :: "string \<Rightarrow> string" where
  "utf8_lossy [] = []"
| "utf8_lossy (c # s) =
     (case utf8_tail (byte_of c) of
        None \<Rightarrow> [CHR 0xEF, CHR 0xBF, CHR 0xBD] @ utf8_lossy s
      | Some ranges \<Rightarrow>
          if in_ranges ranges s then c # take (length ranges) s @ utf8_lossy (drop (length ranges) s)
          else [CHR 0xEF, CHR 0xBF, CHR 0xBD] @ utf8_lossy (drop (matched_ranges ranges s) s))"

text \<open>\<open>fs::read\<close> where the caller tells \<open>NotFound\<close> from the other errors: a walk that fails because a
  name does not exist.\<close>

datatype read_outcome = Read string | NotFound | OtherFailure

fun follow_missing :: "file_system \<Rightarrow> nat \<Rightarrow> string list \<Rightarrow> path \<Rightarrow> bool" where
  "follow_missing fs links dir [] = False"
| "follow_missing fs links dir (RootDir # cs) = follow_missing fs links [] cs"
| "follow_missing fs links dir (CurDir # cs) = follow_missing fs links dir cs"
| "follow_missing fs links dir (ParentDir # cs) = follow_missing fs links (butlast dir) cs"
| "follow_missing fs links dir (Normal w # cs) =
     (case fs_lookup fs (dir @ [w]) of
        None \<Rightarrow> True
      | Some Directory \<Rightarrow> follow_missing fs links (dir @ [w]) cs
      | Some (RegularFile _) \<Rightarrow> False
      | Some (Symlink target) \<Rightarrow>
          if links = 0 then False else follow_missing fs (links - 1) dir (components target @ cs))"

definition read_outcome_of :: "file_system \<Rightarrow> path \<Rightarrow> read_outcome" where
  "read_outcome_of fs p =
     (case read_file fs p of
        Some bytes \<Rightarrow> Read bytes
      | None \<Rightarrow> if p = [] \<or> follow_missing fs max_links (fs_cwd fs) p then NotFound else OtherFailure)"

definition path_exists :: "file_system \<Rightarrow> path \<Rightarrow> bool" where
  "path_exists fs p \<longleftrightarrow> metadata fs p \<noteq> None"

section \<open>Walks without links\<close>

text \<open>A real path: every proper prefix is a directory.\<close>

definition real_path :: "file_system \<Rightarrow> string list \<Rightarrow> bool" where
  "real_path fs p \<longleftrightarrow> (\<forall>k<length p. fs_lookup fs (take k p) = Some Directory)"

definition real_dir :: "file_system \<Rightarrow> string list \<Rightarrow> bool" where
  "real_dir fs p \<longleftrightarrow> real_path fs p \<and> fs_lookup fs p = Some Directory"

lemma real_dir_Nil [simp]: "real_dir fs []"
  by (simp add: real_dir_def real_path_def fs_lookup_def)

lemma real_path_snoc: "real_path fs (dir @ [w]) \<longleftrightarrow> real_dir fs dir"
  by (auto simp: real_path_def real_dir_def less_Suc_eq all_conj_distrib)

lemma real_dir_butlast: "real_dir fs dir \<Longrightarrow> real_dir fs (butlast dir)"
  by (cases dir rule: rev_cases) (auto simp: real_path_snoc real_dir_def)

lemma follow_real:
  "follow fs n dir cs = Some p \<Longrightarrow> real_dir fs dir \<Longrightarrow>
   real_path fs p \<and> (fs_lookup fs p = Some Directory \<or> is_regular (fs_lookup fs p))"
proof (induction fs n dir cs rule: follow.induct)
  case (1 fs n dir)
  then show ?case by (auto simp: real_dir_def)
next
  case (5 fs n dir w cs)
  then show ?case
  proof (cases "fs_lookup fs (dir @ [w])")
    case (Some node)
    then show ?thesis
    proof (cases node)
      case Directory
      then have "real_dir fs (dir @ [w])"
        using Some "5.prems"(2) unfolding real_dir_def [of fs "dir @ [w]"] real_path_snoc by blast
      then show ?thesis using "5.IH"(1) [OF Some Directory] "5.prems"(1) Some Directory by simp
    next
      case (RegularFile b)
      then have "p = dir @ [w]" using "5.prems"(1) Some by (simp split: if_splits)
      then show ?thesis using Some RegularFile "5.prems"(2) by (simp add: real_path_snoc is_regular_def)
    next
      case (Symlink t)
      then have "n \<noteq> 0" "follow fs (n - 1) dir (components t @ cs) = Some p"
        using "5.prems"(1) Some by (simp_all split: if_splits)
      then show ?thesis using "5.IH"(2) [OF Some Symlink] "5.prems"(2) by simp
    qed
  qed simp
qed (simp_all add: real_dir_butlast)

lemma follow_absolute_dir:
  "real_dir fs p \<Longrightarrow> follow fs n dir (absolute p @ cs) = follow fs n p cs"
proof -
  have "real_dir fs (d @ ws) \<Longrightarrow> follow fs n d (map Normal ws @ cs) = follow fs n (d @ ws) cs" for d ws
  proof (induction ws arbitrary: d)
    case (Cons w ws)
    have "fs_lookup fs (d @ [w]) = Some Directory"
    proof (cases ws)
      case Nil
      then show ?thesis using Cons.prems by (simp add: real_dir_def)
    next
      case (Cons x xs)
      then have "length d + 1 < length (d @ w # ws)" by simp
      then have "fs_lookup fs (take (length d + 1) (d @ w # ws)) = Some Directory"
        using Cons.prems unfolding real_dir_def real_path_def by blast
      then show ?thesis by simp
    qed
    then show ?case using Cons.IH [of "d @ [w]"] Cons.prems by simp
  qed simp
  from this [of "[]" p] show "real_dir fs p \<Longrightarrow> follow fs n dir (absolute p @ cs) = follow fs n p cs"
    by (simp add: absolute_def)
qed

section \<open>Resolvable paths are short\<close>

text \<open>Between two links a walk descends the tree, so a path of plain segments that resolves cannot be
  longer than the depth of the tree for each link and one more.\<close>

definition fs_depth :: "file_system \<Rightarrow> nat" where
  "fs_depth fs = Max (insert 0 ((length \<circ> fst) ` set (fs_nodes fs)))"

lemma fs_lookup_depth: "fs_lookup fs p = Some x \<Longrightarrow> length p \<le> fs_depth fs"
  unfolding fs_lookup_def fs_depth_def
  by (cases "p = []") (auto dest!: map_of_SomeD intro!: Max_ge image_eqI)

definition walk_bound :: "file_system \<Rightarrow> nat \<Rightarrow> string list \<Rightarrow> path \<Rightarrow> nat" where
  "walk_bound fs n dir cs =
     n * (fs_depth fs + 1) + (fs_depth fs + 1 - (if cs = [] then length dir else 0))"

lemma walk_bound_le: "walk_bound fs n dir cs \<le> n * (fs_depth fs + 1) + (fs_depth fs + 1)"
  by (simp add: walk_bound_def)

lemma follow_bound:
  "follow fs n dir (cs @ map Normal ws) \<noteq> None \<Longrightarrow> length ws \<le> walk_bound fs n dir cs"
proof (induction fs n dir "cs @ map Normal ws" arbitrary: cs ws rule: follow.induct)
  case (1 fs n dir)
  then show ?case by simp
next
  case (2 fs n dir rest)
  then obtain cs' where c: "cs = RootDir # cs'" "rest = cs' @ map Normal ws" by (cases cs) auto
  have "follow fs n [] (cs' @ map Normal ws) \<noteq> None" using "2.prems" c by simp
  then have "length ws \<le> walk_bound fs n [] cs'" using "2.hyps"(1) [OF c(2)] c(2) by simp
  then show ?case using walk_bound_le [of fs n "[]" cs'] c by (simp add: walk_bound_def)
next
  case (3 fs n dir rest)
  then obtain cs' where c: "cs = CurDir # cs'" "rest = cs' @ map Normal ws" by (cases cs) auto
  have "follow fs n dir (cs' @ map Normal ws) \<noteq> None" using "3.prems" c by simp
  then have "length ws \<le> walk_bound fs n dir cs'" using "3.hyps"(1) [OF c(2)] c(2) by simp
  then show ?case using walk_bound_le [of fs n dir cs'] c by (simp add: walk_bound_def)
next
  case (4 fs n dir rest)
  then obtain cs' where c: "cs = ParentDir # cs'" "rest = cs' @ map Normal ws" by (cases cs) auto
  have "follow fs n (butlast dir) (cs' @ map Normal ws) \<noteq> None" using "4.prems" c by simp
  then have "length ws \<le> walk_bound fs n (butlast dir) cs'" using "4.hyps"(1) [OF c(2)] c(2) by simp
  then show ?case using walk_bound_le [of fs n "butlast dir" cs'] c by (simp add: walk_bound_def)
next
  case (5 fs n dir w rest)
  obtain node where node: "fs_lookup fs (dir @ [w]) = Some node"
  proof (cases "fs_lookup fs (dir @ [w])")
    case None
    then show thesis using "5.prems" "5.hyps"(3) [symmetric] by simp
  qed
  have depth: "length dir + 1 \<le> fs_depth fs" using fs_lookup_depth [OF node] by simp
  have run: "follow fs n dir (Normal w # rest) \<noteq> None" using "5.prems" unfolding "5.hyps"(3) .
  obtain cs' ws' where rest: "rest = cs' @ map Normal ws'"
    and split: "cs = Normal w # cs' \<and> ws = ws' \<or> cs = [] \<and> cs' = [] \<and> ws = w # ws'"
  proof (cases cs)
    case Nil
    then show thesis using "5.hyps"(3) by (cases ws) (auto intro: that [of "[]"])
  next
    case (Cons c cs')
    then show thesis using "5.hyps"(3) by (intro that [of cs' ws]) auto
  qed
  show ?case
  proof (cases node)
    case (RegularFile b)
    then have "rest = []" using run node by (simp split: if_splits)
    then show ?thesis using rest split depth by (auto simp: walk_bound_def)
  next
    case Directory
    then have "length ws' \<le> walk_bound fs n (dir @ [w]) cs'"
      using "5.hyps"(1) [OF node _ rest] run node rest by simp
    then show ?thesis using split depth walk_bound_le [of fs n "dir @ [w]" cs']
      by (auto simp: walk_bound_def)
  next
    case (Symlink t)
    then have "n \<noteq> 0" "follow fs (n - 1) dir (components t @ rest) \<noteq> None"
      using run node by (simp_all split: if_splits)
    then have "length ws' \<le> walk_bound fs (n - 1) dir (components t @ cs')"
      using "5.hyps"(2) [OF node Symlink, of "components t @ cs'" ws'] rest by simp
    also have "\<dots> \<le> (n - 1) * (fs_depth fs + 1) + (fs_depth fs + 1)" by (rule walk_bound_le)
    also have "\<dots> = n * (fs_depth fs + 1)" using \<open>n \<noteq> 0\<close> by (cases n) simp_all
    finally show ?thesis using split depth by (auto simp: walk_bound_def)
  qed
qed

section \<open>There are finitely many resolvable paths\<close>

definition fs_names :: "file_system \<Rightarrow> string set" where
  "fs_names fs = (last \<circ> fst) ` set (fs_nodes fs)"

lemma follow_names:
  "follow fs n dir (cs @ map Normal ws) \<noteq> None \<Longrightarrow> set ws \<subseteq> fs_names fs"
proof (induction fs n dir "cs @ map Normal ws" arbitrary: cs ws rule: follow.induct)
  case (2 fs n dir rest)
  then obtain cs' where c: "cs = RootDir # cs'" "rest = cs' @ map Normal ws" by (cases cs) auto
  then show ?case using "2.hyps"(1) [OF c(2)] "2.prems" by simp
next
  case (3 fs n dir rest)
  then obtain cs' where c: "cs = CurDir # cs'" "rest = cs' @ map Normal ws" by (cases cs) auto
  then show ?case using "3.hyps"(1) [OF c(2)] "3.prems" by simp
next
  case (4 fs n dir rest)
  then obtain cs' where c: "cs = ParentDir # cs'" "rest = cs' @ map Normal ws" by (cases cs) auto
  then show ?case using "4.hyps"(1) [OF c(2)] "4.prems" by simp
next
  case (5 fs n dir w rest)
  have run: "follow fs n dir (Normal w # rest) \<noteq> None" using "5.prems" unfolding "5.hyps"(3) .
  then obtain node where node: "fs_lookup fs (dir @ [w]) = Some node"
    by (cases "fs_lookup fs (dir @ [w])") auto
  then have w: "w \<in> fs_names fs"
    by (auto simp: fs_lookup_def fs_names_def dest!: map_of_SomeD intro!: image_eqI)
  obtain cs' ws' where rest: "rest = cs' @ map Normal ws'" and split: "set ws \<subseteq> insert w (set ws')"
  proof (cases cs)
    case Nil
    then show thesis using "5.hyps"(3) by (cases ws) (auto intro: that [of "[]"])
  next
    case (Cons c cs')
    then show thesis using "5.hyps"(3) by (intro that [of cs' ws]) auto
  qed
  have "set ws' \<subseteq> fs_names fs"
  proof (cases node)
    case (RegularFile b)
    then show ?thesis using run node rest by (simp split: if_splits)
  next
    case Directory
    then show ?thesis using "5.hyps"(1) [OF node _ rest] run node rest by simp
  next
    case (Symlink t)
    then have "n \<noteq> 0" "follow fs (n - 1) dir (components t @ rest) \<noteq> None"
      using run node by (simp_all split: if_splits)
    then show ?thesis using "5.hyps"(2) [OF node Symlink, of "components t @ cs'" ws'] rest by simp
  qed
  with w split show ?case by blast
qed simp_all

lemma finite_resolvable: "finite {ws. metadata fs (absolute root @ map Normal ws) \<noteq> None}"
proof -
  let ?bound = "walk_bound fs max_links (fs_cwd fs) (absolute root)"
  have "{ws. metadata fs (absolute root @ map Normal ws) \<noteq> None}
      \<subseteq> {ws. set ws \<subseteq> fs_names fs \<and> length ws \<le> ?bound}"
  proof
    fix ws assume "ws \<in> {ws. metadata fs (absolute root @ map Normal ws) \<noteq> None}"
    then have "follow fs max_links (fs_cwd fs) (absolute root @ map Normal ws) \<noteq> None"
      by (cases "canonicalize fs (absolute root @ map Normal ws)")
        (simp_all add: metadata_def canonicalize_def absolute_def)
    then show "ws \<in> {ws. set ws \<subseteq> fs_names fs \<and> length ws \<le> ?bound}"
      using follow_names follow_bound by blast
  qed
  moreover have "finite {ws. set ws \<subseteq> fs_names fs \<and> length ws \<le> ?bound}"
    by (rule finite_lists_length_le) (simp add: fs_names_def)
  ultimately show ?thesis by (rule finite_subset)
qed

end
