(* ===== verification/Coverage.thy ===== *)
theory Coverage
  imports Validation FileSystem
begin

text \<open>
  \<open>crates/chromifer-coverage/src/lib.rs\<close>: line coverage of the manifest's sources, from an LLVM export.
  SHA-256 and the TOML and JSON codecs come from other crates and are the fields of \<open>codecs\<close>, an argument
  of the definitions that use them. Counts of lines are 64-bit words with the arithmetic of the code:
  saturating where it says so, wrapping in the two sums of \<open>aggregate_totals\<close> (their release-mode
  meaning).
\<close>

section \<open>Data\<close>

record line_counts =
  lc_count :: "64 word"
  lc_covered :: "64 word"
  lc_basis_points :: "32 word"

record file_coverage =
  fc_path :: string
  fc_lines :: line_counts

record module_coverage =
  mc_module :: string
  mc_total_sources :: nat
  mc_measured_sources :: nat
  mc_missing_sources :: "string list"
  mc_lines :: line_counts

record coverage_totals =
  ct_manifest_sources :: nat
  ct_measured_sources :: nat
  ct_missing_sources :: "string list"
  ct_lines :: line_counts

record coverage_report =
  cr_schema_version :: "32 word"
  cr_manifest_sha256 :: string
  cr_baseline :: string
  cr_llvm_export_sha256 :: string
  cr_llvm_export_version :: string
  cr_files :: "file_coverage list"
  cr_modules :: "module_coverage list"
  cr_totals :: coverage_totals

record llvm_file =
  lf_filename :: string
  lf_count :: "64 word"
  lf_covered :: "64 word"

record llvm_export =
  le_kind :: string
  le_version :: string
  le_data :: "llvm_file list list"

record coverage_options =
  co_manifest :: string
  co_source_root :: string
  co_export :: string
  co_output :: string
  co_force :: bool
  co_check :: bool

record coverage_summary =
  cs_modules :: nat
  cs_manifest_sources :: nat
  cs_measured_sources :: nat
  cs_missing_sources :: nat
  cs_covered_lines :: "64 word"
  cs_total_lines :: "64 word"
  cs_line_basis_points :: "32 word"
  cs_output :: string
  cs_checked :: bool

record generated_coverage =
  gc_report_json :: string
  gc_report :: coverage_report
  gc_summary :: coverage_summary

datatype load_error = LoadRead string | LoadParse string | LoadValidation errors

datatype coverage_error =
    InvalidSourceRoot string
  | ReadFile string
  | ParseExport
  | ParseReport
  | UnsupportedExportType string
  | EmptyExportVersion
  | InvalidManifestSource string
  | InvalidSourceFile string
  | InvalidCoveragePath string
  | DuplicateCoverage string
  | InvalidLineCounts string "64 word" "64 word"
  | UnsupportedReportSchema "32 word" "32 word"
  | ManifestMismatch
  | OutputExists string
  | Drift string
  | ManifestLoad load_error
  | Encode

text \<open>The codecs of the other crates: hash, decode or encode, \<open>None\<close> on failure.\<close>

record codecs =
  sha256_hex :: "string \<Rightarrow> string"
  manifest_from_toml :: "string \<Rightarrow> manifest option"
  export_from_json :: "string \<Rightarrow> llvm_export option"
  report_from_json :: "string \<Rightarrow> coverage_report option"
  report_to_json :: "coverage_report \<Rightarrow> string option"

definition report_schema_version :: "32 word" where
  "report_schema_version = 1"

definition llvm_export_type :: string where
  "llvm_export_type = ''llvm.coverage.json.export''"

definition display :: "string list \<Rightarrow> string" where
  "display segments = replace_char (CHR 0x5C) (CHR ''/'') (join ''/'' segments)"

definition display_path :: "string \<Rightarrow> string" where
  "display_path path = replace_char (CHR 0x5C) (CHR ''/'') path"

text \<open>\<open>read_file\<close> and \<open>Manifest::load\<close>\<close>

definition read_path :: "file_system \<Rightarrow> string \<Rightarrow> (coverage_error, string) result" where
  "read_path fs path = ok_or (read_file fs (components path)) (ReadFile (display_path path))"

definition load_manifest :: "codecs \<Rightarrow> file_system \<Rightarrow> string \<Rightarrow> (load_error, manifest) result" where
  "load_manifest cx fs path =
     and_then (ok_or (read_to_string fs (components path)) (LoadRead path)) (\<lambda>source.
     and_then (ok_or (manifest_from_toml cx source) (LoadParse path)) (\<lambda>m.
       case validate m of Inl e \<Rightarrow> Inl (LoadValidation e) | Inr _ \<Rightarrow> Inr m))"

section \<open>Line counts\<close>

definition line_coverage :: "64 word \<Rightarrow> 64 word \<Rightarrow> line_counts" where
  "line_coverage count covered =
     \<lparr>lc_count = count, lc_covered = covered,
      lc_basis_points =
        (if count = 0 then 10000 else ucast (min (sat_mul covered 10000 div count) 10000))\<rparr>"

definition validate_line_coverage :: "string \<Rightarrow> line_counts \<Rightarrow> (coverage_error, unit) result" where
  "validate_line_coverage path counts =
     (if lc_covered counts > lc_count counts \<or>
         lc_basis_points counts \<noteq> lc_basis_points (line_coverage (lc_count counts) (lc_covered counts))
      then Inl (InvalidLineCounts path (lc_count counts) (lc_covered counts))
      else Inr ())"

section \<open>Sources\<close>

definition check_manifest_source :: "string \<Rightarrow> string list \<Rightarrow> (coverage_error, string list) result" where
  "check_manifest_source source sources =
     (if normalize_repo_relative_path source = Some source then Inr (bts_insert source sources)
      else Inl (InvalidManifestSource source))"

definition manifest_sources :: "manifest \<Rightarrow> (coverage_error, string list) result" where
  "manifest_sources m =
     try_fold (\<lambda>md. try_fold check_manifest_source (module_sources md)) (manifest_modules m) []"

text \<open>The loop over the components of a source: no component may be missing or a link.\<close>

fun descend :: "file_system \<Rightarrow> string \<Rightarrow> path \<Rightarrow> path \<Rightarrow> (coverage_error, path) result" where
  "descend fs relative current [] = Inr current"
| "descend fs relative current (Normal w # cs) =
     (let current = current @ [Normal w]
      in case symlink_metadata fs current of
           None \<Rightarrow> Inl (InvalidSourceFile relative)
         | Some node \<Rightarrow>
             if is_symlink (Some node) then Inl (InvalidSourceFile relative)
             else descend fs relative current cs)"
| "descend fs relative current (_ # cs) = Inl (InvalidSourceFile relative)"

definition starts_below :: "string list \<Rightarrow> string list \<Rightarrow> bool" where
  "starts_below root real \<longleftrightarrow> take (length root) real = root"

definition resolve_source_file ::
    "file_system \<Rightarrow> string list \<Rightarrow> string \<Rightarrow> (coverage_error, string list) result" where
  "resolve_source_file fs root relative =
     (if normalize_repo_relative_path relative \<noteq> Some relative then Inl (InvalidManifestSource relative)
      else
        and_then (descend fs relative (absolute root) (components relative)) (\<lambda>current.
        and_then (ok_or (canonicalize fs current) (InvalidSourceFile relative)) (\<lambda>canonical.
          if \<not> starts_below root canonical \<or> \<not> is_file fs (absolute canonical)
          then Inl (InvalidSourceFile relative) else Inr canonical)))"

definition canonical_directory :: "file_system \<Rightarrow> string \<Rightarrow> string list option" where
  "canonical_directory fs path =
     (if symlink_metadata fs (components path) = Some Directory
      then canonicalize fs (components path) else None)"

definition normalize_below ::
    "string list \<Rightarrow> string \<Rightarrow> string list \<Rightarrow> (coverage_error, string option) result" where
  "normalize_below root filename canonical =
     and_then (ok_or (normalize_repo_relative_path (display (drop (length root) canonical)))
         (InvalidCoveragePath filename))
       (\<lambda>normalized. Inr (Some normalized))"

definition coverage_path ::
    "file_system \<Rightarrow> string list \<Rightarrow> string \<Rightarrow> (coverage_error, string option) result" where
  "coverage_path fs root filename =
     (if is_absolute (components filename) then
        and_then (ok_or (canonicalize fs (components filename)) (InvalidCoveragePath filename))
          (\<lambda>canonical. if \<not> starts_below root canonical then Inr None
                       else normalize_below root filename canonical)
      else
        and_then (ok_or (normalize_repo_relative_path filename) (InvalidCoveragePath filename))
          (\<lambda>normalized. and_then (resolve_source_file fs root normalized)
             (\<lambda>resolved. if \<not> starts_below root resolved then Inl (InvalidCoveragePath filename)
                         else normalize_below root filename resolved)))"

section \<open>Aggregation\<close>

type_synonym measured = "(string \<times> line_counts) list"

text \<open>The loop over the sources of a module: missing sources, and the counts of the measured ones.\<close>

definition aggregate_source ::
    "measured \<Rightarrow> string \<Rightarrow> nat \<times> string list \<times> 64 word \<times> 64 word \<Rightarrow>
     nat \<times> string list \<times> 64 word \<times> 64 word" where
  "aggregate_source measured source = (\<lambda>(n, missing, count, covered).
     case btm_get measured source of
       Some counts \<Rightarrow> (n + 1, missing, sat_add count (lc_count counts), sat_add covered (lc_covered counts))
     | None \<Rightarrow> (n, missing @ [source], count, covered))"

definition aggregate_module :: "measured \<Rightarrow> module \<Rightarrow> module_coverage" where
  "aggregate_module measured md =
     (let (n, missing, count, covered) =
            fold (aggregate_source measured) (module_sources md) (0, [], 0, 0)
      in \<lparr>mc_module = module_id md, mc_total_sources = length (module_sources md),
          mc_measured_sources = n, mc_missing_sources = missing,
          mc_lines = line_coverage count covered\<rparr>)"

definition aggregate_modules :: "manifest \<Rightarrow> measured \<Rightarrow> module_coverage list" where
  "aggregate_modules m measured = map (aggregate_module measured) (manifest_modules m)"

definition aggregate_totals :: "string list \<Rightarrow> measured \<Rightarrow> coverage_totals" where
  "aggregate_totals sources measured =
     \<lparr>ct_manifest_sources = length sources, ct_measured_sources = length measured,
      ct_missing_sources = filter (\<lambda>s. btm_get measured s = None) sources,
      ct_lines = line_coverage (sum_list (map (lc_count \<circ> snd) measured))
        (sum_list (map (lc_covered \<circ> snd) measured))\<rparr>"

section \<open>Generating a report\<close>

definition measure_file ::
    "file_system \<Rightarrow> string list \<Rightarrow> string list \<Rightarrow> llvm_file \<Rightarrow> measured \<Rightarrow>
     (coverage_error, measured) result" where
  "measure_file fs root sources file measured =
     and_then (coverage_path fs root (lf_filename file)) (\<lambda>found.
       case found of
         None \<Rightarrow> Inr measured
       | Some path \<Rightarrow>
           if path \<notin> set sources then Inr measured
           else if lf_covered file > lf_count file
           then Inl (InvalidLineCounts path (lf_count file) (lf_covered file))
           else if btm_get measured path \<noteq> None then Inl (DuplicateCoverage path)
           else Inr (btm_insert path (line_coverage (lf_count file) (lf_covered file)) measured))"

definition build_report ::
    "codecs \<Rightarrow> manifest \<Rightarrow> string \<Rightarrow> string \<Rightarrow> llvm_export \<Rightarrow> string list \<Rightarrow> measured \<Rightarrow>
     coverage_report" where
  "build_report cx m manifest_bytes export_bytes export sources measured =
     \<lparr>cr_schema_version = report_schema_version,
      cr_manifest_sha256 = sha256_hex cx manifest_bytes,
      cr_baseline = project_baseline (manifest_project m),
      cr_llvm_export_sha256 = sha256_hex cx export_bytes,
      cr_llvm_export_version = le_version export,
      cr_files = map (\<lambda>(path, counts). \<lparr>fc_path = path, fc_lines = counts\<rparr>) measured,
      cr_modules = aggregate_modules m measured,
      cr_totals = aggregate_totals sources measured\<rparr>"

definition report_summary :: "coverage_options \<Rightarrow> coverage_report \<Rightarrow> coverage_summary" where
  "report_summary options report =
     \<lparr>cs_modules = length (cr_modules report),
      cs_manifest_sources = ct_manifest_sources (cr_totals report),
      cs_measured_sources = ct_measured_sources (cr_totals report),
      cs_missing_sources = length (ct_missing_sources (cr_totals report)),
      cs_covered_lines = lc_covered (ct_lines (cr_totals report)),
      cs_total_lines = lc_count (ct_lines (cr_totals report)),
      cs_line_basis_points = lc_basis_points (ct_lines (cr_totals report)),
      cs_output = display_path (co_output options), cs_checked = co_check options\<rparr>"

definition generate ::
    "codecs \<Rightarrow> file_system \<Rightarrow> coverage_options \<Rightarrow> (coverage_error, generated_coverage) result" where
  "generate cx fs options =
     and_then (ok_or (canonical_directory fs (co_source_root options))
         (InvalidSourceRoot (display_path (co_source_root options)))) (\<lambda>root.
     and_then (read_path fs (co_manifest options)) (\<lambda>manifest_bytes.
     and_then (case load_manifest cx fs (co_manifest options) of
         Inl e \<Rightarrow> Inl (ManifestLoad e) | Inr m \<Rightarrow> Inr m) (\<lambda>m.
     and_then (read_path fs (co_export options)) (\<lambda>export_bytes.
     and_then (ok_or (export_from_json cx export_bytes) ParseExport) (\<lambda>export.
     if le_kind export \<noteq> llvm_export_type then Inl (UnsupportedExportType (le_kind export))
     else if is_blank (le_version export) then Inl EmptyExportVersion
     else
       and_then (manifest_sources m) (\<lambda>sources.
       and_then (try_fold (\<lambda>source _. and_then (resolve_source_file fs root source) (\<lambda>_. Inr ()))
           sources ()) (\<lambda>_.
       and_then (try_fold (measure_file fs root sources) (concat (le_data export)) []) (\<lambda>measured.
       let report = build_report cx m manifest_bytes export_bytes export sources measured
       in and_then (ok_or (report_to_json cx report) Encode) (\<lambda>json.
         Inr \<lparr>gc_report_json = json @ [CHR 0x0A], gc_report = report,
              gc_summary = report_summary options report\<rparr>)))))))))"

text \<open>\<open>generate_and_write\<close>: the second component is what it writes to the output, if it writes.\<close>

definition generate_and_write ::
    "codecs \<Rightarrow> file_system \<Rightarrow> coverage_options \<Rightarrow>
     (coverage_error, coverage_summary \<times> string option) result" where
  "generate_and_write cx fs options =
     and_then (generate cx fs options) (\<lambda>generated.
       if co_check options then
         and_then (read_path fs (co_output options)) (\<lambda>current.
           if current \<noteq> gc_report_json generated then Inl (Drift (display_path (co_output options)))
           else Inr (gc_summary generated, None))
       else if metadata fs (components (co_output options)) \<noteq> None \<and> \<not> co_force options
       then Inl (OutputExists (display_path (co_output options)))
       else Inr (gc_summary generated, Some (gc_report_json generated)))"

section \<open>Verifying a report\<close>

definition validate_file ::
    "file_coverage \<Rightarrow> string list \<Rightarrow> (coverage_error, string list) result" where
  "validate_file file paths =
     (if normalize_repo_relative_path (fc_path file) \<noteq> Some (fc_path file)
      then Inl (InvalidCoveragePath (fc_path file))
      else if fc_path file \<in> set paths then Inl (DuplicateCoverage (fc_path file))
      else and_then (validate_line_coverage (fc_path file) (fc_lines file))
             (\<lambda>_. Inr (bts_insert (fc_path file) paths)))"

definition validate_report :: "coverage_report \<Rightarrow> (coverage_error, unit) result" where
  "validate_report report =
     (if is_blank (cr_llvm_export_version report) then Inl EmptyExportVersion
      else
        and_then (try_fold validate_file (cr_files report) []) (\<lambda>_.
        and_then (try_fold (\<lambda>md _. validate_line_coverage (mc_module md) (mc_lines md))
            (cr_modules report) ()) (\<lambda>_.
        validate_line_coverage ''totals'' (ct_lines (cr_totals report)))))"

definition load_report ::
    "codecs \<Rightarrow> file_system \<Rightarrow> string \<Rightarrow> (coverage_error, coverage_report) result" where
  "load_report cx fs path =
     and_then (read_path fs path) (\<lambda>bytes.
     and_then (ok_or (report_from_json cx bytes) ParseReport) (\<lambda>report.
       if cr_schema_version report \<noteq> report_schema_version
       then Inl (UnsupportedReportSchema (cr_schema_version report) report_schema_version)
       else and_then (validate_report report) (\<lambda>_. Inr report)))"

definition verify_report_manifest ::
    "codecs \<Rightarrow> coverage_report \<Rightarrow> manifest \<Rightarrow> string \<Rightarrow> (coverage_error, unit) result" where
  "verify_report_manifest cx report m manifest_bytes =
     and_then (validate_report report) (\<lambda>_.
       if cr_manifest_sha256 report \<noteq> sha256_hex cx manifest_bytes \<or>
          cr_baseline report \<noteq> project_baseline (manifest_project m)
       then Inl ManifestMismatch
       else
         and_then (manifest_sources m) (\<lambda>sources.
         let measured = btm_of_list (map (\<lambda>f. (fc_path f, fc_lines f)) (cr_files report))
         in if list_ex (\<lambda>(path, _). path \<notin> set sources) measured \<or>
               cr_modules report \<noteq> aggregate_modules m measured \<or>
               cr_totals report \<noteq> aggregate_totals sources measured
            then Inl ManifestMismatch else Inr ()))"

definition report_file :: "coverage_report \<Rightarrow> string \<Rightarrow> file_coverage option" where
  "report_file report path = find (\<lambda>f. fc_path f = path) (cr_files report)"

definition report_module :: "coverage_report \<Rightarrow> string \<Rightarrow> module_coverage option" where
  "report_module report i = find (\<lambda>md. mc_module md = i) (cr_modules report)"

interpretation report_files: keyed_lookup cr_files fc_path report_file
  by unfold_locales (simp add: report_file_def)

interpretation report_modules: keyed_lookup cr_modules mc_module report_module
  by unfold_locales (simp add: report_module_def)

end
