(* ===== verification/CoverageCorrect.thy ===== *)
theory CoverageCorrect
  imports Coverage
begin

text \<open>
  What coverage reports guarantee: percentages in range, sources resolved without following a link, and
  that every generated report passes its own verification.
\<close>

section \<open>Line counts\<close>

lemma basis_points_eq:
  "unat (lc_basis_points (line_coverage count covered)) =
     (if count = 0 then 10000
      else min (min (unat covered * 10000) (2 ^ 64 - 1) div unat count) 10000)"
proof (cases "count = 0")
  case False
  let ?q = "sat_mul covered 10000 div count"
  have q: "unat ?q = min (unat covered * 10000) (2 ^ 64 - 1) div unat count"
    by (simp add: unat_div unat_sat_mul)
  have m: "unat (min ?q 10000) = min (unat ?q) 10000"
    by (simp add: min_def word_le_nat_alt)
  have "unat (min ?q 10000) < 2 ^ 32" unfolding m by simp
  then have "unat (ucast (min ?q 10000) :: 32 word) = unat (min ?q 10000)"
    unfolding unsigned_ucast_eq by (simp add: take_bit_nat_eq_self)
  then show ?thesis using False by (simp add: line_coverage_def m q)
qed (simp add: line_coverage_def)

definition counts_valid :: "line_counts \<Rightarrow> bool" where
  "counts_valid c \<longleftrightarrow>
     lc_covered c \<le> lc_count c \<and>
     lc_basis_points c = lc_basis_points (line_coverage (lc_count c) (lc_covered c))"

lemma validate_line_coverage_ok: "validate_line_coverage path c = Inr () \<longleftrightarrow> counts_valid c"
  by (auto simp: validate_line_coverage_def counts_valid_def not_less)

lemma counts_valid_line_coverage: "covered \<le> count \<Longrightarrow> counts_valid (line_coverage count covered)"
  by (simp add: counts_valid_def line_coverage_def)

lemma sat_add_mono: "a \<le> b \<Longrightarrow> c \<le> d \<Longrightarrow> sat_add a c \<le> (sat_add b d :: 'a::len word)"
  unfolding word_le_nat_alt unat_sat_add by (simp add: min_def)

section \<open>Sources are resolved without links\<close>

lemma symlink_metadata_below:
  assumes "real_dir fs real" and "symlink_metadata fs (absolute real @ [Normal w]) = Some node"
  shows "fs_lookup fs (real @ [w]) = Some node"
proof -
  have "follow fs max_links (fs_cwd fs) (absolute real) = Some real"
    using follow_absolute_dir [OF assms(1), of max_links "fs_cwd fs" "[]"] by simp
  then show ?thesis
    using assms by (simp add: symlink_metadata_def absolute_def butlast_append real_dir_def split: if_splits)
qed

lemma symlink_metadata_parent:
  assumes "real_dir fs real" and "fs_lookup fs (real @ [w]) = Some node" and "\<not> is_symlink (Some node)"
    and "symlink_metadata fs (absolute (real @ [w]) @ [Normal v]) = Some node'"
  shows "real_dir fs (real @ [w])"
proof (cases node)
  case Directory
  then show ?thesis using assms(1,2) by (simp add: real_dir_def [of fs "real @ [w]"] real_path_snoc)
next
  case (RegularFile b)
  have "follow fs max_links (fs_cwd fs) (absolute (real @ [w])) = follow fs max_links real [Normal w]"
    using follow_absolute_dir [OF assms(1), of max_links "fs_cwd fs" "[Normal w]"] by (simp add: absolute_def)
  then have "follow fs max_links (fs_cwd fs) (absolute (real @ [w])) = Some (real @ [w])"
    using assms(2) RegularFile by simp
  then have False
    using assms(2,4) RegularFile by (simp add: symlink_metadata_def absolute_def butlast_append)
  then show ?thesis ..
next
  case (Symlink t)
  then show ?thesis using assms(3) by (simp add: is_symlink_def)
qed

lemma descend_real:
  "descend fs relative (absolute real) (map Normal ws) = Inr current \<Longrightarrow> real_dir fs real \<Longrightarrow> ws \<noteq> [] \<Longrightarrow>
   current = absolute (real @ ws) \<and> real_dir fs (real @ butlast ws) \<and>
   (\<exists>node. fs_lookup fs (real @ ws) = Some node \<and> \<not> is_symlink (Some node))"
proof (induction ws arbitrary: real)
  case (Cons w ws)
  from Cons.prems(1) obtain node where node: "symlink_metadata fs (absolute real @ [Normal w]) = Some node"
    "\<not> is_symlink (Some node)" "descend fs relative (absolute (real @ [w])) (map Normal ws) = Inr current"
    by (auto simp: Let_def absolute_def split: option.splits if_splits)
  have lookup: "fs_lookup fs (real @ [w]) = Some node"
    by (rule symlink_metadata_below [OF Cons.prems(2) node(1)])
  show ?case
  proof (cases ws)
    case Nil
    then show ?thesis using node lookup Cons.prems(2) by auto
  next
    case (Cons v vs)
    then obtain node' where "symlink_metadata fs (absolute (real @ [w]) @ [Normal v]) = Some node'"
      using node(3) by (auto simp: Let_def split: option.splits)
    then have "real_dir fs (real @ [w])"
      by (rule symlink_metadata_parent [OF Cons.prems(2) lookup node(2)])
    from Cons.IH [OF node(3) this] show ?thesis using Cons by simp
  qed
qed simp

lemma repo_path_components:
  assumes "repo_path s"
  obtains ws where "ws \<noteq> []" and "components s = map Normal ws" and "s = join ''/'' ws"
  using assms components_repo_path unfolding repo_path_def by blast

lemma resolve_source_file_real:
  assumes "resolve_source_file fs root relative = Inr real" and "real_dir fs root"
  obtains ws where "ws \<noteq> []" and "components relative = map Normal ws" and "relative = join ''/'' ws"
    and "real = root @ ws" and "real_dir fs (root @ butlast ws)" and "is_regular (fs_lookup fs real)"
proof -
  have n: "normalize_repo_relative_path relative = Some relative"
    using assms(1) by (auto simp: resolve_source_file_def split: if_splits)
  then obtain ws where ws: "ws \<noteq> []" "components relative = map Normal ws" "relative = join ''/'' ws"
    using repo_path_components [OF normalize_repo_path] by blast
  from assms(1) n obtain current where c: "descend fs relative (absolute root) (map Normal ws) = Inr current"
    "canonicalize fs current = Some real" "is_file fs (absolute real)"
    by (auto simp: resolve_source_file_def and_then_Inr_iff ok_or_Inr_iff ws(2) split: if_splits)
  note d = descend_real [OF c(1) assms(2) ws(1)]
  then obtain node where node: "fs_lookup fs (root @ ws) = Some node" "\<not> is_symlink (Some node)" by blast
  obtain us w where us: "ws = us @ [w]" using ws(1) by (cases ws rule: rev_cases) auto
  have "follow fs n dir (absolute (root @ ws)) = follow fs n (root @ us) [Normal w]" for n dir
    using follow_absolute_dir [of fs "root @ us" n dir "[Normal w]"] d us by (simp add: absolute_def)
  then have f: "follow fs n dir (absolute (root @ ws)) = Some (root @ ws)" for n dir
    using node us by (cases node) (simp_all add: is_symlink_def)
  then have real: "real = root @ ws" using c(2) d by (simp add: canonicalize_def absolute_def)
  have "metadata fs (absolute real) = fs_lookup fs real"
    unfolding metadata_def canonicalize_def using f real by (simp add: absolute_def)
  then have "is_regular (fs_lookup fs real)" using c(3) by (simp add: is_file_def)
  then show thesis using that ws real d by blast
qed

section \<open>Generated reports verify\<close>

lemma manifest_sources_set:
  assumes "manifest_sources m = Inr sources"
  shows "ascending sources" and "\<forall>s\<in>set sources. normalize_repo_relative_path s = Some s"
proof -
  let ?P = "\<lambda>sources. ascending sources \<and> (\<forall>s\<in>set sources. normalize_repo_relative_path s = Some s)"
  have step: "?P v" if "?P u" "check_manifest_source s u = Inr v" for s u v
    using that ascending_bts_insert by (auto simp: check_manifest_source_def split: if_splits)
  have steps: "?P v" if "?P u" "try_fold check_manifest_source ss u = Inr v" for ss u v
    using try_fold_invariant [where P = ?P, OF that(2,1)] step by blast
  have "?P sources"
    by (rule try_fold_invariant [where P = ?P, OF assms [unfolded manifest_sources_def]])
      (simp, use steps in blast)
  then show "ascending sources" and "\<forall>s\<in>set sources. normalize_repo_relative_path s = Some s" by auto
qed

definition measured_inv :: "string list \<Rightarrow> measured \<Rightarrow> bool" where
  "measured_inv sources measured \<longleftrightarrow>
     ascending_keys measured \<and> fst ` set measured \<subseteq> set sources \<and>
     (\<forall>c\<in>snd ` set measured. counts_valid c)"

lemma measured_inv_insert:
  assumes "measured_inv sources measured" and "path \<in> set sources" and "counts_valid c"
  shows "measured_inv sources (btm_insert path c measured)"
proof -
  have asc: "ascending_keys measured" "ascending_keys (btm_insert path c measured)"
    using assms(1) ascending_btm_insert by (auto simp: measured_inv_def)
  have "counts_valid d" if "(k, d) \<in> set (btm_insert path c measured)" for k d
  proof -
    have "btm_get (btm_insert path c measured) k = Some d"
      using that btm.get_Some_iff [OF asc(2)] by blast
    then have "k = path \<and> d = c \<or> (k, d) \<in> set measured"
      using asc(1) by (auto split: if_splits dest: map_of_SomeD)
    then show ?thesis using assms(1,3) by (auto simp: measured_inv_def)
  qed
  then show ?thesis using assms(1,2) asc(2) by (auto simp: measured_inv_def)
qed

lemma measure_file_inv:
  "measured_inv sources measured \<Longrightarrow> measure_file fs root sources file measured = Inr measured' \<Longrightarrow>
   measured_inv sources measured'"
proof -
  assume inv: "measured_inv sources measured"
    and m: "measure_file fs root sources file measured = Inr measured'"
  from m obtain found where "coverage_path fs root (lf_filename file) = Inr found"
    and r: "(case found of None \<Rightarrow> Inr measured
       | Some path \<Rightarrow>
           if path \<notin> set sources then Inr measured
           else if lf_covered file > lf_count file
           then Inl (InvalidLineCounts path (lf_count file) (lf_covered file))
           else if btm_get measured path \<noteq> None then Inl (DuplicateCoverage path)
           else Inr (btm_insert path (line_coverage (lf_count file) (lf_covered file)) measured))
       = Inr measured'"
    unfolding measure_file_def and_then_Inr_iff by blast
  show ?thesis
  proof (cases found)
    case (Some path)
    then have "measured' = measured \<or> path \<in> set sources \<and> lf_covered file \<le> lf_count file \<and>
        measured' = btm_insert path (line_coverage (lf_count file) (lf_covered file)) measured"
      using r by (simp add: not_less split: if_splits)
    then show ?thesis using inv measured_inv_insert counts_valid_line_coverage by blast
  qed (use r inv in simp)
qed

lemma aggregate_module_valid:
  assumes "\<forall>c\<in>snd ` set measured. counts_valid c"
  shows "counts_valid (mc_lines (aggregate_module measured md))"
proof -
  have sums: "covered \<le> count \<Longrightarrow> fold (aggregate_source measured) ss (n, missing, count, covered) =
      (n', missing', count', covered') \<Longrightarrow> covered' \<le> count'"
    for ss n missing count covered n' missing' count' covered'
  proof (induction ss arbitrary: n missing count covered)
    case (Cons s ss)
    show ?case
    proof (cases "btm_get measured s")
      case None
      then show ?thesis using Cons by (simp add: aggregate_source_def)
    next
      case (Some c)
      then have "counts_valid c" using assms by (force dest: map_of_SomeD)
      then have "sat_add covered (lc_covered c) \<le> sat_add count (lc_count c)"
        using Cons.prems(1) by (simp add: sat_add_mono counts_valid_def)
      then show ?thesis using Cons.IH Cons.prems(2) Some by (simp add: aggregate_source_def)
    qed
  qed simp
  obtain n missing count covered where
    f: "fold (aggregate_source measured) (module_sources md) (0, [], 0, 0) = (n, missing, count, covered)"
    by (metis prod_cases4)
  then have "covered \<le> count" using sums [OF _ f] by simp
  then show ?thesis by (simp add: aggregate_module_def f counts_valid_line_coverage)
qed

text \<open>The totals are plain sums: they are right as long as the counts fit 64 bits together.\<close>

definition totals_fit :: "measured \<Rightarrow> bool" where
  "totals_fit measured \<longleftrightarrow> (\<Sum>c\<leftarrow>map snd measured. unat (lc_count c)) < 2 ^ 64"

lemma unat_sum_list_words:
  "sum_list (map (\<lambda>x. unat (f x :: 64 word)) xs) < 2 ^ 64 \<Longrightarrow>
   unat (sum_list (map f xs)) = sum_list (map (\<lambda>x. unat (f x)) xs)"
proof (induction xs)
  case (Cons x xs)
  then show ?case by (simp add: unat_word_ariths)
qed simp

lemma aggregate_totals_valid:
  assumes "\<forall>c\<in>snd ` set measured. counts_valid c" and "totals_fit measured"
  shows "counts_valid (ct_lines (aggregate_totals sources measured))"
proof -
  have le: "(\<Sum>x\<leftarrow>measured. unat (lc_covered (snd x))) \<le> (\<Sum>x\<leftarrow>measured. unat (lc_count (snd x)))"
    using assms(1) by (intro sum_list_mono) (auto simp: counts_valid_def word_le_nat_alt)
  have fit: "(\<Sum>x\<leftarrow>measured. unat (lc_count (snd x))) < 2 ^ 64"
    using assms(2) by (simp add: totals_fit_def o_def)
  have "sum_list (map (lc_covered \<circ> snd) measured) \<le> sum_list (map (lc_count \<circ> snd) measured)"
    unfolding word_le_nat_alt o_def
    using le fit by (subst (1 2) unat_sum_list_words) simp_all
  then show ?thesis by (simp add: aggregate_totals_def counts_valid_line_coverage)
qed

lemma validate_file_ok:
  "validate_file f paths = Inr paths' \<longleftrightarrow>
     normalize_repo_relative_path (fc_path f) = Some (fc_path f) \<and> fc_path f \<notin> set paths \<and>
     counts_valid (fc_lines f) \<and> paths' = bts_insert (fc_path f) paths"
  by (auto simp: validate_file_def and_then_Inr_iff validate_line_coverage_ok)

lemma validate_files_ok:
  "\<forall>f\<in>set files. normalize_repo_relative_path (fc_path f) = Some (fc_path f) \<and> counts_valid (fc_lines f) \<Longrightarrow>
   distinct (map fc_path files) \<Longrightarrow> fc_path ` set files \<inter> set paths = {} \<Longrightarrow>
   \<exists>paths'. try_fold validate_file files paths = Inr paths'"
proof (induction files arbitrary: paths)
  case (Cons f files)
  then have "validate_file f paths = Inr (bts_insert (fc_path f) paths)" by (simp add: validate_file_ok)
  moreover have "\<exists>paths'. try_fold validate_file files (bts_insert (fc_path f) paths) = Inr paths'"
    by (rule Cons.IH) (use Cons.prems in auto)
  ultimately show ?case by simp
qed simp

lemma validate_modules_ok:
  "\<forall>md\<in>set mds. counts_valid (mc_lines md) \<Longrightarrow>
   try_fold (\<lambda>md _. validate_line_coverage (mc_module md) (mc_lines md)) mds () = Inr ()"
  by (induction mds) (simp_all add: validate_line_coverage_ok [THEN iffD2])

lemma built_report_validates:
  assumes inv: "measured_inv sources measured" and fit: "totals_fit measured"
    and src: "\<forall>s\<in>set sources. normalize_repo_relative_path s = Some s"
    and version: "\<not> is_blank (le_version export)"
  shows "validate_report (build_report cx m mb eb export sources measured) = Inr ()"
proof -
  let ?r = "build_report cx m mb eb export sources measured"
  have files: "cr_files ?r = map (\<lambda>(path, counts). \<lparr>fc_path = path, fc_lines = counts\<rparr>) measured"
    "cr_modules ?r = aggregate_modules m measured" "cr_totals ?r = aggregate_totals sources measured"
    "cr_llvm_export_version ?r = le_version export" by (simp_all add: build_report_def)
  have valid: "\<forall>c\<in>snd ` set measured. counts_valid c" using inv by (simp add: measured_inv_def)
  have "map fc_path (cr_files ?r) = map fst measured" by (simp add: files case_prod_beta o_def)
  then have "distinct (map fc_path (cr_files ?r))"
    using inv btm.distinct_keys [of measured] unfolding measured_inv_def by simp
  moreover have "\<forall>f\<in>set (cr_files ?r). normalize_repo_relative_path (fc_path f) = Some (fc_path f) \<and>
      counts_valid (fc_lines f)"
    using inv src by (force simp: files measured_inv_def)
  ultimately obtain paths where "try_fold validate_file (cr_files ?r) [] = Inr paths"
    using validate_files_ok [of "cr_files ?r" "[]"] by auto
  moreover have "\<forall>md\<in>set (cr_modules ?r). counts_valid (mc_lines md)"
    using aggregate_module_valid [OF valid] by (auto simp: files aggregate_modules_def)
  moreover have "validate_line_coverage ''totals'' (ct_lines (cr_totals ?r)) = Inr ()"
    using aggregate_totals_valid [OF valid fit] by (simp add: files validate_line_coverage_ok)
  ultimately show ?thesis
    using version validate_modules_ok [of "aggregate_modules m measured"]
    by (simp add: validate_report_def files)
qed

text \<open>The stages of a successful \<open>generate\<close>.\<close>

lemma generate_stages:
  assumes "generate cx fs options = Inr g"
  obtains root mb m eb export sources measured where
    "canonical_directory fs (co_source_root options) = Some root"
    "read_path fs (co_manifest options) = Inr mb"
    "load_manifest cx fs (co_manifest options) = Inr m"
    "\<not> is_blank (le_version export)" "manifest_sources m = Inr sources"
    "\<forall>s\<in>set sources. \<exists>real. resolve_source_file fs root s = Inr real"
    "measured_inv sources measured"
    "gc_report g = build_report cx m mb eb export sources measured"
proof -
  from assms obtain root mb m eb export sources measured where g:
    "canonical_directory fs (co_source_root options) = Some root"
    "read_path fs (co_manifest options) = Inr mb"
    "load_manifest cx fs (co_manifest options) = Inr m"
    "\<not> is_blank (le_version export)" "manifest_sources m = Inr sources"
    "try_fold (\<lambda>source _. and_then (resolve_source_file fs root source) (\<lambda>_. Inr ())) sources () = Inr ()"
    "try_fold (measure_file fs root sources) (concat (le_data export)) [] = Inr measured"
    "gc_report g = build_report cx m mb eb export sources measured"
    unfolding generate_def
    by (auto simp: and_then_Inr_iff ok_or_Inr_iff Let_def split: sum.splits if_splits)
  have "\<exists>real. resolve_source_file fs root s = Inr real" if "s \<in> set sources" for s
  proof -
    have "try_fold (\<lambda>source _. and_then (resolve_source_file fs root source) (\<lambda>_. Inr ())) ss () = Inr () \<Longrightarrow>
        s \<in> set ss \<Longrightarrow> \<exists>real. resolve_source_file fs root s = Inr real" for ss
      by (induction ss) (auto simp: and_then_Inr_iff split: sum.splits)
    then show ?thesis using g(6) that by blast
  qed
  moreover have "measured_inv sources measured"
    by (rule try_fold_invariant [where P = "measured_inv sources", OF g(7)])
      (auto simp: measured_inv_def [of sources "[]"] measure_file_inv)
  ultimately show thesis using that g by blast
qed

lemma generated_report_verifies:
  assumes g: "generate cx fs options = Inr g"
    and mb: "read_path fs (co_manifest options) = Inr mb"
    and m: "load_manifest cx fs (co_manifest options) = Inr m"
    and fit: "(\<Sum>f\<leftarrow>cr_files (gc_report g). unat (lc_count (fc_lines f))) < 2 ^ 64"
  shows "verify_report_manifest cx (gc_report g) m mb = Inr ()"
proof -
  from g obtain root mb' m' eb export sources measured where s:
    "canonical_directory fs (co_source_root options) = Some root"
    "read_path fs (co_manifest options) = Inr mb'"
    "load_manifest cx fs (co_manifest options) = Inr m'"
    "\<not> is_blank (le_version export)" "manifest_sources m' = Inr sources"
    "\<forall>s\<in>set sources. \<exists>real. resolve_source_file fs root s = Inr real"
    "measured_inv sources measured"
    "gc_report g = build_report cx m' mb' eb export sources measured"
    by (rule generate_stages)
  have same: "mb' = mb" "m' = m" using s(2,3) mb m by simp_all
  let ?r = "build_report cx m mb eb export sources measured"
  have files: "map (\<lambda>f. (fc_path f, fc_lines f)) (cr_files ?r) = measured"
    by (simp add: build_report_def case_prod_beta o_def)
  have asc: "ascending_keys measured" using s(7) by (simp add: measured_inv_def)
  have "totals_fit measured"
    using fit s(8) by (simp add: totals_fit_def same build_report_def case_prod_beta o_def)
  then have "validate_report ?r = Inr ()"
    using built_report_validates [OF s(7) _ _ s(4)] manifest_sources_set(2) [OF s(5)] by blast
  moreover have "\<not> list_ex (\<lambda>(path, _). path \<notin> set sources) measured"
    using s(7) by (auto simp: measured_inv_def list_ex_iff)
  ultimately show ?thesis
    unfolding s(8) same verify_report_manifest_def files btm_of_list_ascending [OF asc] Let_def
    using s(5) by (simp add: same) (simp add: build_report_def)
qed

lemma follow_snoc_Directory:
  "follow fs n dir cs = Some d \<Longrightarrow> fs_lookup fs d = Some Directory \<Longrightarrow>
   fs_lookup fs (d @ [w]) = Some Directory \<Longrightarrow> follow fs n dir (cs @ [Normal w]) = Some (d @ [w])"
proof (induction fs n dir cs rule: follow.induct)
  case (5 fs n dir v cs)
  then show ?case
    by (cases "fs_lookup fs (dir @ [v])") (auto split: fs_node.splits if_splits)
qed simp_all

lemma canonical_directory_real:
  assumes "canonical_directory fs p = Some root" and "real_dir fs (fs_cwd fs)"
  shows "real_dir fs root"
proof -
  let ?p = "components p"
  from assms(1) have s: "symlink_metadata fs ?p = Some Directory"
    and c: "follow fs max_links (fs_cwd fs) ?p = Some root" "?p \<noteq> []"
    by (auto simp: canonical_directory_def canonicalize_def split: if_splits)
  have real: "real_path fs root" using follow_real [OF c(1) assms(2)] by blast
  have "fs_lookup fs root = Some Directory"
  proof (cases "\<exists>w. last ?p = Normal w")
    case True
    then obtain w where w: "last ?p = Normal w" by blast
    then obtain d where d: "follow fs max_links (fs_cwd fs) (butlast ?p) = Some d"
      "fs_lookup fs d = Some Directory" "fs_lookup fs (d @ [w]) = Some Directory"
      using s c(2) by (auto simp: symlink_metadata_def split: option.splits if_splits)
    have "follow fs max_links (fs_cwd fs) (butlast ?p @ [Normal w]) = Some (d @ [w])"
      by (rule follow_snoc_Directory [OF d])
    then have "root = d @ [w]"
      using c w append_butlast_last_id [OF c(2)] by simp
    then show ?thesis using d(3) by simp
  next
    case False
    then have "metadata fs ?p = Some Directory"
      using s c(2) by (auto simp: symlink_metadata_def split: component.splits)
    then show ?thesis using c by (auto simp: metadata_def canonicalize_def)
  qed
  then show ?thesis using real by (simp add: real_dir_def)
qed

lemma generated_files_real:
  assumes "generate cx fs options = Inr g" and "real_dir fs (fs_cwd fs)"
  obtains root where "canonical_directory fs (co_source_root options) = Some root"
    and "\<And>f. f \<in> set (cr_files (gc_report g)) \<Longrightarrow>
      \<exists>ws. fc_path f = join ''/'' ws \<and> is_regular (fs_lookup fs (root @ ws)) \<and> real_dir fs (root @ butlast ws)"
proof -
  from assms(1) obtain root mb m eb export sources measured where s:
    "canonical_directory fs (co_source_root options) = Some root"
    "read_path fs (co_manifest options) = Inr mb"
    "load_manifest cx fs (co_manifest options) = Inr m"
    "\<not> is_blank (le_version export)" "manifest_sources m = Inr sources"
    "\<forall>s\<in>set sources. \<exists>real. resolve_source_file fs root s = Inr real"
    "measured_inv sources measured"
    "gc_report g = build_report cx m mb eb export sources measured"
    by (rule generate_stages)
  have root: "real_dir fs root" by (rule canonical_directory_real [OF s(1) assms(2)])
  show thesis
  proof (rule that [OF s(1)])
    fix f assume "f \<in> set (cr_files (gc_report g))"
    then have "fc_path f \<in> fst ` set measured" by (force simp: s(8) build_report_def)
    then have "fc_path f \<in> set sources" using s(7) unfolding measured_inv_def by blast
    then obtain real where r: "resolve_source_file fs root (fc_path f) = Inr real" using s(6) by blast
    show "\<exists>ws. fc_path f = join ''/'' ws \<and> is_regular (fs_lookup fs (root @ ws)) \<and> real_dir fs (root @ butlast ws)"
      by (rule resolve_source_file_real [OF r root]) blast
  qed
qed

section \<open>Properties\<close>

text \<open>The percentage of a line count is the floor of the covered hundredths of a percent, never above
  100 percent; only the product with 10000 saturates, beyond which the percentage is too low.\<close>

theorem line_coverage_basis_points:
  "unat (lc_basis_points (line_coverage count covered)) =
     (if count = 0 then 10000
      else min (min (unat covered * 10000) (2 ^ 64 - 1) div unat count) 10000) \<and>
   unat (lc_basis_points (line_coverage count covered)) \<le> 10000"
  using basis_points_eq [of count covered] by simp

text \<open>C17: a report that \<open>generate\<close> produces passes \<open>verify_report_manifest\<close> against the manifest bytes it
  was generated from, as long as the line counts fit 64 bits together.\<close>

theorem generated_report_verified:
  assumes "generate cx fs options = Inr g"
    and "read_path fs (co_manifest options) = Inr manifest_bytes"
    and "load_manifest cx fs (co_manifest options) = Inr m"
    and "(\<Sum>f\<leftarrow>cr_files (gc_report g). unat (lc_count (fc_lines f))) < 2 ^ 64"
  shows "verify_report_manifest cx (gc_report g) m manifest_bytes = Inr ()"
  using generated_report_verifies [OF assms] .

text \<open>Every file of a generated report is a regular file below the source root, reached without
  following any symbolic link.\<close>

theorem generated_files_below_root:
  assumes "generate cx fs options = Inr g" and "real_dir fs (fs_cwd fs)"
    and "f \<in> set (cr_files (gc_report g))"
  shows "\<exists>root ws. canonical_directory fs (co_source_root options) = Some root \<and>
    fc_path f = join ''/'' ws \<and> is_regular (fs_lookup fs (root @ ws)) \<and> real_dir fs (root @ butlast ws)"
proof -
  obtain root where r: "canonical_directory fs (co_source_root options) = Some root"
    "\<And>f. f \<in> set (cr_files (gc_report g)) \<Longrightarrow>
      \<exists>ws. fc_path f = join ''/'' ws \<and> is_regular (fs_lookup fs (root @ ws)) \<and> real_dir fs (root @ butlast ws)"
    by (rule generated_files_real [OF assms(1,2)]) blast
  show ?thesis using r(1) r(2) [OF assms(3)] by blast
qed

text \<open>A checkout to apply the properties to. The codecs recognise one document each.\<close>

definition example_export :: llvm_export where
  "example_export =
     \<lparr>le_kind = llvm_export_type, le_version = ''2.0.1'',
      le_data = [[\<lparr>lf_filename = ''/w/src/a.cc'', lf_count = 8, lf_covered = 6\<rparr>,
                  \<lparr>lf_filename = ''/usr/include/x.h'', lf_count = 3, lf_covered = 0\<rparr>]]\<rparr>"

definition example_covered_manifest :: manifest where
  "example_covered_manifest =
     \<lparr>schema_version = supported_schema_version,
      manifest_project = \<lparr>project_name = ''p'', project_upstream = ''u'', project_baseline = ''b''\<rparr>,
      manifest_inventory = None, manifest_targets = [], manifest_gates = [],
      manifest_modules = [(example_module ''a'' [])\<lparr>module_sources := [''src/a.cc'', ''src/b.cc'']\<rparr>]\<rparr>"

definition example_codecs :: codecs where
  "example_codecs =
     \<lparr>sha256_hex = (\<lambda>bytes. bytes),
      manifest_from_toml = (\<lambda>s. if s = ''toml'' then Some example_covered_manifest else None),
      export_from_json = (\<lambda>s. if s = ''llvm'' then Some example_export else None),
      report_from_json = (\<lambda>s. None), report_to_json = (\<lambda>r. Some ''report'')\<rparr>"

definition example_files :: file_system where
  "example_files =
     \<lparr>fs_nodes = [([''w''], Directory), ([''w'', ''m.toml''], RegularFile ''toml''),
        ([''w'', ''llvm.json''], RegularFile ''llvm''), ([''w'', ''src''], Directory),
        ([''w'', ''src'', ''a.cc''], RegularFile []), ([''w'', ''src'', ''b.cc''], RegularFile []),
        ([''usr''], Directory), ([''usr'', ''include''], Directory),
        ([''usr'', ''include'', ''x.h''], RegularFile [])],
      fs_cwd = [''w'']\<rparr>"

definition example_coverage_options :: coverage_options where
  "example_coverage_options =
     \<lparr>co_manifest = ''m.toml'', co_source_root = ''/w'', co_export = ''llvm.json'',
      co_output = ''out.json'', co_force = False, co_check = False\<rparr>"

lemma example_generates:
  obtains g where "generate example_codecs example_files example_coverage_options = Inr g"
    and "map (\<lambda>f. (fc_path f, lc_count (fc_lines f), lc_basis_points (fc_lines f))) (cr_files (gc_report g))
      = [(''src/a.cc'', 8, 7500)]"
proof
  let ?r = "generate example_codecs example_files example_coverage_options"
  have "\<not> isl ?r" by code_simp
  then show "?r = Inr (projr ?r)" by simp
  show "map (\<lambda>f. (fc_path f, lc_count (fc_lines f), lc_basis_points (fc_lines f)))
      (cr_files (gc_report (projr ?r))) = [(''src/a.cc'', 8, 7500)]" by code_simp
qed

lemma generated_report_verified_witness:
  "\<exists>g. generate example_codecs example_files example_coverage_options = Inr g \<and>
     verify_report_manifest example_codecs (gc_report g) example_covered_manifest ''toml'' = Inr ()"
proof (rule example_generates)
  fix g assume g: "generate example_codecs example_files example_coverage_options = Inr g"
    "map (\<lambda>f. (fc_path f, lc_count (fc_lines f), lc_basis_points (fc_lines f))) (cr_files (gc_report g))
      = [(''src/a.cc'', 8, 7500)]"
  have mb: "read_path example_files (co_manifest example_coverage_options) = Inr ''toml''" by code_simp
  have "read_to_string example_files (components ''m.toml'') = Some ''toml''"
    "validate example_covered_manifest = Inr ()" by code_simp+
  then have m: "load_manifest example_codecs example_files (co_manifest example_coverage_options)
      = Inr example_covered_manifest"
    by (simp add: load_manifest_def ok_or_def example_codecs_def example_coverage_options_def)
  have "map (\<lambda>f. lc_count (fc_lines f)) (cr_files (gc_report g)) = [8]"
    using arg_cong [OF g(2), of "map (fst \<circ> snd)"] by (simp add: o_def)
  then have fit: "(\<Sum>f\<leftarrow>cr_files (gc_report g). unat (lc_count (fc_lines f))) < 2 ^ 64"
    by (cases "cr_files (gc_report g)") auto
  show "\<exists>g. generate example_codecs example_files example_coverage_options = Inr g \<and>
      verify_report_manifest example_codecs (gc_report g) example_covered_manifest ''toml'' = Inr ()"
    using g(1) generated_report_verified [OF g(1) mb m fit] by blast
qed

lemma generated_files_below_root_witness:
  "\<exists>g f. generate example_codecs example_files example_coverage_options = Inr g \<and>
     f \<in> set (cr_files (gc_report g)) \<and>
     (\<exists>root ws. fc_path f = join ''/'' ws \<and> is_regular (fs_lookup example_files (root @ ws)))"
proof (rule example_generates)
  fix g assume g: "generate example_codecs example_files example_coverage_options = Inr g"
    "map (\<lambda>f. (fc_path f, lc_count (fc_lines f), lc_basis_points (fc_lines f))) (cr_files (gc_report g))
      = [(''src/a.cc'', 8, 7500)]"
  then obtain f where f: "f \<in> set (cr_files (gc_report g))" by (cases "cr_files (gc_report g)") auto
  have cwd: "real_dir example_files (fs_cwd example_files)"
    by (simp add: real_dir_def real_path_def fs_lookup_def example_files_def)
  show "\<exists>g f. generate example_codecs example_files example_coverage_options = Inr g \<and>
     f \<in> set (cr_files (gc_report g)) \<and>
     (\<exists>root ws. fc_path f = join ''/'' ws \<and> is_regular (fs_lookup example_files (root @ ws)))"
    using g(1) f generated_files_below_root [OF g(1) cwd f] by blast
qed

end
