(* ===== verification/Components.thy ===== *)
theory Components
  imports Coverage Gn
begin

text \<open>
  \<open>crates/chromifer-components/src/lib.rs\<close>: modules grouped into components by owner and path, the edges
  between components, and the ranking of migration candidates. Sizes (\<open>usize\<close>) and the small \<open>u32\<close> scores
  are natural numbers: every score is capped far below \<open>2^32\<close>, so the saturating operations on them are the
  plain ones. Line counts and basis points keep their width.
\<close>

section \<open>Data\<close>

datatype migration_scope =
    BrowserService | ReusableInfrastructure | ProcessSecurityKernel | DeferredRuntime | OtherScope

fun scope_rank :: "migration_scope \<Rightarrow> nat" where
  "scope_rank BrowserService = 0"
| "scope_rank ReusableInfrastructure = 1"
| "scope_rank ProcessSecurityKernel = 2"
| "scope_rank DeferredRuntime = 3"
| "scope_rank OtherScope = 4"

fun show_scope :: "migration_scope \<Rightarrow> string" where
  "show_scope BrowserService = ''browser_service''"
| "show_scope ReusableInfrastructure = ''reusable_infrastructure''"
| "show_scope ProcessSecurityKernel = ''process_security_kernel''"
| "show_scope DeferredRuntime = ''deferred_runtime''"
| "show_scope OtherScope = ''other''"

datatype candidate_concern =
    NoSourceFiles
  | MissingGates
  | MissingRequiredTargetCoverage nat nat
  | IncompleteSourceCoverage nat nat
  | MixedMigrationStates
  | DeferredScope migration_scope
  | UnresolvedReviews nat
  | UnresolvedOwnershipIncludes nat
  | UnauditedExternalEdges nat

text \<open>The derived order: the variant, then its fields.\<close>

fun concern_key :: "candidate_concern \<Rightarrow> nat \<times> nat \<times> nat" where
  "concern_key NoSourceFiles = (0, 0, 0)"
| "concern_key MissingGates = (1, 0, 0)"
| "concern_key (MissingRequiredTargetCoverage missing pairs) = (2, missing, pairs)"
| "concern_key (IncompleteSourceCoverage missing sources) = (3, missing, sources)"
| "concern_key MixedMigrationStates = (4, 0, 0)"
| "concern_key (DeferredScope scope) = (5, scope_rank scope, 0)"
| "concern_key (UnresolvedReviews n) = (6, n, 0)"
| "concern_key (UnresolvedOwnershipIncludes n) = (7, n, 0)"
| "concern_key (UnauditedExternalEdges n) = (8, n, 0)"

record risk_breakdown =
  risk_module_size :: nat
  risk_source_size :: nat
  risk_topology :: nat
  risk_boundaries :: nat
  risk_unresolved_reviews :: nat
  risk_mixed_state :: nat
  risk_missing_gates :: nat
  risk_scope :: nat
  risk_missing_target_coverage :: nat
  risk_source_coverage :: nat
  risk_total :: nat

record state_counts =
  sc_legacy_cpp :: nat
  sc_bridged :: nat
  sc_rust_owned :: nat

definition add_state :: "migration_state \<Rightarrow> state_counts \<Rightarrow> state_counts" where
  "add_state state counts =
     (case state of
        LegacyCpp \<Rightarrow> counts\<lparr>sc_legacy_cpp := sc_legacy_cpp counts + 1\<rparr>
      | Bridged \<Rightarrow> counts\<lparr>sc_bridged := sc_bridged counts + 1\<rparr>
      | RustOwned \<Rightarrow> counts\<lparr>sc_rust_owned := sc_rust_owned counts + 1\<rparr>)"

definition is_mixed :: "state_counts \<Rightarrow> bool" where
  "is_mixed counts \<longleftrightarrow>
     length (filter (\<lambda>n. n > 0) [sc_legacy_cpp counts, sc_bridged counts, sc_rust_owned counts]) > 1"

definition is_fully_rust_owned :: "state_counts \<Rightarrow> bool" where
  "is_fully_rust_owned counts \<longleftrightarrow>
     sc_rust_owned counts > 0 \<and> sc_legacy_cpp counts = 0 \<and> sc_bridged counts = 0"

record test_coverage_proxy =
  tp_covered_pairs :: nat
  tp_total_pairs :: nat
  tp_basis_points :: "32 word"

record source_coverage_measurement =
  sm_total_sources :: nat
  sm_measured_sources :: nat
  sm_missing_sources :: "string list"
  sm_covered_lines :: "64 word"
  sm_total_lines :: "64 word"
  sm_line_basis_points :: "32 word"
  sm_effective_basis_points :: "32 word"

record component_summary =
  cp_id :: string
  cp_path :: string
  cp_owner :: string
  cp_scope :: migration_scope
  cp_modules :: "string list"
  cp_source_files :: nat
  cp_states :: state_counts
  cp_gates :: "string list"
  cp_test_coverage :: test_coverage_proxy
  cp_source_coverage :: "source_coverage_measurement option"
  cp_incoming_components :: nat
  cp_outgoing_components :: nat
  cp_unaudited_external_edges :: nat
  cp_audited_external_edges :: nat
  cp_rust_external_edges :: nat
  cp_unresolved_reviews :: nat
  cp_evidence_items :: nat
  cp_external_owner_edges :: nat
  cp_unresolved_ownership_includes :: nat
  cp_risk :: risk_breakdown
  cp_readiness_score :: nat
  cp_eligible :: bool
  cp_concerns :: "candidate_concern list"

record component_edge =
  ce_from :: string
  ce_to :: string
  ce_module_edges :: nat
  ce_boundaries :: "boundary list"
  ce_evidence_items :: nat
  ce_unresolved_reviews :: nat
  ce_crosses_owner :: bool

record ranked_candidate =
  rc_rank :: nat
  rc_component :: string
  rc_path :: string
  rc_owner :: string
  rc_scope :: migration_scope
  rc_readiness_score :: nat
  rc_risk_score :: nat
  rc_eligible :: bool
  rc_source_files :: nat
  rc_module_count :: nat
  rc_concerns :: "candidate_concern list"

record component_analysis =
  an_baseline :: string
  an_path_depth :: nat
  an_module_count :: nat
  an_component_count :: nat
  an_components :: "component_summary list"
  an_edges :: "component_edge list"
  an_ranking :: "ranked_candidate list"

datatype analysis_error = ZeroPathDepth

record group_draft =
  gd_path :: string
  gd_owner :: string
  gd_modules :: "module list"

record edge_draft =
  ed_module_edges :: nat
  ed_boundaries :: "boundary list"
  ed_evidence_items :: nat
  ed_unresolved_reviews :: nat

record incident_metrics =
  im_incoming :: "string list"
  im_outgoing :: "string list"
  im_unaudited :: nat
  im_audited :: nat
  im_rust :: nat
  im_unresolved_reviews :: nat
  im_evidence_items :: nat
  im_external_owner_edges :: nat

definition empty_edge :: edge_draft where
  "empty_edge = \<lparr>ed_module_edges = 0, ed_boundaries = [], ed_evidence_items = 0, ed_unresolved_reviews = 0\<rparr>"

definition no_incidents :: incident_metrics where
  "no_incidents = \<lparr>im_incoming = [], im_outgoing = [], im_unaudited = 0, im_audited = 0, im_rust = 0,
     im_unresolved_reviews = 0, im_evidence_items = 0, im_external_owner_edges = 0\<rparr>"

section \<open>Groups\<close>

definition normalize_path :: "string \<Rightarrow> string" where
  "normalize_path path =
     trim_start_matches ''./''
       (drop_trailing (CHR ''/'') (dropWhile (\<lambda>c. c = CHR ''/'')
         (replace_char (CHR 0x5C) (CHR ''/'') path)))"

definition source_label_path :: "string \<Rightarrow> string" where
  "source_label_path label =
     (let base = trim_start_matches ''//'' (case split_once ''('' label of None \<Rightarrow> label | Some (b, _) \<Rightarrow> b)
      in case split_once '':'' base of None \<Rightarrow> base | Some (p, _) \<Rightarrow> p)"

definition usable_module_path :: "module \<Rightarrow> string" where
  "usable_module_path md =
     (let path = normalize_path (module_path md)
      in if path \<noteq> ''.'' \<and> path \<noteq> [] then path
         else (case module_source_label md of
                 Some label \<Rightarrow>
                   if source_label_path label \<noteq> [] then normalize_path (source_label_path label)
                   else module_id md
               | None \<Rightarrow> module_id md))"

definition component_path :: "nat \<Rightarrow> module \<Rightarrow> string" where
  "component_path path_depth md =
     (let segments = filter (\<lambda>s. s \<noteq> [] \<and> s \<noteq> ''.'') (split_on (CHR ''/'') (usable_module_path md))
      in if segments = [] then module_id md
         else join ''/'' (take (min (length segments) path_depth) segments))"

definition module_owner_key :: "module \<Rightarrow> string" where
  "module_owner_key md =
     (case module_ownership md of
        Some o' \<Rightarrow> if mo_primary_owners o' \<noteq> [] then join '','' (mo_primary_owners o') else module_owner md
      | None \<Rightarrow> module_owner md)"

definition group_module ::
    "nat \<Rightarrow> module \<Rightarrow> ((string \<times> string) \<times> module list) list \<Rightarrow>
     ((string \<times> string) \<times> module list) list" where
  "group_module path_depth md =
     btm_update (module_owner_key md, component_path path_depth md) [] (\<lambda>modules. modules @ [md])"

definition build_groups :: "manifest \<Rightarrow> nat \<Rightarrow> group_draft list" where
  "build_groups m path_depth =
     map (\<lambda>((owner, path), modules).
         \<lparr>gd_path = path, gd_owner = owner, gd_modules = sort_key module_id modules\<rparr>)
       (fold (group_module path_depth) (manifest_modules m) [])"

section \<open>Identifiers\<close>

definition sanitize_component_id :: "string \<Rightarrow> string" where
  "sanitize_component_id value =
     (let output = drop_trailing (CHR ''_'') (fst (fold sanitize_step value ([], False)))
      in if output = [] then ''component''
         else if is_ascii_digit (hd output) then ''component_'' @ output else output)"

definition count_base :: "group_draft \<Rightarrow> (string \<times> nat) list \<Rightarrow> (string \<times> nat) list" where
  "count_base grp = btm_update (sanitize_component_id (gd_path grp)) 0 (\<lambda>n. n + 1)"

definition component_id :: "(string \<times> nat) list \<Rightarrow> string list \<Rightarrow> group_draft \<Rightarrow> string" where
  "component_id base_counts used grp =
     (let base = sanitize_component_id (gd_path grp);
          candidate = (if btm_get base_counts base = Some 1 then base
                       else sanitize_component_id (gd_owner grp) @ ''_'' @ base)
      in if candidate \<in> set used
         then candidate @ ''_'' @ hex8 (fnv1a_32 (gd_owner grp @ '':'' @ gd_path grp))
         else candidate)"

definition assign_component_ids :: "group_draft list \<Rightarrow> string list" where
  "assign_component_ids groups =
     (let base_counts = fold count_base groups []
      in snd (fold (\<lambda>grp (used, ids).
             let candidate = component_id base_counts used grp
             in (bts_insert candidate used, ids @ [candidate])) groups ([], [])))"

definition map_modules_to_components :: "group_draft list \<Rightarrow> string list \<Rightarrow> (string \<times> string) list" where
  "map_modules_to_components groups ids =
     btm_of_list (concat (map (\<lambda>(grp, i). map (\<lambda>md. (module_id md, i)) (gd_modules grp)) (zip groups ids)))"

section \<open>Edges between components\<close>

type_synonym edge_drafts = "((string \<times> string) \<times> edge_draft) list"

type_synonym incidents = "(string \<times> incident_metrics) list"

definition count_unresolved :: "boundary_review list \<Rightarrow> nat" where
  "count_unresolved reviews = length (filter (\<lambda>r. \<not> review_resolved r) reviews)"

definition add_dependency ::
    "(string \<times> string) list \<Rightarrow> string \<Rightarrow> dependency \<Rightarrow> edge_drafts \<times> incidents \<Rightarrow> edge_drafts \<times> incidents" where
  "add_dependency component_of from d = (\<lambda>(drafts, incident).
     case btm_get component_of (dep_module d) of
       None \<Rightarrow> (drafts, incident)
     | Some to \<Rightarrow>
         if from = to then
           (drafts, btm_update from no_incidents (\<lambda>im.
              im\<lparr>im_unresolved_reviews := im_unresolved_reviews im + count_unresolved (dep_reviews d),
                 im_evidence_items := im_evidence_items im + length (dep_evidence d)\<rparr>) incident)
         else
           (btm_update (from, to) empty_edge (\<lambda>e.
              \<lparr>ed_module_edges = ed_module_edges e + 1,
               ed_boundaries = bts_insert (dep_boundary d) (ed_boundaries e),
               ed_evidence_items = ed_evidence_items e + length (dep_evidence d),
               ed_unresolved_reviews = ed_unresolved_reviews e + count_unresolved (dep_reviews d)\<rparr>) drafts,
            incident))"

definition add_module_edges ::
    "(string \<times> string) list \<Rightarrow> module \<Rightarrow> edge_drafts \<times> incidents \<Rightarrow> edge_drafts \<times> incidents" where
  "add_module_edges component_of md = (\<lambda>(drafts, incident).
     case btm_get component_of (module_id md) of
       None \<Rightarrow> (drafts, incident)
     | Some from \<Rightarrow>
         fold (add_dependency component_of from) (module_dependencies md)
           (drafts, btm_update from no_incidents (\<lambda>im.
              im\<lparr>im_unresolved_reviews := im_unresolved_reviews im + count_unresolved (module_reviews md)\<rparr>)
              incident))"

definition apply_boundary :: "boundary \<Rightarrow> incident_metrics \<Rightarrow> incident_metrics" where
  "apply_boundary b im =
     (case b of
        Unclassified \<Rightarrow> im\<lparr>im_unaudited := im_unaudited im + 1\<rparr>
      | CppInternal \<Rightarrow> im\<lparr>im_unaudited := im_unaudited im + 1\<rparr>
      | Cxx \<Rightarrow> im\<lparr>im_audited := im_audited im + 1\<rparr>
      | CAbi \<Rightarrow> im\<lparr>im_audited := im_audited im + 1\<rparr>
      | Mojo \<Rightarrow> im\<lparr>im_audited := im_audited im + 1\<rparr>
      | Rust \<Rightarrow> im\<lparr>im_rust := im_rust im + 1\<rparr>)"

definition apply_incident_edge :: "component_edge \<Rightarrow> bool \<Rightarrow> incident_metrics \<Rightarrow> incident_metrics" where
  "apply_incident_edge edge outgoing im =
     (let im = (if outgoing then im\<lparr>im_outgoing := bts_insert (ce_to edge) (im_outgoing im)\<rparr>
                else im\<lparr>im_incoming := bts_insert (ce_from edge) (im_incoming im)\<rparr>);
          im = fold apply_boundary (ce_boundaries edge) im
      in im\<lparr>im_unresolved_reviews := im_unresolved_reviews im + ce_unresolved_reviews edge,
            im_evidence_items := im_evidence_items im + ce_evidence_items edge,
            im_external_owner_edges := im_external_owner_edges im + (if ce_crosses_owner edge then 1 else 0)\<rparr>)"

definition component_edge_of ::
    "(string \<times> string) list \<Rightarrow> (string \<times> string) \<times> edge_draft \<Rightarrow> component_edge" where
  "component_edge_of owners = (\<lambda>((from, to), draft).
     \<lparr>ce_from = from, ce_to = to, ce_module_edges = ed_module_edges draft,
      ce_boundaries = ed_boundaries draft, ce_evidence_items = ed_evidence_items draft,
      ce_unresolved_reviews = ed_unresolved_reviews draft,
      ce_crosses_owner = (btm_get owners from \<noteq> btm_get owners to)\<rparr>)"

definition finish_edge ::
    "(string \<times> string) list \<Rightarrow> (string \<times> string) \<times> edge_draft \<Rightarrow>
     component_edge list \<times> incidents \<Rightarrow> component_edge list \<times> incidents" where
  "finish_edge owners draft = (\<lambda>(edges, incident).
     let edge = component_edge_of owners draft;
         incident = btm_update (ce_from edge) no_incidents (apply_incident_edge edge True) incident;
         incident = btm_update (ce_to edge) no_incidents (apply_incident_edge edge False) incident
     in (edges @ [edge], incident))"

definition build_component_edges ::
    "manifest \<Rightarrow> (string \<times> string) list \<Rightarrow> (string \<times> string) list \<Rightarrow> component_edge list \<times> incidents" where
  "build_component_edges m component_of owners =
     (let (drafts, incident) = fold (add_module_edges component_of) (manifest_modules m) ([], []);
          (edges, incident) = fold (finish_edge owners) drafts ([], incident)
      in (sort_key (\<lambda>e. (ce_from e, ce_to e)) edges, incident))"

section \<open>Summaries\<close>

definition pair_covered :: "manifest \<Rightarrow> module \<Rightarrow> target \<Rightarrow> bool" where
  "pair_covered m md t =
     list_ex (\<lambda>g. case manifest_gate m g of None \<Rightarrow> False
                | Some gate \<Rightarrow> target_id t \<in> set (gate_targets gate)) (module_gates md)"

definition test_coverage_proxy_of :: "manifest \<Rightarrow> module list \<Rightarrow> test_coverage_proxy" where
  "test_coverage_proxy_of m modules =
     (let required = filter target_required (manifest_targets m);
          total_pairs = length modules * length required
      in if total_pairs = 0 then
           \<lparr>tp_covered_pairs = 0, tp_total_pairs = 0, tp_basis_points = 10000\<rparr>
         else
           let covered_pairs =
                 fold (\<lambda>md n. fold (\<lambda>t n. n + (if pair_covered m md t then 1 else 0)) required n) modules 0
           in \<lparr>tp_covered_pairs = covered_pairs, tp_total_pairs = total_pairs,
               tp_basis_points = ucast (of_nat covered_pairs * 10000 div of_nat total_pairs :: 64 word)\<rparr>)"

definition ratio_basis_points :: "64 word \<Rightarrow> 64 word \<Rightarrow> 32 word" where
  "ratio_basis_points numerator denominator =
     (if denominator = 0 then 10000 else ucast (min (sat_mul numerator 10000 div denominator) 10000))"

definition measure_source ::
    "coverage_report \<Rightarrow> string \<Rightarrow> nat \<times> string list \<times> 64 word \<times> 64 word \<Rightarrow>
     nat \<times> string list \<times> 64 word \<times> 64 word" where
  "measure_source report source = (\<lambda>(n, missing, total_lines, covered_lines).
     case report_file report source of
       Some file \<Rightarrow> (n + 1, missing, sat_add total_lines (lc_count (fc_lines file)),
         sat_add covered_lines (lc_covered (fc_lines file)))
     | None \<Rightarrow> (n, missing @ [source], total_lines, covered_lines))"

definition measured_source_coverage :: "string list \<Rightarrow> coverage_report \<Rightarrow> source_coverage_measurement" where
  "measured_source_coverage sources report =
     (let (n, missing, total_lines, covered_lines) = fold (measure_source report) sources (0, [], 0, 0);
          line_points = ratio_basis_points covered_lines total_lines;
          measured_points = ratio_basis_points (of_nat n) (of_nat (length sources))
      in \<lparr>sm_total_sources = length sources, sm_measured_sources = n, sm_missing_sources = missing,
          sm_covered_lines = covered_lines, sm_total_lines = total_lines,
          sm_line_basis_points = line_points,
          sm_effective_basis_points = min measured_points line_points\<rparr>)"

definition div_ceil :: "nat \<Rightarrow> nat \<Rightarrow> nat" where
  "div_ceil a b = (a div b) + (if a mod b > 0 then 1 else 0)"

text \<open>The penalties for the target coverage and for the source coverage.\<close>

definition coverage_risk_penalties ::
    "test_coverage_proxy \<Rightarrow> source_coverage_measurement option \<Rightarrow> nat \<times> nat" where
  "coverage_risk_penalties proxy source =
     (case source of
        Some sm \<Rightarrow> (0, div_ceil ((10000 - unat (sm_effective_basis_points sm)) * 25) 10000)
      | None \<Rightarrow>
          (if tp_total_pairs proxy = 0 then 0
           else div_ceil ((tp_total_pairs proxy - tp_covered_pairs proxy) * 25) (tp_total_pairs proxy), 0))"

definition migration_scope_of :: "string \<Rightarrow> migration_scope" where
  "migration_scope_of path =
     (let first = hd (split_on (CHR ''/'') path)
      in if starts_with ''services/'' path then BrowserService
         else if first \<in> set [''base'', ''components'', ''net'', ''ui''] then ReusableInfrastructure
         else if first \<in> set [''chrome'', ''content''] then ProcessSecurityKernel
         else if starts_with ''third_party/blink'' path \<or> first \<in> set [''v8'', ''skia'', ''gpu'', ''media'']
         then DeferredRuntime else OtherScope)"

fun scope_penalty :: "migration_scope \<Rightarrow> nat" where
  "scope_penalty BrowserService = 0"
| "scope_penalty ReusableInfrastructure = 5"
| "scope_penalty ProcessSecurityKernel = 15"
| "scope_penalty DeferredRuntime = 40"
| "scope_penalty OtherScope = 10"

definition calculate_risk ::
    "nat \<Rightarrow> nat \<Rightarrow> state_counts \<Rightarrow> nat \<times> nat \<Rightarrow> bool \<Rightarrow> migration_scope \<Rightarrow> incident_metrics \<Rightarrow>
     risk_breakdown" where
  "calculate_risk module_count source_files states coverage no_gates scope incident =
     (let module_size = min ((module_count - 1) * 2) 20;
          source_size = min (div_ceil source_files 10) 15;
          topology = min (length (im_incoming incident) + length (im_outgoing incident)) 20;
          boundaries = min (im_unaudited incident * 8 + im_audited incident * 2 + im_rust incident) 40;
          reviews = min (im_unresolved_reviews incident * 10) 40;
          mixed_state = (if is_mixed states then 20 else 0);
          missing_gate = (if no_gates then 15 else 0);
          penalty = scope_penalty scope
      in \<lparr>risk_module_size = module_size, risk_source_size = source_size, risk_topology = topology,
          risk_boundaries = boundaries, risk_unresolved_reviews = reviews, risk_mixed_state = mixed_state,
          risk_missing_gates = missing_gate, risk_scope = penalty,
          risk_missing_target_coverage = fst coverage, risk_source_coverage = snd coverage,
          risk_total = min (module_size + source_size + topology + boundaries + reviews + mixed_state
            + missing_gate + penalty + fst coverage + snd coverage) 100\<rparr>)"

text \<open>The first loop of \<open>summarize_component\<close>: states, gates, sources, unresolved ownership includes.\<close>

type_synonym group_facts = "state_counts \<times> string list \<times> string list \<times> ownership_include list"

definition add_group_module :: "module \<Rightarrow> group_facts \<Rightarrow> group_facts" where
  "add_group_module md = (\<lambda>(states, gates, sources, includes).
     (add_state (module_state md) states, bts_extend (module_gates md) gates,
      bts_extend (module_sources md) sources,
      (case module_ownership md of None \<Rightarrow> includes
       | Some ownership \<Rightarrow> bts_extend (mo_unresolved_includes ownership) includes)))"

definition group_facts :: "group_draft \<Rightarrow> group_facts" where
  "group_facts grp =
     fold add_group_module (gd_modules grp)
       (\<lparr>sc_legacy_cpp = 0, sc_bridged = 0, sc_rust_owned = 0\<rparr>, [], [], [])"

definition component_concerns ::
    "group_facts \<Rightarrow> test_coverage_proxy \<Rightarrow> source_coverage_measurement option \<Rightarrow> migration_scope \<Rightarrow>
     incident_metrics \<Rightarrow> candidate_concern list" where
  "component_concerns = (\<lambda>(states, gates, sources, includes) proxy source_coverage scope incident.
     let concerns = push_if (sources = []) NoSourceFiles [];
         concerns = push_if (gates = []) MissingGates concerns;
         concerns = push_if (tp_covered_pairs proxy < tp_total_pairs proxy)
           (MissingRequiredTargetCoverage (tp_total_pairs proxy - tp_covered_pairs proxy)
             (tp_total_pairs proxy)) concerns;
         concerns = (case source_coverage of None \<Rightarrow> concerns
           | Some sm \<Rightarrow> push_if (sm_missing_sources sm \<noteq> [])
               (IncompleteSourceCoverage (length (sm_missing_sources sm)) (sm_total_sources sm)) concerns);
         concerns = push_if (is_mixed states) MixedMigrationStates concerns;
         concerns = push_if (scope = DeferredRuntime) (DeferredScope scope) concerns;
         concerns = push_if (im_unresolved_reviews incident > 0)
           (UnresolvedReviews (im_unresolved_reviews incident)) concerns;
         concerns = push_if (includes \<noteq> []) (UnresolvedOwnershipIncludes (length includes)) concerns;
         concerns = push_if (im_unaudited incident > 0)
           (UnauditedExternalEdges (im_unaudited incident)) concerns
     in sort_key concern_key concerns)"

definition summarize_component ::
    "manifest \<Rightarrow> group_draft \<Rightarrow> string \<Rightarrow> incident_metrics \<Rightarrow> coverage_report option \<Rightarrow>
     component_summary" where
  "summarize_component m grp i incident coverage =
     (let (states, gates, sources, includes) = group_facts grp;
          proxy = test_coverage_proxy_of m (gd_modules grp);
          source_coverage = map_option (measured_source_coverage sources) coverage;
          scope = migration_scope_of (gd_path grp);
          concerns = component_concerns (states, gates, sources, includes) proxy source_coverage scope incident;
          risk = calculate_risk (length (gd_modules grp)) (length sources) states
            (coverage_risk_penalties proxy source_coverage) (gates = []) scope incident
      in \<lparr>cp_id = i, cp_path = gd_path grp, cp_owner = gd_owner grp, cp_scope = scope,
          cp_modules = map module_id (gd_modules grp), cp_source_files = length sources,
          cp_states = states, cp_gates = gates, cp_test_coverage = proxy,
          cp_source_coverage = source_coverage,
          cp_incoming_components = length (im_incoming incident),
          cp_outgoing_components = length (im_outgoing incident),
          cp_unaudited_external_edges = im_unaudited incident,
          cp_audited_external_edges = im_audited incident,
          cp_rust_external_edges = im_rust incident,
          cp_unresolved_reviews = im_unresolved_reviews incident,
          cp_evidence_items = im_evidence_items incident,
          cp_external_owner_edges = im_external_owner_edges incident,
          cp_unresolved_ownership_includes = length includes, cp_risk = risk,
          cp_readiness_score = 100 - risk_total risk, cp_eligible = (concerns = []),
          cp_concerns = concerns\<rparr>)"

section \<open>The analysis\<close>

definition candidate_of :: "component_summary \<Rightarrow> ranked_candidate" where
  "candidate_of c =
     \<lparr>rc_rank = 0, rc_component = cp_id c, rc_path = cp_path c, rc_owner = cp_owner c,
      rc_scope = cp_scope c, rc_readiness_score = cp_readiness_score c,
      rc_risk_score = risk_total (cp_risk c), rc_eligible = cp_eligible c,
      rc_source_files = cp_source_files c, rc_module_count = length (cp_modules c),
      rc_concerns = cp_concerns c\<rparr>"

text \<open>Eligible first, then the higher readiness, the lower risk, fewer sources, the identifier.\<close>

definition ranking_key :: "ranked_candidate \<Rightarrow> bool \<times> int \<times> nat \<times> nat \<times> string" where
  "ranking_key c =
     (\<not> rc_eligible c, - int (rc_readiness_score c), rc_risk_score c, rc_source_files c, rc_component c)"

definition rank_candidates :: "component_summary list \<Rightarrow> ranked_candidate list" where
  "rank_candidates summaries =
     map (\<lambda>(index, c). c\<lparr>rc_rank := index + 1\<rparr>)
       (enumerate 0 (sort_key ranking_key
         (map candidate_of (filter (\<lambda>c. \<not> is_fully_rust_owned (cp_states c)) summaries))))"

definition analyze_components_with_coverage ::
    "manifest \<Rightarrow> nat \<Rightarrow> coverage_report option \<Rightarrow> (analysis_error, component_analysis) result" where
  "analyze_components_with_coverage m path_depth coverage =
     (if path_depth = 0 then Inl ZeroPathDepth
      else
        let groups = build_groups m path_depth;
            ids = assign_component_ids groups;
            component_of = map_modules_to_components groups ids;
            owners = btm_of_list (map (\<lambda>(grp, i). (i, gd_owner grp)) (zip groups ids));
            (edges, incident) = build_component_edges m component_of owners;
            summaries = sort_key cp_id (map (\<lambda>(grp, i).
              summarize_component m grp i
                (case btm_get incident i of None \<Rightarrow> no_incidents | Some im \<Rightarrow> im) coverage) (zip groups ids))
        in Inr \<lparr>an_baseline = project_baseline (manifest_project m), an_path_depth = path_depth,
                an_module_count = length (manifest_modules m), an_component_count = length summaries,
                an_components = summaries, an_edges = edges, an_ranking = rank_candidates summaries\<rparr>)"

definition analyze_components :: "manifest \<Rightarrow> nat \<Rightarrow> (analysis_error, component_analysis) result" where
  "analyze_components m path_depth = analyze_components_with_coverage m path_depth None"

end
