(* ===== verification/ComponentsCorrect.thy ===== *)
theory ComponentsCorrect
  imports Components Planner "HOL-Library.Multiset"
begin

text \<open>
  What the component analysis guarantees: groups partition the modules, edges count the dependencies
  between components, scores stay in range, eligibility means what the concerns say, and the ranking is
  the sorted list of the components that are not finished.
\<close>

section \<open>Groups\<close>

definition group_key :: "nat \<Rightarrow> module \<Rightarrow> string \<times> string" where
  "group_key depth md = (module_owner_key md, component_path depth md)"

lemma fold_append_singletons: "fold (\<lambda>x xs. xs @ [x]) ys zs = zs @ ys"
  by (induction ys arbitrary: zs) auto

lemma values_of_map: "values_of k (map (\<lambda>x. (g x, x)) xs) = filter (\<lambda>x. g x = k) xs"
  by (induction xs) auto

lemma group_fold:
  "fold (group_module depth) mds [] =
     fold (\<lambda>(k, md). btm_update k [] (\<lambda>modules. modules @ [md])) (map (\<lambda>md. (group_key depth md, md)) mds) []"
  by (simp add: fold_map o_def group_module_def [abs_def] group_key_def)

lemma set_group_fold:
  "set (fold (group_module depth) mds []) =
     (\<lambda>k. (k, filter (\<lambda>md. group_key depth md = k) mds)) ` group_key depth ` set mds"
  unfolding group_fold
  using set_fold_update [of "[]" "\<lambda>md modules. modules @ [md]" "map (\<lambda>md. (group_key depth md, md)) mds"]
  by (simp add: values_of_map fold_append_singletons image_image)

definition group_of :: "group_draft \<Rightarrow> string \<times> string" where
  "group_of grp = (gd_owner grp, gd_path grp)"

lemma build_groups_members:
  assumes "grp \<in> set (build_groups m depth)"
  shows "gd_modules grp = sort_key module_id (filter (\<lambda>md. group_key depth md = group_of grp) (manifest_modules m))"
    and "gd_modules grp \<noteq> []"
proof -
  from assms obtain k where k: "k \<in> group_key depth ` set (manifest_modules m)"
    "group_of grp = k"
    "gd_modules grp = sort_key module_id (filter (\<lambda>md. group_key depth md = k) (manifest_modules m))"
  proof -
    from assms obtain o' p' ms where g: "((o', p'), ms) \<in> set (fold (group_module depth) (manifest_modules m) [])"
      "grp = \<lparr>gd_path = p', gd_owner = o', gd_modules = sort_key module_id ms\<rparr>"
      by (auto simp: build_groups_def)
    show thesis
      by (rule that [of "(o', p')"]) (use g in \<open>auto simp: set_group_fold group_of_def\<close>)
  qed
  then show "gd_modules grp = sort_key module_id (filter (\<lambda>md. group_key depth md = group_of grp) (manifest_modules m))"
    by simp
  have "filter (\<lambda>md. group_key depth md = k) (manifest_modules m) \<noteq> []"
    using k(1) by (auto simp: filter_empty_conv)
  then show "gd_modules grp \<noteq> []"
    unfolding k(3) using set_sort by (metis set_empty)
qed

lemma build_groups_keys:
  "map group_of (build_groups m depth) = map fst (fold (group_module depth) (manifest_modules m) [])"
  by (simp add: build_groups_def group_of_def case_prod_beta o_def)

lemma build_groups_ascending: "ascending (map group_of (build_groups m depth))"
  unfolding build_groups_keys group_fold by (rule ascending_fold_update) simp

lemma build_groups_set:
  "set (map group_of (build_groups m depth)) = group_key depth ` set (manifest_modules m)"
  unfolding build_groups_keys set_map set_group_fold by force

text \<open>Every module is in exactly one group.\<close>

lemma module_in_one_group:
  assumes "md \<in> set (manifest_modules m)"
  shows "\<exists>!grp. grp \<in> set (build_groups m depth) \<and> md \<in> set (gd_modules grp)"
proof -
  have "group_key depth md \<in> set (map group_of (build_groups m depth))"
    unfolding build_groups_set using assms by blast
  then obtain grp where grp: "grp \<in> set (build_groups m depth)" "group_of grp = group_key depth md" by auto
  show ?thesis
  proof (rule ex1I)
    show "grp \<in> set (build_groups m depth) \<and> md \<in> set (gd_modules grp)"
      using grp assms build_groups_members(1) [OF grp(1)] by simp
    fix g assume g: "g \<in> set (build_groups m depth) \<and> md \<in> set (gd_modules g)"
    then have "group_of g = group_of grp"
      using build_groups_members(1) [of g m depth] grp(2) by auto
    moreover have "distinct (map group_of (build_groups m depth))"
      using build_groups_ascending ascending_distinct by blast
    ultimately show "g = grp" using g grp(1) by (auto simp: distinct_map inj_on_def)
  qed
qed

section \<open>Scores\<close>

lemma risk_total_bound: "risk_total (calculate_risk n s st cov g scope im) \<le> 100"
  by (simp add: calculate_risk_def Let_def)

lemma summarize_component_scores:
  "risk_total (cp_risk (summarize_component m grp i im cov)) \<le> 100"
  "cp_readiness_score (summarize_component m grp i im cov) =
     100 - risk_total (cp_risk (summarize_component m grp i im cov))"
  "cp_eligible (summarize_component m grp i im cov) \<longleftrightarrow> cp_concerns (summarize_component m grp i im cov) = []"
  using risk_total_bound
  by (cases "group_facts grp"; simp add: summarize_component_def Let_def)+

section \<open>Eligibility\<close>

lemma push_if_Nil: "push_if b e xs = [] \<longleftrightarrow> \<not> b \<and> xs = []"
  by (simp add: push_if_def)

lemma sort_key_Nil_iff: "sort_key f xs = [] \<longleftrightarrow> xs = []"
  by (metis length_0_conv length_sort)

lemma add_group_module_eq:
  "add_group_module md (states, gates, sources, incl) =
     (add_state (module_state md) states, bts_extend (module_gates md) gates,
      bts_extend (module_sources md) sources,
      (case module_ownership md of None \<Rightarrow> incl | Some o' \<Rightarrow> bts_extend (mo_unresolved_includes o') incl))"
  by (simp add: add_group_module_def)

definition includes_of :: "module \<Rightarrow> ownership_include set" where
  "includes_of md = (case module_ownership md of None \<Rightarrow> {} | Some o' \<Rightarrow> set (mo_unresolved_includes o'))"

definition in_state :: "migration_state \<Rightarrow> module list \<Rightarrow> nat" where
  "in_state state mds = length (filter (\<lambda>md. module_state md = state) mds)"

lemma group_facts_fold:
  "fold add_group_module mds (states, gates, sources, incl) = (states', gates', sources', incl') \<Longrightarrow>
     set gates' = set gates \<union> (\<Union>md\<in>set mds. set (module_gates md)) \<and>
     set sources' = set sources \<union> (\<Union>md\<in>set mds. set (module_sources md)) \<and>
     set incl' = set incl \<union> (\<Union>md\<in>set mds. includes_of md) \<and>
     sc_legacy_cpp states' = sc_legacy_cpp states + in_state LegacyCpp mds \<and>
     sc_bridged states' = sc_bridged states + in_state Bridged mds \<and>
     sc_rust_owned states' = sc_rust_owned states + in_state RustOwned mds"
proof (induction mds arbitrary: states gates sources incl)
  case (Cons md mds)
  let ?inc = "case module_ownership md of None \<Rightarrow> incl | Some o' \<Rightarrow> bts_extend (mo_unresolved_includes o') incl"
  have "fold add_group_module mds (add_state (module_state md) states, bts_extend (module_gates md) gates,
      bts_extend (module_sources md) sources, ?inc) = (states', gates', sources', incl')"
    using Cons.prems by (simp add: add_group_module_eq)
  note IH = Cons.IH [OF this]
  have "set ?inc = set incl \<union> includes_of md" by (auto simp: includes_of_def split: option.split)
  moreover have
    "sc_legacy_cpp (add_state (module_state md) states) = sc_legacy_cpp states + in_state LegacyCpp [md]"
    "sc_bridged (add_state (module_state md) states) = sc_bridged states + in_state Bridged [md]"
    "sc_rust_owned (add_state (module_state md) states) = sc_rust_owned states + in_state RustOwned [md]"
    by (cases "module_state md"; simp add: add_state_def in_state_def)+
  moreover have "in_state s (md # mds) = in_state s [md] + in_state s mds" for s
    by (simp add: in_state_def)
  ultimately show ?case using IH by (simp add: Un_assoc Un_left_commute)
qed (simp add: in_state_def)

lemma in_state_pos: "in_state s mds > 0 \<longleftrightarrow> (\<exists>md\<in>set mds. module_state md = s)"
  by (auto simp: in_state_def filter_empty_conv)

lemma two_states:
  "(\<exists>a\<in>A. \<exists>b\<in>A. module_state a \<noteq> module_state b) \<longleftrightarrow>
     (\<exists>md\<in>A. module_state md = LegacyCpp) \<and> (\<exists>md\<in>A. module_state md = Bridged) \<or>
     (\<exists>md\<in>A. module_state md = LegacyCpp) \<and> (\<exists>md\<in>A. module_state md = RustOwned) \<or>
     (\<exists>md\<in>A. module_state md = Bridged) \<and> (\<exists>md\<in>A. module_state md = RustOwned)" (is "?l \<longleftrightarrow> ?r")
proof
  assume ?l
  then obtain a b where ab: "a \<in> A" "b \<in> A" "module_state a \<noteq> module_state b" by blast
  show ?r
    by (cases "module_state a"; cases "module_state b") (use ab in auto)
next
  assume ?r
  then show ?l by (elim disjE conjE bexE) (metis migration_state.distinct)+
qed

lemma only_rust:
  "(\<exists>md\<in>set mds. module_state md = RustOwned) \<and> \<not> (\<exists>md\<in>set mds. module_state md = LegacyCpp) \<and>
     \<not> (\<exists>md\<in>set mds. module_state md = Bridged) \<longleftrightarrow>
   mds \<noteq> [] \<and> (\<forall>md\<in>set mds. module_state md = RustOwned)" (is "?l \<longleftrightarrow> ?r")
proof
  assume l: ?l
  then have "mds \<noteq> []" by auto
  moreover have "module_state md = RustOwned" if "md \<in> set mds" for md
    using l that by (cases "module_state md") auto
  ultimately show ?r by blast
next
  assume ?r
  then show ?l by (cases mds) auto
qed

lemma group_facts_eq:
  assumes "group_facts grp = (states, gates, sources, incl)"
  shows "set gates = (\<Union>md\<in>set (gd_modules grp). set (module_gates md))"
    and "set sources = (\<Union>md\<in>set (gd_modules grp). set (module_sources md))"
    and "set incl = (\<Union>md\<in>set (gd_modules grp). includes_of md)"
    and "is_mixed states \<longleftrightarrow>
      (\<exists>a\<in>set (gd_modules grp). \<exists>b\<in>set (gd_modules grp). module_state a \<noteq> module_state b)"
    and "is_fully_rust_owned states \<longleftrightarrow>
      gd_modules grp \<noteq> [] \<and> (\<forall>md\<in>set (gd_modules grp). module_state md = RustOwned)"
proof -
  note f = group_facts_fold [OF assms [unfolded group_facts_def]]
  show "set gates = (\<Union>md\<in>set (gd_modules grp). set (module_gates md))"
    "set sources = (\<Union>md\<in>set (gd_modules grp). set (module_sources md))"
    "set incl = (\<Union>md\<in>set (gd_modules grp). includes_of md)" using f by simp_all
  let ?has = "\<lambda>s. \<exists>md\<in>set (gd_modules grp). module_state md = s"
  have c: "sc_legacy_cpp states = in_state LegacyCpp (gd_modules grp)"
    "sc_bridged states = in_state Bridged (gd_modules grp)"
    "sc_rust_owned states = in_state RustOwned (gd_modules grp)" using f by simp_all
  have pos: "0 < sc_legacy_cpp states \<longleftrightarrow> ?has LegacyCpp" "0 < sc_bridged states \<longleftrightarrow> ?has Bridged"
    "0 < sc_rust_owned states \<longleftrightarrow> ?has RustOwned" by (simp_all only: c in_state_pos)
  have "is_mixed states \<longleftrightarrow> ?has LegacyCpp \<and> ?has Bridged \<or> ?has LegacyCpp \<and> ?has RustOwned \<or>
      ?has Bridged \<and> ?has RustOwned"
    unfolding pos [symmetric] by (auto simp: is_mixed_def)
  also have "\<dots> \<longleftrightarrow> (\<exists>a\<in>set (gd_modules grp). \<exists>b\<in>set (gd_modules grp). module_state a \<noteq> module_state b)"
    unfolding two_states ..
  finally show "is_mixed states \<longleftrightarrow>
      (\<exists>a\<in>set (gd_modules grp). \<exists>b\<in>set (gd_modules grp). module_state a \<noteq> module_state b)" .
  have "is_fully_rust_owned states \<longleftrightarrow> ?has RustOwned \<and> \<not> ?has LegacyCpp \<and> \<not> ?has Bridged"
    unfolding pos [symmetric] by (auto simp: is_fully_rust_owned_def)
  also have "\<dots> \<longleftrightarrow> gd_modules grp \<noteq> [] \<and> (\<forall>md\<in>set (gd_modules grp). module_state md = RustOwned)"
    by (rule only_rust)
  finally show "is_fully_rust_owned states \<longleftrightarrow>
      gd_modules grp \<noteq> [] \<and> (\<forall>md\<in>set (gd_modules grp). module_state md = RustOwned)" .
qed

text \<open>Target coverage counts pairs of a module and a required target.\<close>

lemma fold_count: "fold (\<lambda>x n. n + (if P x then 1 else (0::nat))) xs n = n + length (filter P xs)"
  by (induction xs arbitrary: n) auto

lemma fold_add: "fold (\<lambda>x n. n + f x) xs (n::nat) = n + sum_list (map f xs)"
  by (induction xs arbitrary: n) auto

definition covered_targets :: "manifest \<Rightarrow> module \<Rightarrow> nat" where
  "covered_targets m md = length (filter (pair_covered m md) (filter target_required (manifest_targets m)))"

lemma test_coverage_proxy_pairs:
  "tp_covered_pairs (test_coverage_proxy_of m mds) = sum_list (map (covered_targets m) mds)"
  "tp_total_pairs (test_coverage_proxy_of m mds) =
     length mds * length (filter target_required (manifest_targets m))"
proof -
  let ?req = "filter target_required (manifest_targets m)"
  have "fold (\<lambda>md n. fold (\<lambda>t n. n + (if pair_covered m md t then 1 else 0)) ?req n) mds 0 =
      sum_list (map (covered_targets m) mds)"
    unfolding fold_count fold_add covered_targets_def by simp
  moreover have "sum_list (map (covered_targets m) mds) = 0" if "length mds * length ?req = 0"
    using that unfolding covered_targets_def by (cases "mds = []") (simp_all del: filter_filter)
  ultimately show "tp_covered_pairs (test_coverage_proxy_of m mds) = sum_list (map (covered_targets m) mds)"
    by (simp add: test_coverage_proxy_of_def Let_def)
  show "tp_total_pairs (test_coverage_proxy_of m mds) = length mds * length ?req"
    by (simp add: test_coverage_proxy_of_def Let_def)
qed

lemma covered_targets_le: "covered_targets m md \<le> length (filter target_required (manifest_targets m))"
  unfolding covered_targets_def by (rule length_filter_le)

lemma covered_targets_all:
  "covered_targets m md = length (filter target_required (manifest_targets m)) \<longleftrightarrow>
     (\<forall>t\<in>set (manifest_targets m). target_required t \<longrightarrow> pair_covered m md t)"
proof -
  have "length (filter P xs) = length xs \<longleftrightarrow> (\<forall>x\<in>set xs. P x)" for P and xs :: "target list"
    by (metis filter_True length_filter_less not_less_iff_gr_or_eq)
  from this [of "pair_covered m md" "filter target_required (manifest_targets m)"] show ?thesis
    unfolding covered_targets_def by (simp only: set_filter mem_Collect_eq) blast
qed

lemma sum_list_at_bound:
  "\<forall>x\<in>set xs. f x \<le> (k::nat) \<Longrightarrow> sum_list (map f xs) < length xs * k \<longleftrightarrow> (\<exists>x\<in>set xs. f x \<noteq> k)"
proof (induction xs)
  case (Cons x xs)
  have "sum_list (map f xs) \<le> length xs * k"
    using Cons.prems by (induction xs) (auto intro: add_mono)
  then show ?case using Cons by fastforce
qed simp

lemma proxy_incomplete_iff:
  "tp_covered_pairs (test_coverage_proxy_of m mds) < tp_total_pairs (test_coverage_proxy_of m mds) \<longleftrightarrow>
     (\<exists>md\<in>set mds. \<exists>t\<in>set (manifest_targets m). target_required t \<and> \<not> pair_covered m md t)"
  unfolding test_coverage_proxy_pairs
  using sum_list_at_bound [of mds "covered_targets m" "length (filter target_required (manifest_targets m))"]
    covered_targets_le covered_targets_all by blast

lemma measured_missing:
  "set (sm_missing_sources (measured_source_coverage sources report)) =
     {s \<in> set sources. report_file report s = None}"
proof -
  have "set (fst (snd (fold (measure_source report) ss (n, missing, a, b)))) =
      set missing \<union> {s \<in> set ss. report_file report s = None}" for ss n missing a b
    by (induction ss arbitrary: n missing a b) (auto simp: measure_source_def split: option.splits)
  from this [of sources 0 "[]" 0 0] show ?thesis
    by (simp add: measured_source_coverage_def Let_def case_prod_beta)
qed

text \<open>When a component is eligible, over the modules of its group.\<close>

definition eligible_group ::
    "manifest \<Rightarrow> group_draft \<Rightarrow> incident_metrics \<Rightarrow> coverage_report option \<Rightarrow> bool" where
  "eligible_group m grp im coverage \<longleftrightarrow>
     (\<exists>md\<in>set (gd_modules grp). module_sources md \<noteq> []) \<and>
     (\<exists>md\<in>set (gd_modules grp). module_gates md \<noteq> []) \<and>
     (\<forall>md\<in>set (gd_modules grp). \<forall>t\<in>set (manifest_targets m). target_required t \<longrightarrow> pair_covered m md t) \<and>
     (\<forall>report. coverage = Some report \<longrightarrow>
        (\<forall>md\<in>set (gd_modules grp). \<forall>s\<in>set (module_sources md). report_file report s \<noteq> None)) \<and>
     (\<forall>a\<in>set (gd_modules grp). \<forall>b\<in>set (gd_modules grp). module_state a = module_state b) \<and>
     migration_scope_of (gd_path grp) \<noteq> DeferredRuntime \<and>
     im_unresolved_reviews im = 0 \<and> im_unaudited im = 0 \<and>
     (\<forall>md\<in>set (gd_modules grp). includes_of md = {})"

lemma component_concerns_Nil:
  "component_concerns (states, gates, sources, incl) proxy source_coverage scope im = [] \<longleftrightarrow>
     sources \<noteq> [] \<and> gates \<noteq> [] \<and> \<not> tp_covered_pairs proxy < tp_total_pairs proxy \<and>
     (\<forall>sm. source_coverage = Some sm \<longrightarrow> sm_missing_sources sm = []) \<and> \<not> is_mixed states \<and>
     scope \<noteq> DeferredRuntime \<and> im_unresolved_reviews im = 0 \<and> incl = [] \<and> im_unaudited im = 0"
  by (auto simp: component_concerns_def Let_def push_if_Nil sort_key_Nil_iff split: option.splits)

lemma eligible_iff:
  "cp_eligible (summarize_component m grp i im coverage) \<longleftrightarrow> eligible_group m grp im coverage"
proof -
  obtain states gates sources incl where f: "group_facts grp = (states, gates, sources, incl)"
    by (metis prod_cases4)
  note facts = group_facts_eq [OF f]
  have nil: "xs = [] \<longleftrightarrow> set xs = {}" for xs :: "'x list" by simp
  have e: "cp_eligible (summarize_component m grp i im coverage) \<longleftrightarrow>
      component_concerns (states, gates, sources, incl) (test_coverage_proxy_of m (gd_modules grp))
        (map_option (measured_source_coverage sources) coverage) (migration_scope_of (gd_path grp)) im = []"
    by (simp add: summarize_component_def f Let_def)
  have "sources \<noteq> [] \<longleftrightarrow> (\<exists>md\<in>set (gd_modules grp). module_sources md \<noteq> [])"
    "gates \<noteq> [] \<longleftrightarrow> (\<exists>md\<in>set (gd_modules grp). module_gates md \<noteq> [])"
    "incl = [] \<longleftrightarrow> (\<forall>md\<in>set (gd_modules grp). includes_of md = {})"
    unfolding nil [of sources] nil [of gates] nil [of incl] facts(1-3) by auto
  moreover have "sm_missing_sources (measured_source_coverage sources report) = [] \<longleftrightarrow>
      (\<forall>md\<in>set (gd_modules grp). \<forall>s\<in>set (module_sources md). report_file report s \<noteq> None)" for report
    unfolding nil measured_missing facts(2) by auto
  ultimately show ?thesis
    unfolding e component_concerns_Nil eligible_group_def proxy_incomplete_iff facts(4) by auto
qed

section \<open>Ranking\<close>

lemma rank_candidates_eq:
  "map (rc_rank_update (\<lambda>_. 0)) (rank_candidates summaries) =
     sort_key ranking_key (map candidate_of (filter (\<lambda>c. \<not> is_fully_rust_owned (cp_states c)) summaries))"
proof -
  have "map (rc_rank_update (\<lambda>_. 0)) (map (\<lambda>(index, c). c\<lparr>rc_rank := index + 1\<rparr>) (enumerate n cs)) = cs"
    if "\<forall>c\<in>set cs. rc_rank c = 0" for n and cs :: "ranked_candidate list"
    using that by (induction cs arbitrary: n) simp_all
  moreover have "\<forall>c\<in>set (sort_key ranking_key (map candidate_of
      (filter (\<lambda>c. \<not> is_fully_rust_owned (cp_states c)) summaries))). rc_rank c = 0"
    by (auto simp: candidate_of_def)
  ultimately show ?thesis unfolding rank_candidates_def by blast
qed

lemma rank_candidates_ranks: "map rc_rank (rank_candidates summaries) = [1..<length (rank_candidates summaries) + 1]"
proof -
  have "map rc_rank (map (\<lambda>(index, c). c\<lparr>rc_rank := index + 1\<rparr>) (enumerate n cs)) = [n + 1..<n + length cs + 1]"
    for n and cs :: "ranked_candidate list"
    by (induction cs arbitrary: n) (simp_all add: upt_rec)
  from this [of 0] show ?thesis unfolding rank_candidates_def by simp
qed

lemma rank_candidates_sorted: "sorted (map ranking_key (rank_candidates summaries))"
proof -
  have "ranking_key (rc_rank_update f c) = ranking_key c" for f c by (simp add: ranking_key_def)
  then have "map ranking_key (rank_candidates summaries) =
      map ranking_key (map (rc_rank_update (\<lambda>_. 0)) (rank_candidates summaries))" by simp
  then show ?thesis unfolding rank_candidates_eq by simp
qed

section \<open>Edges\<close>

definition dependencies_between ::
    "module list \<Rightarrow> (string \<times> string) list \<Rightarrow> string \<Rightarrow> string \<Rightarrow> dependency list" where
  "dependencies_between mds component_of from to =
     concat (map (\<lambda>md. if btm_get component_of (module_id md) = Some from
       then filter (\<lambda>d. btm_get component_of (dep_module d) = Some to) (module_dependencies md) else []) mds)"

definition crossing_of ::
    "(string \<times> string) list \<Rightarrow> string \<Rightarrow> dependency \<Rightarrow> ((string \<times> string) \<times> dependency) list" where
  "crossing_of component_of from d =
     (case btm_get component_of (dep_module d) of None \<Rightarrow> []
      | Some to \<Rightarrow> if from = to then [] else [((from, to), d)])"

definition crossings_of ::
    "(string \<times> string) list \<Rightarrow> module \<Rightarrow> ((string \<times> string) \<times> dependency) list" where
  "crossings_of component_of md =
     (case btm_get component_of (module_id md) of None \<Rightarrow> []
      | Some from \<Rightarrow> concat (map (crossing_of component_of from) (module_dependencies md)))"

definition add_edge :: "dependency \<Rightarrow> edge_draft \<Rightarrow> edge_draft" where
  "add_edge d e =
     \<lparr>ed_module_edges = ed_module_edges e + 1,
      ed_boundaries = bts_insert (dep_boundary d) (ed_boundaries e),
      ed_evidence_items = ed_evidence_items e + length (dep_evidence d),
      ed_unresolved_reviews = ed_unresolved_reviews e + count_unresolved (dep_reviews d)\<rparr>"

definition update_draft :: "(string \<times> string) \<times> dependency \<Rightarrow> edge_drafts \<Rightarrow> edge_drafts" where
  "update_draft = (\<lambda>(k, d). btm_update k empty_edge (add_edge d))"

lemma add_dependency_drafts:
  "fst (add_dependency component_of from d st) = fold update_draft (crossing_of component_of from d) (fst st)"
  by (cases st)
    (simp add: add_dependency_def crossing_of_def update_draft_def add_edge_def [abs_def] split: option.split)

lemma add_module_drafts:
  "fst (add_module_edges component_of md st) = fold update_draft (crossings_of component_of md) (fst st)"
proof -
  have deps: "fst (fold (add_dependency component_of u) ds st) =
      fold update_draft (concat (map (crossing_of component_of u) ds)) (fst st)" for u ds st
    by (induction ds arbitrary: st) (simp_all add: add_dependency_drafts)
  show ?thesis
    by (cases st) (simp add: add_module_edges_def crossings_of_def deps split: option.split)
qed

lemma module_drafts:
  "fst (fold (add_module_edges component_of) mds st) =
     fold update_draft (concat (map (crossings_of component_of) mds)) (fst st)"
  by (induction mds arbitrary: st) (simp_all add: add_module_drafts)

lemma values_of_append [simp]: "values_of k (xs @ ys) = values_of k xs @ values_of k ys"
  by (simp add: values_of_def)

lemma values_of_crossing_of:
  "values_of (f, t) (concat (map (crossing_of component_of from) ds)) =
     (if f = from \<and> f \<noteq> t then filter (\<lambda>d. btm_get component_of (dep_module d) = Some t) ds else [])"
  by (induction ds) (auto simp: crossing_of_def split: option.splits if_splits)

lemma values_of_crossings:
  "values_of (f, t) (concat (map (crossings_of component_of) mds)) =
     (if f = t then [] else dependencies_between mds component_of f t)"
  by (induction mds) (auto simp: crossings_of_def dependencies_between_def values_of_crossing_of split: option.splits)

lemma fold_add_edge:
  "ed_module_edges (fold add_edge ds e) = ed_module_edges e + length ds"
  "set (ed_boundaries (fold add_edge ds e)) = set (ed_boundaries e) \<union> dep_boundary ` set ds"
  "ed_evidence_items (fold add_edge ds e) = ed_evidence_items e + (\<Sum>d\<leftarrow>ds. length (dep_evidence d))"
  "ed_unresolved_reviews (fold add_edge ds e) =
     ed_unresolved_reviews e + (\<Sum>d\<leftarrow>ds. count_unresolved (dep_reviews d))"
  by (induction ds arbitrary: e) (simp_all add: add_edge_def)

lemma finish_edges:
  "fst (fold (finish_edge owners) drafts st) = fst st @ map (component_edge_of owners) drafts"
  by (induction drafts arbitrary: st) (simp_all add: finish_edge_def Let_def case_prod_beta)

definition edge_ends :: "component_edge \<Rightarrow> string \<times> string" where
  "edge_ends e = (ce_from e, ce_to e)"

lemma component_edges_drafts:
  "fst (build_component_edges m component_of owners) =
     map (component_edge_of owners)
       (fold update_draft (concat (map (crossings_of component_of) (manifest_modules m))) [])"
proof -
  let ?drafts = "fold update_draft (concat (map (crossings_of component_of) (manifest_modules m))) []"
  have "ascending_keys ?drafts" unfolding update_draft_def by (rule ascending_fold_update) simp
  then have "sorted (map fst ?drafts)" by (rule strict_sorted_imp_sorted)
  then have "sorted (map (\<lambda>e. (ce_from e, ce_to e)) (map (component_edge_of owners) ?drafts))"
    by (simp add: component_edge_of_def case_prod_beta o_def)
  then have "sort_key (\<lambda>e. (ce_from e, ce_to e)) (map (component_edge_of owners) ?drafts) =
      map (component_edge_of owners) ?drafts"
    by (rule sort_key_id_if_sorted)
  then show ?thesis
    using module_drafts [of component_of "manifest_modules m" "([], [])"]
    by (simp add: build_component_edges_def Let_def case_prod_beta finish_edges)
qed

lemma component_edges_ascending: "ascending (map edge_ends (fst (build_component_edges m component_of owners)))"
proof -
  have "ascending_keys (fold update_draft (concat (map (crossings_of component_of) (manifest_modules m))) [])"
    unfolding update_draft_def by (rule ascending_fold_update) simp
  then show ?thesis
    by (simp add: component_edges_drafts edge_ends_def component_edge_of_def case_prod_beta o_def)
qed

lemma component_edges_set:
  "set (fst (build_component_edges m component_of owners)) =
     {component_edge_of owners ((f, t), fold add_edge (dependencies_between (manifest_modules m) component_of f t) empty_edge)
      | f t. f \<noteq> t \<and> dependencies_between (manifest_modules m) component_of f t \<noteq> []}"
proof -
  let ?kvs = "concat (map (crossings_of component_of) (manifest_modules m))"
  have keys: "(f, t) \<in> fst ` set ?kvs \<longleftrightarrow>
      f \<noteq> t \<and> dependencies_between (manifest_modules m) component_of f t \<noteq> []" for f t
  proof -
    have "(f, t) \<in> fst ` set ?kvs \<longleftrightarrow> values_of (f, t) ?kvs \<noteq> []" by (simp only: values_of_Nil_iff not_not)
    then show ?thesis unfolding values_of_crossings by (simp split: if_splits)
  qed
  have drafts: "set (fold update_draft ?kvs []) =
      {((f, t), fold add_edge (dependencies_between (manifest_modules m) component_of f t) empty_edge)
       | f t. f \<noteq> t \<and> dependencies_between (manifest_modules m) component_of f t \<noteq> []}" (is "?L = ?R")
  proof (rule set_eqI)
    fix x :: "(string \<times> string) \<times> edge_draft"
    obtain f t e where x: "x = ((f, t), e)" by (metis surj_pair)
    have "x \<in> ?L \<longleftrightarrow> (f, t) \<in> fst ` set ?kvs \<and> e = fold add_edge (values_of (f, t) ?kvs) empty_edge"
      unfolding update_draft_def set_fold_update x by auto
    then show "x \<in> ?L \<longleftrightarrow> x \<in> ?R" unfolding keys values_of_crossings x by auto
  qed
  show ?thesis unfolding component_edges_drafts set_map drafts by blast
qed

section \<open>Identifiers\<close>

text \<open>When the sanitised paths differ, every component is named by its path.\<close>

lemma fold_count_base:
  "fold count_base grps [] =
     fold (\<lambda>(k, _). btm_update k 0 (\<lambda>n. n + 1)) (map (\<lambda>grp. (sanitize_component_id (gd_path grp), ())) grps) []"
  by (simp add: fold_map o_def count_base_def [abs_def])

lemma base_count:
  "btm_get (fold count_base grps []) base = Some 1 \<longleftrightarrow>
     length (filter (\<lambda>grp. sanitize_component_id (gd_path grp) = base) grps) = 1"
proof -
  let ?kxs = "map (\<lambda>grp. (sanitize_component_id (gd_path grp), ())) grps"
  have len: "length (values_of base ?kxs) = length (filter (\<lambda>grp. sanitize_component_id (gd_path grp) = base) grps)"
    by (induction grps) auto
  have count: "fold (\<lambda>_ n. n + 1) us (n::nat) = n + length us" for us :: "unit list" and n
    by (induction us arbitrary: n) auto
  have "btm_get (fold count_base grps []) base =
      (if values_of base ?kxs = [] then None else Some (fold (\<lambda>_ n. n + 1) (values_of base ?kxs) 0))"
    unfolding fold_count_base by (rule get_fold_update_empty)
  then show ?thesis unfolding count using len by (cases "values_of base ?kxs = []") auto
qed

definition path_ids :: "group_draft list \<Rightarrow> string list" where
  "path_ids grps = map (\<lambda>grp. sanitize_component_id (gd_path grp)) grps"

lemma assign_component_ids_paths:
  assumes "distinct (path_ids grps)"
  shows "assign_component_ids grps = path_ids grps"
proof -
  let ?c = "fold count_base grps []" and ?base = "\<lambda>grp. sanitize_component_id (gd_path grp)"
  have one: "btm_get ?c (?base grp) = Some 1" if "grp \<in> set grps" for grp
  proof -
    have "length (filter (\<lambda>g. f g = f grp) gs) = 1"
      if "distinct (map f gs)" "grp \<in> set gs" for f :: "group_draft \<Rightarrow> string" and gs
      using that
    proof (induction gs)
      case (Cons g gs)
      have "f g \<notin> f ` set gs" using Cons.prems(1) by simp
      then have "filter (\<lambda>x. f x = f g) gs = []" unfolding filter_empty_conv by (metis imageI)
      then show ?case using Cons by (auto simp: image_iff)
    qed simp
    then show ?thesis unfolding base_count using assms that by (simp add: path_ids_def)
  qed
  let ?step = "\<lambda>grp (used, ids). let candidate = component_id ?c used grp
      in (bts_insert candidate used, ids @ [candidate])"
  have "snd (fold ?step gs (used, ids)) = ids @ path_ids gs"
    if "set gs \<subseteq> set grps" "distinct (path_ids gs)" "set (path_ids gs) \<inter> set used = {}" for gs used ids
    using that
  proof (induction gs arbitrary: used ids)
    case (Cons g gs)
    have "component_id ?c used g = ?base g"
      using Cons.prems one [of g] by (simp add: component_id_def path_ids_def)
    then have "snd (fold ?step (g # gs) (used, ids)) = snd (fold ?step gs (bts_insert (?base g) used, ids @ [?base g]))"
      by (simp add: Let_def)
    also have "\<dots> = (ids @ [?base g]) @ path_ids gs"
      by (rule Cons.IH) (use Cons.prems in \<open>auto simp: path_ids_def\<close>)
    finally show ?case by (simp add: path_ids_def)
  qed (simp add: path_ids_def)
  from this [of grps "[]" "[]"] show ?thesis using assms by (simp add: assign_component_ids_def Let_def)
qed

section \<open>The analysis\<close>

lemma rank_candidates_entries:
  "mset (map (rc_rank_update (\<lambda>_. 0)) (rank_candidates summaries)) =
     image_mset candidate_of {#c \<in># mset summaries. \<not> is_fully_rust_owned (cp_states c)#}"
  unfolding rank_candidates_eq by simp

text \<open>When a candidate may come before another: eligible candidates first; then, each for equal values of the
  ones before, the higher readiness, the lower risk, the fewer source files, the smaller identifier.\<close>

definition may_precede :: "ranked_candidate \<Rightarrow> ranked_candidate \<Rightarrow> bool" where
  "may_precede a b \<longleftrightarrow>
     rc_eligible a \<and> \<not> rc_eligible b \<or>
     rc_eligible a = rc_eligible b \<and>
       (rc_readiness_score b < rc_readiness_score a \<or>
        rc_readiness_score a = rc_readiness_score b \<and>
          (rc_risk_score a < rc_risk_score b \<or>
           rc_risk_score a = rc_risk_score b \<and>
             (rc_source_files a < rc_source_files b \<or>
              rc_source_files a = rc_source_files b \<and> rc_component a \<le> rc_component b)))"

lemma key_order:
  fixes i i' :: "'a::linorder"
  shows "(\<not> e, - int r, k :: nat, f :: nat, i) \<le> (\<not> e', - int r', k', f', i') \<longleftrightarrow>
     e \<and> \<not> e' \<or> e = e' \<and> (r' < r \<or> r = r' \<and> (k < k' \<or> k = k' \<and> (f < f' \<or> f = f' \<and> i \<le> i')))"
  unfolding less_eq_prod_simp by (cases e; cases e') auto

lemma rank_candidates_order: "sorted_wrt may_precede (rank_candidates summaries)"
proof -
  have "ranking_key a \<le> ranking_key b \<longleftrightarrow> may_precede a b" for a b
    by (simp only: ranking_key_def key_order may_precede_def)
  then show ?thesis
    using rank_candidates_sorted [of summaries] by (simp add: sorted_map)
qed

lemma analysis_components:
  assumes "analyze_components_with_coverage m depth coverage = Inr a"
  shows "an_ranking a = rank_candidates (an_components a)"
    and "\<forall>c\<in>set (an_components a). \<exists>grp\<in>set (build_groups m depth). \<exists>i im.
      c = summarize_component m grp i im coverage"
    and "an_edges a = fst (build_component_edges m
      (map_modules_to_components (build_groups m depth) (assign_component_ids (build_groups m depth)))
      (btm_of_list (map (\<lambda>(grp, i). (i, gd_owner grp))
        (zip (build_groups m depth) (assign_component_ids (build_groups m depth))))))"
    and "sorted (map cp_id (an_components a))"
proof -
  let ?g = "build_groups m depth" and ?ids = "assign_component_ids (build_groups m depth)"
  obtain edges incident where e: "build_component_edges m (map_modules_to_components ?g ?ids)
      (btm_of_list (map (\<lambda>(grp, i). (i, gd_owner grp)) (zip ?g ?ids))) = (edges, incident)" by fastforce
  let ?s = "\<lambda>(grp, i). summarize_component m grp i
      (case btm_get incident i of None \<Rightarrow> no_incidents | Some im \<Rightarrow> im) coverage"
  have a: "an_ranking a = rank_candidates (an_components a)" "an_edges a = edges"
    "an_components a = sort_key cp_id (map ?s (zip ?g ?ids))"
    using assms by (auto simp: analyze_components_with_coverage_def Let_def e split: if_splits)
  show "an_ranking a = rank_candidates (an_components a)" by (rule a(1))
  show "sorted (map cp_id (an_components a))" by (simp add: a(3))
  show "an_edges a = fst (build_component_edges m (map_modules_to_components ?g ?ids)
      (btm_of_list (map (\<lambda>(grp, i). (i, gd_owner grp)) (zip ?g ?ids))))" by (simp add: a(2) e)
  show "\<forall>c\<in>set (an_components a). \<exists>grp\<in>set ?g. \<exists>i im. c = summarize_component m grp i im coverage"
  proof
    fix c assume "c \<in> set (an_components a)"
    then obtain grp i where "(grp, i) \<in> set (zip ?g ?ids)" "c = ?s (grp, i)" by (auto simp: a(3))
    then show "\<exists>grp\<in>set ?g. \<exists>i im. c = summarize_component m grp i im coverage"
      using set_zip_leftD by fastforce
  qed
qed

section \<open>Properties\<close>

text \<open>C38: every module of the manifest is in exactly one group, the one of its owner and its path; the
  groups are in the order of owner and path, none is empty, and each lists its modules by identifier.\<close>

theorem build_groups_partition:
  "(\<forall>md\<in>set (manifest_modules m). \<exists>!grp. grp \<in> set (build_groups m depth) \<and> md \<in> set (gd_modules grp)) \<and>
   (\<forall>grp\<in>set (build_groups m depth). gd_modules grp \<noteq> [] \<and> sorted (map module_id (gd_modules grp)) \<and>
      (\<forall>md\<in>set (gd_modules grp). md \<in> set (manifest_modules m) \<and>
         module_owner_key md = gd_owner grp \<and> component_path depth md = gd_path grp)) \<and>
   ascending (map (\<lambda>grp. (gd_owner grp, gd_path grp)) (build_groups m depth))"
proof (intro conjI ballI)
  show "\<exists>!grp. grp \<in> set (build_groups m depth) \<and> md \<in> set (gd_modules grp)"
    if "md \<in> set (manifest_modules m)" for md using module_in_one_group [OF that] .
  show "ascending (map (\<lambda>grp. (gd_owner grp, gd_path grp)) (build_groups m depth))"
    using build_groups_ascending [of m depth] unfolding group_of_def .
  fix grp assume grp: "grp \<in> set (build_groups m depth)"
  note members = build_groups_members [OF grp]
  show "gd_modules grp \<noteq> []" "sorted (map module_id (gd_modules grp))"
    using members by simp_all
  fix md assume "md \<in> set (gd_modules grp)"
  then show "md \<in> set (manifest_modules m)" "module_owner_key md = gd_owner grp"
    "component_path depth md = gd_path grp"
    using members(1) by (simp_all add: group_key_def group_of_def)
qed

text \<open>C32: there is one edge for each ordered pair of different components with a dependency between their
  modules, in the order of the pairs; it counts those dependencies, their evidence and their open
  reviews, and lists their boundaries.\<close>

theorem component_edges_correct:
  assumes "build_component_edges m component_of owners = (edges, incident)"
  shows "ascending (map (\<lambda>e. (ce_from e, ce_to e)) edges) \<and>
    (\<lambda>e. (ce_from e, ce_to e)) ` set edges =
      {(f, t). f \<noteq> t \<and> dependencies_between (manifest_modules m) component_of f t \<noteq> []} \<and>
    (\<forall>e\<in>set edges. let ds = dependencies_between (manifest_modules m) component_of (ce_from e) (ce_to e)
       in ce_module_edges e = length ds \<and> set (ce_boundaries e) = dep_boundary ` set ds \<and>
          ce_evidence_items e = (\<Sum>d\<leftarrow>ds. length (dep_evidence d)) \<and>
          ce_unresolved_reviews e = (\<Sum>d\<leftarrow>ds. count_unresolved (dep_reviews d)))"
proof -
  have edges: "edges = fst (build_component_edges m component_of owners)" using assms by simp
  have "ascending (map (\<lambda>e. (ce_from e, ce_to e)) edges)"
    using component_edges_ascending [of m component_of owners] unfolding edges edge_ends_def .
  moreover have "(\<lambda>e. (ce_from e, ce_to e)) ` set edges =
      {(f, t). f \<noteq> t \<and> dependencies_between (manifest_modules m) component_of f t \<noteq> []}"
    unfolding edges component_edges_set by (force simp: component_edge_of_def)
  moreover have "\<forall>e\<in>set edges. let ds = dependencies_between (manifest_modules m) component_of (ce_from e) (ce_to e)
       in ce_module_edges e = length ds \<and> set (ce_boundaries e) = dep_boundary ` set ds \<and>
          ce_evidence_items e = (\<Sum>d\<leftarrow>ds. length (dep_evidence d)) \<and>
          ce_unresolved_reviews e = (\<Sum>d\<leftarrow>ds. count_unresolved (dep_reviews d))"
    unfolding edges component_edges_set
    by (auto simp: component_edge_of_def fold_add_edge empty_edge_def Let_def)
  ultimately show ?thesis by blast
qed

text \<open>A component is eligible exactly when it has sources and gates, every module covers every required
  target (and every source is measured, when a coverage report is given), its modules share one
  migration state, its scope is not deferred, and it has no open review, no unresolved ownership
  include and no unaudited edge to another component.\<close>

theorem component_eligible_iff:
  "cp_eligible (summarize_component m grp i im coverage) \<longleftrightarrow>
     (\<exists>md\<in>set (gd_modules grp). module_sources md \<noteq> []) \<and>
     (\<exists>md\<in>set (gd_modules grp). module_gates md \<noteq> []) \<and>
     (\<forall>md\<in>set (gd_modules grp). \<forall>t\<in>set (manifest_targets m). target_required t \<longrightarrow> pair_covered m md t) \<and>
     (\<forall>report. coverage = Some report \<longrightarrow>
        (\<forall>md\<in>set (gd_modules grp). \<forall>s\<in>set (module_sources md). report_file report s \<noteq> None)) \<and>
     (\<forall>a\<in>set (gd_modules grp). \<forall>b\<in>set (gd_modules grp). module_state a = module_state b) \<and>
     migration_scope_of (gd_path grp) \<noteq> DeferredRuntime \<and>
     im_unresolved_reviews im = 0 \<and> im_unaudited im = 0 \<and>
     (\<forall>md\<in>set (gd_modules grp). includes_of md = {})"
  using eligible_iff [of m grp i im coverage] unfolding eligible_group_def .

text \<open>C39: the ranking has an entry with the figures of each component that is not fully Rust-owned, and no
  others; the entries are numbered from 1, eligible ones before the rest, and among equals the higher
  readiness, the lower risk, the fewer files and the smaller identifier come first. Readiness is what risk
  leaves of 100.\<close>

theorem analysis_ranking:
  assumes "analyze_components_with_coverage m depth coverage = Inr a"
  shows "map rc_rank (an_ranking a) = [1..<length (an_ranking a) + 1] \<and>
    sorted_wrt may_precede (an_ranking a) \<and>
    mset (map (rc_rank_update (\<lambda>_. 0)) (an_ranking a)) =
      image_mset candidate_of {#c \<in># mset (an_components a). \<not> is_fully_rust_owned (cp_states c)#} \<and>
    (\<forall>c\<in>set (an_components a). cp_readiness_score c + risk_total (cp_risk c) = 100)"
proof -
  note a = analysis_components [OF assms]
  have "\<forall>c\<in>set (an_components a). cp_readiness_score c + risk_total (cp_risk c) = 100"
    using a(2) summarize_component_scores by fastforce
  then show ?thesis
    unfolding a(1) using rank_candidates_ranks rank_candidates_order rank_candidates_entries by blast
qed

text \<open>When the sanitised paths of the groups differ, each component is identified by its own path.\<close>

lemma assign_component_ids_distinct_paths:
  assumes "distinct (map (\<lambda>grp. sanitize_component_id (gd_path grp)) grps)"
  shows "assign_component_ids grps = map (\<lambda>grp. sanitize_component_id (gd_path grp)) grps"
  using assign_component_ids_paths [of grps] assms unfolding path_ids_def by blast

text \<open>Four modules whose paths are chosen for the hash.\<close>

definition collision_manifest :: manifest where
  "collision_manifest =
     \<lparr>schema_version = supported_schema_version,
      manifest_project = \<lparr>project_name = ''p'', project_upstream = ''u'', project_baseline = ''b''\<rparr>,
      manifest_inventory = None, manifest_targets = [], manifest_gates = [],
      manifest_modules = map (\<lambda>(i, owner, path). (example_module i [])\<lparr>module_owner := owner, module_path := path\<rparr>)
        [(''m1'', ''a'', ''z_b''), (''m2'', ''a'', ''z_b_af127475''), (''m3'', ''y'', ''b''), (''m4'', ''z'', ''b'')]\<rparr>"

text \<open>In general the identifiers are not unique: the name with the hash is not looked up again, so four
  modules whose paths are chosen for it make two components of one manifest share an identifier.\<close>

theorem component_ids_not_unique:
  "validate collision_manifest = Inr () \<and>
   assign_component_ids (build_groups collision_manifest 2) = [''z_b'', ''z_b_af127475'', ''y_b'', ''z_b_af127475'']"
proof
  show "validate collision_manifest = Inr ()" by code_simp
  show "assign_component_ids (build_groups collision_manifest 2)
      = [''z_b'', ''z_b_af127475'', ''y_b'', ''z_b_af127475'']" by code_simp
qed

lemma component_edges_correct_witness:
  "\<exists>edges incident. build_component_edges (example_manifest LegacyCpp Bridged CAbi)
     [(''app'', ''x''), (''lib'', ''y'')] [] = (edges, incident) \<and>
   (\<lambda>e. (ce_from e, ce_to e)) ` set edges = {(''x'', ''y'')}"
proof -
  let ?m = "example_manifest LegacyCpp Bridged CAbi" and ?c = "[(''app'', ''x''), (''lib'', ''y'')]"
  obtain edges incident where e: "build_component_edges ?m ?c [] = (edges, incident)" by fastforce
  have "map (\<lambda>e. (ce_from e, ce_to e)) (fst (build_component_edges ?m ?c [])) = [(''x'', ''y'')]" by code_simp
  then have "map (\<lambda>e. (ce_from e, ce_to e)) edges = [(''x'', ''y'')]" using e by simp
  from arg_cong [OF this, of set] have "(\<lambda>e. (ce_from e, ce_to e)) ` set edges = {(''x'', ''y'')}" by simp
  then show ?thesis using e component_edges_correct [OF e] by blast
qed

text \<open>A component without gates, and one that is eligible and so comes first.\<close>

definition ranked_manifest :: manifest where
  "ranked_manifest = (example_manifest LegacyCpp Bridged CAbi)
     \<lparr>manifest_targets := [],
      manifest_modules := map (\<lambda>(i, path, gs). (example_module i [])
          \<lparr>module_path := path, module_gates := gs, module_sources := [''s.cc'']\<rparr>)
        [(''a'', ''services/a'', []), (''b'', ''ui'', [''unit''])]\<rparr>"

lemma analysis_ranking_witness:
  "\<exists>a. analyze_components_with_coverage ranked_manifest 1 None = Inr a \<and>
     map rc_component (an_ranking a) = [''ui'', ''services''] \<and> map rc_rank (an_ranking a) = [1, 2] \<and>
     sorted_wrt may_precede (an_ranking a)"
proof -
  let ?r = "analyze_components_with_coverage ranked_manifest 1 None"
  have n: "case ?r of Inl _ \<Rightarrow> False | Inr a \<Rightarrow> map rc_component (an_ranking a) = [''ui'', ''services'']" by code_simp
  then obtain a where r: "?r = Inr a" and names: "map rc_component (an_ranking a) = [''ui'', ''services'']"
    by (cases ?r) auto
  from arg_cong [OF names, of length] have "length (an_ranking a) = 2" by simp
  moreover have "[1..<2 + 1] = [1, 2 :: nat]" by code_simp
  ultimately have "map rc_rank (an_ranking a) = [1, 2]"
    using analysis_ranking [OF r, THEN conjunct1] by (simp only:)
  moreover have "sorted_wrt may_precede (an_ranking a)"
    by (rule analysis_ranking [OF r, THEN conjunct2, THEN conjunct1])
  ultimately show ?thesis using r names by (intro exI [of _ a] conjI)
qed

lemma build_groups_partition_witness:
  "(\<exists>!grp. grp \<in> set (build_groups collision_manifest 2) \<and>
      (example_module ''m3'' [])\<lparr>module_owner := ''y'', module_path := ''b''\<rparr> \<in> set (gd_modules grp)) \<and>
   map gd_path (build_groups collision_manifest 2) = [''z_b'', ''z_b_af127475'', ''b'', ''b'']"
proof
  have "(example_module ''m3'' [])\<lparr>module_owner := ''y'', module_path := ''b''\<rparr> \<in> set (manifest_modules collision_manifest)"
    by (simp add: collision_manifest_def)
  then show "\<exists>!grp. grp \<in> set (build_groups collision_manifest 2) \<and>
      (example_module ''m3'' [])\<lparr>module_owner := ''y'', module_path := ''b''\<rparr> \<in> set (gd_modules grp)"
    using build_groups_partition [of collision_manifest 2] by blast
  show "map gd_path (build_groups collision_manifest 2) = [''z_b'', ''z_b_af127475'', ''b'', ''b'']" by code_simp
qed

lemma component_eligible_iff_witness:
  "\<exists>grp. cp_eligible (summarize_component (example_manifest LegacyCpp Bridged CAbi) grp ''net'' no_incidents None) \<and>
     (\<exists>md\<in>set (gd_modules grp). module_sources md \<noteq> [])"
proof -
  let ?g = "\<lparr>gd_path = ''net'', gd_owner = ''o'',
      gd_modules = [(example_module ''a'' [])\<lparr>module_sources := [''a.cc''], module_gates := [''unit'']\<rparr>]\<rparr>"
  have e: "cp_eligible (summarize_component (example_manifest LegacyCpp Bridged CAbi) ?g ''net'' no_incidents None)"
    by code_simp
  then have "\<exists>md\<in>set (gd_modules ?g). module_sources md \<noteq> []"
    by (rule component_eligible_iff [THEN iffD1, THEN conjunct1])
  with e show ?thesis by (intro exI [of _ ?g] conjI)
qed

lemma assign_component_ids_distinct_paths_witness:
  "assign_component_ids (map (\<lambda>p. \<lparr>gd_path = p, gd_owner = ''o'', gd_modules = []\<rparr>) [''net/base'', ''Net'']) =
     [''net_base'', ''net'']"
proof -
  let ?g = "map (\<lambda>p. \<lparr>gd_path = p, gd_owner = ''o'', gd_modules = []\<rparr>) [''net/base'', ''Net'']"
  have "distinct (map (\<lambda>grp. sanitize_component_id (gd_path grp)) ?g)" by code_simp
  moreover have "map (\<lambda>grp. sanitize_component_id (gd_path grp)) ?g = [''net_base'', ''net'']" by code_simp
  ultimately show ?thesis using assign_component_ids_distinct_paths [of ?g] by metis
qed

end
