(* ===== verification/Owners.thy ===== *)
theory Owners
  imports Validation FileSystem
begin

text \<open>
  \<open>crates/chromifer-owners/src/lib.rs\<close>: resolves the owners of every source of a manifest from the OWNERS
  files of a checkout. A \<open>PathBuf\<close> of a repository-relative path is its list of segments; the checkout is
  the \<open>file_system\<close> of the model. The resolver's cache of parsed files and its set of files read are threaded
  through every call, as \<open>&mut self\<close> does.
\<close>

section \<open>Data\<close>

datatype directive = Owner string | Include string | NoParent

record per_file_rule =
  pf_pattern :: string
  pf_directive :: directive

record parsed_owners =
  po_global :: "directive list"
  po_per_file :: "per_file_rule list"
  po_global_noparent :: bool

record layer_ownership =
  lo_owners :: "string list"
  lo_owner_files :: "string list"
  lo_unresolved_includes :: "ownership_include list"
  lo_stop_inheritance :: bool

record owners_resolver =
  rs_root :: "string list"
  rs_parsed :: "(string list \<times> parsed_owners) list"
  rs_files_read :: "string list list"

datatype ownership_error =
    OwnersSourceRoot string
  | OwnersSourcePath string string
  | ReadOwners string
  | OwnersSyntax string nat string
  | MissingInclude string string
  | IncludeCycle string
  | OwnersManifest errors

record ownership_summary =
  os_scanned_modules :: nat
  os_scanned_sources :: nat
  os_owner_files_read :: nat
  os_resolved_sources :: nat
  os_unresolved_sources :: nat
  os_unresolved_includes :: nat
  os_split_ownership_modules :: nat
  os_modules_without_sources :: nat

record ownership_output =
  oo_manifest :: manifest
  oo_summary :: ownership_summary

definition path_string :: "string list \<Rightarrow> string" where
  "path_string segments = replace_char (CHR 0x5C) (CHR ''/'') (join ''/'' segments)"

definition owners_syntax :: "string list \<Rightarrow> nat \<Rightarrow> string \<Rightarrow> (ownership_error, 'a) result" where
  "owners_syntax path line message = Inl (OwnersSyntax (path_string path) line message)"

section \<open>Path expressions\<close>

text \<open>One row of the table of \<open>glob_matches\<close>: the loop over the value, with the bytes, the current row and
  the entry of the next row before the index. \<open>f\<close> gets the byte, the entries of the current row before and
  at the index, and the entry of the next row before it.\<close>

fun fill_row :: "(char \<Rightarrow> bool \<Rightarrow> bool \<Rightarrow> bool \<Rightarrow> bool) \<Rightarrow> string \<Rightarrow> bool list \<Rightarrow> bool \<Rightarrow> bool list" where
  "fill_row f [] current left = [left]"
| "fill_row f (c # value) current left =
     left # fill_row f value (tl current) (f c (hd current) (hd (tl current)) left)"

function glob_loop :: "string \<Rightarrow> string \<Rightarrow> bool list \<Rightarrow> bool list" where
  "glob_loop [] value current = current"
| "glob_loop (p # pattern) value current =
     (case strip_prefix ''...'' (p # pattern) of
        Some rest \<Rightarrow>
          glob_loop rest value (fill_row (\<lambda>c before here left. here \<or> left) value current (hd current))
      | None \<Rightarrow>
          glob_loop pattern value
            (if p = CHR ''*''
             then fill_row (\<lambda>c before here left. here \<or> (c \<noteq> CHR ''/'' \<and> left)) value current (hd current)
             else if p = CHR ''?''
             then fill_row (\<lambda>c before here left. c \<noteq> CHR ''/'' \<and> before) value current False
             else fill_row (\<lambda>c before here left. before \<and> p = c) value current False))"
  by pat_completeness auto
termination glob_loop
  by (relation "measure (\<lambda>(pattern, value, current). length pattern)") (auto simp: strip_prefix_Some split: if_splits)

definition glob_matches :: "string \<Rightarrow> string \<Rightarrow> bool" where
  "glob_matches pattern value = last (glob_loop pattern value (True # replicate (length value) False))"

definition validate_path_expression ::
    "string list \<Rightarrow> nat \<Rightarrow> string \<Rightarrow> (ownership_error, unit) result" where
  "validate_path_expression path line expression =
     (if expression = [] \<or> starts_with ''/'' expression \<or> CHR 0x5C \<in> set expression \<or>
         ''..'' \<in> set (split_on (CHR ''/'') expression) \<or>
         has_control expression \<or> CHR ''='' \<in> set expression
      then owners_syntax path line
        ''per-file path expression must be relative and may not escape its OWNERS directory''
      else Inr ())"

section \<open>Parsing an OWNERS file\<close>

definition owner_byte :: "char \<Rightarrow> bool" where
  "owner_byte c \<longleftrightarrow> is_ascii_alphanumeric c \<or> c \<in> set ''_-+%.@''"

definition valid_owner :: "string \<Rightarrow> bool" where
  "valid_owner value \<longleftrightarrow>
     (case split_once ''@'' value of
        None \<Rightarrow> False
      | Some (left, right) \<Rightarrow>
          left \<noteq> [] \<and> right \<noteq> [] \<and> CHR ''@'' \<notin> set right \<and> list_all owner_byte value)"

definition expected_directive :: string where
  "expected_directive = ''expected comma-separated emails, `*`, `file:`, or `set noparent` directive''"

definition owner_directive :: "string list \<Rightarrow> nat \<Rightarrow> string \<Rightarrow> (ownership_error, directive) result" where
  "owner_directive path line owner =
     (if owner \<noteq> ''*'' \<and> \<not> valid_owner owner then owners_syntax path line expected_directive
      else Inr (Owner owner))"

definition owner_directives ::
    "string list \<Rightarrow> nat \<Rightarrow> string list \<Rightarrow> (ownership_error, directive list) result" where
  "owner_directives path line entries =
     and_then (try_map (owner_directive path line) (map trim entries))
       (\<lambda>owners. if owners \<noteq> [] then Inr owners else owners_syntax path line expected_directive)"

definition parse_directives ::
    "string list \<Rightarrow> nat \<Rightarrow> string \<Rightarrow> (ownership_error, directive list) result" where
  "parse_directives path line directive =
     (if directive = ''set noparent'' then Inr [NoParent]
      else case strip_prefix ''file:'' directive of
        Some include \<Rightarrow>
          (let include = trim include
           in if include = [] then owners_syntax path line ''file include must name an OWNERS file''
              else Inr [Include include])
      | None \<Rightarrow>
          owner_directives path line (split_on (CHR '','') directive))"

definition per_file_rules ::
    "string list \<Rightarrow> nat \<Rightarrow> directive list \<Rightarrow> string \<Rightarrow> per_file_rule list \<Rightarrow>
     (ownership_error, per_file_rule list) result" where
  "per_file_rules path line directives expression rules =
     and_then (validate_path_expression path line expression)
       (\<lambda>_. Inr (rules @ map (\<lambda>d. \<lparr>pf_pattern = expression, pf_directive = d\<rparr>) directives))"

definition parse_per_file ::
    "string list \<Rightarrow> nat \<Rightarrow> string \<Rightarrow> parsed_owners \<Rightarrow> (ownership_error, parsed_owners) result" where
  "parse_per_file path line rest parsed =
     (case split_once ''='' rest of
        None \<Rightarrow> owners_syntax path line ''per-file rule must contain `=`''
      | Some (pattern, directive) \<Rightarrow>
          (let pattern = trim pattern
           in if pattern = [] then owners_syntax path line ''per-file path expression must not be empty''
              else
                and_then (parse_directives path line (trim directive)) (\<lambda>directives.
                and_then (try_fold (per_file_rules path line directives) (split_on (CHR '','') pattern)
                  (po_per_file parsed)) (\<lambda>rules. Inr (parsed\<lparr>po_per_file := rules\<rparr>)))))"

definition parse_trimmed ::
    "string list \<Rightarrow> nat \<Rightarrow> string \<Rightarrow> parsed_owners \<Rightarrow> (ownership_error, parsed_owners) result" where
  "parse_trimmed path line_number line parsed =
     (if line = [] then Inr parsed
      else if line = ''set noparent'' then Inr (parsed\<lparr>po_global_noparent := True\<rparr>)
      else case strip_prefix ''per-file '' line of
        Some rest \<Rightarrow> parse_per_file path line_number rest parsed
      | None \<Rightarrow>
          if starts_with ''set '' line then owners_syntax path line_number ''unknown `set` directive''
          else case strip_prefix ''include '' line of
            Some include \<Rightarrow>
              (let include = trim include
               in if include = [] then owners_syntax path line_number ''include must name an OWNERS file''
                  else Inr (parsed\<lparr>po_global := po_global parsed @ [Include include]\<rparr>))
          | None \<Rightarrow>
              and_then (parse_directives path line_number line)
                (\<lambda>directives. Inr (parsed\<lparr>po_global := po_global parsed @ directives\<rparr>)))"

definition parse_line ::
    "string list \<Rightarrow> nat \<times> string \<Rightarrow> parsed_owners \<Rightarrow> (ownership_error, parsed_owners) result" where
  "parse_line path entry parsed =
     parse_trimmed path (fst entry + 1) (trim (hd (split_on (CHR ''#'') (snd entry)))) parsed"

definition parse_owners :: "string list \<Rightarrow> string \<Rightarrow> (ownership_error, parsed_owners) result" where
  "parse_owners path content =
     try_fold (parse_line path) (enumerate 0 (lines content))
       \<lparr>po_global = [], po_per_file = [], po_global_noparent = False\<rparr>"

section \<open>Includes\<close>

definition is_external_include :: "string \<Rightarrow> bool" where
  "is_external_include include \<longleftrightarrow>
     (case rsplit_once '':/'' include of
        None \<Rightarrow> False
      | Some (project, path) \<Rightarrow> project \<noteq> [] \<and> \<not> starts_with ''/'' project \<and> path \<noteq> [])"

definition normalize_repo_path :: "path \<Rightarrow> string list option" where
  "normalize_repo_path path = push_components path []"

fun join_components :: "component list \<Rightarrow> string list \<Rightarrow> string list option" where
  "join_components [] normalized = Some normalized"
| "join_components (Normal value # cs) normalized = join_components cs (normalized @ [value])"
| "join_components (CurDir # cs) normalized = join_components cs normalized"
| "join_components (ParentDir # cs) normalized =
     (if normalized = [] then None else join_components cs (butlast normalized))"
| "join_components (RootDir # cs) normalized = None"

definition normalize_join :: "string list \<Rightarrow> path \<Rightarrow> string list option" where
  "normalize_join base relative =
     Option.bind (normalize_repo_path (map Normal base)) (join_components relative)"

text \<open>\<open>self.root.join(path)\<close>\<close>

definition below_root :: "string list \<Rightarrow> string list \<Rightarrow> path" where
  "below_root root path = absolute root @ map Normal path"

definition resolve_include ::
    "file_system \<Rightarrow> string list \<Rightarrow> string list \<Rightarrow> string \<Rightarrow> (ownership_error, string list) result" where
  "resolve_include fs root owners_path include =
     (let root_relative = trim_start_matches ''/'' include;
          missing = MissingInclude (path_string owners_path) include
      in and_then
           (ok_or (if length root_relative \<noteq> length include
                   then normalize_join [] (components root_relative)
                   else normalize_join (butlast owners_path) (components include)) missing)
           (\<lambda>normalized. if is_file fs (below_root root normalized) then Inr normalized else Inl missing))"

definition parse_file ::
    "file_system \<Rightarrow> string list \<Rightarrow> owners_resolver \<Rightarrow>
     (ownership_error, parsed_owners \<times> owners_resolver) result" where
  "parse_file fs path rs =
     (case btm_get (rs_parsed rs) path of
        Some parsed \<Rightarrow> Inr (parsed, rs)
      | None \<Rightarrow>
          and_then (ok_or (read_to_string fs (below_root (rs_root rs) path))
              (ReadOwners (''/'' @ join ''/'' (rs_root rs @ path)))) (\<lambda>content.
          and_then (parse_owners path content) (\<lambda>parsed.
            Inr (parsed, rs\<lparr>rs_parsed := btm_insert path parsed (rs_parsed rs),
                            rs_files_read := bts_insert path (rs_files_read rs)\<rparr>))))"

definition no_ownership :: layer_ownership where
  "no_ownership = \<lparr>lo_owners = [], lo_owner_files = [], lo_unresolved_includes = [], lo_stop_inheritance = False\<rparr>"

definition include_cycle :: "string list list \<Rightarrow> string list \<Rightarrow> ownership_error" where
  "include_cycle stack included =
     IncludeCycle (join '' -> '' (map path_string (dropWhile (\<lambda>item. item \<noteq> included) stack @ [included])))"

text \<open>What a nested file adds to the result of the file that includes it.\<close>

definition merge_nested :: "string list \<Rightarrow> layer_ownership \<Rightarrow> layer_ownership \<Rightarrow> layer_ownership" where
  "merge_nested included nested layer =
     layer\<lparr>lo_owners := bts_extend (lo_owners nested) (lo_owners layer),
           lo_owner_files :=
             bts_insert (path_string included) (bts_extend (lo_owner_files nested) (lo_owner_files layer)),
           lo_unresolved_includes :=
             bts_extend (lo_unresolved_includes nested) (lo_unresolved_includes layer)\<rparr>"

text \<open>The files an include can name: finitely many, so the include stack cannot grow for ever.\<close>

definition includable :: "file_system \<Rightarrow> string list \<Rightarrow> string list set" where
  "includable fs root = {path. is_file fs (below_root root path)}"

lemma finite_includable: "finite (includable fs root)"
proof (rule finite_subset [OF _ finite_resolvable [of fs root]])
  show "includable fs root \<subseteq> {ws. metadata fs (absolute root @ map Normal ws) \<noteq> None}"
    by (auto simp: includable_def is_file_def is_regular_def below_root_def split: option.splits)
qed

lemma resolve_include_file: "resolve_include fs root owners_path include = Inr path \<Longrightarrow> path \<in> includable fs root"
  by (auto simp: resolve_include_def includable_def Let_def and_then_Inr_iff split: if_splits)

text \<open>\<open>resolve_directives\<close>: the loop over the directives, with the result so far. The root of the resolver
  is an argument of its own; it never changes.\<close>

function resolve_directives ::
    "file_system \<Rightarrow> string list \<Rightarrow> string list \<Rightarrow> string list list \<Rightarrow> directive list \<Rightarrow> layer_ownership \<Rightarrow>
     owners_resolver \<Rightarrow> (ownership_error, layer_ownership \<times> owners_resolver) result" where
  "resolve_directives fs root owners_path stack [] layer rs = Inr (layer, rs)"
| "resolve_directives fs root owners_path stack (Owner owner # ds) layer rs =
     resolve_directives fs root owners_path stack ds
       (layer\<lparr>lo_owners := bts_insert owner (lo_owners layer)\<rparr>) rs"
| "resolve_directives fs root owners_path stack (NoParent # ds) layer rs =
     resolve_directives fs root owners_path stack ds layer rs"
| "resolve_directives fs root owners_path stack (Include include # ds) layer rs =
     (if is_external_include include then
        resolve_directives fs root owners_path stack ds
          (layer\<lparr>lo_unresolved_includes :=
             bts_insert (OwnershipInclude (path_string owners_path) include) (lo_unresolved_includes layer)\<rparr>) rs
      else
        and_then (resolve_include fs root owners_path include) (\<lambda>included.
          if included \<in> set stack then Inl (include_cycle stack included)
          else
            and_then (parse_file fs included rs) (\<lambda>(parsed, rs).
            and_then (resolve_directives fs root included (stack @ [included]) (po_global parsed) no_ownership rs)
              (\<lambda>(nested, rs).
                resolve_directives fs root owners_path stack ds (merge_nested included nested layer) rs))))"
  by pat_completeness auto
termination resolve_directives
proof (relation "measures [\<lambda>(fs, root, owners_path, stack, ds, layer, rs). card (includable fs root - set stack),
    \<lambda>(fs, root, owners_path, stack, ds, layer, rs). length ds]", goal_cases)
  case (5 fs root owners_path stack "include" ds layer rs included)
  then have "includable fs root - set (stack @ [included]) \<subset> includable fs root - set stack"
    using resolve_include_file by fastforce
  then have "card (includable fs root - set (stack @ [included])) < card (includable fs root - set stack)"
    using finite_includable [of fs root] by (intro psubset_card_mono) auto
  then show ?case by simp
qed simp_all

section \<open>The owners of a source\<close>

text \<open>\<open>strip_prefix\<close> of paths.\<close>

definition strip_directory :: "string list \<Rightarrow> string list \<Rightarrow> string list option" where
  "strip_directory directory path =
     (if take (length directory) path = directory then Some (drop (length directory) path) else None)"

definition evaluate_owner_file ::
    "file_system \<Rightarrow> string list \<Rightarrow> string \<Rightarrow> owners_resolver \<Rightarrow>
     (ownership_error, layer_ownership \<times> owners_resolver) result" where
  "evaluate_owner_file fs path scoped_source rs =
     and_then (parse_file fs path rs) (\<lambda>(parsed, rs).
       let matched = map pf_directive
             (filter (\<lambda>rule. glob_matches (pf_pattern rule) scoped_source) (po_per_file parsed));
           per_file_noparent = NoParent \<in> set matched;
           directives = (if \<not> per_file_noparent then po_global parsed else []) @
             filter (\<lambda>directive. directive \<noteq> NoParent) matched
       in and_then (resolve_directives fs (rs_root rs) path [path] directives no_ownership rs) (\<lambda>(layer, rs).
            Inr (layer\<lparr>lo_stop_inheritance := po_global_noparent parsed \<or> per_file_noparent,
                       lo_owner_files := bts_insert (path_string path) (lo_owner_files layer)\<rparr>, rs)))"

record source_state =
  ss_primary_owners :: "string list"
  ss_effective_owners :: "string list"
  ss_owner_files :: "string list"
  ss_unresolved_includes :: "ownership_include list"
  ss_inheritance_stopped_at :: "string option"
  ss_found_primary :: bool

text \<open>What the layer of one directory adds; the owners nearest to the source are the primary ones.\<close>

definition add_layer :: "string list \<Rightarrow> layer_ownership \<Rightarrow> source_state \<Rightarrow> source_state" where
  "add_layer owners_path layer st =
     (let first = \<not> ss_found_primary st \<and> lo_owners layer \<noteq> []
      in st\<lparr>ss_primary_owners :=
               (if first then bts_extend (lo_owners layer) (ss_primary_owners st) else ss_primary_owners st),
            ss_found_primary := (ss_found_primary st \<or> first),
            ss_effective_owners := bts_extend (lo_owners layer) (ss_effective_owners st),
            ss_owner_files := bts_extend (lo_owner_files layer) (ss_owner_files st),
            ss_unresolved_includes := bts_extend (lo_unresolved_includes layer) (ss_unresolved_includes st),
            ss_inheritance_stopped_at :=
              (if lo_stop_inheritance layer then Some (path_string owners_path)
               else ss_inheritance_stopped_at st)\<rparr>)"

definition owners_layer ::
    "file_system \<Rightarrow> string \<Rightarrow> string list \<Rightarrow> string list \<Rightarrow> owners_resolver \<Rightarrow>
     (ownership_error, layer_ownership option \<times> owners_resolver) result" where
  "owners_layer fs source relative directory rs =
     (let owners_path = directory @ [''OWNERS'']
      in if is_file fs (below_root (rs_root rs) owners_path) then
           and_then (ok_or (if directory = [] then Some relative else strip_directory directory relative)
               (OwnersSourcePath ''OWNERS resolution'' source)) (\<lambda>scoped_source.
           and_then (evaluate_owner_file fs owners_path (path_string scoped_source) rs)
             (\<lambda>(layer, rs). Inr (Some layer, rs)))
         else Inr (None, rs))"

text \<open>The loop from the directory of the source up to the root.\<close>

function resolve_loop ::
    "file_system \<Rightarrow> string \<Rightarrow> string list \<Rightarrow> string list \<Rightarrow> source_state \<Rightarrow> owners_resolver \<Rightarrow>
     (ownership_error, source_state \<times> owners_resolver) result" where
  "resolve_loop fs source relative directory st rs =
     and_then (owners_layer fs source relative directory rs) (\<lambda>(found, rs).
       let st = (case found of None \<Rightarrow> st | Some layer \<Rightarrow> add_layer (directory @ [''OWNERS'']) layer st)
       in if (case found of None \<Rightarrow> False | Some layer \<Rightarrow> lo_stop_inheritance layer) \<or> directory = []
          then Inr (st, rs)
          else resolve_loop fs source relative (butlast directory) st rs)"
  by pat_completeness auto
termination resolve_loop
  by (relation "measure (\<lambda>(fs, source, relative, directory, st, rs). length directory)") auto

declare resolve_loop.simps [simp del]

definition resolve_source ::
    "file_system \<Rightarrow> string \<Rightarrow> owners_resolver \<Rightarrow>
     (ownership_error, source_ownership \<times> owners_resolver) result" where
  "resolve_source fs source rs =
     (let relative = normal_segments (components source)
      in and_then (resolve_loop fs source relative (butlast relative)
             \<lparr>ss_primary_owners = [], ss_effective_owners = [], ss_owner_files = [],
              ss_unresolved_includes = [], ss_inheritance_stopped_at = None, ss_found_primary = False\<rparr> rs)
           (\<lambda>(st, rs).
             Inr (\<lparr>so_source = source, so_primary_owners = ss_primary_owners st,
                   so_effective_owners = ss_effective_owners st, so_owner_files = ss_owner_files st,
                   so_unresolved_includes = ss_unresolved_includes st,
                   so_inheritance_stopped_at = ss_inheritance_stopped_at st\<rparr>, rs)))"

section \<open>Modules\<close>

record module_owners =
  mw_primary :: "string list"
  mw_effective :: "string list"
  mw_owner_files :: "string list"
  mw_unresolved_includes :: "ownership_include list"
  mw_unresolved_sources :: "string list"
  mw_distinct_primary :: "string list list"
  mw_common :: "string list option"

definition add_source :: "source_ownership \<Rightarrow> module_owners \<Rightarrow> module_owners" where
  "add_source source mw =
     mw\<lparr>mw_primary := bts_extend (so_primary_owners source) (mw_primary mw),
        mw_effective := bts_extend (so_effective_owners source) (mw_effective mw),
        mw_owner_files := bts_extend (so_owner_files source) (mw_owner_files mw),
        mw_unresolved_includes := bts_extend (so_unresolved_includes source) (mw_unresolved_includes mw),
        mw_unresolved_sources :=
          (if so_effective_owners source = [] then mw_unresolved_sources mw @ [so_source source]
           else mw_unresolved_sources mw),
        mw_common :=
          (if so_effective_owners source = [] then mw_common mw
           else let current = bts_of_list (so_effective_owners source)
             in Some (case mw_common mw of None \<Rightarrow> current
                  | Some previous \<Rightarrow> filter (\<lambda>owner. owner \<in> set current) previous)),
        mw_distinct_primary := bts_insert (so_primary_owners source) (mw_distinct_primary mw)\<rparr>"

definition no_module_owners :: module_owners where
  "no_module_owners = \<lparr>mw_primary = [], mw_effective = [], mw_owner_files = [], mw_unresolved_includes = [],
     mw_unresolved_sources = [], mw_distinct_primary = [], mw_common = None\<rparr>"

definition summarize_module_ownership :: "source_ownership list \<Rightarrow> module_ownership" where
  "summarize_module_ownership sources =
     (let mw = fold add_source sources no_module_owners
      in \<lparr>mo_primary_owners = mw_primary mw, mo_effective_owners = mw_effective mw,
          mo_common_effective_owners = (case mw_common mw of None \<Rightarrow> [] | Some common \<Rightarrow> common),
          mo_owner_files = mw_owner_files mw, mo_unresolved_sources = mw_unresolved_sources mw,
          mo_unresolved_includes = mw_unresolved_includes mw,
          mo_split_ownership = (1 < length (mw_distinct_primary mw)), mo_sources = sources\<rparr>)"

section \<open>The scan\<close>

record scan_state =
  sc_resolver :: owners_resolver
  sc_scanned :: nat
  sc_resolved :: nat
  sc_unresolved :: nat
  sc_split :: nat
  sc_without_sources :: nat
  sc_includes :: "ownership_include list"
  sc_modules :: "module list"

definition scan_source ::
    "file_system \<Rightarrow> string \<Rightarrow> string \<Rightarrow> source_ownership list \<times> scan_state \<Rightarrow>
     (ownership_error, source_ownership list \<times> scan_state) result" where
  "scan_source fs module source = (\<lambda>(sources, sc).
     and_then (ok_or (normalize_repo_relative_path source) (OwnersSourcePath module source)) (\<lambda>relative.
     and_then (resolve_source fs relative (sc_resolver sc)) (\<lambda>(ownership, rs).
       let sc = sc\<lparr>sc_resolver := rs, sc_scanned := sc_scanned sc + 1\<rparr>
       in Inr (sources @ [ownership],
            if so_effective_owners ownership = [] then sc\<lparr>sc_unresolved := sc_unresolved sc + 1\<rparr>
            else sc\<lparr>sc_resolved := sc_resolved sc + 1\<rparr>))))"

definition scan_module :: "file_system \<Rightarrow> module \<Rightarrow> scan_state \<Rightarrow> (ownership_error, scan_state) result" where
  "scan_module fs md sc =
     (if module_sources md = [] then
        Inr (sc\<lparr>sc_modules := sc_modules sc @ [md\<lparr>module_ownership := None\<rparr>],
                sc_without_sources := sc_without_sources sc + 1\<rparr>)
      else
        and_then (try_fold (scan_source fs (module_id md)) (module_sources md) ([], sc)) (\<lambda>(sources, sc).
          let ownership = summarize_module_ownership (sort_key so_source sources)
          in Inr (sc\<lparr>sc_includes := bts_extend (mo_unresolved_includes ownership) (sc_includes sc),
                     sc_split := (if mo_split_ownership ownership then sc_split sc + 1 else sc_split sc),
                     sc_modules := sc_modules sc @ [md\<lparr>module_ownership := Some ownership\<rparr>]\<rparr>)))"

definition scan_summary :: "manifest \<Rightarrow> scan_state \<Rightarrow> ownership_summary" where
  "scan_summary m sc =
     \<lparr>os_scanned_modules = length (manifest_modules m), os_scanned_sources = sc_scanned sc,
      os_owner_files_read = length (rs_files_read (sc_resolver sc)), os_resolved_sources = sc_resolved sc,
      os_unresolved_sources = sc_unresolved sc, os_unresolved_includes = length (sc_includes sc),
      os_split_ownership_modules = sc_split sc, os_modules_without_sources = sc_without_sources sc\<rparr>"

definition scan_ownership ::
    "file_system \<Rightarrow> manifest \<Rightarrow> string \<Rightarrow> (ownership_error, ownership_output) result" where
  "scan_ownership fs m source_root =
     and_then (ok_or (canonicalize fs (components source_root)) (OwnersSourceRoot source_root)) (\<lambda>root.
       if \<not> is_dir fs (absolute root) then Inl (OwnersSourceRoot source_root)
       else
         and_then (try_fold (scan_module fs) (manifest_modules m)
             \<lparr>sc_resolver = \<lparr>rs_root = root, rs_parsed = [], rs_files_read = []\<rparr>, sc_scanned = 0,
              sc_resolved = 0, sc_unresolved = 0, sc_split = 0, sc_without_sources = 0, sc_includes = [],
              sc_modules = []\<rparr>) (\<lambda>sc.
           let annotated = m\<lparr>manifest_modules := sc_modules sc\<rparr>
           in case validate annotated of
                Inl e \<Rightarrow> Inl (OwnersManifest e)
              | Inr _ \<Rightarrow> Inr \<lparr>oo_manifest = annotated, oo_summary = scan_summary m sc\<rparr>))"

end
