(* ===== verification/OwnersCorrect.thy ===== *)
theory OwnersCorrect
  imports Owners
begin

text \<open>
  Correctness of the OWNERS resolution: path expressions against their language, the include closure and
  its cycles, the irrelevance of the cache, the owners of a source over its ancestor directories, and
  the scan of a manifest.
\<close>

section \<open>The language of a path expression\<close>

datatype glob_token = AnyPath | AnyName | AnyChar | Literal char

function glob_tokens :: "string \<Rightarrow> glob_token list" where
  "glob_tokens [] = []"
| "glob_tokens (p # pattern) =
     (case strip_prefix ''...'' (p # pattern) of
        Some rest \<Rightarrow> AnyPath # glob_tokens rest
      | None \<Rightarrow>
          (if p = CHR ''*'' then AnyName else if p = CHR ''?'' then AnyChar else Literal p) #
          glob_tokens pattern)"
  by pat_completeness auto
termination glob_tokens
  by (relation "measure length") (auto simp: strip_prefix_Some split: if_splits)

fun token_language :: "glob_token \<Rightarrow> string set" where
  "token_language AnyPath = UNIV"
| "token_language AnyName = {w. CHR ''/'' \<notin> set w}"
| "token_language AnyChar = {[c] | c. c \<noteq> CHR ''/''}"
| "token_language (Literal c) = {[c]}"

definition conc :: "string set \<Rightarrow> string set \<Rightarrow> string set" where
  "conc A B = {a @ b | a b. a \<in> A \<and> b \<in> B}"

fun glob_language :: "glob_token list \<Rightarrow> string set" where
  "glob_language [] = {[]}"
| "glob_language (t # ts) = conc (token_language t) (glob_language ts)"

text \<open>The row of a language at a value: which prefixes of the value are in it.\<close>

definition row_of :: "string set \<Rightarrow> string \<Rightarrow> bool list" where
  "row_of L v = map (\<lambda>i. take i v \<in> L) [0..<length v + 1]"

lemma length_fill_row [simp]: "length (fill_row f v current left) = length v + 1"
  by (induction f v current left rule: fill_row.induct) auto

lemma fill_row_0: "fill_row f v current left ! 0 = left"
  by (cases v) auto

lemma fill_row_Suc:
  "length current = length v + 1 \<Longrightarrow> i < length v \<Longrightarrow>
   fill_row f v current left ! Suc i =
     f (v ! i) (current ! i) (current ! Suc i) (fill_row f v current left ! i)"
proof (induction f v current left arbitrary: i rule: fill_row.induct)
  case (2 f c v current left)
  obtain x y cur where cur: "current = x # y # cur"
    using "2.prems"(1) by (cases current; cases "tl current") auto
  show ?case
  proof (cases i)
    case 0
    then show ?thesis using cur by (simp add: fill_row_0)
  next
    case (Suc j)
    then show ?thesis using "2.IH" [of j] "2.prems" cur by simp
  qed
qed simp

text \<open>A row is determined by its first entry and the recurrence.\<close>

lemma fill_row_row_of:
  assumes first: "left \<longleftrightarrow> [] \<in> M"
    and step: "\<And>w c. w @ [c] \<in> M \<longleftrightarrow> f c (w \<in> L) (w @ [c] \<in> L) (w \<in> M)"
  shows "fill_row f v (row_of L v) left = row_of M v"
proof (rule nth_equalityI)
  show "length (fill_row f v (row_of L v) left) = length (row_of M v)"
    by (simp add: row_of_def)
  have nth: "row_of N v ! i \<longleftrightarrow> take i v \<in> N" if "i \<le> length v" for N i
    using that by (simp add: row_of_def del: upt_Suc)
  have "fill_row f v (row_of L v) left ! i = row_of M v ! i" if "i \<le> length v" for i
    using that
  proof (induction i)
    case 0
    then show ?case using first by (simp add: fill_row_0 nth)
  next
    case (Suc i)
    then have i: "i < length v" by simp
    have "length (row_of L v) = length v + 1" by (simp add: row_of_def)
    from fill_row_Suc [OF this i, of f left] Suc i
    show ?case by (simp add: nth take_Suc_conv_app_nth step)
  qed
  then show "fill_row f v (row_of L v) left ! i = row_of M v ! i"
    if "i < length (fill_row f v (row_of L v) left)" for i using that by simp
qed

lemma hd_row_of [simp]: "hd (row_of L v) = ([] \<in> L)"
  by (simp add: row_of_def hd_map del: upt_Suc)

lemma concI: "a \<in> A \<Longrightarrow> b \<in> B \<Longrightarrow> a @ b \<in> conc A B"
  by (auto simp: conc_def)

lemma conc_Nil: "[] \<in> conc A B \<longleftrightarrow> [] \<in> A \<and> [] \<in> B"
  by (auto simp: conc_def)

lemma conc_snoc:
  "w @ [c] \<in> conc A B \<longleftrightarrow> w @ [c] \<in> A \<and> [] \<in> B \<or> (\<exists>a b. w = a @ b \<and> a \<in> A \<and> b @ [c] \<in> B)"
proof
  assume "w @ [c] \<in> conc A B"
  then obtain a b where ab: "w @ [c] = a @ b" "a \<in> A" "b \<in> B" by (auto simp: conc_def)
  then show "w @ [c] \<in> A \<and> [] \<in> B \<or> (\<exists>a b. w = a @ b \<and> a \<in> A \<and> b @ [c] \<in> B)"
    by (cases b rule: rev_cases) auto
next
  assume "w @ [c] \<in> A \<and> [] \<in> B \<or> (\<exists>a b. w = a @ b \<and> a \<in> A \<and> b @ [c] \<in> B)"
  then show "w @ [c] \<in> conc A B"
  proof
    assume "w @ [c] \<in> A \<and> [] \<in> B"
    then show ?thesis using concI [of "w @ [c]" A "[]" B] by simp
  next
    assume "\<exists>a b. w = a @ b \<and> a \<in> A \<and> b @ [c] \<in> B"
    then obtain a b where "w = a @ b" "a \<in> A" "b @ [c] \<in> B" by blast
    then show ?thesis using concI [of a A "b @ [c]" B] by simp
  qed
qed

lemma conc_assoc: "conc (conc A B) C = conc A (conc B C)"
proof (rule set_eqI)
  fix w
  have "w \<in> conc (conc A B) C \<longleftrightarrow> (\<exists>a b c. w = a @ b @ c \<and> a \<in> A \<and> b \<in> B \<and> c \<in> C)"
    unfolding conc_def mem_Collect_eq by (metis append_assoc)
  moreover have "w \<in> conc A (conc B C) \<longleftrightarrow> (\<exists>a b c. w = a @ b @ c \<and> a \<in> A \<and> b \<in> B \<and> c \<in> C)"
    unfolding conc_def mem_Collect_eq by blast
  ultimately show "w \<in> conc (conc A B) C \<longleftrightarrow> w \<in> conc A (conc B C)" by blast
qed

lemma conc_unit [simp]: "conc {[]} A = A" "conc A {[]} = A"
  by (auto simp: conc_def)

text \<open>Each kind of step of the loop appends its token's language.\<close>

lemma fill_row_AnyPath:
  "fill_row (\<lambda>c before here left. here \<or> left) v (row_of L v) ([] \<in> L) = row_of (conc L UNIV) v"
  by (rule fill_row_row_of) (auto simp: conc_Nil conc_snoc, auto simp: conc_def)

lemma fill_row_AnyName:
  "fill_row (\<lambda>c before here left. here \<or> (c \<noteq> CHR ''/'' \<and> left)) v (row_of L v) ([] \<in> L) =
     row_of (conc L {w. CHR ''/'' \<notin> set w}) v"
  by (rule fill_row_row_of) (auto simp: conc_Nil conc_snoc, auto simp: conc_def)

lemma fill_row_AnyChar:
  "fill_row (\<lambda>c before here left. c \<noteq> CHR ''/'' \<and> before) v (row_of L v) False =
     row_of (conc L {[c] | c. c \<noteq> CHR ''/''}) v"
  by (rule fill_row_row_of) (auto simp: conc_Nil conc_snoc)

lemma fill_row_Literal:
  "fill_row (\<lambda>c before here left. before \<and> p = c) v (row_of L v) False = row_of (conc L {[p]}) v"
  by (rule fill_row_row_of) (auto simp: conc_Nil conc_snoc)

lemma glob_loop_row_of:
  "glob_loop pattern v (row_of L v) = row_of (conc L (glob_language (glob_tokens pattern))) v"
proof (induction pattern arbitrary: L rule: glob_tokens.induct)
  case 1
  show ?case by simp
next
  case (2 p pattern)
  show ?case
  proof (cases "strip_prefix ''...'' (p # pattern)")
    case (Some rest)
    have "glob_loop (p # pattern) v (row_of L v) = glob_loop rest v (row_of (conc L UNIV) v)"
      unfolding glob_loop.simps(2) Some by (simp add: fill_row_AnyPath)
    moreover have "glob_tokens (p # pattern) = AnyPath # glob_tokens rest"
      unfolding glob_tokens.simps(2) Some by simp
    ultimately show ?thesis using "2.IH"(2) [OF Some] by (simp add: conc_assoc)
  next
    case None
    define t where "t = (if p = CHR ''*'' then AnyName else if p = CHR ''?'' then AnyChar else Literal p)"
    have "glob_loop (p # pattern) v (row_of L v) =
        glob_loop pattern v (row_of (conc L (token_language t)) v)"
      unfolding glob_loop.simps(2) None t_def
      by (simp add: fill_row_AnyName fill_row_AnyChar fill_row_Literal)
    moreover have "glob_tokens (p # pattern) = t # glob_tokens pattern"
      unfolding glob_tokens.simps(2) None t_def by simp
    ultimately show ?thesis using "2.IH"(1) [OF None] by (simp add: conc_assoc)
  qed
qed

lemma glob_matches_eq: "glob_matches pattern v \<longleftrightarrow> v \<in> glob_language (glob_tokens pattern)"
proof -
  have "True # replicate (length v) False = row_of {[]} v"
  proof -
    have "[1..<length v + 1] = map Suc [0..<length v]" by (simp add: map_Suc_upt)
    then have "row_of {[]} v = True # map (\<lambda>i. take (Suc i) v = []) [0..<length v]"
      unfolding row_of_def by (subst upt_conv_Cons) (simp_all del: upt_Suc)
    also have "map (\<lambda>i. take (Suc i) v = []) [0..<length v] = map (\<lambda>_. False) [0..<length v]"
      by (rule map_cong) auto
    finally show ?thesis by (simp add: map_replicate_const)
  qed
  then have "glob_matches pattern v =
      last (row_of (glob_language (glob_tokens pattern)) v)"
    using glob_loop_row_of [of pattern v "{[]}"] by (simp add: glob_matches_def)
  then show ?thesis by (simp add: row_of_def last_map)
qed

section \<open>The cache\<close>

text \<open>What a file parses to, and the caches that hold only that.\<close>

definition parse_of :: "file_system \<Rightarrow> string list \<Rightarrow> string list \<Rightarrow> (ownership_error, parsed_owners) result" where
  "parse_of fs root path =
     and_then (ok_or (read_to_string fs (below_root root path)) (ReadOwners (''/'' @ join ''/'' (root @ path))))
       (parse_owners path)"

definition cache_ok :: "file_system \<Rightarrow> string list \<Rightarrow> owners_resolver \<Rightarrow> bool" where
  "cache_ok fs root rs \<longleftrightarrow> rs_root rs = root \<and> ascending_keys (rs_parsed rs) \<and>
     (\<forall>path parsed. btm_get (rs_parsed rs) path = Some parsed \<longrightarrow> parse_of fs root path = Inr parsed)"

definition fresh_resolver :: "string list \<Rightarrow> owners_resolver" where
  "fresh_resolver root = \<lparr>rs_root = root, rs_parsed = [], rs_files_read = []\<rparr>"

lemma cache_ok_fresh [simp]: "cache_ok fs root (fresh_resolver root)"
  by (simp add: cache_ok_def fresh_resolver_def)

lemma cache_ok_root [simp]: "cache_ok fs root rs \<Longrightarrow> rs_root rs = root"
  by (simp add: cache_ok_def)

text \<open>Two runs from consistent caches: the same answer, and consistent caches again.\<close>

definition same_run ::
    "file_system \<Rightarrow> string list \<Rightarrow> (ownership_error, 'a \<times> owners_resolver) result \<Rightarrow>
     (ownership_error, 'a \<times> owners_resolver) result \<Rightarrow> bool" where
  "same_run fs root r r' \<longleftrightarrow>
     (\<exists>e. r = Inl e \<and> r' = Inl e) \<or>
     (\<exists>x rs rs'. r = Inr (x, rs) \<and> r' = Inr (x, rs') \<and> cache_ok fs root rs \<and> cache_ok fs root rs')"

lemma same_run_Inl [simp]: "same_run fs root (Inl e) (Inl e)"
  by (simp add: same_run_def)

lemma same_run_Inr: "cache_ok fs root rs \<Longrightarrow> cache_ok fs root rs' \<Longrightarrow> same_run fs root (Inr (x, rs)) (Inr (x, rs'))"
  by (simp add: same_run_def)

lemma same_run_and_then:
  assumes "same_run fs root r r'"
    and "\<And>x rs rs'. r = Inr (x, rs) \<Longrightarrow> cache_ok fs root rs \<Longrightarrow> cache_ok fs root rs' \<Longrightarrow>
      same_run fs root (f (x, rs)) (f' (x, rs'))"
  shows "same_run fs root (and_then r f) (and_then r' f')"
  using assms unfolding same_run_def [of fs root r r'] by auto

lemma same_run_plain:
  "(\<And>x. r = Inr x \<Longrightarrow> same_run fs root (f x) (f' x)) \<Longrightarrow> same_run fs root (and_then r f) (and_then r f')"
  by (cases r) auto

lemma cache_ok_insert:
  assumes "cache_ok fs root rs" and "parse_of fs root path = Inr parsed"
  shows "cache_ok fs root (rs\<lparr>rs_parsed := btm_insert path parsed (rs_parsed rs), rs_files_read := files\<rparr>)"
proof -
  have asc: "ascending_keys (rs_parsed rs)" and root: "rs_root rs = root"
    and old: "\<And>p x. btm_get (rs_parsed rs) p = Some x \<Longrightarrow> parse_of fs root p = Inr x"
    using assms(1) unfolding cache_ok_def by blast+
  have "parse_of fs root p = Inr x" if "btm_get (btm_insert path parsed (rs_parsed rs)) p = Some x" for p x
  proof (cases "p = path")
    case True
    then show ?thesis using that assms(2) unfolding get_btm_insert [OF asc] by simp
  next
    case False
    then show ?thesis using that old unfolding get_btm_insert [OF asc] by simp
  qed
  then show ?thesis using root ascending_btm_insert [OF asc] unfolding cache_ok_def by simp
qed

text \<open>Reading through a consistent cache is reading the file.\<close>

lemma parse_file_cases:
  assumes "cache_ok fs root rs"
  shows "(\<exists>e. parse_file fs path rs = Inl e \<and> parse_of fs root path = Inl e) \<or>
    (\<exists>parsed rs'. parse_file fs path rs = Inr (parsed, rs') \<and> parse_of fs root path = Inr parsed \<and>
      cache_ok fs root rs')"
proof (cases "btm_get (rs_parsed rs) path")
  case (Some parsed)
  then have "parse_of fs root path = Inr parsed" using assms unfolding cache_ok_def by blast
  moreover have "parse_file fs path rs = Inr (parsed, rs)" using Some by (simp add: parse_file_def)
  ultimately show ?thesis using assms by blast
next
  case None
  have root: "rs_root rs = root" using assms by simp
  have file_eq: "parse_file fs path rs = and_then (parse_of fs root path) (\<lambda>parsed.
      Inr (parsed, rs\<lparr>rs_parsed := btm_insert path parsed (rs_parsed rs),
                      rs_files_read := bts_insert path (rs_files_read rs)\<rparr>))"
    unfolding parse_file_def parse_of_def root None
    by (cases "read_to_string fs (below_root root path)") simp_all
  show ?thesis
  proof (cases "parse_of fs root path")
    case (Inr parsed)
    then show ?thesis using file_eq cache_ok_insert [OF assms Inr] by simp
  qed (simp add: file_eq)
qed

lemma parse_file_same:
  assumes "cache_ok fs root rs" and "cache_ok fs root rs'"
  shows "same_run fs root (parse_file fs path rs) (parse_file fs path rs')"
  using parse_file_cases [OF assms(1), of path] parse_file_cases [OF assms(2), of path]
  by (cases "parse_of fs root path") (auto simp: same_run_Inr)

lemma parse_file_Inr:
  "parse_file fs path rs = Inr (parsed, rs') \<Longrightarrow> cache_ok fs root rs \<Longrightarrow>
   parse_of fs root path = Inr parsed \<and> cache_ok fs root rs'"
  using parse_file_cases [of fs root rs path] by auto

lemma resolve_directives_same:
  "cache_ok fs root rs \<Longrightarrow> cache_ok fs root rs' \<Longrightarrow>
   same_run fs root (resolve_directives fs root owners_path stack ds layer rs)
     (resolve_directives fs root owners_path stack ds layer rs')"
proof (induction fs root owners_path stack ds layer rs arbitrary: rs' rule: resolve_directives.induct)
  case (1 fs root owners_path stack layer rs)
  then show ?case by (simp add: same_run_Inr)
next
  case (2 fs root owners_path stack owner ds layer rs)
  then show ?case by simp
next
  case (3 fs root owners_path stack ds layer rs)
  then show ?case by simp
next
  case (4 fs root owners_path stack i ds layer rs)
  show ?case
  proof (cases "is_external_include i")
    case True
    then show ?thesis using 4 by simp
  next
    case False
    show ?thesis
      unfolding resolve_directives.simps if_not_P [OF False]
    proof (rule same_run_plain)
      fix included
      assume inc: "resolve_include fs root owners_path i = Inr included"
      let ?run = "\<lambda>rs. if included \<in> set stack then Inl (include_cycle stack included)
        else and_then (parse_file fs included rs) (\<lambda>(parsed, rs).
          and_then (resolve_directives fs root included (stack @ [included]) (po_global parsed) no_ownership rs)
            (\<lambda>(nested, rs).
              resolve_directives fs root owners_path stack ds (merge_nested included nested layer) rs))"
      show "same_run fs root (?run rs) (?run rs')"
      proof (cases "included \<in> set stack")
        case fresh: False
        show ?thesis
          unfolding if_not_P [OF fresh]
        proof (rule same_run_and_then [OF parse_file_same [OF "4.prems"]], unfold split_conv)
          fix parsed ra rb
          assume parsed: "parse_file fs included rs = Inr (parsed, ra)" "cache_ok fs root ra" "cache_ok fs root rb"
          note run = "4.IH"(2) [OF False inc fresh parsed(1) refl parsed(2,3)]
          show "same_run fs root
            (and_then (resolve_directives fs root included (stack @ [included]) (po_global parsed) no_ownership ra)
              (\<lambda>(nested, rs). resolve_directives fs root owners_path stack ds (merge_nested included nested layer) rs))
            (and_then (resolve_directives fs root included (stack @ [included]) (po_global parsed) no_ownership rb)
              (\<lambda>(nested, rs). resolve_directives fs root owners_path stack ds (merge_nested included nested layer) rs))"
            using run
          proof (rule same_run_and_then, unfold split_conv)
            fix nested rc rd
            assume nested: "resolve_directives fs root included (stack @ [included]) (po_global parsed)
              no_ownership ra = Inr (nested, rc)" "cache_ok fs root rc" "cache_ok fs root rd"
            show "same_run fs root
              (resolve_directives fs root owners_path stack ds (merge_nested included nested layer) rc)
              (resolve_directives fs root owners_path stack ds (merge_nested included nested layer) rd)"
              by (rule "4.IH"(3) [OF False inc fresh parsed(1) refl nested(1) refl nested(2,3)])
          qed
        qed
      qed simp
    qed
  qed
qed

lemma evaluate_same:
  assumes "cache_ok fs root rs" and "cache_ok fs root rs'"
  shows "same_run fs root (evaluate_owner_file fs path scoped rs) (evaluate_owner_file fs path scoped rs')"
  unfolding evaluate_owner_file_def
  by (rule same_run_and_then [OF parse_file_same [OF assms]], unfold split_conv Let_def cache_ok_root,
      rule same_run_and_then [OF resolve_directives_same], assumption, assumption)
    (simp add: same_run_Inr)

lemma owners_layer_same:
  assumes "cache_ok fs root rs" and "cache_ok fs root rs'"
  shows "same_run fs root (owners_layer fs source relative directory rs) (owners_layer fs source relative directory rs')"
proof (cases "is_file fs (below_root root (directory @ [''OWNERS'']))")
  case True
  show ?thesis
    unfolding owners_layer_def Let_def cache_ok_root [OF assms(1)] cache_ok_root [OF assms(2)] if_P [OF True]
    by (rule same_run_plain, rule same_run_and_then [OF evaluate_same [OF assms]]) (simp add: same_run_Inr)
next
  case False
  show ?thesis
    unfolding owners_layer_def Let_def cache_ok_root [OF assms(1)] cache_ok_root [OF assms(2)] if_not_P [OF False]
    by (rule same_run_Inr [OF assms])
qed

lemma resolve_loop_same:
  "cache_ok fs root rs \<Longrightarrow> cache_ok fs root rs' \<Longrightarrow>
   same_run fs root (resolve_loop fs source relative directory st rs) (resolve_loop fs source relative directory st rs')"
proof (induction fs source relative directory st rs arbitrary: rs' rule: resolve_loop.induct)
  case (1 fs source relative directory st rs)
  show ?case
    unfolding resolve_loop.simps [of fs source relative directory]
  proof (rule same_run_and_then [OF owners_layer_same [OF "1.prems"]], unfold split_conv Let_def)
    fix found ra rb
    assume found: "owners_layer fs source relative directory rs = Inr (found, ra)"
      "cache_ok fs root ra" "cache_ok fs root rb"
    let ?st = "case found of None \<Rightarrow> st | Some layer \<Rightarrow> add_layer (directory @ [''OWNERS'']) layer st"
    let ?halt = "(case found of None \<Rightarrow> False | Some layer \<Rightarrow> lo_stop_inheritance layer) \<or> directory = []"
    show "same_run fs root
      (if ?halt then Inr (?st, ra) else resolve_loop fs source relative (butlast directory) ?st ra)
      (if ?halt then Inr (?st, rb) else resolve_loop fs source relative (butlast directory) ?st rb)"
    proof (cases ?halt)
      case True
      show ?thesis unfolding if_P [OF True] by (rule same_run_Inr [OF found(2,3)])
    next
      case False
      show ?thesis
        unfolding if_not_P [OF False] by (rule "1.IH" [OF found(1) refl refl False found(2,3)])
    qed
  qed
qed

lemma resolve_source_same:
  assumes "cache_ok fs root rs" and "cache_ok fs root rs'"
  shows "same_run fs root (resolve_source fs source rs) (resolve_source fs source rs')"
  unfolding resolve_source_def Let_def
  by (rule same_run_and_then [OF resolve_loop_same [OF assms]]) (simp add: same_run_Inr)

text \<open>The owners of a source on its own, from an empty cache.\<close>

definition owners_of :: "file_system \<Rightarrow> string list \<Rightarrow> string \<Rightarrow> (ownership_error, source_ownership) result" where
  "owners_of fs root source = and_then (resolve_source fs source (fresh_resolver root)) (\<lambda>(so, _). Inr so)"

lemma resolve_source_cached:
  assumes "cache_ok fs root rs"
  shows "(\<exists>e. resolve_source fs source rs = Inl e \<and> owners_of fs root source = Inl e) \<or>
    (\<exists>so rs'. resolve_source fs source rs = Inr (so, rs') \<and> owners_of fs root source = Inr so \<and> cache_ok fs root rs')"
  using resolve_source_same [OF assms cache_ok_fresh, of source] unfolding same_run_def owners_of_def by auto

section \<open>The include closure\<close>

text \<open>\<open>direct p ds\<close> are the files that the directives \<open>ds\<close> of the file \<open>p\<close> include, \<open>globals p\<close> the global
  directives of \<open>p\<close>, \<open>reached p ds\<close> the files that \<open>ds\<close> includes directly or through global directives.\<close>

definition globals :: "file_system \<Rightarrow> string list \<Rightarrow> string list \<Rightarrow> directive set" where
  "globals fs root p = (case parse_of fs root p of Inl _ \<Rightarrow> {} | Inr parsed \<Rightarrow> set (po_global parsed))"

definition direct :: "file_system \<Rightarrow> string list \<Rightarrow> string list \<Rightarrow> directive set \<Rightarrow> string list set" where
  "direct fs root p D =
     {q. \<exists>i. Include i \<in> D \<and> \<not> is_external_include i \<and> resolve_include fs root p i = Inr q}"

definition include_step :: "file_system \<Rightarrow> string list \<Rightarrow> (string list \<times> string list) set" where
  "include_step fs root = {(p, q). q \<in> direct fs root p (globals fs root p)}"

definition reached :: "file_system \<Rightarrow> string list \<Rightarrow> string list \<Rightarrow> directive set \<Rightarrow> string list set" where
  "reached fs root p D = (include_step fs root)\<^sup>* `` direct fs root p D"

lemma reached_Un: "reached fs root p (A \<union> B) = reached fs root p A \<union> reached fs root p B"
  by (auto simp: reached_def direct_def)

lemma reached_empty [simp]: "reached fs root p {} = {}"
  by (simp add: reached_def direct_def)

lemma reached_Owner [simp]: "reached fs root p (insert (Owner x) D) = reached fs root p D"
  "reached fs root p (insert NoParent D) = reached fs root p D"
  by (simp_all add: reached_def direct_def)

lemma reached_external [simp]:
  "is_external_include i \<Longrightarrow> reached fs root p (insert (Include i) D) = reached fs root p D"
  by (auto simp: reached_def direct_def)

lemma reached_step: "(include_step fs root)\<^sup>* `` {q} = insert q (reached fs root q (globals fs root q))"
proof -
  have "(include_step fs root)\<^sup>* `` {q} = insert q ((include_step fs root)\<^sup>* `` (include_step fs root `` {q}))"
    by (auto elim: converse_rtranclE intro: converse_rtrancl_into_rtrancl)
  then show ?thesis by (simp add: reached_def include_step_def Image_def)
qed

lemma reached_Include:
  assumes "\<not> is_external_include i" and "resolve_include fs root p i = Inr q"
  shows "reached fs root p (insert (Include i) D) =
    insert q (reached fs root q (globals fs root q)) \<union> reached fs root p D"
proof -
  have "direct fs root p (insert (Include i) D) = {q} \<union> direct fs root p D"
    using assms by (auto simp: direct_def)
  then show ?thesis by (simp only: reached_def [of fs root p] Image_Un reached_step)
qed

text \<open>What a successful resolution collects.\<close>

definition granted :: "file_system \<Rightarrow> string list \<Rightarrow> string list \<Rightarrow> directive set \<Rightarrow> string set" where
  "granted fs root p D =
     {x. Owner x \<in> D \<or> (\<exists>r\<in>reached fs root p D. Owner x \<in> globals fs root r)}"

definition dangling :: "file_system \<Rightarrow> string list \<Rightarrow> string list \<Rightarrow> directive set \<Rightarrow> ownership_include set" where
  "dangling fs root p D =
     {OwnershipInclude (path_string p) i | i. Include i \<in> D \<and> is_external_include i} \<union>
     {OwnershipInclude (path_string r) i | r i.
        r \<in> reached fs root p D \<and> Include i \<in> globals fs root r \<and> is_external_include i}"

lemma granted_simps [simp]:
  "granted fs root p {} = {}"
  "granted fs root p (insert (Owner x) D) = insert x (granted fs root p D)"
  "granted fs root p (insert NoParent D) = granted fs root p D"
  "is_external_include i \<Longrightarrow> granted fs root p (insert (Include i) D) = granted fs root p D"
  by (auto simp: granted_def)

lemma dangling_simps [simp]:
  "dangling fs root p {} = {}"
  "dangling fs root p (insert (Owner x) D) = dangling fs root p D"
  "dangling fs root p (insert NoParent D) = dangling fs root p D"
  "is_external_include i \<Longrightarrow> dangling fs root p (insert (Include i) D) =
     insert (OwnershipInclude (path_string p) i) (dangling fs root p D)"
  by (auto simp: dangling_def)

lemma granted_Include:
  "\<not> is_external_include i \<Longrightarrow> resolve_include fs root p i = Inr q \<Longrightarrow>
   granted fs root p (insert (Include i) D) = granted fs root q (globals fs root q) \<union> granted fs root p D"
  by (auto simp: granted_def reached_Include)

lemma dangling_Include:
  "\<not> is_external_include i \<Longrightarrow> resolve_include fs root p i = Inr q \<Longrightarrow>
   dangling fs root p (insert (Include i) D) = dangling fs root q (globals fs root q) \<union> dangling fs root p D"
  by (auto simp: dangling_def reached_Include)

definition layer_sorted :: "layer_ownership \<Rightarrow> bool" where
  "layer_sorted layer \<longleftrightarrow>
     ascending (lo_owners layer) \<and> ascending (lo_owner_files layer) \<and> ascending (lo_unresolved_includes layer)"

definition collects ::
    "file_system \<Rightarrow> string list \<Rightarrow> string list \<Rightarrow> string list list \<Rightarrow> directive set \<Rightarrow> layer_ownership \<Rightarrow>
     layer_ownership \<Rightarrow> bool" where
  "collects fs root p stack D layer layer' \<longleftrightarrow>
     set (lo_owners layer') = set (lo_owners layer) \<union> granted fs root p D \<and>
     set (lo_owner_files layer') = set (lo_owner_files layer) \<union> path_string ` reached fs root p D \<and>
     set (lo_unresolved_includes layer') = set (lo_unresolved_includes layer) \<union> dangling fs root p D \<and>
     (layer_sorted layer \<longrightarrow> layer_sorted layer') \<and>
     reached fs root p D \<inter> set stack = {} \<and>
     (\<forall>r\<in>reached fs root p D. r \<notin> reached fs root r (globals fs root r))"

lemma collects_Include:
  assumes i: "\<not> is_external_include i" "resolve_include fs root p i = Inr q" "q \<notin> set stack"
    and nested: "collects fs root q (stack @ [q]) (globals fs root q) no_ownership nested"
    and rest: "collects fs root p stack D (merge_nested q nested layer) layer'"
  shows "collects fs root p stack (insert (Include i) D) layer layer'"
proof -
  have sorted: "layer_sorted (merge_nested q nested layer)" if "layer_sorted layer"
    using that by (simp add: layer_sorted_def merge_nested_def ascending_bts_extend ascending_bts_insert)
  note N = nested [unfolded collects_def no_ownership_def] and R = rest [unfolded collects_def]
  show ?thesis
    unfolding collects_def granted_Include [OF i(1,2)] dangling_Include [OF i(1,2)] reached_Include [OF i(1,2)]
  proof (intro conjI)
    show "set (lo_owners layer') = set (lo_owners layer) \<union> (granted fs root q (globals fs root q) \<union> granted fs root p D)"
      using N R by (auto simp: merge_nested_def)
    show "set (lo_owner_files layer') = set (lo_owner_files layer) \<union>
        path_string ` (insert q (reached fs root q (globals fs root q)) \<union> reached fs root p D)"
      using N R by (auto simp: merge_nested_def)
    show "set (lo_unresolved_includes layer') = set (lo_unresolved_includes layer) \<union>
        (dangling fs root q (globals fs root q) \<union> dangling fs root p D)"
      using N R by (auto simp: merge_nested_def)
    show "layer_sorted layer \<longrightarrow> layer_sorted layer'" using R sorted by blast
    show "(insert q (reached fs root q (globals fs root q)) \<union> reached fs root p D) \<inter> set stack = {}"
      using N R i(3) by auto
    show "\<forall>r\<in>insert q (reached fs root q (globals fs root q)) \<union> reached fs root p D.
        r \<notin> reached fs root r (globals fs root r)"
      using N R by auto
  qed
qed

lemma resolve_directives_collects:
  "cache_ok fs root rs \<Longrightarrow>
   resolve_directives fs root p stack ds layer rs = Inr (layer', rs') \<Longrightarrow>
   cache_ok fs root rs' \<and> lo_stop_inheritance layer' = lo_stop_inheritance layer \<and>
   collects fs root p stack (set ds) layer layer'"
proof (induction fs root p stack ds layer rs arbitrary: layer' rs' rule: resolve_directives.induct)
  case (1 fs root p stack layer rs)
  then show ?case by (simp add: collects_def)
next
  case (2 fs root p stack x ds layer rs)
  then show ?case
    by (simp add: collects_def layer_sorted_def ascending_bts_insert)
next
  case (3 fs root p stack ds layer rs)
  then show ?case by (simp add: collects_def)
next
  case (4 fs root p stack i ds layer rs)
  show ?case
  proof (cases "is_external_include i")
    case True
    then have run: "resolve_directives fs root p stack ds (layer\<lparr>lo_unresolved_includes :=
        bts_insert (OwnershipInclude (path_string p) i) (lo_unresolved_includes layer)\<rparr>) rs = Inr (layer', rs')"
      using "4.prems"(2) by simp
    show ?thesis
      using "4.IH"(1) [OF True "4.prems"(1) run] True
      by (simp add: collects_def layer_sorted_def ascending_bts_insert)
  next
    case False
    from "4.prems"(2) False obtain q where q: "resolve_include fs root p i = Inr q" "q \<notin> set stack"
      by (auto simp: and_then_Inr_iff split: if_splits)
    from "4.prems"(2) False q obtain parsed ra where ra: "parse_file fs q rs = Inr (parsed, ra)"
      by (auto simp: and_then_Inr_iff)
    from "4.prems"(2) False q ra obtain nested rb
      where rb: "resolve_directives fs root q (stack @ [q]) (po_global parsed) no_ownership ra = Inr (nested, rb)"
      by (auto simp: and_then_Inr_iff)
    from "4.prems"(2) False q ra rb
    have rest: "resolve_directives fs root p stack ds (merge_nested q nested layer) rb = Inr (layer', rs')"
      by simp
    from parse_file_Inr [OF ra "4.prems"(1)]
    have parsed: "globals fs root q = set (po_global parsed)" and ok: "cache_ok fs root ra"
      by (simp_all add: globals_def)
    from "4.IH"(2) [OF False q ra refl ok rb]
    have N: "cache_ok fs root rb" "collects fs root q (stack @ [q]) (globals fs root q) no_ownership nested"
      by (simp_all add: parsed)
    from "4.IH"(3) [OF False q ra refl rb refl N(1) rest]
    have R: "cache_ok fs root rs'" "lo_stop_inheritance layer' = lo_stop_inheritance layer"
      "collects fs root p stack (set ds) (merge_nested q nested layer) layer'"
      by (simp_all add: merge_nested_def)
    then show ?thesis using collects_Include [OF False q N(2) R(3)] by simp
  qed
qed

text \<open>Resolution refuses only includes that really go in a circle.\<close>

definition include_circle :: "file_system \<Rightarrow> string list \<Rightarrow> string list \<Rightarrow> directive set \<Rightarrow> bool" where
  "include_circle fs root p D \<longleftrightarrow>
     p \<in> reached fs root p D \<or> (\<exists>r\<in>reached fs root p D. r \<in> reached fs root r (globals fs root r))"

lemma parse_owners_no_cycle: "parse_owners path content \<noteq> Inl (IncludeCycle c)"
proof -
  have directives: "parse_directives path n d \<noteq> Inl (IncludeCycle c)" for n d
    by (auto simp: parse_directives_def owner_directives_def owner_directive_def owners_syntax_def and_then_Inl_iff Let_def
        split: option.splits if_splits dest!: try_map_Inl)
  have rules: "try_fold (per_file_rules path n ds) es rs \<noteq> Inl (IncludeCycle c)" for n ds es rs
    by (rule try_fold_no_error [where P = "\<lambda>_. True"])
      (auto simp: per_file_rules_def validate_path_expression_def owners_syntax_def split: if_splits)
  have "parse_per_file path n rest parsed \<noteq> Inl (IncludeCycle c)" for n rest parsed
    using directives rules
    by (auto simp: parse_per_file_def owners_syntax_def and_then_Inl_iff Let_def split: option.splits)
  then have "parse_line path x parsed \<noteq> Inl (IncludeCycle c)" for x parsed
    using directives
    by (auto simp: parse_line_def parse_trimmed_def owners_syntax_def and_then_Inl_iff Let_def split: option.splits prod.splits)
  then show ?thesis
    unfolding parse_owners_def by (intro try_fold_no_error [where P = "\<lambda>_. True"]) auto
qed

lemma parse_file_no_cycle: "parse_file fs path rs \<noteq> Inl (IncludeCycle c)"
  using parse_owners_no_cycle [of path _ c]
  by (auto simp: parse_file_def and_then_Inl_iff ok_or_Inl_iff split: option.splits)

lemma resolve_include_no_cycle: "resolve_include fs root p i \<noteq> Inl (IncludeCycle c)"
  by (auto simp: resolve_include_def Let_def and_then_Inl_iff ok_or_Inl_iff split: if_splits)

lemma resolve_directives_cycle:
  "cache_ok fs root rs \<Longrightarrow>
   resolve_directives fs root p stack ds layer rs = Inl (IncludeCycle c) \<Longrightarrow>
   reached fs root p (set ds) \<inter> set stack \<noteq> {} \<or>
   (\<exists>r\<in>reached fs root p (set ds). r \<in> reached fs root r (globals fs root r))"
proof (induction fs root p stack ds layer rs rule: resolve_directives.induct)
  case (4 fs root p stack i ds layer rs)
  show ?case
  proof (cases "is_external_include i")
    case True
    then have run: "resolve_directives fs root p stack ds (layer\<lparr>lo_unresolved_includes :=
        bts_insert (OwnershipInclude (path_string p) i) (lo_unresolved_includes layer)\<rparr>) rs = Inl (IncludeCycle c)"
      using "4.prems"(2) by simp
    show ?thesis using "4.IH"(1) [OF True "4.prems"(1) run] True by simp
  next
    case False
    from "4.prems"(2) False obtain q where q: "resolve_include fs root p i = Inr q"
      using resolve_include_no_cycle [of fs root p i c] by (auto simp: and_then_Inl_iff)
    note R = reached_Include [OF False q, of "set ds"]
    show ?thesis
    proof (cases "q \<in> set stack")
      case True
      then show ?thesis using R by auto
    next
      case fresh: False
      from "4.prems"(2) False q fresh obtain parsed ra where ra: "parse_file fs q rs = Inr (parsed, ra)"
        using parse_file_no_cycle [of fs q rs c] by (auto simp: and_then_Inl_iff)
      from parse_file_Inr [OF ra "4.prems"(1)]
      have parsed: "globals fs root q = set (po_global parsed)" and ok: "cache_ok fs root ra"
        by (simp_all add: globals_def)
      let ?nested = "resolve_directives fs root q (stack @ [q]) (po_global parsed) no_ownership ra"
      show ?thesis
      proof (cases ?nested)
        case (Inl e)
        then have "?nested = Inl (IncludeCycle c)" using "4.prems"(2) False q fresh ra by simp
        from "4.IH"(2) [OF False q fresh ra refl ok this]
        show ?thesis using R by (auto simp: parsed)
      next
        case (Inr nested)
        obtain layer' rb where rb: "?nested = Inr (layer', rb)" using Inr by (cases nested) auto
        have run: "resolve_directives fs root p stack ds (merge_nested q layer' layer) rb = Inl (IncludeCycle c)"
          using "4.prems"(2) False q fresh ra rb by simp
        have "cache_ok fs root rb" using resolve_directives_collects [OF ok rb] by blast
        from "4.IH"(3) [OF False q fresh ra refl rb refl this run]
        show ?thesis using R by auto
      qed
    qed
  qed
qed simp_all

text \<open>The includes of a file are sound when each names a file of the checkout and each file they lead to can be
  read and parsed; then a circle is all that can go wrong.\<close>

definition includes_found :: "file_system \<Rightarrow> string list \<Rightarrow> string list \<Rightarrow> directive set \<Rightarrow> bool" where
  "includes_found fs root p D \<longleftrightarrow>
     (\<forall>i. Include i \<in> D \<and> \<not> is_external_include i \<longrightarrow> (\<exists>q. resolve_include fs root p i = Inr q))"

definition includes_sound :: "file_system \<Rightarrow> string list \<Rightarrow> string list \<Rightarrow> directive set \<Rightarrow> bool" where
  "includes_sound fs root p D \<longleftrightarrow> includes_found fs root p D \<and>
     (\<forall>q\<in>reached fs root p D.
        (\<exists>parsed. parse_of fs root q = Inr parsed) \<and> includes_found fs root q (globals fs root q))"

lemma includes_found_simps [simp]:
  "includes_found fs root p {}"
  "includes_found fs root p (insert (Owner x) D) = includes_found fs root p D"
  "includes_found fs root p (insert NoParent D) = includes_found fs root p D"
  "is_external_include i \<Longrightarrow> includes_found fs root p (insert (Include i) D) = includes_found fs root p D"
  by (auto simp: includes_found_def)

lemma includes_sound_simps [simp]:
  "includes_sound fs root p (insert (Owner x) D) = includes_sound fs root p D"
  "includes_sound fs root p (insert NoParent D) = includes_sound fs root p D"
  "is_external_include i \<Longrightarrow> includes_sound fs root p (insert (Include i) D) = includes_sound fs root p D"
  by (simp_all add: includes_sound_def)

lemma includes_sound_Include:
  assumes "includes_sound fs root p (insert (Include i) D)" and "\<not> is_external_include i"
  shows "\<exists>q parsed. resolve_include fs root p i = Inr q \<and> parse_of fs root q = Inr parsed \<and>
    includes_sound fs root q (globals fs root q) \<and> includes_sound fs root p D"
proof -
  from assms obtain q where q: "resolve_include fs root p i = Inr q"
    by (auto simp: includes_sound_def includes_found_def)
  have "includes_found fs root p D" using assms(1) by (simp add: includes_sound_def includes_found_def)
  with q assms show ?thesis
    unfolding includes_sound_def reached_Include [OF assms(2) q] by blast
qed

lemma resolve_directives_sound:
  "cache_ok fs root rs \<Longrightarrow> includes_sound fs root p (set ds) \<Longrightarrow>
   resolve_directives fs root p stack ds layer rs = Inl e \<Longrightarrow> \<exists>c. e = IncludeCycle c"
proof (induction fs root p stack ds layer rs rule: resolve_directives.induct)
  case (4 fs root p stack i ds layer rs)
  show ?case
  proof (cases "is_external_include i")
    case True
    have run: "resolve_directives fs root p stack ds (layer\<lparr>lo_unresolved_includes :=
        bts_insert (OwnershipInclude (path_string p) i) (lo_unresolved_includes layer)\<rparr>) rs = Inl e"
      using "4.prems"(3) True by simp
    show ?thesis using "4.IH"(1) [OF True "4.prems"(1) _ run] "4.prems"(2) True by simp
  next
    case False
    from includes_sound_Include [OF "4.prems"(2) [unfolded list.set] False] obtain q parsed where
      q: "resolve_include fs root p i = Inr q" and at: "parse_of fs root q = Inr parsed"
      and sound: "includes_sound fs root q (globals fs root q)" "includes_sound fs root p (set ds)" by blast
    show ?thesis
    proof (cases "q \<in> set stack")
      case True
      then have "include_cycle stack q = e" using "4.prems"(3) False q by simp
      then show ?thesis by (auto simp: include_cycle_def)
    next
      case fresh: False
      from parse_file_cases [OF "4.prems"(1), of q] at obtain ra where
        ra: "parse_file fs q rs = Inr (parsed, ra)" "cache_ok fs root ra" by auto
      have globals: "globals fs root q = set (po_global parsed)" using at by (simp add: globals_def)
      let ?nested = "resolve_directives fs root q (stack @ [q]) (po_global parsed) no_ownership ra"
      show ?thesis
      proof (cases ?nested)
        case (Inl e')
        then have "?nested = Inl e" using "4.prems"(3) False q fresh ra(1) by simp
        from "4.IH"(2) [OF False q fresh ra(1) refl ra(2) _ this] show ?thesis
          using sound(1) by (simp add: globals)
      next
        case (Inr nested)
        obtain layer' rb where rb: "?nested = Inr (layer', rb)" using Inr by (cases nested) auto
        have run: "resolve_directives fs root p stack ds (merge_nested q layer' layer) rb = Inl e"
          using "4.prems"(3) False q fresh ra(1) rb by simp
        have "cache_ok fs root rb" using resolve_directives_collects [OF ra(2) rb] by blast
        from "4.IH"(3) [OF False q fresh ra(1) refl rb refl this sound(2) run] show ?thesis .
      qed
    qed
  qed
qed simp_all

section \<open>The layers of a source\<close>

text \<open>What the OWNERS file of a directory says about a source: the rules whose expression matches the path
  from the directory, whether they exempt the source from the global entries, and the directives in force.\<close>

definition owners_in :: "string list \<Rightarrow> string list" where
  "owners_in directory = directory @ [''OWNERS'']"

definition has_owners :: "file_system \<Rightarrow> string list \<Rightarrow> string list \<Rightarrow> bool" where
  "has_owners fs root directory \<longleftrightarrow> is_file fs (below_root root (owners_in directory))"

definition matching :: "parsed_owners \<Rightarrow> string \<Rightarrow> directive set" where
  "matching parsed scoped =
     {pf_directive rule | rule. rule \<in> set (po_per_file parsed) \<and>
        scoped \<in> glob_language (glob_tokens (pf_pattern rule))}"

definition in_force :: "parsed_owners \<Rightarrow> string \<Rightarrow> directive set" where
  "in_force parsed scoped =
     (if NoParent \<in> matching parsed scoped then {} else set (po_global parsed)) \<union>
     (matching parsed scoped - {NoParent})"

definition parsed_in :: "file_system \<Rightarrow> string list \<Rightarrow> string list \<Rightarrow> parsed_owners" where
  "parsed_in fs root directory =
     (case parse_of fs root (owners_in directory) of Inr parsed \<Rightarrow> parsed
      | Inl _ \<Rightarrow> \<lparr>po_global = [], po_per_file = [], po_global_noparent = False\<rparr>)"

definition scoped_path :: "string list \<Rightarrow> string list \<Rightarrow> string" where
  "scoped_path directory relative = path_string (drop (length directory) relative)"

definition applied :: "file_system \<Rightarrow> string list \<Rightarrow> string list \<Rightarrow> string list \<Rightarrow> directive set" where
  "applied fs root relative directory =
     in_force (parsed_in fs root directory) (scoped_path directory relative)"

definition stops :: "file_system \<Rightarrow> string list \<Rightarrow> string list \<Rightarrow> string list \<Rightarrow> bool" where
  "stops fs root relative directory \<longleftrightarrow> has_owners fs root directory \<and>
     (po_global_noparent (parsed_in fs root directory) \<or>
      NoParent \<in> matching (parsed_in fs root directory) (scoped_path directory relative))"

definition granted_in :: "file_system \<Rightarrow> string list \<Rightarrow> string list \<Rightarrow> string list \<Rightarrow> string set" where
  "granted_in fs root relative directory =
     granted fs root (owners_in directory) (applied fs root relative directory)"

lemma set_matching:
  "set (map pf_directive (filter (\<lambda>rule. glob_matches (pf_pattern rule) scoped) (po_per_file parsed))) =
     matching parsed scoped"
  by (auto simp: matching_def glob_matches_eq)

lemma set_in_force:
  fixes parsed scoped
  defines "ms \<equiv> map pf_directive (filter (\<lambda>rule. glob_matches (pf_pattern rule) scoped) (po_per_file parsed))"
  shows "set ((if NoParent \<notin> set ms then po_global parsed else []) @ filter (\<lambda>x. x \<noteq> NoParent) ms) =
    in_force parsed scoped"
  unfolding in_force_def set_matching [symmetric] ms_def [symmetric] by auto

lemma evaluate_owner_file_collects:
  assumes ok: "cache_ok fs root rs"
    and run: "evaluate_owner_file fs (owners_in d) (scoped_path d relative) rs = Inr (layer, rs')"
    and present: "has_owners fs root d"
  shows "cache_ok fs root rs' \<and> set (lo_owners layer) = granted_in fs root relative d \<and>
    ascending (lo_owners layer) \<and> (lo_stop_inheritance layer \<longleftrightarrow> stops fs root relative d) \<and>
    \<not> include_circle fs root (owners_in d) (applied fs root relative d)"
proof -
  from run obtain parsed ra where ra: "parse_file fs (owners_in d) rs = Inr (parsed, ra)"
    by (auto simp: evaluate_owner_file_def and_then_Inr_iff)
  from parse_file_Inr [OF ra ok]
  have parsed: "parsed_in fs root d = parsed" and ok': "cache_ok fs root ra" by (simp_all add: parsed_in_def)
  let ?scoped = "scoped_path d relative"
  let ?matched = "map pf_directive (filter (\<lambda>rule. glob_matches (pf_pattern rule) ?scoped) (po_per_file parsed))"
  let ?ds = "(if NoParent \<notin> set ?matched then po_global parsed else []) @ filter (\<lambda>x. x \<noteq> NoParent) ?matched"
  note matched = set_matching [of ?scoped parsed]
  have ds: "set ?ds = applied fs root relative d"
    unfolding applied_def parsed by (rule set_in_force)
  from run ra obtain layer0 where
    l0: "resolve_directives fs root (owners_in d) [owners_in d] ?ds no_ownership ra = Inr (layer0, rs')"
    and l: "layer = layer0\<lparr>lo_stop_inheritance := po_global_noparent parsed \<or> NoParent \<in> set ?matched,
      lo_owner_files := bts_insert (path_string (owners_in d)) (lo_owner_files layer0)\<rparr>"
    using ok' by (auto simp: evaluate_owner_file_def and_then_Inr_iff Let_def)
  from resolve_directives_collects [OF ok' l0] ds
  have "cache_ok fs root rs'"
    and C: "collects fs root (owners_in d) [owners_in d] (applied fs root relative d) no_ownership layer0" by simp_all
  moreover have "set (lo_owners layer) = granted_in fs root relative d" "ascending (lo_owners layer)"
    "\<not> include_circle fs root (owners_in d) (applied fs root relative d)"
    using C by (auto simp: l collects_def no_ownership_def layer_sorted_def granted_in_def include_circle_def)
  moreover have "lo_stop_inheritance layer \<longleftrightarrow> stops fs root relative d"
    unfolding l stops_def parsed matched [symmetric] using present by simp
  ultimately show ?thesis by blast
qed

lemma evaluate_owner_file_cycle:
  assumes ok: "cache_ok fs root rs"
    and run: "evaluate_owner_file fs (owners_in d) (scoped_path d relative) rs = Inl (IncludeCycle c)"
  shows "include_circle fs root (owners_in d) (applied fs root relative d)"
proof -
  from run obtain parsed ra where ra: "parse_file fs (owners_in d) rs = Inr (parsed, ra)"
    using parse_file_no_cycle [of fs "owners_in d" rs c] by (auto simp: evaluate_owner_file_def and_then_Inl_iff)
  from parse_file_Inr [OF ra ok]
  have parsed: "parsed_in fs root d = parsed" and ok': "cache_ok fs root ra" by (simp_all add: parsed_in_def)
  let ?scoped = "scoped_path d relative"
  let ?matched = "map pf_directive (filter (\<lambda>rule. glob_matches (pf_pattern rule) ?scoped) (po_per_file parsed))"
  let ?ds = "(if NoParent \<notin> set ?matched then po_global parsed else []) @ filter (\<lambda>x. x \<noteq> NoParent) ?matched"
  have ds: "set ?ds = applied fs root relative d"
    unfolding applied_def parsed by (rule set_in_force)
  from run ra have "resolve_directives fs root (owners_in d) [owners_in d] ?ds no_ownership ra = Inl (IncludeCycle c)"
    using ok' by (auto simp: evaluate_owner_file_def and_then_Inl_iff Let_def split: prod.splits)
  from resolve_directives_cycle [OF ok' this] ds show ?thesis
    by (auto simp: include_circle_def)
qed

text \<open>The layer of a directory is sound when its OWNERS file can be read and parsed and its includes are sound.\<close>

definition sound_layer :: "file_system \<Rightarrow> string list \<Rightarrow> string list \<Rightarrow> string list \<Rightarrow> bool" where
  "sound_layer fs root relative d \<longleftrightarrow> (\<exists>parsed. parse_of fs root (owners_in d) = Inr parsed) \<and>
     includes_sound fs root (owners_in d) (applied fs root relative d)"

lemma evaluate_owner_file_sound:
  assumes ok: "cache_ok fs root rs" and sound: "sound_layer fs root relative d"
    and run: "evaluate_owner_file fs (owners_in d) (scoped_path d relative) rs = Inl e"
  shows "\<exists>c. e = IncludeCycle c"
proof -
  from sound parse_file_cases [OF ok, of "owners_in d"] obtain parsed ra where
    ra: "parse_file fs (owners_in d) rs = Inr (parsed, ra)" and ok': "cache_ok fs root ra"
    and parsed: "parsed_in fs root d = parsed"
    by (auto simp: sound_layer_def parsed_in_def)
  let ?scoped = "scoped_path d relative"
  let ?matched = "map pf_directive (filter (\<lambda>rule. glob_matches (pf_pattern rule) ?scoped) (po_per_file parsed))"
  let ?ds = "(if NoParent \<notin> set ?matched then po_global parsed else []) @ filter (\<lambda>x. x \<noteq> NoParent) ?matched"
  have ds: "set ?ds = applied fs root relative d"
    unfolding applied_def parsed by (rule set_in_force)
  from run ra have "resolve_directives fs root (owners_in d) [owners_in d] ?ds no_ownership ra = Inl e"
    using ok' by (auto simp: evaluate_owner_file_def and_then_Inl_iff Let_def split: prod.splits)
  moreover have "includes_sound fs root (owners_in d) (set ?ds)"
    unfolding ds using sound by (simp add: sound_layer_def)
  ultimately show ?thesis by (rule resolve_directives_sound [OF ok', rotated])
qed

section \<open>From the source to the root\<close>

definition path_prefix :: "string list \<Rightarrow> string list \<Rightarrow> bool" where
  "path_prefix d e \<longleftrightarrow> (\<exists>rest. e = d @ rest)"

lemma path_prefix_refl [simp]: "path_prefix d d"
  by (simp add: path_prefix_def)

lemma path_prefix_Nil [simp]: "path_prefix d [] \<longleftrightarrow> d = []"
  by (auto simp: path_prefix_def)

lemma path_prefix_step:
  "e \<noteq> [] \<Longrightarrow> path_prefix d e \<longleftrightarrow> d = e \<or> path_prefix d (butlast e)"
  unfolding path_prefix_def
  by (cases e rule: rev_cases) (auto simp: append_eq_append_conv2 append_eq_Cons_conv Cons_eq_append_conv)

lemma path_prefix_length: "path_prefix d e \<Longrightarrow> length d \<le> length e"
  by (auto simp: path_prefix_def)

text \<open>The directories whose OWNERS file counts for a source, seen from \<open>directory\<close>: those above with such a
  file, as long as no directory in between stops the inheritance.\<close>

definition consulted ::
    "file_system \<Rightarrow> string list \<Rightarrow> string list \<Rightarrow> string list \<Rightarrow> string list \<Rightarrow> bool" where
  "consulted fs root relative directory d \<longleftrightarrow>
     path_prefix d directory \<and> has_owners fs root d \<and>
     (\<forall>e. path_prefix e directory \<and> length d < length e \<longrightarrow> \<not> stops fs root relative e)"

lemma consulted_self: "consulted fs root relative directory directory \<longleftrightarrow> has_owners fs root directory"
  by (auto simp: consulted_def dest: path_prefix_length)

lemma consulted_Nil: "consulted fs root relative [] d \<longleftrightarrow> d = [] \<and> has_owners fs root []"
  by (auto simp: consulted_def)

lemma consulted_step:
  assumes "directory \<noteq> []"
  shows "consulted fs root relative directory d \<longleftrightarrow>
    d = directory \<and> has_owners fs root directory \<or>
    \<not> stops fs root relative directory \<and> consulted fs root relative (butlast directory) d"
proof (cases "d = directory")
  case True
  have "\<not> path_prefix directory (butlast directory)"
    using assms path_prefix_length [of directory "butlast directory"] by (cases directory rule: rev_cases) auto
  with True show ?thesis by (simp add: consulted_self) (simp add: consulted_def)
next
  case False
  have "path_prefix d (butlast directory) \<Longrightarrow> length d < length directory"
    using assms path_prefix_length [of d "butlast directory"] by (cases directory rule: rev_cases) auto
  with False show ?thesis
    unfolding consulted_def path_prefix_step [OF assms] by blast
qed

lemma consulted_stop:
  "stops fs root relative directory \<Longrightarrow> consulted fs root relative directory d \<longleftrightarrow> d = directory"
  using consulted_step [of directory fs root relative d] consulted_Nil [of fs root relative d]
  by (cases "directory = []") (auto simp: stops_def)

lemma consulted_length: "consulted fs root relative directory d \<Longrightarrow> length d \<le> length directory"
  by (auto simp: consulted_def dest: path_prefix_length)

text \<open>The nearest directory that grants anything, and the one that stops the inheritance.\<close>

definition nearest_grant ::
    "file_system \<Rightarrow> string list \<Rightarrow> string list \<Rightarrow> string list \<Rightarrow> string set \<Rightarrow> bool" where
  "nearest_grant fs root relative directory X \<longleftrightarrow>
     (\<exists>d. consulted fs root relative directory d \<and> granted_in fs root relative d = X \<and> X \<noteq> {} \<and>
        (\<forall>e. consulted fs root relative directory e \<and> length d < length e \<longrightarrow> granted_in fs root relative e = {})) \<or>
     X = {} \<and> (\<forall>d. consulted fs root relative directory d \<longrightarrow> granted_in fs root relative d = {})"

definition stopped_by ::
    "file_system \<Rightarrow> string list \<Rightarrow> string list \<Rightarrow> string list \<Rightarrow> string option \<Rightarrow> bool" where
  "stopped_by fs root relative directory x \<longleftrightarrow>
     (\<exists>d. consulted fs root relative directory d \<and> stops fs root relative d \<and>
        x = Some (path_string (owners_in d))) \<or>
     x = None \<and> (\<forall>d. consulted fs root relative directory d \<longrightarrow> \<not> stops fs root relative d)"

lemma nearest_grant_here:
  "has_owners fs root directory \<Longrightarrow> granted_in fs root relative directory \<noteq> {} \<Longrightarrow>
   nearest_grant fs root relative directory (granted_in fs root relative directory)"
  unfolding nearest_grant_def
  by (intro disjI1 exI [of _ directory]) (auto simp: consulted_self dest: consulted_length)

lemma nearest_grant_step:
  assumes "directory \<noteq> []" and "\<not> stops fs root relative directory"
    and "has_owners fs root directory \<Longrightarrow> granted_in fs root relative directory = {}"
    and "nearest_grant fs root relative (butlast directory) X"
  shows "nearest_grant fs root relative directory X"
proof -
  note step = consulted_step [OF assms(1), of fs root relative]
  from assms(4) consider
    d where "consulted fs root relative (butlast directory) d" "granted_in fs root relative d = X" "X \<noteq> {}"
      "\<forall>e. consulted fs root relative (butlast directory) e \<and> length d < length e \<longrightarrow> granted_in fs root relative e = {}"
  | "X = {}" "\<forall>d. consulted fs root relative (butlast directory) d \<longrightarrow> granted_in fs root relative d = {}"
    unfolding nearest_grant_def by blast
  then show ?thesis
  proof cases
    case (1 d)
    then show ?thesis unfolding nearest_grant_def step using assms(2,3) by blast
  next
    case 2
    then show ?thesis unfolding nearest_grant_def step using assms(2,3) by blast
  qed
qed

lemma stopped_by_step:
  assumes "directory \<noteq> []" and "\<not> stops fs root relative directory"
    and "stopped_by fs root relative (butlast directory) x"
  shows "stopped_by fs root relative directory x"
  using assms(3) unfolding stopped_by_def consulted_step [OF assms(1)] using assms(2) by blast

lemma owners_layer_unfold:
  assumes "cache_ok fs root rs" and "path_prefix directory relative"
  shows "owners_layer fs source relative directory rs =
    (if has_owners fs root directory then
       and_then (evaluate_owner_file fs (owners_in directory) (scoped_path directory relative) rs)
         (\<lambda>(layer, rs). Inr (Some layer, rs))
     else Inr (None, rs))"
proof -
  have "(if directory = [] then Some relative else strip_directory directory relative)
      = Some (drop (length directory) relative)"
    using assms(2) by (auto simp: strip_directory_def path_prefix_def)
  then show ?thesis
    unfolding owners_layer_def Let_def cache_ok_root [OF assms(1)] has_owners_def owners_in_def scoped_path_def
    by simp
qed

text \<open>One round of the loop, and what remains of it.\<close>

lemma owners_layer_correct:
  assumes ok: "cache_ok fs root rs" and prefix: "path_prefix directory relative"
    and run: "owners_layer fs source relative directory rs = Inr (found, rs')"
  shows "cache_ok fs root rs'"
    and "found = None \<Longrightarrow> \<not> has_owners fs root directory"
    and "found = Some layer \<Longrightarrow> has_owners fs root directory \<and>
      set (lo_owners layer) = granted_in fs root relative directory \<and> ascending (lo_owners layer) \<and>
      (lo_stop_inheritance layer \<longleftrightarrow> stops fs root relative directory) \<and>
      \<not> include_circle fs root (owners_in directory) (applied fs root relative directory)"
proof -
  have "cache_ok fs root rs' \<and> (case found of None \<Rightarrow> \<not> has_owners fs root directory
      | Some layer \<Rightarrow> has_owners fs root directory \<and>
          set (lo_owners layer) = granted_in fs root relative directory \<and> ascending (lo_owners layer) \<and>
          (lo_stop_inheritance layer \<longleftrightarrow> stops fs root relative directory) \<and>
          \<not> include_circle fs root (owners_in directory) (applied fs root relative directory))"
  proof (cases "has_owners fs root directory")
    case True
    then obtain layer where "evaluate_owner_file fs (owners_in directory) (scoped_path directory relative) rs =
        Inr (layer, rs')" "found = Some layer"
      using run unfolding owners_layer_unfold [OF ok prefix] by (auto simp: and_then_Inr_iff)
    then show ?thesis using evaluate_owner_file_collects [OF ok _ True, of relative layer rs'] True by simp
  next
    case False
    then show ?thesis using run ok unfolding owners_layer_unfold [OF ok prefix] by auto
  qed
  note F = this
  from F show "cache_ok fs root rs'" by (rule conjunct1)
  from F show "\<not> has_owners fs root directory" if "found = None"
    unfolding that option.case by (rule conjunct2)
  from F show "has_owners fs root directory \<and>
      set (lo_owners layer) = granted_in fs root relative directory \<and> ascending (lo_owners layer) \<and>
      (lo_stop_inheritance layer \<longleftrightarrow> stops fs root relative directory) \<and>
      \<not> include_circle fs root (owners_in directory) (applied fs root relative directory)"
    if "found = Some layer" unfolding that option.case by (rule conjunct2)
qed

text \<open>The state after the layer of \<open>directory\<close>.\<close>

definition after_layer :: "string list \<Rightarrow> layer_ownership option \<Rightarrow> source_state \<Rightarrow> source_state" where
  "after_layer directory found st =
     (case found of None \<Rightarrow> st | Some layer \<Rightarrow> add_layer (owners_in directory) layer st)"

lemma resolve_loop_unfold:
  assumes "cache_ok fs root rs" and "path_prefix directory relative"
    and "owners_layer fs source relative directory rs = Inr (found, ra)"
  shows "resolve_loop fs source relative directory st rs =
    (if stops fs root relative directory \<or> directory = [] then Inr (after_layer directory found st, ra)
     else resolve_loop fs source relative (butlast directory) (after_layer directory found st) ra)"
proof -
  have "(case found of None \<Rightarrow> False | Some layer \<Rightarrow> lo_stop_inheritance layer) \<longleftrightarrow> stops fs root relative directory"
  proof (cases found)
    case None
    with owners_layer_correct(2) [OF assms None] show ?thesis by (simp add: stops_def)
  next
    case (Some layer)
    with owners_layer_correct(3) [OF assms Some] show ?thesis by simp
  qed
  then show ?thesis
    unfolding resolve_loop.simps [of fs source relative directory] assms(3) after_layer_def owners_in_def
    by simp
qed

lemma path_prefix_butlast: "path_prefix d e \<Longrightarrow> path_prefix (butlast d) e"
  unfolding path_prefix_def by (cases d rule: rev_cases) auto

definition granted_here :: "file_system \<Rightarrow> string list \<Rightarrow> string list \<Rightarrow> string list \<Rightarrow> string set" where
  "granted_here fs root relative directory =
     (if has_owners fs root directory then granted_in fs root relative directory else {})"

definition layer_added ::
    "file_system \<Rightarrow> string list \<Rightarrow> string list \<Rightarrow> string list \<Rightarrow> source_state \<Rightarrow> source_state \<Rightarrow> bool" where
  "layer_added fs root relative directory st st' \<longleftrightarrow>
     set (ss_effective_owners st') = set (ss_effective_owners st) \<union> granted_here fs root relative directory \<and>
     (ascending (ss_effective_owners st) \<longrightarrow> ascending (ss_effective_owners st')) \<and>
     ss_inheritance_stopped_at st' =
       (if stops fs root relative directory then Some (path_string (owners_in directory))
        else ss_inheritance_stopped_at st) \<and>
     (ss_found_primary st' \<longleftrightarrow> ss_found_primary st \<or> granted_here fs root relative directory \<noteq> {}) \<and>
     set (ss_primary_owners st') = set (ss_primary_owners st) \<union>
       (if ss_found_primary st then {} else granted_here fs root relative directory)"

lemma after_layer_added:
  assumes "cache_ok fs root rs" and "path_prefix directory relative"
    and "owners_layer fs source relative directory rs = Inr (found, ra)"
  shows "layer_added fs root relative directory st (after_layer directory found st)"
proof (cases found)
  case None
  with owners_layer_correct(2) [OF assms None] show ?thesis
    by (simp add: layer_added_def after_layer_def stops_def granted_here_def)
next
  case (Some layer)
  note L = owners_layer_correct(3) [OF assms Some]
  then have "granted_here fs root relative directory = set (lo_owners layer)"
    "stops fs root relative directory = lo_stop_inheritance layer" by (simp_all add: granted_here_def)
  with Some show ?thesis
    by (simp add: layer_added_def after_layer_def add_layer_def Let_def ascending_bts_extend Un_commute)
qed

text \<open>What the loop from \<open>directory\<close> upwards does to a state.\<close>

definition owners_upwards :: "file_system \<Rightarrow> string list \<Rightarrow> string list \<Rightarrow> string list \<Rightarrow> string set" where
  "owners_upwards fs root relative directory =
     (\<Union>d\<in>{d. consulted fs root relative directory d}. granted_in fs root relative d)"

lemma owners_upwards_step:
  "owners_upwards fs root relative directory = granted_here fs root relative directory \<union>
     (if stops fs root relative directory \<or> directory = [] then {}
      else owners_upwards fs root relative (butlast directory))"
proof (cases "stops fs root relative directory \<or> directory = []")
  case True
  then have "{d. consulted fs root relative directory d} = (if has_owners fs root directory then {directory} else {})"
    using consulted_stop [of fs root relative directory] consulted_Nil [of fs root relative]
    by (auto simp: stops_def)
  then show ?thesis using True by (simp add: owners_upwards_def granted_here_def)
next
  case False
  then show ?thesis
    unfolding owners_upwards_def granted_here_def
    using consulted_step [of directory fs root relative] by auto
qed

definition climbed ::
    "file_system \<Rightarrow> string list \<Rightarrow> string list \<Rightarrow> string list \<Rightarrow> source_state \<Rightarrow> source_state \<Rightarrow> bool" where
  "climbed fs root relative directory st st' \<longleftrightarrow>
     set (ss_effective_owners st') = set (ss_effective_owners st) \<union> owners_upwards fs root relative directory \<and>
     (ascending (ss_effective_owners st) \<longrightarrow> ascending (ss_effective_owners st')) \<and>
     (ss_inheritance_stopped_at st = None \<longrightarrow>
        stopped_by fs root relative directory (ss_inheritance_stopped_at st')) \<and>
     (if ss_found_primary st then set (ss_primary_owners st') = set (ss_primary_owners st)
      else ss_primary_owners st = [] \<longrightarrow> nearest_grant fs root relative directory (set (ss_primary_owners st'))) \<and>
     (\<forall>d. consulted fs root relative directory d \<longrightarrow>
        \<not> include_circle fs root (owners_in d) (applied fs root relative d))"

lemma climbed_end:
  assumes top: "stops fs root relative directory \<or> directory = []"
    and added: "layer_added fs root relative directory st st'"
    and circle: "has_owners fs root directory \<Longrightarrow>
      \<not> include_circle fs root (owners_in directory) (applied fs root relative directory)"
  shows "climbed fs root relative directory st st'"
proof -
  have only: "consulted fs root relative directory d \<longleftrightarrow> d = directory \<and> has_owners fs root directory" for d
    using top consulted_stop [of fs root relative directory d] consulted_Nil [of fs root relative d]
    by (auto simp: stops_def)
  note A = added [unfolded layer_added_def]
  show ?thesis
    unfolding climbed_def owners_upwards_step [of fs root relative directory] if_P [OF top] only
      stopped_by_def nearest_grant_def
    using A circle by (auto simp: granted_here_def stops_def split: if_splits)
qed

lemma climbed_step:
  assumes go: "\<not> stops fs root relative directory" "directory \<noteq> []"
    and added: "layer_added fs root relative directory st st'"
    and circle: "has_owners fs root directory \<Longrightarrow>
      \<not> include_circle fs root (owners_in directory) (applied fs root relative directory)"
    and rest: "climbed fs root relative (butlast directory) st' st''"
  shows "climbed fs root relative directory st st''"
proof -
  have go': "\<not> (stops fs root relative directory \<or> directory = [])" using go by blast
  note A = added [unfolded layer_added_def] and R = rest [unfolded climbed_def]
  have "set (ss_effective_owners st'') = set (ss_effective_owners st) \<union> owners_upwards fs root relative directory"
    unfolding owners_upwards_step [of fs root relative directory] if_not_P [OF go'] using A R by blast
  moreover have "ascending (ss_effective_owners st) \<longrightarrow> ascending (ss_effective_owners st'')" using A R by blast
  moreover have "ss_inheritance_stopped_at st = None \<longrightarrow>
      stopped_by fs root relative directory (ss_inheritance_stopped_at st'')"
    using A R go stopped_by_step by simp
  moreover have "if ss_found_primary st then set (ss_primary_owners st'') = set (ss_primary_owners st)
      else ss_primary_owners st = [] \<longrightarrow> nearest_grant fs root relative directory (set (ss_primary_owners st''))"
  proof (cases "ss_found_primary st \<or> granted_here fs root relative directory = {}")
    case True
    then have eq: "set (ss_primary_owners st') = set (ss_primary_owners st)"
      "ss_found_primary st' = ss_found_primary st" using A by auto
    then have nil: "ss_primary_owners st = [] \<longleftrightarrow> ss_primary_owners st' = []" by (metis set_empty)
    show ?thesis
    proof (cases "ss_found_primary st")
      case True
      then show ?thesis using R eq by simp
    next
      case False
      then have "granted_here fs root relative directory = {}" using True by blast
      then have "has_owners fs root directory \<Longrightarrow> granted_in fs root relative directory = {}"
        by (simp add: granted_here_def)
      then show ?thesis
        using R eq nil False nearest_grant_step [OF go(2,1)] by simp
    qed
  next
    case False
    then have here: "granted_here fs root relative directory = granted_in fs root relative directory"
      "has_owners fs root directory" "granted_in fs root relative directory \<noteq> {}"
      by (auto simp: granted_here_def split: if_splits)
    then have "ss_found_primary st'" using A by simp
    then have "set (ss_primary_owners st'') = set (ss_primary_owners st) \<union> granted_in fs root relative directory"
      using R A False here by simp
    then show ?thesis using False nearest_grant_here [OF here(2,3)] by simp
  qed
  moreover have "\<forall>d. consulted fs root relative directory d \<longrightarrow>
      \<not> include_circle fs root (owners_in d) (applied fs root relative d)"
    using R circle unfolding consulted_step [OF go(2)] by blast
  ultimately show ?thesis unfolding climbed_def by blast
qed

lemma resolve_loop_climbed:
  "cache_ok fs root rs \<Longrightarrow> path_prefix directory relative \<Longrightarrow>
   resolve_loop fs source relative directory st rs = Inr (st', rs') \<Longrightarrow>
   cache_ok fs root rs' \<and> climbed fs root relative directory st st'"
proof (induction "length directory" arbitrary: directory st rs rule: less_induct)
  case less
  from less.prems(3) obtain found ra where ra: "owners_layer fs source relative directory rs = Inr (found, ra)"
    by (subst (asm) resolve_loop.simps) (auto simp: and_then_Inr_iff)
  note L = owners_layer_correct [OF less.prems(1,2) ra] and added = after_layer_added [OF less.prems(1,2) ra]
  have circle: "has_owners fs root directory \<Longrightarrow>
      \<not> include_circle fs root (owners_in directory) (applied fs root relative directory)"
    using L(2,3) by (cases found) simp_all
  note run = less.prems(3) [unfolded resolve_loop_unfold [OF less.prems(1,2) ra]]
  show ?case
  proof (cases "stops fs root relative directory \<or> directory = []")
    case True
    then have "st' = after_layer directory found st" "rs' = ra" using run by (simp_all split: if_splits)
    then show ?thesis using climbed_end [OF True added circle] L(1) by simp
  next
    case False
    then have run': "resolve_loop fs source relative (butlast directory) (after_layer directory found st) ra =
        Inr (st', rs')" using run by (simp split: if_splits)
    from False have "length (butlast directory) < length directory" by simp
    from less.hyps [OF this L(1) path_prefix_butlast [OF less.prems(2)] run']
    show ?thesis using climbed_step [OF _ _ added circle] False by blast
  qed
qed

lemma resolve_loop_cycle:
  "cache_ok fs root rs \<Longrightarrow> path_prefix directory relative \<Longrightarrow>
   resolve_loop fs source relative directory st rs = Inl (IncludeCycle c) \<Longrightarrow>
   \<exists>d. consulted fs root relative directory d \<and> include_circle fs root (owners_in d) (applied fs root relative d)"
proof (induction "length directory" arbitrary: directory st rs rule: less_induct)
  case less
  show ?case
  proof (cases "owners_layer fs source relative directory rs")
    case (Inl e)
    then have "e = IncludeCycle c" using less.prems(3) by (subst (asm) resolve_loop.simps) simp
    with Inl have "has_owners fs root directory \<and>
        evaluate_owner_file fs (owners_in directory) (scoped_path directory relative) rs = Inl (IncludeCycle c)"
      unfolding owners_layer_unfold [OF less.prems(1,2)] by (auto simp: and_then_Inl_iff split: if_splits)
    then show ?thesis
      using evaluate_owner_file_cycle [OF less.prems(1)] consulted_self [of fs root relative directory] by blast
  next
    case (Inr r)
    then obtain found ra where ra: "owners_layer fs source relative directory rs = Inr (found, ra)"
      by (cases r) auto
    note run = less.prems(3) [unfolded resolve_loop_unfold [OF less.prems(1,2) ra]]
    then have go: "\<not> stops fs root relative directory" "directory \<noteq> []" by (auto split: if_splits)
    with run have run': "resolve_loop fs source relative (butlast directory) (after_layer directory found st) ra =
        Inl (IncludeCycle c)" by simp
    from go have "length (butlast directory) < length directory" by simp
    from less.hyps [OF this owners_layer_correct(1) [OF less.prems(1,2) ra]
        path_prefix_butlast [OF less.prems(2)] run']
    show ?thesis using go unfolding consulted_step [OF go(2)] by blast
  qed
qed

lemma resolve_loop_sound:
  "cache_ok fs root rs \<Longrightarrow> path_prefix directory relative \<Longrightarrow>
   \<forall>d. consulted fs root relative directory d \<longrightarrow> sound_layer fs root relative d \<Longrightarrow>
   resolve_loop fs source relative directory st rs = Inl e \<Longrightarrow> \<exists>c. e = IncludeCycle c"
proof (induction "length directory" arbitrary: directory st rs rule: less_induct)
  case less
  show ?case
  proof (cases "owners_layer fs source relative directory rs")
    case (Inl e')
    then have "e' = e" using less.prems(4) by (subst (asm) resolve_loop.simps) simp
    with Inl have "has_owners fs root directory \<and>
        evaluate_owner_file fs (owners_in directory) (scoped_path directory relative) rs = Inl e"
      unfolding owners_layer_unfold [OF less.prems(1,2)] by (auto simp: and_then_Inl_iff split: if_splits)
    then show ?thesis
      using evaluate_owner_file_sound [OF less.prems(1)] less.prems(3)
        consulted_self [of fs root relative directory] by blast
  next
    case (Inr r)
    then obtain found ra where ra: "owners_layer fs source relative directory rs = Inr (found, ra)"
      by (cases r) auto
    note run = less.prems(4) [unfolded resolve_loop_unfold [OF less.prems(1,2) ra]]
    then have go: "\<not> stops fs root relative directory" "directory \<noteq> []" by (auto split: if_splits)
    with run have run': "resolve_loop fs source relative (butlast directory) (after_layer directory found st) ra =
        Inl e" by simp
    have above: "\<forall>d. consulted fs root relative (butlast directory) d \<longrightarrow> sound_layer fs root relative d"
      using less.prems(3) go unfolding consulted_step [OF go(2)] by blast
    from go have "length (butlast directory) < length directory" by simp
    from less.hyps [OF this owners_layer_correct(1) [OF less.prems(1,2) ra]
        path_prefix_butlast [OF less.prems(2)] above run']
    show ?thesis .
  qed
qed

section \<open>A source and a module\<close>

definition source_directory :: "string \<Rightarrow> string list" where
  "source_directory source = butlast (normal_segments (components source))"

lemma directory_prefix: "path_prefix (source_directory source) (normal_segments (components source))"
  unfolding source_directory_def by (simp add: path_prefix_butlast)

lemma owners_of_climbed:
  assumes "owners_of fs root source = Inr so"
  shows "\<exists>st st'. ss_effective_owners st = [] \<and> ss_inheritance_stopped_at st = None \<and>
    \<not> ss_found_primary st \<and> ss_primary_owners st = [] \<and>
    climbed fs root (normal_segments (components source)) (source_directory source) st st' \<and>
    so_effective_owners so = ss_effective_owners st' \<and> so_primary_owners so = ss_primary_owners st' \<and>
    so_inheritance_stopped_at so = ss_inheritance_stopped_at st' \<and> so_source so = source"
proof -
  let ?st = "\<lparr>ss_primary_owners = [], ss_effective_owners = [], ss_owner_files = [],
    ss_unresolved_includes = [], ss_inheritance_stopped_at = None, ss_found_primary = False\<rparr>"
  from assms obtain st' rs' where
    run: "resolve_loop fs source (normal_segments (components source)) (source_directory source) ?st
      (fresh_resolver root) = Inr (st', rs')"
    and so: "so = \<lparr>so_source = source, so_primary_owners = ss_primary_owners st',
      so_effective_owners = ss_effective_owners st', so_owner_files = ss_owner_files st',
      so_unresolved_includes = ss_unresolved_includes st',
      so_inheritance_stopped_at = ss_inheritance_stopped_at st'\<rparr>"
    by (auto simp: owners_of_def resolve_source_def and_then_Inr_iff source_directory_def Let_def)
  from resolve_loop_climbed [OF cache_ok_fresh directory_prefix run] so
  show ?thesis by (intro exI [of _ ?st] exI [of _ st']) simp
qed

lemma owners_of_cycle:
  assumes "owners_of fs root source = Inl (IncludeCycle c)"
  shows "\<exists>d. consulted fs root (normal_segments (components source)) (source_directory source) d \<and>
    include_circle fs root (owners_in d) (applied fs root (normal_segments (components source)) d)"
proof -
  from assms have "resolve_loop fs source (normal_segments (components source)) (source_directory source)
      \<lparr>ss_primary_owners = [], ss_effective_owners = [], ss_owner_files = [],
       ss_unresolved_includes = [], ss_inheritance_stopped_at = None, ss_found_primary = False\<rparr>
      (fresh_resolver root) = Inl (IncludeCycle c)"
    by (auto simp: owners_of_def resolve_source_def and_then_Inl_iff source_directory_def Let_def)
  from resolve_loop_cycle [OF cache_ok_fresh directory_prefix this] show ?thesis .
qed

lemma owners_of_sound:
  assumes "\<forall>d. consulted fs root (normal_segments (components source)) (source_directory source) d \<longrightarrow>
      sound_layer fs root (normal_segments (components source)) d"
    and "owners_of fs root source = Inl e"
  shows "\<exists>c. e = IncludeCycle c"
proof -
  from assms(2) have "resolve_loop fs source (normal_segments (components source)) (source_directory source)
      \<lparr>ss_primary_owners = [], ss_effective_owners = [], ss_owner_files = [],
       ss_unresolved_includes = [], ss_inheritance_stopped_at = None, ss_found_primary = False\<rparr>
      (fresh_resolver root) = Inl e"
    by (auto simp: owners_of_def resolve_source_def and_then_Inl_iff source_directory_def Let_def split: prod.splits)
  from resolve_loop_sound [OF cache_ok_fresh directory_prefix assms(1) this] show ?thesis .
qed

definition owned :: "source_ownership list \<Rightarrow> source_ownership list" where
  "owned sources = filter (\<lambda>s. so_effective_owners s \<noteq> []) sources"

lemma fold_add_source:
  "set (mw_primary (fold add_source sources mw)) = set (mw_primary mw) \<union> (\<Union>s\<in>set sources. set (so_primary_owners s))"
  "set (mw_effective (fold add_source sources mw)) = set (mw_effective mw) \<union> (\<Union>s\<in>set sources. set (so_effective_owners s))"
  "mw_unresolved_sources (fold add_source sources mw) =
     mw_unresolved_sources mw @ map so_source (filter (\<lambda>s. so_effective_owners s = []) sources)"
  "set (mw_distinct_primary (fold add_source sources mw)) = set (mw_distinct_primary mw) \<union> so_primary_owners ` set sources"
  "ascending (mw_distinct_primary mw) \<Longrightarrow> ascending (mw_distinct_primary (fold add_source sources mw))"
  by (induction sources arbitrary: mw) (auto simp: add_source_def ascending_bts_insert)

lemma fold_add_source_common:
  "map_option set (mw_common (fold add_source sources mw)) =
     (if owned sources = [] then map_option set (mw_common mw)
      else Some ((case mw_common mw of None \<Rightarrow> UNIV | Some c \<Rightarrow> set c) \<inter>
        (\<Inter>s\<in>set (owned sources). set (so_effective_owners s))))"
proof (induction sources arbitrary: mw)
  case (Cons s sources)
  show ?case
  proof (cases "so_effective_owners s = []")
    case True
    then show ?thesis using Cons [of "add_source s mw"] by (simp add: owned_def add_source_def)
  next
    case False
    have "mw_common (add_source s mw) = Some (case mw_common mw of None \<Rightarrow> bts_of_list (so_effective_owners s)
        | Some previous \<Rightarrow> filter (\<lambda>x. x \<in> set (bts_of_list (so_effective_owners s))) previous)"
      using False by (simp add: add_source_def Let_def)
    with False Cons [of "add_source s mw"] show ?thesis
      by (auto simp: owned_def filter_empty_conv split: option.splits)
  qed
qed (simp add: owned_def)

lemma split_iff: "ascending (xs :: 'a::linorder list) \<Longrightarrow> 1 < length xs \<longleftrightarrow> (\<exists>x\<in>set xs. \<exists>y\<in>set xs. x \<noteq> y)"
  by (cases xs; cases "tl xs") auto

section \<open>The scan\<close>

text \<open>What the scan writes into a module: the summary of what each source gets on its own.\<close>

definition annotated ::
    "file_system \<Rightarrow> string list \<Rightarrow> module \<Rightarrow> module \<Rightarrow> bool" where
  "annotated fs root md md' \<longleftrightarrow>
     (if module_sources md = [] then md' = md\<lparr>module_ownership := None\<rparr>
      else \<exists>sources. list_all2 (\<lambda>s so. \<exists>path. normalize_repo_relative_path s = Some path \<and>
              owners_of fs root path = Inr so) (module_sources md) sources \<and>
            md' = md\<lparr>module_ownership := Some (summarize_module_ownership (sort_key so_source sources))\<rparr>)"

lemma scan_source_correct:
  assumes "scan_source fs i s (sources, sc) = Inr (sources', sc')" and "cache_ok fs root (sc_resolver sc)"
  shows "\<exists>path so. normalize_repo_relative_path s = Some path \<and> owners_of fs root path = Inr so \<and>
    sources' = sources @ [so] \<and> cache_ok fs root (sc_resolver sc') \<and> sc_modules sc' = sc_modules sc \<and>
    sc_scanned sc' = sc_scanned sc + 1 \<and>
    sc_resolved sc' + sc_unresolved sc' = sc_resolved sc + sc_unresolved sc + 1 \<and>
    sc_unresolved sc' = sc_unresolved sc + (if so_effective_owners so = [] then 1 else 0) \<and>
    sc_without_sources sc' = sc_without_sources sc"
proof -
  from assms(1) obtain path so rs where path: "normalize_repo_relative_path s = Some path"
    and so: "resolve_source fs path (sc_resolver sc) = Inr (so, rs)"
    and r: "sources' = sources @ [so]"
      "sc' = (let sc = sc\<lparr>sc_resolver := rs, sc_scanned := sc_scanned sc + 1\<rparr>
        in if so_effective_owners so = [] then sc\<lparr>sc_unresolved := sc_unresolved sc + 1\<rparr>
           else sc\<lparr>sc_resolved := sc_resolved sc + 1\<rparr>)"
    by (auto simp: scan_source_def and_then_Inr_iff ok_or_Inr_iff Let_def)
  from resolve_source_cached [OF assms(2), of path] so
  have "owners_of fs root path = Inr so" "cache_ok fs root rs" by auto
  with path r show ?thesis by (simp add: Let_def)
qed

lemma scan_sources_correct:
  "try_fold (scan_source fs i) ss (sources, sc) = Inr (sources', sc') \<Longrightarrow> cache_ok fs root (sc_resolver sc) \<Longrightarrow>
   \<exists>new. list_all2 (\<lambda>s so. \<exists>path. normalize_repo_relative_path s = Some path \<and> owners_of fs root path = Inr so) ss new \<and>
     sources' = sources @ new \<and> cache_ok fs root (sc_resolver sc') \<and> sc_modules sc' = sc_modules sc \<and>
     sc_scanned sc' = sc_scanned sc + length ss \<and>
     sc_resolved sc' + sc_unresolved sc' = sc_resolved sc + sc_unresolved sc + length ss \<and>
     sc_unresolved sc' = sc_unresolved sc + length (filter (\<lambda>so. so_effective_owners so = []) new) \<and>
     sc_without_sources sc' = sc_without_sources sc"
proof (induction ss arbitrary: sources sc)
  case (Cons s ss)
  from Cons.prems(1) obtain r where r: "scan_source fs i s (sources, sc) = Inr r"
    "try_fold (scan_source fs i) ss r = Inr (sources', sc')" by (auto split: sum.splits)
  obtain sources1 sc1 where r1: "r = (sources1, sc1)" by (cases r)
  from scan_source_correct [OF r(1) [unfolded r1] Cons.prems(2)] obtain path so where
    1: "normalize_repo_relative_path s = Some path" "owners_of fs root path = Inr so"
      "sources1 = sources @ [so]" "cache_ok fs root (sc_resolver sc1)" "sc_modules sc1 = sc_modules sc"
      "sc_scanned sc1 = sc_scanned sc + 1"
      "sc_resolved sc1 + sc_unresolved sc1 = sc_resolved sc + sc_unresolved sc + 1"
      "sc_unresolved sc1 = sc_unresolved sc + (if so_effective_owners so = [] then 1 else 0)"
      "sc_without_sources sc1 = sc_without_sources sc" by blast
  from Cons.IH [OF r(2) [unfolded r1] 1(4)] obtain new where
    2: "list_all2 (\<lambda>s so. \<exists>path. normalize_repo_relative_path s = Some path \<and> owners_of fs root path = Inr so) ss new"
      "sources' = sources1 @ new" "cache_ok fs root (sc_resolver sc')" "sc_modules sc' = sc_modules sc1"
      "sc_scanned sc' = sc_scanned sc1 + length ss"
      "sc_resolved sc' + sc_unresolved sc' = sc_resolved sc1 + sc_unresolved sc1 + length ss"
      "sc_unresolved sc' = sc_unresolved sc1 + length (filter (\<lambda>so. so_effective_owners so = []) new)"
      "sc_without_sources sc' = sc_without_sources sc1" by blast
  show ?case using 1 2 by (intro exI [of _ "so # new"]) simp
qed simp

definition module_count :: "(source_ownership \<Rightarrow> bool) \<Rightarrow> module \<Rightarrow> nat" where
  "module_count P md =
     (case module_ownership md of None \<Rightarrow> 0 | Some ownership \<Rightarrow> length (filter P (mo_sources ownership)))"

definition scan_counts :: "module list \<Rightarrow> module list \<Rightarrow> scan_state \<Rightarrow> bool" where
  "scan_counts mds mds' sc \<longleftrightarrow>
     sc_scanned sc = sum_list (map (length \<circ> module_sources) mds) \<and>
     sc_resolved sc + sc_unresolved sc = sc_scanned sc \<and>
     sc_unresolved sc = sum_list (map (module_count (\<lambda>so. so_effective_owners so = [])) mds') \<and>
     sc_without_sources sc = length (filter (\<lambda>md. module_sources md = []) mds)"

definition scanned :: "file_system \<Rightarrow> string list \<Rightarrow> module list \<Rightarrow> scan_state \<Rightarrow> bool" where
  "scanned fs root mds sc \<longleftrightarrow> cache_ok fs root (sc_resolver sc) \<and>
     list_all2 (annotated fs root) mds (sc_modules sc) \<and> scan_counts mds (sc_modules sc) sc"

lemma length_filter_sort_key: "length (filter P (sort_key f xs)) = length (filter P xs)"
  by (metis filter_sort length_sort)

lemma scan_module_correct:
  assumes run: "scan_module fs md sc = Inr sc'" and prev: "scanned fs root mds sc"
  shows "scanned fs root (mds @ [md]) sc'"
proof (cases "module_sources md = []")
  case True
  then have "sc' = sc\<lparr>sc_modules := sc_modules sc @ [md\<lparr>module_ownership := None\<rparr>],
      sc_without_sources := sc_without_sources sc + 1\<rparr>"
    using run by (simp add: scan_module_def)
  then show ?thesis using prev True
    by (simp add: scanned_def scan_counts_def annotated_def module_count_def list_all2_appendI)
next
  case False
  note P = prev [unfolded scanned_def scan_counts_def]
  from run False obtain sources sc1 where
    sources: "try_fold (scan_source fs (module_id md)) (module_sources md) ([], sc) = Inr (sources, sc1)"
    and sc': "sc' = (let ownership = summarize_module_ownership (sort_key so_source sources)
      in sc1\<lparr>sc_includes := bts_extend (mo_unresolved_includes ownership) (sc_includes sc1),
        sc_split := (if mo_split_ownership ownership then sc_split sc1 + 1 else sc_split sc1),
        sc_modules := sc_modules sc1 @ [md\<lparr>module_ownership := Some ownership\<rparr>]\<rparr>)"
    by (auto simp: scan_module_def and_then_Inr_iff Let_def)
  let ?md = "md\<lparr>module_ownership := Some (summarize_module_ownership (sort_key so_source sources))\<rparr>"
  from scan_sources_correct [OF sources conjunct1 [OF P]]
  have S: "list_all2 (\<lambda>s so. \<exists>path. normalize_repo_relative_path s = Some path \<and> owners_of fs root path = Inr so)
      (module_sources md) sources" "cache_ok fs root (sc_resolver sc1)" "sc_modules sc1 = sc_modules sc"
    "sc_scanned sc1 = sc_scanned sc + length (module_sources md)"
    "sc_resolved sc1 + sc_unresolved sc1 = sc_resolved sc + sc_unresolved sc + length (module_sources md)"
    "sc_unresolved sc1 = sc_unresolved sc + length (filter (\<lambda>so. so_effective_owners so = []) sources)"
    "sc_without_sources sc1 = sc_without_sources sc" by auto
  have "annotated fs root md ?md"
    unfolding annotated_def if_not_P [OF False] using S(1) by blast
  moreover have "module_count Q ?md = length (filter Q sources)" for Q
    by (simp add: module_count_def summarize_module_ownership_def Let_def length_filter_sort_key)
  moreover have "sc_modules sc' = sc_modules sc @ [?md]" "sc_resolver sc' = sc_resolver sc1"
    "sc_scanned sc' = sc_scanned sc1" "sc_resolved sc' = sc_resolved sc1" "sc_unresolved sc' = sc_unresolved sc1"
    "sc_without_sources sc' = sc_without_sources sc1"
    unfolding sc' using S(3) by (simp_all add: Let_def)
  ultimately show ?thesis
    using P S(2,4-) False by (simp add: scanned_def scan_counts_def list_all2_appendI)
qed

lemma scan_ownership_scanned:
  assumes "scan_ownership fs m source_root = Inr out"
  shows "\<exists>root sc. canonicalize fs (components source_root) = Some root \<and> is_dir fs (absolute root) \<and>
    scanned fs root (manifest_modules m) sc \<and> oo_manifest out = m\<lparr>manifest_modules := sc_modules sc\<rparr> \<and>
    validate (oo_manifest out) = Inr () \<and> oo_summary out = scan_summary m sc"
proof -
  from assms obtain root where root: "canonicalize fs (components source_root) = Some root" "is_dir fs (absolute root)"
    by (auto simp: scan_ownership_def and_then_Inr_iff ok_or_Inr_iff split: if_splits)
  let ?sc = "\<lparr>sc_resolver = fresh_resolver root, sc_scanned = 0, sc_resolved = 0, sc_unresolved = 0, sc_split = 0,
    sc_without_sources = 0, sc_includes = [], sc_modules = []\<rparr>"
  from assms root obtain sc where sc: "try_fold (scan_module fs) (manifest_modules m) ?sc = Inr sc"
    and final: "(case validate (m\<lparr>manifest_modules := sc_modules sc\<rparr>) of
        Inl e \<Rightarrow> Inl (OwnersManifest e)
      | Inr _ \<Rightarrow> Inr \<lparr>oo_manifest = m\<lparr>manifest_modules := sc_modules sc\<rparr>, oo_summary = scan_summary m sc\<rparr>) = Inr out"
    by (auto simp: scan_ownership_def and_then_Inr_iff fresh_resolver_def Let_def)
  have out: "validate (m\<lparr>manifest_modules := sc_modules sc\<rparr>) = Inr ()"
      "out = \<lparr>oo_manifest = m\<lparr>manifest_modules := sc_modules sc\<rparr>, oo_summary = scan_summary m sc\<rparr>"
    using final by (cases "validate (m\<lparr>manifest_modules := sc_modules sc\<rparr>)"; simp)+
  have "scanned fs root ([] @ manifest_modules m) sc"
    by (rule try_fold_prefix_invariant [OF sc, where P = "scanned fs root"])
      (auto simp: scanned_def [of fs root "[]"] scan_counts_def intro: scan_module_correct)
  then show ?thesis using root out by auto
qed

section \<open>Properties\<close>

text \<open>C33: a path expression of an OWNERS file matches exactly the paths of its language: three dots stand for
  any text, a star for any text without a slash, a question mark for one byte but a slash.\<close>

theorem glob_matches_language: "glob_matches pattern v \<longleftrightarrow> v \<in> glob_language (glob_tokens pattern)"
  by (rule glob_matches_eq)

text \<open>C14: the effective owners of a source are those granted by the OWNERS files of its directory and of the
  directories above it, up to the first that stops the inheritance, includes followed; its primary owners
  are those of the nearest file that grants any, and the reported stop is that first directory.\<close>

theorem owners_of_source:
  assumes "owners_of fs root source = Inr so"
  defines "relative \<equiv> normal_segments (components source)"
  shows "set (so_effective_owners so) =
      (\<Union>d\<in>{d. consulted fs root relative (butlast relative) d}. granted_in fs root relative d) \<and>
    ascending (so_effective_owners so) \<and>
    nearest_grant fs root relative (butlast relative) (set (so_primary_owners so)) \<and>
    stopped_by fs root relative (butlast relative) (so_inheritance_stopped_at so)"
proof -
  from owners_of_climbed [OF assms(1)] obtain st st' where st: "ss_effective_owners st = []"
      "ss_inheritance_stopped_at st = None" "\<not> ss_found_primary st" "ss_primary_owners st = []"
    and up: "climbed fs root relative (butlast relative) st st'"
    and so: "so_effective_owners so = ss_effective_owners st'" "so_primary_owners so = ss_primary_owners st'"
      "so_inheritance_stopped_at so = ss_inheritance_stopped_at st'"
    unfolding source_directory_def relative_def by blast
  show ?thesis using up st unfolding so climbed_def owners_upwards_def by simp
qed

text \<open>C22: include cycles are reported exactly for real circles. A reported cycle means that following includes
  from a consulted OWNERS file comes back to it or to an included file, and when a source resolves no
  consulted file leads into such a circle. When every consulted OWNERS file and every file its includes lead to
  is there and parses, such a circle is reported as a cycle, and without one the source resolves. (With a missing
  or broken file as well, whichever comes first is reported.)\<close>

theorem include_cycles_real:
  fixes fs root source
  defines "relative \<equiv> normal_segments (components source)"
  defines "circular \<equiv> \<exists>d. consulted fs root relative (butlast relative) d \<and>
    include_circle fs root (owners_in d) (applied fs root relative d)"
  defines "sound \<equiv> \<forall>d. consulted fs root relative (butlast relative) d \<longrightarrow> sound_layer fs root relative d"
  shows "(owners_of fs root source = Inl (IncludeCycle c) \<longrightarrow> circular) \<and>
    (owners_of fs root source = Inr so \<longrightarrow> \<not> circular) \<and>
    (sound \<longrightarrow> (if circular then \<exists>c. owners_of fs root source = Inl (IncludeCycle c)
                else \<exists>so. owners_of fs root source = Inr so))"
proof -
  have found: "owners_of fs root source = Inl (IncludeCycle c') \<Longrightarrow> circular"
    and none: "owners_of fs root source = Inr so' \<Longrightarrow> \<not> circular"
    and only: "sound \<Longrightarrow> owners_of fs root source = Inl e \<Longrightarrow> \<exists>c. e = IncludeCycle c" for c' so' e
    using owners_of_cycle [of fs root source c'] owners_of_climbed [of fs root source so']
      owners_of_sound [of fs root source e]
    unfolding circular_def sound_def relative_def source_directory_def climbed_def by blast+
  then show ?thesis by (cases "owners_of fs root source") auto
qed

text \<open>The summary of a module: the unions of the owners of its sources, the owners all its owned sources
  share, the sources without owners, and whether two sources have different primary owners.\<close>

theorem module_ownership_summary:
  shows "set (mo_primary_owners (summarize_module_ownership sources)) = (\<Union>s\<in>set sources. set (so_primary_owners s)) \<and>
    set (mo_effective_owners (summarize_module_ownership sources)) = (\<Union>s\<in>set sources. set (so_effective_owners s)) \<and>
    set (mo_common_effective_owners (summarize_module_ownership sources)) =
      (if owned sources = [] then {} else \<Inter>s\<in>set (owned sources). set (so_effective_owners s)) \<and>
    mo_unresolved_sources (summarize_module_ownership sources) =
      map so_source (filter (\<lambda>s. so_effective_owners s = []) sources) \<and>
    (mo_split_ownership (summarize_module_ownership sources) \<longleftrightarrow>
      (\<exists>s\<in>set sources. \<exists>t\<in>set sources. so_primary_owners s \<noteq> so_primary_owners t))"
proof -
  note F = fold_add_source [where sources = sources and mw = no_module_owners]
  note C = fold_add_source_common [where sources = sources and mw = no_module_owners]
  have "set (case mw_common (fold add_source sources no_module_owners) of None \<Rightarrow> [] | Some c \<Rightarrow> c) =
      (if owned sources = [] then {} else \<Inter>s\<in>set (owned sources). set (so_effective_owners s))"
    using C by (cases "mw_common (fold add_source sources no_module_owners)")
      (auto simp: no_module_owners_def split: if_splits)
  moreover have "ascending (mw_distinct_primary (fold add_source sources no_module_owners))"
    using F(5) by (simp add: no_module_owners_def)
  ultimately show ?thesis
    using F(1-4) split_iff [of "mw_distinct_primary (fold add_source sources no_module_owners)"]
    by (simp add: summarize_module_ownership_def Let_def no_module_owners_def)
qed

text \<open>C21: a successful scan gives every source the ownership that resolving it alone, with an empty cache, gives,
  whatever the order of modules and what the cache already holds; it changes nothing but the ownership of
  the modules, and the result is a valid manifest.\<close>

theorem scan_ownership_pointwise:
  assumes "scan_ownership fs m source_root = Inr out"
  shows "\<exists>root mds. canonicalize fs (components source_root) = Some root \<and>
    oo_manifest out = m\<lparr>manifest_modules := mds\<rparr> \<and>
    list_all2 (annotated fs root) (manifest_modules m) mds \<and> valid_manifest (oo_manifest out)"
proof -
  from scan_ownership_scanned [OF assms] obtain root and sc :: scan_state where
    sc: "canonicalize fs (components source_root) = Some root" "list_all2 (annotated fs root) (manifest_modules m) (sc_modules sc)"
      "oo_manifest out = m\<lparr>manifest_modules := sc_modules sc\<rparr>" "validate (oo_manifest out) = Inr ()"
    unfolding scanned_def by (elim exE conjE) (rule that; assumption)
  from sc(4) have "valid_manifest (oo_manifest out)"
    by (auto simp: validate_def validation_errors_clean [symmetric] Let_def split: if_splits)
  with sc(1-3) show ?thesis by (intro exI conjI)
qed

text \<open>The counts of a scan: every source once, resolved or unresolved by whether it has an owner.\<close>

theorem scan_ownership_counts:
  assumes "scan_ownership fs m source_root = Inr out"
  defines "summary \<equiv> oo_summary out"
  shows "os_scanned_modules summary = length (manifest_modules m) \<and>
    os_scanned_sources summary = sum_list (map (length \<circ> module_sources) (manifest_modules m)) \<and>
    os_resolved_sources summary + os_unresolved_sources summary = os_scanned_sources summary \<and>
    os_unresolved_sources summary =
      sum_list (map (module_count (\<lambda>so. so_effective_owners so = [])) (manifest_modules (oo_manifest out))) \<and>
    os_modules_without_sources summary = length (filter (\<lambda>md. module_sources md = []) (manifest_modules m))"
proof -
  from scan_ownership_scanned [OF assms(1)] obtain root sc where
    "scan_counts (manifest_modules m) (sc_modules sc) sc" "oo_manifest out = m\<lparr>manifest_modules := sc_modules sc\<rparr>"
    "summary = scan_summary m sc"
    unfolding summary_def scanned_def by blast
  then show ?thesis by (simp add: scan_counts_def scan_summary_def)
qed

text \<open>A checkout: the file of the directory includes one below the root and exempts its interfaces.\<close>

definition example_checkout :: file_system where
  "example_checkout =
     \<lparr>fs_nodes =
        [([''r''], Directory), ([''r'', ''OWNERS''], RegularFile (''a@b'' @ [CHR 0x0A])),
         ([''r'', ''SHARED''], RegularFile ''s@b # all''),
         ([''r'', ''net''], Directory),
         ([''r'', ''net'', ''OWNERS''],
            RegularFile (''include /SHARED'' @ [CHR 0x0A] @ ''per-file *.mojom=set noparent'' @ [CHR 0x0A] @
              ''per-file *.mojom=i@b'' @ [CHR 0x0A])),
         ([''r'', ''a''], Directory), ([''r'', ''a'', ''OWNERS''], RegularFile ''file:../b/OWNERS''),
         ([''r'', ''b''], Directory), ([''r'', ''b'', ''OWNERS''], RegularFile ''file://a/OWNERS'')],
      fs_cwd = []\<rparr>"

lemma owners_of_source_witness:
  "\<exists>so. owners_of example_checkout [''r''] ''net/a.cc'' = Inr so \<and>
     so_effective_owners so = [''a@b'', ''s@b''] \<and>
     (\<Union>d\<in>{d. consulted example_checkout [''r''] [''net'', ''a.cc''] [''net''] d}.
        granted_in example_checkout [''r''] [''net'', ''a.cc''] d) = {''a@b'', ''s@b''}"
proof -
  let ?r = "owners_of example_checkout [''r''] ''net/a.cc''"
  have n: "\<not> isl ?r" "so_effective_owners (projr ?r) = [''a@b'', ''s@b'']" by code_simp+
  then obtain so where so: "?r = Inr so" "so_effective_owners so = [''a@b'', ''s@b'']"
    by (cases ?r) auto
  have "normal_segments (components ''net/a.cc'') = [''net'', ''a.cc'']" by code_simp
  with owners_of_source [OF so(1)] so(2)
  have "(\<Union>d\<in>{d. consulted example_checkout [''r''] [''net'', ''a.cc''] [''net''] d}.
        granted_in example_checkout [''r''] [''net'', ''a.cc''] d) = {''a@b'', ''s@b''}" by simp
  with so show ?thesis by blast
qed

text \<open>The files of the checkout that the circle of its second directory goes through are all sound.\<close>

lemma not_isl_Inr: "\<not> isl r \<Longrightarrow> \<exists>x. r = Inr x"
  by (cases r) auto

lemma example_globals:
  "globals example_checkout [''r''] [''a'', ''OWNERS''] = {Include ''../b/OWNERS''}"
  "globals example_checkout [''r''] [''b'', ''OWNERS''] = {Include ''//a/OWNERS''}"
  "globals example_checkout [''r''] [''OWNERS''] = {Owner ''a@b''}"
  by code_simp+

lemma example_includes:
  "\<not> is_external_include ''../b/OWNERS''" "\<not> is_external_include ''//a/OWNERS''"
  "resolve_include example_checkout [''r''] [''a'', ''OWNERS''] ''../b/OWNERS'' = Inr [''b'', ''OWNERS'']"
  "resolve_include example_checkout [''r''] [''b'', ''OWNERS''] ''//a/OWNERS'' = Inr [''a'', ''OWNERS'']"
  by code_simp+

lemma example_direct:
  "direct example_checkout [''r''] [''a'', ''OWNERS''] {Include ''../b/OWNERS''} = {[''b'', ''OWNERS'']}"
  "direct example_checkout [''r''] [''b'', ''OWNERS''] {Include ''//a/OWNERS''} = {[''a'', ''OWNERS'']}"
  using example_includes by (simp_all only: direct_def) auto

lemma example_found:
  "includes_found example_checkout [''r''] [''a'', ''OWNERS''] {Include ''../b/OWNERS''}"
  "includes_found example_checkout [''r''] [''b'', ''OWNERS''] {Include ''//a/OWNERS''}"
  "includes_found example_checkout [''r''] [''OWNERS''] {Owner ''a@b''}"
  using example_includes by (simp_all add: includes_found_def)

lemma include_cycles_real_witness:
  "owners_of example_checkout [''r''] ''a/x.cc'' = Inl (IncludeCycle ''a/OWNERS -> b/OWNERS -> a/OWNERS'') \<and>
   {d. consulted example_checkout [''r''] [''a'', ''x.cc''] [''a''] d} \<subseteq>
     {d. sound_layer example_checkout [''r''] [''a'', ''x.cc''] d} \<and>
   (\<exists>d. include_circle example_checkout [''r''] (owners_in d) (applied example_checkout [''r''] [''a'', ''x.cc''] d))"
proof -
  let ?fs = "example_checkout" and ?files = "{[''a'', ''OWNERS''], [''b'', ''OWNERS'']}"
  have run: "owners_of ?fs [''r''] ''a/x.cc'' = Inl (IncludeCycle ''a/OWNERS -> b/OWNERS -> a/OWNERS'')"
    by code_simp
  have at: "normal_segments (components ''a/x.cc'') = [''a'', ''x.cc'']" by code_simp
  have parsed: "\<not> isl (parse_of ?fs [''r''] [''OWNERS''])" "\<not> isl (parse_of ?fs [''r''] [''a'', ''OWNERS''])"
    "\<not> isl (parse_of ?fs [''r''] [''b'', ''OWNERS''])"
    "po_per_file (parsed_in ?fs [''r''] []) = []" "po_per_file (parsed_in ?fs [''r''] [''a'']) = []"
    by code_simp+
  have globals_of: "globals ?fs [''r''] (owners_in d) = set (po_global (parsed_in ?fs [''r''] d))" for d
    by (simp add: globals_def parsed_in_def split: sum.split)
  have applied: "applied ?fs [''r''] [''a'', ''x.cc''] [] = globals ?fs [''r''] [''OWNERS'']"
    "applied ?fs [''r''] [''a'', ''x.cc''] [''a''] = globals ?fs [''r''] [''a'', ''OWNERS'']"
    using globals_of [of "[]"] globals_of [of "[''a'']"] parsed(4,5)
    by (simp_all add: applied_def in_force_def matching_def owners_in_def)
  have step: "direct ?fs [''r''] p (globals ?fs [''r''] p) \<subseteq> ?files" if "p \<in> ?files" for p
    using that by (auto simp: example_globals example_direct)
  have "(include_step ?fs [''r''])\<^sup>* `` ?files \<subseteq> ?files"
    by (rule Image_closed_trancl [THEN equalityD1]) (use step in \<open>auto simp: include_step_def\<close>)
  then have reached: "reached ?fs [''r''] p (globals ?fs [''r''] p) \<subseteq> ?files" if "p \<in> ?files" for p
    using step [OF that] unfolding reached_def by blast
  have found: "includes_found ?fs [''r''] p (globals ?fs [''r''] p)" if "p \<in> insert [''OWNERS''] ?files" for p
    using that by (auto simp: example_globals example_found)
  have read: "\<exists>parsed. parse_of ?fs [''r''] p = Inr parsed" if "p \<in> insert [''OWNERS''] ?files" for p
    using that parsed(1-3) [THEN not_isl_Inr] by (elim insertE emptyE) (simp_all only:)
  have "includes_sound ?fs [''r''] [''a'', ''OWNERS''] (globals ?fs [''r''] [''a'', ''OWNERS''])"
    unfolding includes_sound_def
  proof (intro conjI ballI)
    show "includes_found ?fs [''r''] [''a'', ''OWNERS''] (globals ?fs [''r''] [''a'', ''OWNERS''])"
      by (rule found) simp
  next
    fix q assume "q \<in> reached ?fs [''r''] [''a'', ''OWNERS''] (globals ?fs [''r''] [''a'', ''OWNERS''])"
    then have "q \<in> ?files" by (rule subsetD [OF reached, rotated]) simp
    then have "q \<in> insert [''OWNERS''] ?files" by (rule insertI2)
    then show "\<exists>parsed. parse_of ?fs [''r''] q = Inr parsed" "includes_found ?fs [''r''] q (globals ?fs [''r''] q)"
      by (rule read, rule found)
  qed
  moreover have "includes_sound ?fs [''r''] [''OWNERS''] (globals ?fs [''r''] [''OWNERS''])"
    using found by (simp add: example_globals includes_sound_def)
  ultimately have layers: "sound_layer ?fs [''r''] [''a'', ''x.cc''] []" "sound_layer ?fs [''r''] [''a'', ''x.cc''] [''a'']"
    using read by (simp_all add: sound_layer_def applied owners_in_def)
  have sound: "\<forall>d. consulted ?fs [''r''] [''a'', ''x.cc''] [''a''] d \<longrightarrow> sound_layer ?fs [''r''] [''a'', ''x.cc''] d"
    using layers consulted_step [of "[''a'']" ?fs "[''r'']" "[''a'', ''x.cc'']"] by (auto simp: consulted_Nil)
  show ?thesis
    using include_cycles_real [of ?fs "[''r'']" "''a/x.cc''"] run sound unfolding at by auto
qed

definition owned_manifest :: manifest where
  "owned_manifest =
     \<lparr>schema_version = supported_schema_version,
      manifest_project = \<lparr>project_name = ''p'', project_upstream = ''u'', project_baseline = ''b''\<rparr>,
      manifest_inventory = None, manifest_targets = [], manifest_gates = [],
      manifest_modules = [(example_module ''m'' [])\<lparr>module_sources := [''net/a.cc'', ''net/i.mojom'', ''b.cc'']\<rparr>]\<rparr>"

lemma scan_ownership_pointwise_witness:
  "\<exists>out. scan_ownership example_checkout owned_manifest ''/r'' = Inr out \<and> valid_manifest (oo_manifest out)"
proof -
  let ?r = "scan_ownership example_checkout owned_manifest ''/r''"
  have "\<not> isl ?r" by code_simp
  then obtain out where out: "?r = Inr out" by (cases ?r) auto
  from scan_ownership_pointwise [OF this] have "valid_manifest (oo_manifest out)" by (elim exE conjE)
  with out show ?thesis by (intro exI conjI)
qed

lemma scan_ownership_counts_witness:
  "\<exists>out. scan_ownership example_checkout owned_manifest ''/r'' = Inr out \<and>
     os_scanned_sources (oo_summary out) = 3 \<and>
     os_resolved_sources (oo_summary out) + os_unresolved_sources (oo_summary out) = 3"
proof -
  let ?r = "scan_ownership example_checkout owned_manifest ''/r''"
  have "\<not> isl ?r" "sum_list (map (length \<circ> module_sources) (manifest_modules owned_manifest)) = 3" by code_simp+
  then obtain out where out: "?r = Inr out" "sum_list (map (length \<circ> module_sources) (manifest_modules owned_manifest)) = 3"
    by (cases ?r) auto
  from scan_ownership_counts [OF out(1)] out show ?thesis by (intro exI [of _ out]) simp
qed

end
