(* ===== verification/Source.thy ===== *)
theory Source
  imports Validation FileSystem
begin

text \<open>
  \<open>crates/chromifer-source/src/lib.rs\<close>: reads the sources of every module on a pool of workers, finds
  includes, C ABI symbols and review markers line by line, and annotates the dependencies of a manifest
  with boundary evidence. The hash maps of the index are maps, the ordered maps and sets of evidence the
  ascending lists of \<open>Collections\<close>. Brace depths are 32-bit words read as signed.
\<close>

section \<open>Data\<close>

record missing_source =
  mi_module :: string
  mi_file :: string

record boundary_update =
  bu_module :: string
  bu_dependency :: string
  bu_from :: boundary
  bu_to :: boundary
  bu_evidence_count :: nat

record boundary_conflict =
  bc_module :: string
  bc_dependency :: string
  bc_current :: boundary
  bc_detected :: "boundary list"

record scan_summary =
  sm_scanned_modules :: nat
  sm_scanned_files :: nat
  sm_missing_sources :: "missing_source list"
  sm_updated_boundaries :: "boundary_update list"
  sm_conflicts :: "boundary_conflict list"
  sm_edge_reviews :: nat
  sm_module_reviews :: nat

record scan_output =
  sn_manifest :: manifest
  sn_summary :: scan_summary

datatype scan_error =
    ScanSourcePath string string
  | ReadSource string string
  | WorkerPanicked
  | ScanManifest errors

record source_location =
  sl_file :: string
  sl_line :: nat

record include_use =
  iu_path :: string
  iu_file :: string
  iu_line :: nat
  iu_in_cxx_bridge :: bool

record file_scan =
  fi_includes :: "include_use list"
  fi_reviews :: "boundary_review list"

type_synonym symbols = "(string \<times> source_location) list"

record module_scan =
  ms_files :: "file_scan list"
  ms_declarations :: symbols
  ms_definitions :: symbols

record scan_collection =
  co_scans :: "(string \<times> module_scan) list"
  co_missing :: "missing_source list"
  co_files :: nat

text \<open>\<open>entry(k).or_insert(v)\<close> of a \<open>BTreeMap\<close>\<close>

definition btm_or_insert :: "'k::linorder \<Rightarrow> 'v \<Rightarrow> ('k \<times> 'v) list \<Rightarrow> ('k \<times> 'v) list" where
  "btm_or_insert k v m = (if btm_get m k = None then btm_insert k v m else m)"

section \<open>Strings\<close>

text \<open>\<open>str::split_whitespace\<close>: the non-empty segments between characters of white space.\<close>

function ws_segments :: "string \<Rightarrow> string list" where
  "ws_segments [] = [[]]"
| "ws_segments (c # s) =
     (case find (\<lambda>w. w \<noteq> [] \<and> starts_with w (c # s)) whitespace of
        Some w \<Rightarrow> [] # ws_segments (drop (length w - 1) s)
      | None \<Rightarrow> (case ws_segments s of [] \<Rightarrow> [[c]] | w # ws \<Rightarrow> (c # w) # ws))"
  by pat_completeness auto
termination ws_segments
  by (relation "measure length") auto

definition split_whitespace :: "string \<Rightarrow> string list" where
  "split_whitespace s = filter (\<lambda>w. w \<noteq> []) (ws_segments s)"

text \<open>\<open>chars().count()\<close> and \<open>chars().take(n)\<close> over the encoding: a character starts at a byte that is not a
  continuation byte.\<close>

definition count_chars :: "string \<Rightarrow> nat" where
  "count_chars s = length (filter (\<lambda>c. \<not> is_continuation c) s)"

fun take_chars :: "nat \<Rightarrow> string \<Rightarrow> string" where
  "take_chars n [] = []"
| "take_chars n (c # s) =
     (if is_continuation c then c # take_chars n s
      else if n = 0 then [] else c # take_chars (n - 1) s)"

definition identifier_byte :: "char \<Rightarrow> bool" where
  "identifier_byte c \<longleftrightarrow> is_ascii_alphanumeric c \<or> c = CHR ''_''"

text \<open>\<open>split\<close> at the characters that are not part of an identifier\<close>

fun identifiers :: "string \<Rightarrow> string list" where
  "identifiers [] = [[]]"
| "identifiers (c # s) =
     (if identifier_byte c
      then (case identifiers s of [] \<Rightarrow> [[c]] | w # ws \<Rightarrow> (c # w) # ws)
      else [] # identifiers s)"

section \<open>Lines\<close>

definition brace_delta :: "string \<Rightarrow> 32 word" where
  "brace_delta line =
     of_nat (length (filter (\<lambda>c. c = CHR ''{'') line)) - of_nat (length (filter (\<lambda>c. c = CHR ''}'') line))"

definition looks_like_definition :: "string \<Rightarrow> bool" where
  "looks_like_definition line \<longleftrightarrow>
     CHR ''('' \<in> set line \<and> CHR ''{'' \<in> set (dropWhile (\<lambda>c. c \<noteq> CHR ''('') line) \<and>
     \<not> ends_with '';'' (trim_end line)"

definition control_keyword :: "string \<Rightarrow> bool" where
  "control_keyword token \<longleftrightarrow>
     token \<in> set [''if'', ''for'', ''while'', ''switch'', ''return'', ''sizeof'']"

definition extract_function_name :: "string \<Rightarrow> string option" where
  "extract_function_name line =
     (if CHR ''('' \<notin> set line then None
      else
        let tokens = filter (\<lambda>w. w \<noteq> [])
              (identifiers (trim_end (takeWhile (\<lambda>c. c \<noteq> CHR ''('') line)))
        in if tokens = [] \<or> control_keyword (last tokens) then None else Some (last tokens))"

definition extract_rust_function_name :: "string \<Rightarrow> string option" where
  "extract_rust_function_name line =
     (case split_once ''fn '' line of
        None \<Rightarrow> None
      | Some (_, suffix) \<Rightarrow>
          let name = takeWhile identifier_byte suffix in if name = [] then None else Some name)"

definition quoted_or_angled :: "string \<Rightarrow> string option" where
  "quoted_or_angled text =
     (case text of
        [] \<Rightarrow> None
      | c # inner \<Rightarrow>
          if c = CHR 0x22 \<and> CHR 0x22 \<in> set inner then Some (takeWhile (\<lambda>d. d \<noteq> CHR 0x22) inner)
          else if c = CHR ''<'' \<and> CHR ''>'' \<in> set inner then Some (takeWhile (\<lambda>d. d \<noteq> CHR ''>'') inner)
          else None)"

definition extract_cpp_include :: "string \<Rightarrow> string option" where
  "extract_cpp_include line =
     Option.bind (strip_prefix ''#include'' (trim_start line)) (\<lambda>suffix. quoted_or_angled (trim_start suffix))"

definition extract_rust_include :: "string \<Rightarrow> string option" where
  "extract_rust_include line =
     Option.bind (split_once ''include!('' line) (\<lambda>(_, suffix). quoted_or_angled (trim_start suffix))"

definition normalize_include_path :: "string \<Rightarrow> string" where
  "normalize_include_path path =
     trim_start_matches ''gen/'' (trim_start_matches ''./''
       (trim_start_matches ''//'' (replace_char (CHR 0x5C) (CHR ''/'') path)))"

definition compact_line :: "string \<Rightarrow> string" where
  "compact_line line =
     (let compact = join '' '' (split_whitespace line)
      in if count_chars compact > 180 then take_chars 177 compact @ ''...'' else compact)"

definition callback_patterns :: "string list" where
  "callback_patterns =
     [''base::OnceCallback'', ''base::RepeatingCallback'', ''base::OnceClosure'', ''base::RepeatingClosure'',
      ''std::function<'', ''FunctionRef<'', ''FnOnce('', ''FnMut('', ''Box<dyn Fn'']"

definition observer_pattern :: "string \<Rightarrow> bool" where
  "observer_pattern line \<longleftrightarrow>
     contains_str ''ObserverList<'' line \<or> contains_str ''ScopedObservation<'' line \<or>
     contains_str ''AddObserver('' line \<or> contains_str ''RemoveObserver('' line \<or>
     contains_str ''public '' line \<and> contains_str ''Observer'' line \<or>
     contains_str ''trait '' line \<and> contains_str ''Observer'' line"

definition detect_reviews :: "string \<Rightarrow> (boundary_review_kind \<times> string) list" where
  "detect_reviews line =
     (if list_ex (\<lambda>pattern. contains_str pattern line) callback_patterns
      then [(Callback, compact_line line)] else []) @
     (if observer_pattern line then [(Observer, compact_line line)] else [])"

section \<open>C ABI symbols\<close>

record abi_state =
  ab_cpp_depth :: "32 word"
  ab_rust_depth :: "32 word"
  ab_declarations :: symbols
  ab_definitions :: symbols

text \<open>\<open>depth += brace_delta(trimmed)\<close>, never below zero.\<close>

definition add_depth :: "string \<Rightarrow> 32 word \<Rightarrow> 32 word" where
  "add_depth trimmed depth = (let d = depth + brace_delta trimmed in if d <s 0 then 0 else d)"

definition extern_c :: string where
  "extern_c = ''extern '' @ [CHR 0x22] @ ''C'' @ [CHR 0x22]"

definition scan_cpp_extern :: "string \<Rightarrow> source_location \<Rightarrow> abi_state \<Rightarrow> abi_state" where
  "scan_cpp_extern trimmed location st =
     (let st = (case extract_function_name trimmed of
            None \<Rightarrow> st
          | Some symbol \<Rightarrow>
              if looks_like_definition trimmed
              then st\<lparr>ab_definitions := btm_or_insert symbol location (ab_definitions st)\<rparr>
              else st\<lparr>ab_declarations := btm_or_insert symbol location (ab_declarations st)\<rparr>)
      in st\<lparr>ab_cpp_depth := add_depth trimmed (ab_cpp_depth st)\<rparr>)"

definition scan_rust_function :: "string \<Rightarrow> source_location \<Rightarrow> abi_state \<Rightarrow> abi_state" where
  "scan_rust_function trimmed location st =
     (case extract_rust_function_name trimmed of
        None \<Rightarrow> st
      | Some symbol \<Rightarrow>
          if 0 <s ab_rust_depth st \<or> ends_with '';'' (trim_end trimmed)
          then st\<lparr>ab_declarations := btm_or_insert symbol location (ab_declarations st)\<rparr>
          else st\<lparr>ab_definitions := btm_or_insert symbol location (ab_definitions st)\<rparr>)"

definition scan_rust_block :: "string \<Rightarrow> source_location \<Rightarrow> abi_state \<Rightarrow> abi_state" where
  "scan_rust_block trimmed location st =
     (let st = (case extract_rust_function_name trimmed of
            None \<Rightarrow> st
          | Some symbol \<Rightarrow> st\<lparr>ab_declarations := btm_or_insert symbol location (ab_declarations st)\<rparr>)
      in st\<lparr>ab_rust_depth := add_depth trimmed (ab_rust_depth st)\<rparr>)"

definition scan_c_abi_line :: "string \<Rightarrow> source_location \<Rightarrow> abi_state \<Rightarrow> abi_state" where
  "scan_c_abi_line line location st =
     (let trimmed = trim line
      in if starts_with ''//'' trimmed \<or> starts_with ''#'' trimmed \<and> \<not> contains_str ''extern'' trimmed
         then st
         else
           let rust_function = contains_str (extern_c @ '' fn'') trimmed;
               cpp_extern = contains_str extern_c trimmed \<and> \<not> rust_function;
               rust_block = contains_str extern_c trimmed \<and> CHR ''{'' \<in> set trimmed \<and> \<not> rust_function;
               st = (if cpp_extern \<or> 0 <s ab_cpp_depth st then scan_cpp_extern trimmed location st else st)
           in if rust_function then scan_rust_function trimmed location st
              else if rust_block \<or> 0 <s ab_rust_depth st then scan_rust_block trimmed location st
              else st)"

section \<open>Files and modules\<close>

definition include_of :: "string \<Rightarrow> string option" where
  "include_of line =
     (case extract_cpp_include line of Some path \<Rightarrow> Some path | None \<Rightarrow> extract_rust_include line)"

definition line_reviews :: "string \<Rightarrow> nat \<Rightarrow> string \<Rightarrow> boundary_review list" where
  "line_reviews file line_number line =
     map (\<lambda>(kind, detail). BoundaryReview kind file line_number detail False) (detect_reviews line)"

definition line_includes :: "string \<Rightarrow> bool \<Rightarrow> nat \<Rightarrow> string \<Rightarrow> include_use list" where
  "line_includes file in_cxx_bridge line_number line =
     (case include_of line of
        None \<Rightarrow> []
      | Some path \<Rightarrow>
          [\<lparr>iu_path = normalize_include_path path, iu_file = file, iu_line = line_number,
            iu_in_cxx_bridge = in_cxx_bridge\<rparr>])"

definition scan_line ::
    "string \<Rightarrow> bool \<Rightarrow> nat \<times> string \<Rightarrow> file_scan \<times> abi_state \<Rightarrow> file_scan \<times> abi_state" where
  "scan_line file in_cxx_bridge entry state =
     (let line_number = fst entry + 1;
          scan = fst state
      in (scan\<lparr>fi_includes := fi_includes scan @ line_includes file in_cxx_bridge line_number (snd entry),
               fi_reviews := fi_reviews scan @ line_reviews file line_number (snd entry)\<rparr>,
          scan_c_abi_line (snd entry) \<lparr>sl_file = file, sl_line = line_number\<rparr> (snd state)))"

definition scan_file :: "string \<Rightarrow> string \<Rightarrow> symbols \<Rightarrow> symbols \<Rightarrow> file_scan \<times> symbols \<times> symbols" where
  "scan_file file content declarations definitions =
     (let in_cxx_bridge = list_ex (contains_str ''cxx::bridge'') (lines content);
          (scan, st) = fold (scan_line file in_cxx_bridge) (enumerate 0 (lines content))
            (\<lparr>fi_includes = [], fi_reviews = []\<rparr>,
             \<lparr>ab_cpp_depth = 0, ab_rust_depth = 0, ab_declarations = declarations, ab_definitions = definitions\<rparr>)
      in (scan, ab_declarations st, ab_definitions st))"

definition resolve_source_path :: "file_system \<Rightarrow> string \<Rightarrow> module \<Rightarrow> string \<Rightarrow> string" where
  "resolve_source_path fs source_root md source =
     (let direct = join_path source_root source
      in if path_exists fs (components direct) \<or> module_path md = ''.'' \<or>
            starts_with (module_path md @ ''/'') source
         then direct
         else join_path (join_path source_root (module_path md)) source)"

text \<open>The body of the loop of \<open>scan_module\<close>; a source that does not exist is recorded, not an error.\<close>

definition scan_source_file ::
    "file_system \<Rightarrow> string \<Rightarrow> module \<Rightarrow> string \<Rightarrow> module_scan \<times> missing_source list \<times> nat \<Rightarrow>
     (scan_error, module_scan \<times> missing_source list \<times> nat) result" where
  "scan_source_file fs source_root md source = (\<lambda>(scan, missing, files).
     and_then (ok_or (normalize_repo_relative_path source) (ScanSourcePath (module_id md) source)) (\<lambda>relative.
       let path = resolve_source_path fs source_root md relative in
       case read_outcome_of fs (components path) of
         NotFound \<Rightarrow> Inr (scan, missing @ [\<lparr>mi_module = module_id md, mi_file = relative\<rparr>], files)
       | OtherFailure \<Rightarrow> Inl (ReadSource (module_id md) path)
       | Read bytes \<Rightarrow>
           (let (file, declarations, definitions) =
                  scan_file relative (utf8_lossy bytes) (ms_declarations scan) (ms_definitions scan)
            in Inr (\<lparr>ms_files = ms_files scan @ [file], ms_declarations = declarations,
                     ms_definitions = definitions\<rparr>, missing, files + 1))))"

definition no_scan :: module_scan where
  "no_scan = \<lparr>ms_files = [], ms_declarations = [], ms_definitions = []\<rparr>"

definition scan_module_sources ::
    "file_system \<Rightarrow> string \<Rightarrow> module \<Rightarrow> missing_source list \<Rightarrow> nat \<Rightarrow>
     (scan_error, module_scan \<times> missing_source list \<times> nat) result" where
  "scan_module_sources fs source_root md missing files =
     try_fold (scan_source_file fs source_root md) (module_sources md) (no_scan, missing, files)"

section \<open>The pool of workers\<close>

text \<open>\<open>scan_modules\<close>: up to eight workers fetch module indices from one atomic counter, each into a collection
  of its own. One round of a worker's loop is one step; the scheduler picks the worker, so a run is a
  sequence of steps from the initial pool until every worker has left its loop. A worker leaves when the
  modules are exhausted or with the error of the module it scanned. A panic of a worker is not modelled.\<close>

datatype worker_status = Running | Finished | Failed scan_error

record worker =
  wk_status :: worker_status
  wk_collection :: scan_collection

record pool =
  pl_next :: nat
  pl_workers :: "worker list"

definition no_collection :: scan_collection where
  "no_collection = \<lparr>co_scans = [], co_missing = [], co_files = 0\<rparr>"

definition collect_module ::
    "file_system \<Rightarrow> string \<Rightarrow> module \<Rightarrow> scan_collection \<Rightarrow> (scan_error, scan_collection) result" where
  "collect_module fs source_root md c =
     and_then (scan_module_sources fs source_root md (co_missing c) (co_files c)) (\<lambda>(scan, missing, files).
       Inr \<lparr>co_scans = btm_insert (module_id md) scan (co_scans c), co_missing = missing, co_files = files\<rparr>)"

definition worker_round ::
    "file_system \<Rightarrow> string \<Rightarrow> module list \<Rightarrow> nat \<Rightarrow> pool \<Rightarrow> pool" where
  "worker_round fs source_root modules w p =
     (let index = pl_next p;
          worker = pl_workers p ! w;
          worker = (if length modules \<le> index then worker\<lparr>wk_status := Finished\<rparr>
            else case collect_module fs source_root (modules ! index) (wk_collection worker) of
              Inl e \<Rightarrow> worker\<lparr>wk_status := Failed e\<rparr>
            | Inr c \<Rightarrow> worker\<lparr>wk_collection := c\<rparr>)
      in \<lparr>pl_next = index + 1, pl_workers = (pl_workers p)[w := worker]\<rparr>)"

inductive pool_step :: "file_system \<Rightarrow> string \<Rightarrow> module list \<Rightarrow> pool \<Rightarrow> pool \<Rightarrow> bool"
  for fs source_root modules where
  round: "w < length (pl_workers p) \<Longrightarrow> wk_status (pl_workers p ! w) = Running \<Longrightarrow>
    pool_step fs source_root modules p (worker_round fs source_root modules w p)"

definition pool_done :: "pool \<Rightarrow> bool" where
  "pool_done p \<longleftrightarrow> list_all (\<lambda>worker. wk_status worker \<noteq> Running) (pl_workers p)"

definition max_scan_workers :: nat where
  "max_scan_workers = 8"

definition worker_count :: "nat \<Rightarrow> module list \<Rightarrow> nat" where
  "worker_count parallelism modules = min (min parallelism max_scan_workers) (length modules)"

definition initial_pool :: "nat \<Rightarrow> pool" where
  "initial_pool count =
     \<lparr>pl_next = 0, pl_workers = replicate count \<lparr>wk_status = Running, wk_collection = no_collection\<rparr>\<rparr>"

definition append_worker :: "worker \<Rightarrow> scan_collection \<Rightarrow> (scan_error, scan_collection) result" where
  "append_worker worker c =
     (case wk_status worker of
        Failed e \<Rightarrow> Inl e
      | _ \<Rightarrow> Inr \<lparr>co_scans = fold (\<lambda>(i, scan). btm_insert i scan) (co_scans (wk_collection worker)) (co_scans c),
                  co_missing = co_missing c @ co_missing (wk_collection worker),
                  co_files = co_files c + co_files (wk_collection worker)\<rparr>)"

definition join_workers :: "worker list \<Rightarrow> (scan_error, scan_collection) result" where
  "join_workers workers = try_fold append_worker workers no_collection"

inductive scans_modules ::
    "file_system \<Rightarrow> string \<Rightarrow> nat \<Rightarrow> module list \<Rightarrow> (scan_error, scan_collection) result \<Rightarrow> bool"
  for fs source_root parallelism modules where
  no_modules: "modules = [] \<Longrightarrow> scans_modules fs source_root parallelism modules (Inr no_collection)"
| pooled: "modules \<noteq> [] \<Longrightarrow>
    (pool_step fs source_root modules)\<^sup>*\<^sup>* (initial_pool (worker_count parallelism modules)) p \<Longrightarrow>
    pool_done p \<Longrightarrow> scans_modules fs source_root parallelism modules (join_workers (pl_workers p))"

section \<open>The match index\<close>

record match_index =
  mx_module_ids :: "string list"
  mx_module_indices :: "string \<rightharpoonup> nat"
  mx_dependency_indices :: "string \<rightharpoonup> nat list"
  mx_path_prefixes :: "string \<rightharpoonup> nat list"
  mx_source_paths :: "string \<rightharpoonup> nat list"
  mx_source_names :: "string \<rightharpoonup> nat list"

definition insert_match :: "string \<Rightarrow> nat \<Rightarrow> (string \<rightharpoonup> nat list) \<Rightarrow> (string \<rightharpoonup> nat list)" where
  "insert_match key module_index index =
     (let matches = (case index key of None \<Rightarrow> [] | Some matches \<Rightarrow> matches)
      in index(key \<mapsto> if module_index \<in> set matches then matches else matches @ [module_index]))"

definition without_gen :: "string \<Rightarrow> string" where
  "without_gen path = (case split_once ''/gen/'' path of None \<Rightarrow> path | Some (_, suffix) \<Rightarrow> suffix)"

definition candidate_paths :: "string \<Rightarrow> string list" where
  "candidate_paths candidate =
     candidate # (candidate @ ''.h'') #
     (if ends_with ''.mojom'' candidate
      then map (\<lambda>suffix. candidate @ suffix) [''.h'', ''-forward.h'', ''-shared.h'', ''-shared-internal.h'']
      else [])"

definition insert_candidate :: "nat \<Rightarrow> string \<Rightarrow> match_index \<Rightarrow> match_index" where
  "insert_candidate module_index candidate index =
     index\<lparr>mx_source_paths :=
             fold (\<lambda>path. insert_match path module_index) (candidate_paths candidate) (mx_source_paths index),
           mx_source_names :=
             (case file_name candidate of None \<Rightarrow> mx_source_names index
              | Some name \<Rightarrow> insert_match name module_index (mx_source_names index))\<rparr>"

definition index_source :: "nat \<Rightarrow> string \<Rightarrow> match_index \<Rightarrow> match_index" where
  "index_source module_index source index =
     (case normalize_repo_relative_path source of
        None \<Rightarrow> index
      | Some source \<Rightarrow> fold (insert_candidate module_index) [source, without_gen source] index)"

definition index_module :: "nat \<times> module \<Rightarrow> match_index \<Rightarrow> match_index" where
  "index_module entry index =
     (let index = (if module_path (snd entry) \<noteq> ''.''
            then index\<lparr>mx_path_prefixes := insert_match (module_path (snd entry)) (fst entry) (mx_path_prefixes index)\<rparr>
            else index)
      in fold (index_source (fst entry)) (module_sources (snd entry)) index)"

definition index_dependencies :: "module \<Rightarrow> match_index \<Rightarrow> match_index" where
  "index_dependencies md index =
     index\<lparr>mx_dependency_indices := (mx_dependency_indices index)(module_id md \<mapsto>
       List.map_filter (\<lambda>d. mx_module_indices index (dep_module d)) (module_dependencies md))\<rparr>"

definition build_match_index :: "module list \<Rightarrow> match_index" where
  "build_match_index modules =
     (let ids = map module_id modules;
          index = \<lparr>mx_module_ids = ids, mx_module_indices = map_of (rev (map (\<lambda>(n, i). (i, n)) (enumerate 0 ids))),
            mx_dependency_indices = Map.empty, mx_path_prefixes = Map.empty, mx_source_paths = Map.empty,
            mx_source_names = Map.empty\<rparr>
      in fold index_dependencies modules (fold index_module (enumerate 0 modules) index))"

definition collect_index_matches :: "(string \<rightharpoonup> nat list) \<Rightarrow> nat list \<Rightarrow> string \<Rightarrow> nat list \<Rightarrow> nat list" where
  "collect_index_matches index dependencies key matches =
     (case index key of
        None \<Rightarrow> matches
      | Some candidates \<Rightarrow> bts_extend (filter (\<lambda>c. c \<in> set dependencies) candidates) matches)"

text \<open>The prefixes of a path that end before a slash, the longest first.\<close>

function parent_prefixes :: "string \<Rightarrow> string list" where
  "parent_prefixes prefix =
     (case rsplit_once ''/'' prefix of
        None \<Rightarrow> []
      | Some (parent, _) \<Rightarrow> parent # parent_prefixes parent)"
  by pat_completeness auto
termination parent_prefixes
  by (relation "measure length") (auto dest: rsplit_once_Some)

declare parent_prefixes.simps [simp del]

definition match_path :: "match_index \<Rightarrow> nat list \<Rightarrow> string \<Rightarrow> nat list \<Rightarrow> nat list" where
  "match_path index dependencies path matches =
     fold (collect_index_matches (mx_path_prefixes index) dependencies) (parent_prefixes path)
       (collect_index_matches (mx_source_paths index) dependencies path matches)"

definition matching_dependencies :: "match_index \<Rightarrow> module \<Rightarrow> string \<Rightarrow> string list" where
  "matching_dependencies index md include_path =
     (let path = normalize_include_path include_path
      in case mx_dependency_indices index (module_id md) of
           None \<Rightarrow> []
         | Some dependencies \<Rightarrow>
             (let matches = fold (match_path index dependencies) [path, without_gen path] [];
                  matches = (case file_name path of None \<Rightarrow> matches
                    | Some name \<Rightarrow> collect_index_matches (mx_source_names index) dependencies name matches)
              in map (\<lambda>n. mx_module_ids index ! n) matches))"

section \<open>Evidence\<close>

type_synonym 'a edge_map = "((string \<times> string) \<times> 'a list) list"

record findings =
  fd_evidence :: "boundary_evidence edge_map"
  fd_edge_reviews :: "boundary_review edge_map"
  fd_module_reviews :: "(string \<times> boundary_review list) list"

text \<open>\<open>entry(k).or_default().extend(xs)\<close> of a map of ordered sets, and \<open>remove\<close>\<close>

definition btm_extend :: "'k::linorder \<Rightarrow> 'a::linorder list \<Rightarrow> ('k \<times> 'a list) list \<Rightarrow> ('k \<times> 'a list) list" where
  "btm_extend k xs m = btm_update k [] (bts_extend xs) m"

definition btm_remove :: "'k \<Rightarrow> ('k \<times> 'v) list \<Rightarrow> ('k \<times> 'v) list" where
  "btm_remove k m = filter (\<lambda>(j, _). j \<noteq> k) m"

definition btm_take :: "'k \<Rightarrow> ('k \<times> 'a list) list \<Rightarrow> 'a list" where
  "btm_take k m = (case btm_get m k of None \<Rightarrow> [] | Some xs \<Rightarrow> xs)"

definition is_cxx_generated_header :: "string \<Rightarrow> bool" where
  "is_cxx_generated_header path \<longleftrightarrow> ends_with ''.rs.h'' path \<or> contains_str ''/cxxbridge/'' path"

definition is_mojo_generated_header :: "string \<Rightarrow> bool" where
  "is_mojo_generated_header path \<longleftrightarrow> contains_str ''.mojom'' path \<and> extension path = Some ''h''"

definition include_kind :: "include_use \<Rightarrow> boundary_evidence_kind option" where
  "include_kind use =
     (if is_mojo_generated_header (iu_path use) then Some MojoGeneratedHeader
      else if is_cxx_generated_header (iu_path use) then Some CxxGeneratedHeader
      else if iu_in_cxx_bridge use then Some CxxBridgeInclude else None)"

definition include_evidence :: "string \<Rightarrow> include_use \<Rightarrow> boundary_evidence list" where
  "include_evidence dependency use =
     (case include_kind use of
        None \<Rightarrow> []
      | Some kind \<Rightarrow>
          [BoundaryEvidence kind (iu_file use) (iu_line use)
             (''include `'' @ iu_path use @ ''` resolves to `'' @ dependency @ ''`'')])"

text \<open>One include: nothing unless it resolves to exactly one dependency. The state holds the evidence and
  the dependencies the file refers to.\<close>

definition collect_include ::
    "match_index \<Rightarrow> module \<Rightarrow> include_use \<Rightarrow> string list \<times> boundary_evidence edge_map \<Rightarrow>
     string list \<times> boundary_evidence edge_map" where
  "collect_include index md use state =
     (case matching_dependencies index md (iu_path use) of
        [dependency] \<Rightarrow>
          (bts_insert dependency (fst state),
           fold (\<lambda>e. btm_extend (module_id md, dependency) [e]) (include_evidence dependency use) (snd state))
      | _ \<Rightarrow> state)"

definition collect_file :: "match_index \<Rightarrow> module \<Rightarrow> file_scan \<Rightarrow> findings \<Rightarrow> findings" where
  "collect_file index md file findings =
     (let (referenced, evidence) = fold (collect_include index md) (fi_includes file) ([], fd_evidence findings);
          findings = findings\<lparr>fd_evidence := evidence\<rparr>
      in case referenced of
           [dependency] \<Rightarrow>
             findings\<lparr>fd_edge_reviews :=
               btm_extend (module_id md, dependency) (fi_reviews file) (fd_edge_reviews findings)\<rparr>
         | _ \<Rightarrow>
             findings\<lparr>fd_module_reviews := btm_extend (module_id md) (fi_reviews file) (fd_module_reviews findings)\<rparr>)"

definition collect_include_evidence :: "match_index \<Rightarrow> module \<Rightarrow> module_scan \<Rightarrow> findings \<Rightarrow> findings" where
  "collect_include_evidence index md scan findings = fold (collect_file index md) (ms_files scan) findings"

definition insert_c_abi_evidence ::
    "module \<Rightarrow> string \<Rightarrow> string \<Rightarrow> string \<times> source_location \<Rightarrow> boundary_evidence edge_map \<Rightarrow>
     boundary_evidence edge_map" where
  "insert_c_abi_evidence md dependency relation entry evidence =
     btm_extend (module_id md, dependency)
       [BoundaryEvidence CAbiSymbol (sl_file (snd entry)) (sl_line (snd entry))
          (''C ABI symbol `'' @ fst entry @ ''` is '' @ relation @ '' `'' @ dependency @ ''`'')] evidence"

definition collect_c_abi_dependency ::
    "module \<Rightarrow> (string \<times> module_scan) list \<Rightarrow> module_scan \<Rightarrow> dependency \<Rightarrow> boundary_evidence edge_map \<Rightarrow>
     boundary_evidence edge_map" where
  "collect_c_abi_dependency md scans source d evidence =
     (case btm_get scans (dep_module d) of
        None \<Rightarrow> evidence
      | Some target \<Rightarrow>
          fold (insert_c_abi_evidence md (dep_module d) ''defined here and declared by'')
            (filter (\<lambda>(symbol, _). btm_get (ms_declarations target) symbol \<noteq> None) (ms_definitions source))
            (fold (insert_c_abi_evidence md (dep_module d) ''declared here and defined by'')
              (filter (\<lambda>(symbol, _). btm_get (ms_definitions target) symbol \<noteq> None) (ms_declarations source))
              evidence))"

definition collect_c_abi_evidence ::
    "module \<Rightarrow> (string \<times> module_scan) list \<Rightarrow> boundary_evidence edge_map \<Rightarrow> boundary_evidence edge_map" where
  "collect_c_abi_evidence md scans evidence =
     (case btm_get scans (module_id md) of
        None \<Rightarrow> evidence
      | Some source \<Rightarrow> fold (collect_c_abi_dependency md scans source) (module_dependencies md) evidence)"

definition collect_module_findings ::
    "match_index \<Rightarrow> (string \<times> module_scan) list \<Rightarrow> module \<Rightarrow> findings \<Rightarrow> findings" where
  "collect_module_findings index scans md findings =
     (case btm_get scans (module_id md) of
        None \<Rightarrow> findings
      | Some scan \<Rightarrow>
          (let findings = collect_include_evidence index md scan findings
           in findings\<lparr>fd_evidence := collect_c_abi_evidence md scans (fd_evidence findings)\<rparr>))"

definition no_findings :: findings where
  "no_findings = \<lparr>fd_evidence = [], fd_edge_reviews = [], fd_module_reviews = []\<rparr>"

definition collect_findings :: "module list \<Rightarrow> (string \<times> module_scan) list \<Rightarrow> findings" where
  "collect_findings modules scans =
     fold (collect_module_findings (build_match_index modules) scans) modules no_findings"

section \<open>Annotating the manifest\<close>

definition merge_evidence :: "boundary_evidence list \<Rightarrow> boundary_evidence list \<Rightarrow> boundary_evidence list" where
  "merge_evidence incoming target = bts_extend incoming (bts_of_list target)"

text \<open>Reviews are merged by what they are about; a resolved review stays resolved.\<close>

type_synonym review_subject = "boundary_review_kind \<times> string \<times> nat \<times> string"

definition review_subject :: "boundary_review \<Rightarrow> review_subject" where
  "review_subject r = (review_kind r, review_file r, review_line r, review_detail r)"

definition resolve_with :: "boundary_review \<Rightarrow> boundary_review \<Rightarrow> boundary_review" where
  "resolve_with review existing =
     BoundaryReview (review_kind existing) (review_file existing) (review_line existing) (review_detail existing)
       (review_resolved existing \<or> review_resolved review)"

definition merge_review ::
    "boundary_review \<Rightarrow> (review_subject \<times> boundary_review) list \<Rightarrow> (review_subject \<times> boundary_review) list" where
  "merge_review review merged =
     (case btm_get merged (review_subject review) of
        None \<Rightarrow> btm_insert (review_subject review) review merged
      | Some existing \<Rightarrow> btm_insert (review_subject review) (resolve_with review existing) merged)"

definition merge_reviews :: "boundary_review list \<Rightarrow> boundary_review list \<Rightarrow> boundary_review list" where
  "merge_reviews incoming target =
     map snd (fold merge_review incoming (btm_of_list (map (\<lambda>r. (review_subject r, r)) target)))"

definition merge_found_reviews :: "boundary_review list option \<Rightarrow> boundary_review list \<Rightarrow> boundary_review list" where
  "merge_found_reviews found target =
     (case found of None \<Rightarrow> target | Some reviews \<Rightarrow> merge_reviews reviews target)"

definition unresolved_count :: "boundary_review list \<Rightarrow> nat" where
  "unresolved_count reviews = length (filter (\<lambda>r. \<not> review_resolved r) reviews)"

record annotation =
  an_findings :: findings
  an_updates :: "boundary_update list"
  an_conflicts :: "boundary_conflict list"
  an_edge_reviews :: nat
  an_module_reviews :: nat

text \<open>The decision over the boundaries detected on an edge.\<close>

definition conflict_of :: "string \<Rightarrow> dependency \<Rightarrow> boundary list \<Rightarrow> boundary_conflict" where
  "conflict_of i d detected =
     \<lparr>bc_module = i, bc_dependency = dep_module d, bc_current = dep_boundary d, bc_detected = detected\<rparr>"

definition decide_boundary :: "string \<Rightarrow> boundary list \<Rightarrow> dependency \<times> annotation \<Rightarrow> dependency \<times> annotation" where
  "decide_boundary i detected = (\<lambda>(d, an).
     case detected of
       [] \<Rightarrow> (d, an)
     | [b] \<Rightarrow>
         if dep_boundary d = b then (d, an)
         else if dep_boundary d = Unclassified \<or> dep_boundary d = CppInternal then
           (d\<lparr>dep_boundary := b\<rparr>,
            an\<lparr>an_updates := an_updates an @
              [\<lparr>bu_module = i, bu_dependency = dep_module d, bu_from = dep_boundary d, bu_to = b,
                bu_evidence_count =
                  length (filter (\<lambda>e. evidence_boundary (evidence_kind e) = b) (dep_evidence d))\<rparr>]\<rparr>)
         else (d, an\<lparr>an_conflicts := an_conflicts an @ [conflict_of i d [b]]\<rparr>)
     | _ \<Rightarrow> (d, an\<lparr>an_conflicts := an_conflicts an @ [conflict_of i d detected]\<rparr>))"

definition detected_boundaries :: "boundary_evidence list \<Rightarrow> boundary list" where
  "detected_boundaries detected = bts_of_list (map (\<lambda>e. evidence_boundary (evidence_kind e)) detected)"

definition annotate_dependency ::
    "string \<Rightarrow> dependency \<Rightarrow> dependency list \<times> annotation \<Rightarrow> dependency list \<times> annotation" where
  "annotate_dependency i d = (\<lambda>(ds, an).
     let key = (i, dep_module d);
         found = an_findings an;
         detected = btm_take key (fd_evidence found);
         reviews = btm_get (fd_edge_reviews found) key;
         d = d\<lparr>dep_evidence := merge_evidence detected (dep_evidence d),
               dep_reviews := merge_found_reviews reviews (dep_reviews d)\<rparr>;
         an = an\<lparr>an_findings := found\<lparr>fd_evidence := btm_remove key (fd_evidence found),
                                       fd_edge_reviews := btm_remove key (fd_edge_reviews found)\<rparr>,
                 an_edge_reviews := an_edge_reviews an + unresolved_count (dep_reviews d)\<rparr>;
         (d, an) = decide_boundary i (detected_boundaries detected) (d, an)
     in (ds @ [d], an))"

definition annotate_module ::
    "module \<Rightarrow> module list \<times> annotation \<Rightarrow> module list \<times> annotation" where
  "annotate_module md = (\<lambda>(mds, an).
     let found = an_findings an;
         reviews = merge_found_reviews (btm_get (fd_module_reviews found) (module_id md)) (module_reviews md);
         an = an\<lparr>an_findings := found\<lparr>fd_module_reviews := btm_remove (module_id md) (fd_module_reviews found)\<rparr>,
                 an_module_reviews := an_module_reviews an + unresolved_count reviews\<rparr>;
         (ds, an) = fold (annotate_dependency (module_id md)) (module_dependencies md) ([], an)
     in (mds @ [md\<lparr>module_reviews := reviews, module_dependencies := ds\<rparr>], an))"

definition annotate_modules :: "module list \<Rightarrow> findings \<Rightarrow> module list \<times> annotation" where
  "annotate_modules modules findings =
     fold annotate_module modules
       ([], \<lparr>an_findings = findings, an_updates = [], an_conflicts = [], an_edge_reviews = 0, an_module_reviews = 0\<rparr>)"

definition finish_scan :: "manifest \<Rightarrow> scan_collection \<Rightarrow> (scan_error, scan_output) result" where
  "finish_scan m c =
     (let (mds, an) = annotate_modules (manifest_modules m) (collect_findings (manifest_modules m) (co_scans c));
          annotated = m\<lparr>manifest_modules := mds\<rparr>
      in case validate annotated of
           Inl e \<Rightarrow> Inl (ScanManifest e)
         | Inr _ \<Rightarrow>
             Inr \<lparr>sn_manifest = annotated,
                  sn_summary = \<lparr>sm_scanned_modules = length (manifest_modules m), sm_scanned_files = co_files c,
                    sm_missing_sources = sort_key (\<lambda>s. (mi_module s, mi_file s)) (co_missing c),
                    sm_updated_boundaries = sort_key (\<lambda>u. (bu_module u, bu_dependency u)) (an_updates an),
                    sm_conflicts = sort_key (\<lambda>x. (bc_module x, bc_dependency x)) (an_conflicts an),
                    sm_edge_reviews = an_edge_reviews an, sm_module_reviews = an_module_reviews an\<rparr>\<rparr>)"

text \<open>\<open>scan_manifest\<close>: the results it can return, over the interleavings of the pool.\<close>

inductive scans_manifest ::
    "file_system \<Rightarrow> string \<Rightarrow> nat \<Rightarrow> manifest \<Rightarrow> (scan_error, scan_output) result \<Rightarrow> bool"
  for fs source_root parallelism m where
  scan_fails: "scans_modules fs source_root parallelism (manifest_modules m) (Inl e) \<Longrightarrow>
    scans_manifest fs source_root parallelism m (Inl e)"
| scan_ends: "scans_modules fs source_root parallelism (manifest_modules m) (Inr c) \<Longrightarrow>
    scans_manifest fs source_root parallelism m (finish_scan m c)"

end
