(* ===== verification/SourcePool.thy ===== *)
theory SourcePool
  imports Source "HOL-Library.Multiset"
begin

text \<open>
  The worker pool of the source scan: which interleavings there are, that each of them ends, and that the
  result does not depend on the one the scheduler picks.
\<close>

section \<open>One module on its own\<close>

definition scan_alone ::
    "file_system \<Rightarrow> string \<Rightarrow> module \<Rightarrow> (scan_error, module_scan \<times> missing_source list \<times> nat) result" where
  "scan_alone fs root md = scan_module_sources fs root md [] 0"

text \<open>The accumulators of the worker only collect what the module adds.\<close>

fun onto :: "missing_source list \<Rightarrow> nat \<Rightarrow> (scan_error, module_scan \<times> missing_source list \<times> nat) result \<Rightarrow>
    (scan_error, module_scan \<times> missing_source list \<times> nat) result" where
  "onto missing files (Inl e) = Inl e"
| "onto missing files (Inr (scan, new, n)) = Inr (scan, missing @ new, files + n)"

lemma scan_source_file_onto:
  "scan_source_file fs root md s (scan, missing, files) =
     onto missing files (scan_source_file fs root md s (scan, [], 0))"
proof (cases "normalize_repo_relative_path s")
  case None
  then show ?thesis by (simp add: scan_source_file_def)
next
  case (Some relative)
  then show ?thesis
    by (simp add: scan_source_file_def Let_def split: read_outcome.split prod.split)
qed

lemma onto_onto: "onto m f (onto m' f' r) = onto (m @ m') (f + f') r"
  by (cases r rule: sum.exhaust) (auto split: prod.split)

lemma scan_sources_onto:
  "try_fold (scan_source_file fs root md) ss (scan, missing, files) =
     onto missing files (try_fold (scan_source_file fs root md) ss (scan, [], 0))"
proof (induction ss arbitrary: scan missing files)
  case (Cons s ss)
  show ?case
  proof (cases "scan_source_file fs root md s (scan, [], 0)")
    case (Inl e)
    then show ?thesis by (simp add: scan_source_file_onto [of fs root md s scan missing files])
  next
    case (Inr r)
    obtain scan' new n where r: "r = (scan', new, n)" by (cases r)
    have "try_fold (scan_source_file fs root md) (s # ss) (scan, missing, files) =
        onto (missing @ new) (files + n) (try_fold (scan_source_file fs root md) ss (scan', [], 0))"
      by (simp add: scan_source_file_onto [of fs root md s scan missing files] Inr r
          Cons [of scan' "missing @ new"])
    moreover have "try_fold (scan_source_file fs root md) (s # ss) (scan, [], 0) =
        onto new n (try_fold (scan_source_file fs root md) ss (scan', [], 0))"
      by (simp add: Inr r Cons [of scan' new n])
    ultimately show ?thesis by (simp add: onto_onto)
  qed
qed simp

lemma scan_module_onto: "scan_module_sources fs root md missing files = onto missing files (scan_alone fs root md)"
  unfolding scan_module_sources_def scan_alone_def by (rule scan_sources_onto)

text \<open>The modules that can be scanned, and what they add.\<close>

definition scannable :: "file_system \<Rightarrow> string \<Rightarrow> module \<Rightarrow> bool" where
  "scannable fs root md \<longleftrightarrow> (\<exists>r. scan_alone fs root md = Inr r)"

definition scan_of :: "file_system \<Rightarrow> string \<Rightarrow> module \<Rightarrow> module_scan" where
  "scan_of fs root md = (case scan_alone fs root md of Inl _ \<Rightarrow> no_scan | Inr (scan, _) \<Rightarrow> scan)"

definition missing_of :: "file_system \<Rightarrow> string \<Rightarrow> module \<Rightarrow> missing_source list" where
  "missing_of fs root md = (case scan_alone fs root md of Inl _ \<Rightarrow> [] | Inr (_, missing, _) \<Rightarrow> missing)"

definition files_of :: "file_system \<Rightarrow> string \<Rightarrow> module \<Rightarrow> nat" where
  "files_of fs root md = (case scan_alone fs root md of Inl _ \<Rightarrow> 0 | Inr (_, _, n) \<Rightarrow> n)"

lemma collect_module_scannable:
  "scannable fs root md \<Longrightarrow>
   collect_module fs root md c = Inr \<lparr>co_scans = btm_insert (module_id md) (scan_of fs root md) (co_scans c),
     co_missing = co_missing c @ missing_of fs root md, co_files = co_files c + files_of fs root md\<rparr>"
  by (auto simp: scannable_def collect_module_def scan_module_onto scan_of_def missing_of_def files_of_def)

lemma collect_module_fails:
  "\<not> scannable fs root md \<Longrightarrow> \<exists>e. collect_module fs root md c = Inl e"
  by (cases "scan_alone fs root md") (auto simp: scannable_def collect_module_def scan_module_onto)

section \<open>What a worker has prev\<close>

text \<open>The modules a worker has fetched, in order, explain its collection and its status.\<close>

definition gathered :: "file_system \<Rightarrow> string \<Rightarrow> module list \<Rightarrow> scan_collection \<Rightarrow> bool" where
  "gathered fs root mds c \<longleftrightarrow>
     (\<forall>md\<in>set mds. scannable fs root md) \<and> ascending_keys (co_scans c) \<and>
     btm_get (co_scans c) = map_of (rev (map (\<lambda>md. (module_id md, scan_of fs root md)) mds)) \<and>
     mset (co_missing c) = mset (concat (map (missing_of fs root) mds)) \<and>
     co_files c = sum_list (map (files_of fs root) mds)"

definition explains :: "file_system \<Rightarrow> string \<Rightarrow> worker \<Rightarrow> module list \<Rightarrow> bool" where
  "explains fs root worker mds \<longleftrightarrow>
     (case wk_status worker of
        Failed e \<Rightarrow> \<exists>md\<in>set mds. \<not> scannable fs root md
      | _ \<Rightarrow> gathered fs root mds (wk_collection worker))"

lemma gathered_Nil [simp]: "gathered fs root [] no_collection"
  by (simp add: gathered_def no_collection_def)

lemma gathered_snoc:
  assumes "gathered fs root mds c" and "scannable fs root md"
  shows "gathered fs root (mds @ [md]) \<lparr>co_scans = btm_insert (module_id md) (scan_of fs root md) (co_scans c),
    co_missing = co_missing c @ missing_of fs root md, co_files = co_files c + files_of fs root md\<rparr>"
proof -
  note g = assms(1) [unfolded gathered_def]
  have asc: "ascending_keys (co_scans c)" using g by blast
  have "btm_get (btm_insert (module_id md) (scan_of fs root md) (co_scans c)) =
      map_of (rev (map (\<lambda>md. (module_id md, scan_of fs root md)) (mds @ [md])))"
    unfolding get_btm_insert [OF asc] using g by (simp add: fun_upd_def)
  then show ?thesis
    using g assms(2) ascending_btm_insert [OF asc] unfolding gathered_def by simp
qed

lemma explains_snoc:
  assumes "explains fs root worker mds" and "wk_status worker = Running"
  shows "explains fs root
    (case collect_module fs root md (wk_collection worker) of
       Inl e \<Rightarrow> worker\<lparr>wk_status := Failed e\<rparr> | Inr c \<Rightarrow> worker\<lparr>wk_collection := c\<rparr>) (mds @ [md])"
proof (cases "scannable fs root md")
  case True
  have "gathered fs root mds (wk_collection worker)" using assms by (simp add: explains_def)
  from gathered_snoc [OF this True] show ?thesis
    using assms(2) by (simp add: collect_module_scannable [OF True] explains_def)
next
  case False
  then obtain e where "collect_module fs root md (wk_collection worker) = Inl e"
    using collect_module_fails by blast
  then show ?thesis using False by (simp add: explains_def)
qed

text \<open>The invariant of the pool: every index below the counter was fetched by exactly one worker, and a worker
  that finished did so after the last index.\<close>

definition pool_ok :: "file_system \<Rightarrow> string \<Rightarrow> module list \<Rightarrow> pool \<Rightarrow> bool" where
  "pool_ok fs root modules p \<longleftrightarrow>
     (\<exists>jobs. length jobs = length (pl_workers p) \<and>
        mset (concat jobs) = mset (take (pl_next p) modules) \<and>
        (\<forall>w<length jobs. explains fs root (pl_workers p ! w) (jobs ! w))) \<and>
     (\<forall>worker\<in>set (pl_workers p). wk_status worker = Finished \<longrightarrow> length modules \<le> pl_next p)"

lemma mset_concat_update:
  "w < length jobs \<Longrightarrow> mset (concat (jobs[w := jobs ! w @ [x]])) = add_mset x (mset (concat jobs))"
proof (induction jobs arbitrary: w)
  case (Cons j jobs)
  then show ?case by (cases w) simp_all
qed simp

lemma pool_ok_initial: "pool_ok fs root modules (initial_pool k)"
  unfolding pool_ok_def
  by (intro conjI exI [of _ "replicate k []"]) (auto simp: initial_pool_def explains_def concat_replicate_trivial)

lemma pool_ok_step:
  assumes "pool_step fs root modules p q" and "pool_ok fs root modules p"
  shows "pool_ok fs root modules q"
  using assms(1)
proof cases
  case (round w)
  let ?worker = "pl_workers p ! w"
  from assms(2) obtain jobs where jobs: "length jobs = length (pl_workers p)"
      "mset (concat jobs) = mset (take (pl_next p) modules)"
      "\<forall>w<length jobs. explains fs root (pl_workers p ! w) (jobs ! w)"
    and fin: "\<forall>worker\<in>set (pl_workers p). wk_status worker = Finished \<longrightarrow> length modules \<le> pl_next p"
    unfolding pool_ok_def by blast
  note w = round(2,3)
  show ?thesis
  proof (cases "length modules \<le> pl_next p")
    case True
    have q: "q = \<lparr>pl_next = pl_next p + 1, pl_workers = (pl_workers p)[w := ?worker\<lparr>wk_status := Finished\<rparr>]\<rparr>"
      using True by (simp add: round(1) worker_round_def Let_def)
    have "explains fs root ((pl_workers p)[w := ?worker\<lparr>wk_status := Finished\<rparr>] ! v) (jobs ! v)"
      if "v < length jobs" for v
      using jobs(1,3) that w by (cases "v = w") (auto simp: explains_def)
    then show ?thesis
      unfolding pool_ok_def q using jobs(1,2) True by (intro conjI exI [of _ jobs]) auto
  next
    case False
    let ?md = "modules ! pl_next p"
    let ?worker' = "case collect_module fs root ?md (wk_collection ?worker) of
       Inl e \<Rightarrow> ?worker\<lparr>wk_status := Failed e\<rparr> | Inr c \<Rightarrow> ?worker\<lparr>wk_collection := c\<rparr>"
    have q: "q = \<lparr>pl_next = pl_next p + 1, pl_workers = (pl_workers p)[w := ?worker']\<rparr>"
      using False by (simp add: round(1) worker_round_def Let_def)
    let ?jobs = "jobs[w := jobs ! w @ [?md]]"
    have "mset (concat ?jobs) = mset (take (pl_next p + 1) modules)"
      using mset_concat_update [of w jobs ?md] w jobs(1,2) False by (simp add: take_Suc_conv_app_nth)
    moreover have "explains fs root ((pl_workers p)[w := ?worker'] ! v) (?jobs ! v)" if "v < length ?jobs" for v
      using jobs(1,3) that w explains_snoc [of fs root ?worker "jobs ! w" ?md] by (cases "v = w") auto
    moreover have "wk_status worker \<noteq> Finished" if "worker \<in> set ((pl_workers p)[w := ?worker'])" for worker
    proof -
      have "wk_status ?worker' \<noteq> Finished" using w(2) by (simp split: sum.split)
      moreover have "worker = ?worker' \<or> worker \<in> set (pl_workers p)" using that set_update_subset_insert by fastforce
      ultimately show ?thesis using fin False by auto
    qed
    ultimately show ?thesis
      unfolding pool_ok_def q using jobs(1) by (intro conjI exI [of _ ?jobs]) auto
  qed
qed

lemma pool_ok_reachable:
  "(pool_step fs root modules)\<^sup>*\<^sup>* (initial_pool k) p \<Longrightarrow> pool_ok fs root modules p"
  by (induction rule: rtranclp_induct) (auto intro: pool_ok_initial pool_ok_step)

lemma pool_step_length: "pool_step fs root modules p q \<Longrightarrow> length (pl_workers q) = length (pl_workers p)"
  by (auto elim!: pool_step.cases simp: worker_round_def Let_def)

lemma pool_reachable_length:
  "(pool_step fs root modules)\<^sup>*\<^sup>* (initial_pool k) p \<Longrightarrow> length (pl_workers p) = k"
  by (induction rule: rtranclp_induct) (simp_all add: pool_step_length initial_pool_def)

section \<open>Every run ends\<close>

text \<open>A round uses up an index or retires a worker.\<close>

definition rounds_left :: "module list \<Rightarrow> pool \<Rightarrow> nat" where
  "rounds_left modules p =
     (length modules - pl_next p) + length (filter (\<lambda>worker. wk_status worker = Running) (pl_workers p))"

lemma length_filter_update:
  "w < length xs \<Longrightarrow> P (xs ! w) \<Longrightarrow>
   length (filter P (xs[w := x])) = (if P x then length (filter P xs) else length (filter P xs) - 1)"
proof (induction xs arbitrary: w)
  case (Cons y ys)
  then show ?case
  proof (cases w)
    case (Suc v)
    then have "v < length ys" "P (ys ! v)" using Cons.prems by simp_all
    moreover from this have "filter P ys \<noteq> []" by (auto simp: filter_empty_conv)
    ultimately show ?thesis using Suc Cons.IH [of v] by (cases "filter P ys") (auto split: if_splits)
  qed simp
qed simp

lemma rounds_left_decreases:
  assumes "pool_step fs root modules p q"
  shows "rounds_left modules q < rounds_left modules p"
  using assms
proof cases
  case (round w)
  let ?running = "\<lambda>worker. wk_status worker = Running"
  have pos: "0 < length (filter ?running (pl_workers p))"
    using round(2,3) by (auto simp: filter_empty_conv)
  define worker where "worker = (if length modules \<le> pl_next p then (pl_workers p ! w)\<lparr>wk_status := Finished\<rparr>
    else case collect_module fs root (modules ! pl_next p) (wk_collection (pl_workers p ! w)) of
      Inl e \<Rightarrow> (pl_workers p ! w)\<lparr>wk_status := Failed e\<rparr>
    | Inr c \<Rightarrow> (pl_workers p ! w)\<lparr>wk_collection := c\<rparr>)"
  have q: "pl_next q = pl_next p + 1" "pl_workers q = (pl_workers p)[w := worker]"
    unfolding round(1) worker_def worker_round_def Let_def by simp_all
  note upd = length_filter_update [OF round(2), of ?running worker, OF round(3)]
  show ?thesis
  proof (cases "length modules \<le> pl_next p")
    case True
    then have "wk_status worker = Finished" by (simp add: worker_def)
    then show ?thesis using upd pos True by (simp add: rounds_left_def q)
  next
    case False
    have "length (filter ?running (pl_workers q)) \<le> length (filter ?running (pl_workers p))"
      unfolding q upd by simp
    then show ?thesis using False by (simp add: rounds_left_def q)
  qed
qed

lemma pool_not_done: "\<not> pool_done p \<Longrightarrow> \<exists>q. pool_step fs root modules p q"
  by (auto simp: pool_done_def list_all_length intro: pool_step.round)

lemma pool_reaches_done: "\<exists>q. (pool_step fs root modules)\<^sup>*\<^sup>* p q \<and> pool_done q"
proof (induction "rounds_left modules p" arbitrary: p rule: less_induct)
  case less
  show ?case
  proof (cases "pool_done p")
    case False
    then obtain p' where p': "pool_step fs root modules p p'" using pool_not_done by blast
    from less [OF rounds_left_decreases [OF p']] p' show ?thesis
      by (meson converse_rtranclp_into_rtranclp)
  qed blast
qed

section \<open>What the workers bring together\<close>

lemma append_worker_gathered:
  assumes "gathered fs root prev c" and "explains fs root worker mds" and "append_worker worker c = Inr c'"
  shows "gathered fs root (prev @ mds) c'"
proof -
  let ?entry = "\<lambda>md. (module_id md, scan_of fs root md)"
  note g = assms(1) [unfolded gathered_def]
  have c': "c' = \<lparr>co_scans = fold (\<lambda>(i, scan). btm_insert i scan) (co_scans (wk_collection worker)) (co_scans c),
      co_missing = co_missing c @ co_missing (wk_collection worker),
      co_files = co_files c + co_files (wk_collection worker)\<rparr>"
    and w: "gathered fs root mds (wk_collection worker)"
    using assms(2,3) by (auto simp: append_worker_def explains_def split: worker_status.splits)
  note w = w [unfolded gathered_def]
  have asc: "ascending_keys (co_scans c)" and asc': "ascending_keys (co_scans (wk_collection worker))"
    using g w by blast+
  have "distinct (map fst (co_scans (wk_collection worker)))" by (rule ascending_distinct [OF asc'])
  then have "map_of (rev (co_scans (wk_collection worker))) = map_of (co_scans (wk_collection worker))"
    by (intro map_of_inject_set [THEN iffD2]) (simp_all add: rev_map [symmetric])
  moreover have "btm_get (co_scans c) = map_of (rev (map ?entry prev))"
    "btm_get (co_scans (wk_collection worker)) = map_of (rev (map ?entry mds))" using g w by blast+
  ultimately have "btm_get (co_scans c') = map_of (rev (map ?entry (prev @ mds)))"
    by (simp add: c' btm.get_fold [OF asc])
  moreover have "ascending_keys (co_scans c')" by (simp add: c' btm.invar_fold [OF asc])
  ultimately show ?thesis using g w unfolding gathered_def by (simp add: c' ball_Un)
qed

lemma join_workers_gathered:
  "list_all2 (explains fs root) workers jobs \<Longrightarrow> gathered fs root prev c \<Longrightarrow>
   try_fold append_worker workers c = Inr c' \<Longrightarrow> gathered fs root (prev @ concat jobs) c'"
proof (induction workers jobs arbitrary: prev c rule: list_all2_induct)
  case (Cons worker workers mds jobs)
  from Cons.prems(2) obtain u where u: "append_worker worker c = Inr u" "try_fold append_worker workers u = Inr c'"
    by (auto split: sum.splits)
  from Cons.IH [OF append_worker_gathered [OF Cons.prems(1) Cons.hyps(1) u(1)] u(2)]
  show ?case by simp
qed simp

lemma join_workers_Inl:
  "try_fold append_worker workers c = Inl e \<Longrightarrow> \<exists>worker\<in>set workers. wk_status worker = Failed e"
  by (induction workers arbitrary: c)
    (auto split: sum.splits simp: append_worker_def split: worker_status.splits)

lemma join_workers_Failed:
  "worker \<in> set workers \<Longrightarrow> wk_status worker = Failed e \<Longrightarrow> \<exists>e'. try_fold append_worker workers c = Inl e'"
proof (induction workers arbitrary: c)
  case (Cons x xs)
  then show ?case by (cases "append_worker x c") (auto simp: append_worker_def)
qed simp

text \<open>The result of a finished pool: an error exactly when some module cannot be scanned, and otherwise
  what scanning the modules in any order brings together.\<close>

lemma finished_pool:
  assumes run: "(pool_step fs root modules)\<^sup>*\<^sup>* (initial_pool k) p" and finished: "pool_done p" and "0 < k"
  shows "if \<forall>md\<in>set modules. scannable fs root md
    then \<exists>c mds. join_workers (pl_workers p) = Inr c \<and> mset mds = mset modules \<and> gathered fs root mds c
    else \<exists>e. join_workers (pl_workers p) = Inl e"
proof -
  from pool_ok_reachable [OF run] obtain jobs where jobs: "length jobs = length (pl_workers p)"
      "mset (concat jobs) = mset (take (pl_next p) modules)"
      "\<forall>w<length jobs. explains fs root (pl_workers p ! w) (jobs ! w)"
    and fin: "\<forall>worker\<in>set (pl_workers p). wk_status worker = Finished \<longrightarrow> length modules \<le> pl_next p"
    unfolding pool_ok_def by blast
  have all: "list_all2 (explains fs root) (pl_workers p) jobs" using jobs(1,3) by (simp add: list_all2_conv_all_nth)
  show ?thesis
  proof (cases "\<exists>worker\<in>set (pl_workers p). \<exists>e. wk_status worker = Failed e")
    case True
    then obtain w e where w: "w < length jobs" "wk_status (pl_workers p ! w) = Failed e"
      using jobs(1) by (auto simp: in_set_conv_nth)
    then have "explains fs root (pl_workers p ! w) (jobs ! w)" using jobs(3) by blast
    then obtain md where "md \<in> set (jobs ! w)" "\<not> scannable fs root md" using w(2) by (auto simp: explains_def)
    moreover from this w(1) have "md \<in> set (concat jobs)" by auto
    then have "md \<in> set modules"
      using mset_eq_setD [OF jobs(2)] in_set_takeD by fastforce
    ultimately have no: "\<not> (\<forall>md\<in>set modules. scannable fs root md)" by blast
    have "\<exists>e. join_workers (pl_workers p) = Inl e"
      using True join_workers_Failed unfolding join_workers_def by blast
    then show ?thesis unfolding if_not_P [OF no] .
  next
    case False
    have "pl_workers p \<noteq> []" using pool_reachable_length [OF run] \<open>0 < k\<close> by auto
    then have "hd (pl_workers p) \<in> set (pl_workers p)" by simp
    moreover from this have "wk_status (hd (pl_workers p)) = Finished"
      using False finished by (cases "wk_status (hd (pl_workers p))") (auto simp: pool_done_def list_all_iff)
    ultimately have "length modules \<le> pl_next p" using fin by blast
    then have perm: "mset (concat jobs) = mset modules" using jobs(2) by simp
    obtain c where c: "join_workers (pl_workers p) = Inr c"
      using join_workers_Inl [of "pl_workers p" no_collection] False
      by (cases "join_workers (pl_workers p)") (auto simp: join_workers_def)
    from join_workers_gathered [OF all gathered_Nil c [unfolded join_workers_def]]
    have g: "gathered fs root (concat jobs) c" by simp
    then have "\<forall>md\<in>set modules. scannable fs root md"
      unfolding gathered_def mset_eq_setD [OF perm] by blast
    then show ?thesis using c g perm by auto
  qed
qed

section \<open>The result does not depend on the run\<close>

lemma ascending_keys_eqI:
  assumes "ascending_keys m" and "ascending_keys m'" and "btm_get m = btm_get m'"
  shows "m = m'"
proof -
  have "set m = set m'"
    using assms(3) btm.get_Some_iff [OF assms(1)] btm.get_Some_iff [OF assms(2)] by (metis subset_antisym subrelI)
  moreover have "distinct (map fst m)" "distinct (map fst m')"
    using assms(1,2) by (auto intro: ascending_distinct)
  moreover have "sorted (map fst m)" "sorted (map fst m')"
    using assms(1,2) by (auto simp: strict_sorted_iff)
  ultimately show ?thesis
    by (intro map_sorted_distinct_set_unique [of fst]) (auto simp: distinct_map)
qed

lemma gathered_unique:
  assumes "gathered fs root mds c" and "gathered fs root mds' c'"
    and perm: "mset mds = mset mds'" and "distinct (map module_id mds)"
  shows "co_scans c = co_scans c'" and "co_files c = co_files c'" and "mset (co_missing c) = mset (co_missing c')"
proof -
  let ?entry = "\<lambda>md. (module_id md, scan_of fs root md)"
  note g = assms(1) [unfolded gathered_def] and g' = assms(2) [unfolded gathered_def]
  have "distinct (map module_id mds')"
    using assms(4) mset_eq_imp_distinct_iff [of "map module_id mds" "map module_id mds'"] perm by simp
  then have "map_of (rev (map ?entry mds)) = map_of (rev (map ?entry mds'))"
    using assms(4) mset_eq_setD [OF perm]
    by (intro map_of_inject_set [THEN iffD2]) (simp_all add: rev_map [symmetric] comp_def)
  moreover have "ascending_keys (co_scans c)" "ascending_keys (co_scans c')"
    "btm_get (co_scans c) = map_of (rev (map ?entry mds))" "btm_get (co_scans c') = map_of (rev (map ?entry mds'))"
    using g g' by blast+
  ultimately show "co_scans c = co_scans c'" using ascending_keys_eqI by metis
  have "sum_list (map (files_of fs root) mds) = sum_list (map (files_of fs root) mds')"
    using arg_cong [OF perm, of "\<lambda>M. sum_mset (image_mset (files_of fs root) M)"]
    by (simp only: mset_map [symmetric] sum_mset_sum_list)
  then show "co_files c = co_files c'" using g g' by simp
  have "mset (concat (map (missing_of fs root) mds)) = mset (concat (map (missing_of fs root) mds'))"
    using arg_cong [OF perm, of "\<lambda>M. sum_mset (image_mset mset (image_mset (missing_of fs root) M))"]
    by (simp only: mset_map [symmetric] mset_concat map_map [symmetric] sum_mset_sum_list)
  then show "mset (co_missing c) = mset (co_missing c')" using g g' by simp
qed

lemma sort_key_mset_eq:
  assumes "mset xs = mset ys" and "inj key"
  shows "sort_key key xs = sort_key key ys"
proof -
  have "map key (sort_key key xs) = map key (sort_key key ys)"
    by (rule properties_for_sort [of _ "map key (sort_key key ys)", THEN sym, THEN trans])
      (simp_all add: assms(1) properties_for_sort)
  then show ?thesis using assms(2) by simp
qed

lemma missing_key_inj: "inj (\<lambda>s :: missing_source. (mi_module s, mi_file s))"
  by (rule injI) simp

lemma finish_scan_cong:
  assumes "co_scans c = co_scans c'" and "co_files c = co_files c'" and "mset (co_missing c) = mset (co_missing c')"
  shows "finish_scan m c = finish_scan m c'"
  unfolding finish_scan_def assms(1,2) sort_key_mset_eq [OF assms(3) missing_key_inj] ..

lemma annotate_modules_ids: "map module_id (fst (annotate_modules mds found)) = map module_id mds"
proof -
  have "map module_id (fst (fold annotate_module mds (done0, an))) = map module_id done0 @ map module_id mds" for done0 an
    by (induction mds arbitrary: done0 an) (auto simp: annotate_module_def Let_def split: prod.split)
  then show ?thesis by (simp add: annotate_modules_def)
qed

lemma finish_scan_valid:
  assumes "finish_scan m c = Inr out"
  shows "sn_manifest out = m\<lparr>manifest_modules :=
      fst (annotate_modules (manifest_modules m) (collect_findings (manifest_modules m) (co_scans c)))\<rparr>"
    and "validation_errors (sn_manifest out) = []"
proof -
  obtain mds an where an: "annotate_modules (manifest_modules m)
      (collect_findings (manifest_modules m) (co_scans c)) = (mds, an)" by fastforce
  have "sn_manifest out = m\<lparr>manifest_modules := mds\<rparr> \<and> validate (m\<lparr>manifest_modules := mds\<rparr>) = Inr ()"
    using assms unfolding finish_scan_def an Let_def split_conv
    by (cases "validate (m\<lparr>manifest_modules := mds\<rparr>)") auto
  then show "sn_manifest out = m\<lparr>manifest_modules :=
      fst (annotate_modules (manifest_modules m) (collect_findings (manifest_modules m) (co_scans c)))\<rparr>"
    and "validation_errors (sn_manifest out) = []"
    by (auto simp: an validate_def Let_def split: if_splits)
qed

lemma finish_scan_distinct:
  assumes "finish_scan m c = Inr out"
  shows "distinct (map module_id (manifest_modules m))"
proof -
  from finish_scan_valid [OF assms] have "valid_manifest (sn_manifest out)"
    by (simp add: validation_errors_clean)
  then have "distinct (map module_id (manifest_modules (sn_manifest out)))" by (simp add: valid_manifest_def)
  then show ?thesis by (simp add: finish_scan_valid(1) [OF assms] annotate_modules_ids)
qed

lemma scans_modules_cases:
  assumes "scans_modules fs root k modules r" and "0 < k"
  shows "if \<forall>md\<in>set modules. scannable fs root md
    then \<exists>c mds. r = Inr c \<and> mset mds = mset modules \<and> gathered fs root mds c
    else \<exists>e. r = Inl e"
  using assms(1)
proof cases
  case no_modules
  then show ?thesis using gathered_Nil by auto
next
  case (pooled p)
  have "0 < worker_count k modules"
    using pooled(2) assms(2) by (simp add: worker_count_def max_scan_workers_def)
  from finished_pool [OF pooled(3,4) this] show ?thesis unfolding pooled(1) .
qed

lemma scans_modules_ends: "\<exists>r. scans_modules fs root k modules r"
proof (cases "modules = []")
  case True
  then show ?thesis using scans_modules.no_modules by blast
next
  case False
  obtain p where "(pool_step fs root modules)\<^sup>*\<^sup>* (initial_pool (worker_count k modules)) p" "pool_done p"
    using pool_reaches_done by blast
  from scans_modules.pooled [OF False this] show ?thesis by blast
qed

inductive_cases scans_manifest_InrE: "scans_manifest fs root k m (Inr out)"

lemma scans_manifest_unique:
  assumes "scans_manifest fs root k m (Inr out)" and "0 < k" and "scans_manifest fs root k' m r" and "0 < k'"
  shows "r = Inr out"
  using assms(1)
proof (rule scans_manifest_InrE)
  fix c assume c: "Inr out = finish_scan m c" "scans_modules fs root k (manifest_modules m) (Inr c)"
  from scans_modules_cases [OF c(2) assms(2)] obtain mds where
    all: "\<forall>md\<in>set (manifest_modules m). scannable fs root md"
    and g: "mset mds = mset (manifest_modules m)" "gathered fs root mds c" by (auto split: if_splits)
  have "distinct (map module_id (manifest_modules m))" using finish_scan_distinct c(1) by metis
  then have d: "distinct (map module_id mds)" using g(1) by (metis mset_eq_imp_distinct_iff mset_map)
  from assms(3) obtain r' where r': "scans_modules fs root k' (manifest_modules m) r'"
    and r: "r = (case r' of Inl e \<Rightarrow> Inl e | Inr c' \<Rightarrow> finish_scan m c')"
    by cases auto
  from scans_modules_cases [OF r' assms(4)] all obtain c' mds' where
    c': "r' = Inr c'" "mset mds' = mset (manifest_modules m)" "gathered fs root mds' c'" by auto
  note eq = gathered_unique [OF g(2) c'(3) trans [OF g(1) c'(2) [symmetric]] d]
  have "finish_scan m c = finish_scan m c'" by (rule finish_scan_cong [OF eq])
  then show "r = Inr out" using r c' c(1) by simp
qed

text \<open>Runs along a given schedule, for concrete cases.\<close>

fun schedule_ok :: "file_system \<Rightarrow> string \<Rightarrow> module list \<Rightarrow> nat list \<Rightarrow> pool \<Rightarrow> bool" where
  "schedule_ok fs root modules [] p = pool_done p"
| "schedule_ok fs root modules (w # ws) p =
     (w < length (pl_workers p) \<and> wk_status (pl_workers p ! w) = Running \<and>
      schedule_ok fs root modules ws (worker_round fs root modules w p))"

lemma schedule_run:
  "schedule_ok fs root modules ws p \<Longrightarrow>
   (pool_step fs root modules)\<^sup>*\<^sup>* p (fold (worker_round fs root modules) ws p) \<and>
   pool_done (fold (worker_round fs root modules) ws p)"
proof (induction ws arbitrary: p)
  case (Cons w ws)
  then have "pool_step fs root modules p (worker_round fs root modules w p)"
    by (simp add: pool_step.round)
  with Cons show ?case by (simp add: converse_rtranclp_into_rtranclp)
qed simp

lemma scans_schedule:
  assumes "schedule_ok fs root (manifest_modules m) schedule (initial_pool (worker_count k (manifest_modules m)))"
    and "manifest_modules m \<noteq> []"
    and "and_then (join_workers (pl_workers (fold (worker_round fs root (manifest_modules m)) schedule
      (initial_pool (worker_count k (manifest_modules m)))))) (finish_scan m) = Inr out"
  shows "scans_manifest fs root k m (Inr out)"
proof -
  let ?p = "fold (worker_round fs root (manifest_modules m)) schedule (initial_pool (worker_count k (manifest_modules m)))"
  from assms(3) obtain c where c: "join_workers (pl_workers ?p) = Inr c" "finish_scan m c = Inr out"
    by (auto simp: and_then_Inr_iff)
  have "scans_modules fs root k (manifest_modules m) (Inr c)"
    using scans_modules.pooled [OF assms(2), of fs root k ?p] schedule_run [OF assms(1)] c(1) by simp
  from scan_ends [OF this] c(2) show ?thesis by simp
qed

section \<open>Properties\<close>

text \<open>C6: the scan of a manifest gives the same output, or no output, under every interleaving of its workers and
  for every number of processors: once some run succeeds, all runs return its manifest and its summary.\<close>

theorem scan_manifest_deterministic:
  assumes "scans_manifest fs source_root parallelism m (Inr out)" and "0 < parallelism"
    and "scans_manifest fs source_root parallelism' m r" and "0 < parallelism'"
  shows "r = Inr out"
  using assms by (rule scans_manifest_unique)

text \<open>C34: the pool always finishes: a run has no more rounds than modules and workers together, and from
  wherever it has got, every worker can be brought to an end, whatever was scheduled before.\<close>

theorem scan_pool_ends:
  assumes "(pool_step fs source_root modules ^^ n) (initial_pool k) p"
  shows "n \<le> length modules + k \<and> (\<exists>q. (pool_step fs source_root modules)\<^sup>*\<^sup>* p q \<and> pool_done q)"
proof
  have "(pool_step fs source_root modules ^^ n) q p \<Longrightarrow> n + rounds_left modules p \<le> rounds_left modules q" for q
  proof (induction n arbitrary: p)
    case (Suc n)
    then obtain p' where p': "(pool_step fs source_root modules ^^ n) q p'" "pool_step fs source_root modules p' p"
      by auto
    show ?case using Suc.IH [OF p'(1)] rounds_left_decreases [OF p'(2)] by simp
  qed simp
  from this [OF assms] show "n \<le> length modules + k"
    by (simp add: rounds_left_def initial_pool_def)
  show "\<exists>q. (pool_step fs source_root modules)\<^sup>*\<^sup>* p q \<and> pool_done q" by (rule pool_reaches_done)
qed

text \<open>Two modules, each with one source that is there and one that is not.\<close>

definition pool_checkout :: file_system where
  "pool_checkout =
     \<lparr>fs_nodes = [([''r''], Directory), ([''r'', ''a.cc''], RegularFile ''int f();''),
        ([''r'', ''b.cc''], RegularFile ''x'')], fs_cwd = []\<rparr>"

definition pool_manifest :: manifest where
  "pool_manifest =
     \<lparr>schema_version = supported_schema_version,
      manifest_project = \<lparr>project_name = ''p'', project_upstream = ''u'', project_baseline = ''b''\<rparr>,
      manifest_inventory = None, manifest_targets = [], manifest_gates = [],
      manifest_modules =
        [(example_module ''m'' [])\<lparr>module_sources := [''a.cc'', ''c.cc'']\<rparr>,
         (example_module ''n'' [])\<lparr>module_sources := [''d.cc'', ''b.cc'']\<rparr>]\<rparr>"

definition pool_after :: "nat list \<Rightarrow> pool" where
  "pool_after schedule =
     fold (worker_round pool_checkout ''/r'' (manifest_modules pool_manifest)) schedule (initial_pool 2)"

lemma scan_manifest_deterministic_witness:
  "\<exists>out. and_then (join_workers (pl_workers (pool_after [0, 1, 0, 1]))) (finish_scan pool_manifest) = Inr out \<and>
     and_then (join_workers (pl_workers (pool_after [1, 1, 1, 0]))) (finish_scan pool_manifest) = Inr out \<and>
     sm_scanned_files (sn_summary out) = 2"
proof -
  let ?r = "\<lambda>schedule. and_then (join_workers (pl_workers (pool_after schedule))) (finish_scan pool_manifest)"
  let ?ok = "\<lambda>schedule. schedule_ok pool_checkout ''/r'' (manifest_modules pool_manifest) schedule (initial_pool 2)"
  have ok: "?ok [0, 1, 0, 1]" "?ok [1, 1, 1, 0]" by code_simp+
  have n: "\<not> isl (?r [0, 1, 0, 1])" "\<not> isl (?r [1, 1, 1, 0])"
    "sm_scanned_files (sn_summary (projr (?r [0, 1, 0, 1]))) = 2" by code_simp+
  obtain out out' where r: "?r [0, 1, 0, 1] = Inr out" "?r [1, 1, 1, 0] = Inr out'"
    using n(1,2) by (cases "?r [0, 1, 0, 1]"; cases "?r [1, 1, 1, 0]") auto
  have two: "worker_count 2 (manifest_modules pool_manifest) = 2" "manifest_modules pool_manifest \<noteq> []"
    by (simp_all add: pool_manifest_def worker_count_def max_scan_workers_def)
  note run = scans_schedule [of pool_checkout "''/r''" pool_manifest _ 2, unfolded two(1), OF _ two(2), folded pool_after_def]
  have "Inr out' = (Inr out :: (scan_error, scan_output) result)"
    by (rule scan_manifest_deterministic [OF run [OF ok(1) r(1)] _ run [OF ok(2) r(2)]]) simp_all
  then show ?thesis using r n(3) by simp
qed

lemma scan_pool_ends_witness:
  "(pool_step pool_checkout ''/r'' (manifest_modules pool_manifest) ^^ 1) (initial_pool 2) (pool_after [0]) \<and>
   (1 :: nat) \<le> length (manifest_modules pool_manifest) + 2"
proof -
  have "pool_step pool_checkout ''/r'' (manifest_modules pool_manifest) (initial_pool 2)
      (worker_round pool_checkout ''/r'' (manifest_modules pool_manifest) 0 (initial_pool 2))"
    by (rule pool_step.round) (simp_all add: initial_pool_def)
  then have "(pool_step pool_checkout ''/r'' (manifest_modules pool_manifest) ^^ 1) (initial_pool 2) (pool_after [0])"
    unfolding relpowp_1 by (simp add: pool_after_def)
  with scan_pool_ends [OF this] show ?thesis by blast
qed

end
