(* ===== verification/SourceCorrect.thy ===== *)
theory SourceCorrect
  imports SourcePool
begin

text \<open>
  What the scan writes into a manifest: the annotation of each dependency as a function of the findings,
  what counts as evidence for an edge, what is never lost or overridden, and that a second scan of the
  same sources changes nothing.
\<close>

section \<open>The annotation, dependency by dependency\<close>

definition open_boundary :: "boundary \<Rightarrow> bool" where
  "open_boundary b \<longleftrightarrow> b = Unclassified \<or> b = CppInternal"

definition evidence_on :: "findings \<Rightarrow> string \<Rightarrow> dependency \<Rightarrow> boundary_evidence list" where
  "evidence_on found i d = btm_take (i, dep_module d) (fd_evidence found)"

definition with_findings :: "findings \<Rightarrow> string \<Rightarrow> dependency \<Rightarrow> dependency" where
  "with_findings found i d =
     d\<lparr>dep_evidence := merge_evidence (evidence_on found i d) (dep_evidence d),
       dep_reviews := merge_found_reviews (btm_get (fd_edge_reviews found) (i, dep_module d)) (dep_reviews d)\<rparr>"

definition annotated_dependency :: "findings \<Rightarrow> string \<Rightarrow> dependency \<Rightarrow> dependency" where
  "annotated_dependency found i d =
     (case detected_boundaries (evidence_on found i d) of
        [b] \<Rightarrow> if open_boundary (dep_boundary d) then (with_findings found i d)\<lparr>dep_boundary := b\<rparr>
               else with_findings found i d
      | _ \<Rightarrow> with_findings found i d)"

definition update_on :: "findings \<Rightarrow> string \<Rightarrow> dependency \<Rightarrow> boundary_update list" where
  "update_on found i d =
     (case detected_boundaries (evidence_on found i d) of
        [b] \<Rightarrow>
          if open_boundary (dep_boundary d) \<and> dep_boundary d \<noteq> b then
            [\<lparr>bu_module = i, bu_dependency = dep_module d, bu_from = dep_boundary d, bu_to = b,
              bu_evidence_count = length (filter (\<lambda>e. evidence_boundary (evidence_kind e) = b)
                (dep_evidence (with_findings found i d)))\<rparr>]
          else []
      | _ \<Rightarrow> [])"

definition conflict_on :: "findings \<Rightarrow> string \<Rightarrow> dependency \<Rightarrow> boundary_conflict list" where
  "conflict_on found i d =
     (case detected_boundaries (evidence_on found i d) of
        [] \<Rightarrow> []
      | [b] \<Rightarrow> if open_boundary (dep_boundary d) \<or> dep_boundary d = b then [] else [conflict_of i d [b]]
      | bs \<Rightarrow> [conflict_of i d bs])"

definition annotated_module :: "findings \<Rightarrow> module \<Rightarrow> module" where
  "annotated_module found md =
     md\<lparr>module_reviews := merge_found_reviews (btm_get (fd_module_reviews found) (module_id md)) (module_reviews md),
        module_dependencies := map (annotated_dependency found (module_id md)) (module_dependencies md)\<rparr>"

lemma get_btm_remove: "btm_get (btm_remove k m) j = (if j = k then None else btm_get m j)"
  unfolding btm_remove_def by (induction m) auto

lemma btm_take_remove: "btm_take j (btm_remove k m) = (if j = k then [] else btm_take j m)"
  by (simp add: btm_take_def get_btm_remove)

text \<open>Removing a key from the findings does not matter to the keys still to come.\<close>

definition agree_on :: "findings \<Rightarrow> findings \<Rightarrow> (string \<times> string) set \<Rightarrow> bool" where
  "agree_on found found' K \<longleftrightarrow>
     (\<forall>k\<in>K. btm_get (fd_evidence found) k = btm_get (fd_evidence found') k \<and>
        btm_get (fd_edge_reviews found) k = btm_get (fd_edge_reviews found') k)"

lemma annotate_dependency_step:
  assumes agree: "agree_on (an_findings an) found {(i, dep_module d)}"
  shows "\<exists>an'. annotate_dependency i d (ds, an) = (ds @ [annotated_dependency found i d], an') \<and>
    an_updates an' = an_updates an @ update_on found i d \<and>
    an_conflicts an' = an_conflicts an @ conflict_on found i d \<and>
    (\<forall>K. (i, dep_module d) \<notin> K \<longrightarrow> agree_on (an_findings an') (an_findings an) K) \<and>
    fd_module_reviews (an_findings an') = fd_module_reviews (an_findings an)"
proof -
  let ?key = "(i, dep_module d)"
  have ev: "btm_take ?key (fd_evidence (an_findings an)) = evidence_on found i d"
    and rv: "btm_get (fd_edge_reviews (an_findings an)) ?key = btm_get (fd_edge_reviews found) ?key"
    using agree by (simp_all add: agree_on_def evidence_on_def btm_take_def)
  define an1 where "an1 = an\<lparr>an_findings := (an_findings an)\<lparr>fd_evidence := btm_remove ?key (fd_evidence (an_findings an)),
      fd_edge_reviews := btm_remove ?key (fd_edge_reviews (an_findings an))\<rparr>,
    an_edge_reviews := an_edge_reviews an + unresolved_count (dep_reviews (with_findings found i d))\<rparr>"
  have run: "annotate_dependency i d (ds, an) =
      (let (d, an) = decide_boundary i (detected_boundaries (evidence_on found i d)) (with_findings found i d, an1)
       in (ds @ [d], an))"
    unfolding annotate_dependency_def with_findings_def an1_def by (simp add: Let_def ev rv)
  have keep: "dep_boundary (with_findings found i d) = dep_boundary d"
    "dep_module (with_findings found i d) = dep_module d" by (simp_all add: with_findings_def)
  have agree1: "\<forall>K. ?key \<notin> K \<longrightarrow> agree_on (an_findings an1) (an_findings an) K"
    "fd_module_reviews (an_findings an1) = fd_module_reviews (an_findings an)"
    "an_updates an1 = an_updates an" "an_conflicts an1 = an_conflicts an"
    by (auto simp: an1_def agree_on_def get_btm_remove)
  show ?thesis
    unfolding run decide_boundary_def annotated_dependency_def update_on_def conflict_on_def
      conflict_of_def open_boundary_def
    using agree1 keep by (auto simp: Let_def split: list.split)
qed

lemma annotate_dependencies:
  "distinct (map dep_module ds) \<Longrightarrow> agree_on (an_findings an) found ((\<lambda>d. (i, dep_module d)) ` set ds) \<Longrightarrow>
   \<exists>an'. fold (annotate_dependency i) ds (ds0, an) = (ds0 @ map (annotated_dependency found i) ds, an') \<and>
     an_updates an' = an_updates an @ concat (map (update_on found i) ds) \<and>
     an_conflicts an' = an_conflicts an @ concat (map (conflict_on found i) ds) \<and>
     (\<forall>K. (\<lambda>d. (i, dep_module d)) ` set ds \<inter> K = {} \<longrightarrow> agree_on (an_findings an') (an_findings an) K) \<and>
     fd_module_reviews (an_findings an') = fd_module_reviews (an_findings an)"
proof (induction ds arbitrary: ds0 an)
  case Nil
  then show ?case by (auto simp: agree_on_def)
next
  case (Cons d ds)
  have "agree_on (an_findings an) found {(i, dep_module d)}" using Cons.prems(2) by (simp add: agree_on_def)
  from annotate_dependency_step [OF this, of ds0] obtain an1 where
    1: "annotate_dependency i d (ds0, an) = (ds0 @ [annotated_dependency found i d], an1)"
      "an_updates an1 = an_updates an @ update_on found i d"
      "an_conflicts an1 = an_conflicts an @ conflict_on found i d"
      "\<forall>K. (i, dep_module d) \<notin> K \<longrightarrow> agree_on (an_findings an1) (an_findings an) K"
      "fd_module_reviews (an_findings an1) = fd_module_reviews (an_findings an)" by blast
  have "(i, dep_module d) \<notin> (\<lambda>d. (i, dep_module d)) ` set ds" using Cons.prems(1) by auto
  then have "agree_on (an_findings an1) found ((\<lambda>d. (i, dep_module d)) ` set ds)"
    using 1(4) Cons.prems(2) unfolding agree_on_def by simp
  from Cons.IH [OF _ this, of "ds0 @ [annotated_dependency found i d]"] Cons.prems(1) obtain an2 where
    2: "fold (annotate_dependency i) ds (ds0 @ [annotated_dependency found i d], an1) =
        ((ds0 @ [annotated_dependency found i d]) @ map (annotated_dependency found i) ds, an2)"
      "an_updates an2 = an_updates an1 @ concat (map (update_on found i) ds)"
      "an_conflicts an2 = an_conflicts an1 @ concat (map (conflict_on found i) ds)"
      "\<forall>K. (\<lambda>d. (i, dep_module d)) ` set ds \<inter> K = {} \<longrightarrow> agree_on (an_findings an2) (an_findings an1) K"
      "fd_module_reviews (an_findings an2) = fd_module_reviews (an_findings an1)" by auto
  have "agree_on (an_findings an2) (an_findings an) K" if "(\<lambda>d. (i, dep_module d)) ` set (d # ds) \<inter> K = {}" for K
  proof -
    from that have "agree_on (an_findings an2) (an_findings an1) K" "agree_on (an_findings an1) (an_findings an) K"
      using 1(4) 2(4) by auto
    then show ?thesis unfolding agree_on_def by simp
  qed
  then show ?case using 1 2 by simp
qed

definition module_edges :: "module \<Rightarrow> (string \<times> string) set" where
  "module_edges md = (\<lambda>d. (module_id md, dep_module d)) ` set (module_dependencies md)"

lemma annotate_modules_step:
  "distinct (map module_id mds) \<Longrightarrow> \<forall>md\<in>set mds. distinct (map dep_module (module_dependencies md)) \<Longrightarrow>
   agree_on (an_findings an) found (\<Union>md\<in>set mds. module_edges md) \<Longrightarrow>
   \<forall>md\<in>set mds. btm_get (fd_module_reviews (an_findings an)) (module_id md) =
     btm_get (fd_module_reviews found) (module_id md) \<Longrightarrow>
   \<exists>an'. fold annotate_module mds (mds0, an) = (mds0 @ map (annotated_module found) mds, an') \<and>
     an_updates an' = an_updates an @
       concat (map (\<lambda>md. concat (map (update_on found (module_id md)) (module_dependencies md))) mds) \<and>
     an_conflicts an' = an_conflicts an @
       concat (map (\<lambda>md. concat (map (conflict_on found (module_id md)) (module_dependencies md))) mds)"
proof (induction mds arbitrary: mds0 an)
  case (Cons md mds)
  let ?i = "module_id md"
  let ?reviews = "merge_found_reviews (btm_get (fd_module_reviews (an_findings an)) ?i) (module_reviews md)"
  define an0 where "an0 = an\<lparr>an_findings := (an_findings an)\<lparr>fd_module_reviews :=
      btm_remove ?i (fd_module_reviews (an_findings an))\<rparr>,
    an_module_reviews := an_module_reviews an + unresolved_count ?reviews\<rparr>"
  have agree0: "agree_on (an_findings an0) found K \<longleftrightarrow> agree_on (an_findings an) found K" for K
    by (simp add: an0_def agree_on_def)
  have "agree_on (an_findings an0) found ((\<lambda>d. (?i, dep_module d)) ` set (module_dependencies md))"
    using Cons.prems(3) unfolding agree0 by (simp add: agree_on_def module_edges_def)
  from annotate_dependencies [OF _ this, of "[]"] Cons.prems(2) obtain an1 where
    1: "fold (annotate_dependency ?i) (module_dependencies md) ([], an0) =
        (map (annotated_dependency found ?i) (module_dependencies md), an1)"
      "an_updates an1 = an_updates an0 @ concat (map (update_on found ?i) (module_dependencies md))"
      "an_conflicts an1 = an_conflicts an0 @ concat (map (conflict_on found ?i) (module_dependencies md))"
      "\<forall>K. module_edges md \<inter> K = {} \<longrightarrow> agree_on (an_findings an1) (an_findings an0) K"
      "fd_module_reviews (an_findings an1) = fd_module_reviews (an_findings an0)"
    by (auto simp: module_edges_def)
  have "annotated_module found md = md\<lparr>module_reviews := ?reviews,
      module_dependencies := map (annotated_dependency found ?i) (module_dependencies md)\<rparr>"
    using Cons.prems(4) by (simp add: annotated_module_def)
  then have step: "annotate_module md (mds0, an) = (mds0 @ [annotated_module found md], an1)"
    using 1(1) by (simp add: annotate_module_def Let_def an0_def)
  have fresh: "?i \<notin> module_id ` set mds" using Cons.prems(1) by auto
  then have "module_edges md \<inter> (\<Union>md\<in>set mds. module_edges md) = {}" by (auto simp: module_edges_def)
  then have agree1: "agree_on (an_findings an1) found (\<Union>md\<in>set mds. module_edges md)"
    using 1(4) Cons.prems(3) by (auto simp: agree_on_def an0_def)
  have reviews1: "\<forall>x\<in>set mds. btm_get (fd_module_reviews (an_findings an1)) (module_id x) =
      btm_get (fd_module_reviews found) (module_id x)"
  proof
    fix x assume x: "x \<in> set mds"
    then have "module_id x \<noteq> ?i" using fresh image_eqI by metis
    then show "btm_get (fd_module_reviews (an_findings an1)) (module_id x) =
        btm_get (fd_module_reviews found) (module_id x)"
      using Cons.prems(4) x by (simp add: 1(5) an0_def get_btm_remove)
  qed
  from Cons.IH [OF _ _ agree1 reviews1, of "mds0 @ [annotated_module found md]"] Cons.prems(1,2)
  obtain an2 where
    2: "fold annotate_module mds (mds0 @ [annotated_module found md], an1) =
        ((mds0 @ [annotated_module found md]) @ map (annotated_module found) mds, an2)"
      "an_updates an2 = an_updates an1 @
        concat (map (\<lambda>md. concat (map (update_on found (module_id md)) (module_dependencies md))) mds)"
      "an_conflicts an2 = an_conflicts an1 @
        concat (map (\<lambda>md. concat (map (conflict_on found (module_id md)) (module_dependencies md))) mds)" by auto
  then show ?case using step 1(2,3) by (simp add: an0_def)
qed simp

definition unique_edges :: "module list \<Rightarrow> bool" where
  "unique_edges mds \<longleftrightarrow>
     distinct (map module_id mds) \<and> (\<forall>md\<in>set mds. distinct (map dep_module (module_dependencies md)))"

lemma annotate_modules_eq:
  assumes "unique_edges mds"
  shows "\<exists>an. annotate_modules mds found = (map (annotated_module found) mds, an) \<and>
    an_updates an = concat (map (\<lambda>md. concat (map (update_on found (module_id md)) (module_dependencies md))) mds) \<and>
    an_conflicts an = concat (map (\<lambda>md. concat (map (conflict_on found (module_id md)) (module_dependencies md))) mds)"
proof -
  let ?an = "\<lparr>an_findings = found, an_updates = [], an_conflicts = [], an_edge_reviews = 0, an_module_reviews = 0\<rparr>"
  have "agree_on (an_findings ?an) found K" for K by (simp add: agree_on_def)
  from annotate_modules_step [OF _ _ this, of mds "[]"] assms show ?thesis
    unfolding annotate_modules_def unique_edges_def by simp
qed

text \<open>The annotation keeps identifiers and the edges, so a valid result has had unique edges all along.\<close>

lemma annotated_dependency_module [simp]: "dep_module (annotated_dependency found i d) = dep_module d"
  by (auto simp: annotated_dependency_def with_findings_def split: list.split)

lemma annotate_dependency_modules:
  "map dep_module (fst (fold (annotate_dependency i) ds (ds0, an))) = map dep_module ds0 @ map dep_module ds"
proof (induction ds arbitrary: ds0 an)
  case (Cons d ds)
  have "agree_on (an_findings an) (an_findings an) {(i, dep_module d)}" by (simp add: agree_on_def)
  from annotate_dependency_step [OF this, of ds0] obtain an' where
    "annotate_dependency i d (ds0, an) = (ds0 @ [annotated_dependency (an_findings an) i d], an')" by blast
  then show ?case using Cons by simp
qed simp

lemma annotate_modules_edges:
  "list_all2 (\<lambda>md md'. module_id md' = module_id md \<and>
     map dep_module (module_dependencies md') = map dep_module (module_dependencies md))
   mds (fst (annotate_modules mds found))"
proof -
  let ?R = "\<lambda>md md'. module_id md' = module_id md \<and>
     map dep_module (module_dependencies md') = map dep_module (module_dependencies md)"
  have "list_all2 ?R pre mds0 \<Longrightarrow> list_all2 ?R (pre @ mds) (fst (fold annotate_module mds (mds0, an)))" for pre mds0 an
  proof (induction mds arbitrary: pre mds0 an)
    case (Cons md mds)
    obtain md' an' where "annotate_module md (mds0, an) = (mds0 @ [md'], an')" "?R md md'"
    proof -
      let ?an = "an\<lparr>an_findings := (an_findings an)\<lparr>fd_module_reviews := btm_remove (module_id md) (fd_module_reviews (an_findings an))\<rparr>,
        an_module_reviews := an_module_reviews an + unresolved_count
          (merge_found_reviews (btm_get (fd_module_reviews (an_findings an)) (module_id md)) (module_reviews md))\<rparr>"
      obtain ds an1 where ds: "fold (annotate_dependency (module_id md)) (module_dependencies md) ([], ?an) = (ds, an1)"
        by fastforce
      then have "map dep_module ds = map dep_module (module_dependencies md)"
        using annotate_dependency_modules [of "module_id md" "module_dependencies md" "[]" ?an] by simp
      with ds show thesis
        using that [of "md\<lparr>module_reviews := merge_found_reviews
            (btm_get (fd_module_reviews (an_findings an)) (module_id md)) (module_reviews md),
          module_dependencies := ds\<rparr>" an1]
        by (simp add: annotate_module_def Let_def)
    qed
    then show ?case using Cons.IH [of "pre @ [md]" "mds0 @ [md']" an'] Cons.prems by (simp add: list_all2_appendI)
  qed simp
  from this [of "[]" "[]"] show ?thesis by (simp add: annotate_modules_def)
qed

lemma finish_scan_unique_edges:
  assumes "finish_scan m c = Inr out"
  shows "unique_edges (manifest_modules m)"
proof -
  let ?mds = "fst (annotate_modules (manifest_modules m) (collect_findings (manifest_modules m) (co_scans c)))"
  from finish_scan_valid [OF assms] have "valid_manifest (m\<lparr>manifest_modules := ?mds\<rparr>)"
    by (simp add: validation_errors_clean)
  then have ids: "distinct (map module_id ?mds)"
    and deps: "\<forall>md\<in>set ?mds. distinct (map dep_module (module_dependencies md))"
    by (auto simp: valid_manifest_def valid_module_def)
  note edges = annotate_modules_edges [of "manifest_modules m" "collect_findings (manifest_modules m) (co_scans c)"]
  have "distinct (map module_id (manifest_modules m))" using ids by (simp add: annotate_modules_ids)
  moreover have "distinct (map dep_module (module_dependencies md))" if "md \<in> set (manifest_modules m)" for md
  proof -
    from that obtain n where n: "n < length (manifest_modules m)" "manifest_modules m ! n = md"
      by (auto simp: in_set_conv_nth)
    with edges have "n < length ?mds" "map dep_module (module_dependencies (?mds ! n)) = map dep_module (module_dependencies md)"
      by (auto simp: list_all2_conv_all_nth)
    then show ?thesis using deps nth_mem by metis
  qed
  ultimately show ?thesis by (simp add: unique_edges_def)
qed

lemma finish_scan_annotated:
  assumes "finish_scan m c = Inr out"
  defines "found \<equiv> collect_findings (manifest_modules m) (co_scans c)"
  shows "sn_manifest out = m\<lparr>manifest_modules := map (annotated_module found) (manifest_modules m)\<rparr> \<and>
    sm_updated_boundaries (sn_summary out) = sort_key (\<lambda>u. (bu_module u, bu_dependency u))
      (concat (map (\<lambda>md. concat (map (update_on found (module_id md)) (module_dependencies md))) (manifest_modules m))) \<and>
    sm_conflicts (sn_summary out) = sort_key (\<lambda>x. (bc_module x, bc_dependency x))
      (concat (map (\<lambda>md. concat (map (conflict_on found (module_id md)) (module_dependencies md))) (manifest_modules m)))"
proof -
  from annotate_modules_eq [OF finish_scan_unique_edges [OF assms(1)], of found] obtain an where
    an: "annotate_modules (manifest_modules m) found = (map (annotated_module found) (manifest_modules m), an)"
      "an_updates an = concat (map (\<lambda>md. concat (map (update_on found (module_id md)) (module_dependencies md))) (manifest_modules m))"
      "an_conflicts an = concat (map (\<lambda>md. concat (map (conflict_on found (module_id md)) (module_dependencies md))) (manifest_modules m))"
    by blast
  let ?m = "m\<lparr>manifest_modules := map (annotated_module found) (manifest_modules m)\<rparr>"
  show ?thesis
    using assms(1) unfolding finish_scan_def found_def [symmetric] an(1) Let_def split_conv
    by (cases "validate ?m") (auto simp: an(2,3))
qed

section \<open>What counts as evidence\<close>

text \<open>A step on the evidence map that adds \<open>A k\<close> under every key \<open>k\<close>.\<close>

definition adds :: "(boundary_evidence edge_map \<Rightarrow> boundary_evidence edge_map) \<Rightarrow>
    (string \<times> string \<Rightarrow> boundary_evidence set) \<Rightarrow> bool" where
  "adds f A \<longleftrightarrow> (\<forall>m. ascending_keys m \<longrightarrow> ascending_keys (f m) \<and>
     (\<forall>k. set (btm_take k (f m)) = set (btm_take k m) \<union> A k))"

lemma adds_id: "(\<And>k. A k = {}) \<Longrightarrow> adds (\<lambda>m. m) A"
  by (simp add: adds_def)

lemma adds_comp: "adds f A \<Longrightarrow> adds g B \<Longrightarrow> (\<And>k. C k = A k \<union> B k) \<Longrightarrow> adds (\<lambda>m. g (f m)) C"
  unfolding adds_def by (simp add: Un_assoc)

lemma adds_fold:
  assumes "\<And>x. x \<in> set xs \<Longrightarrow> adds (f x) (A x)"
  shows "adds (fold f xs) (\<lambda>k. \<Union>x\<in>set xs. A x k)"
  using assms
proof (induction xs)
  case Nil
  then show ?case by (simp add: adds_def)
next
  case (Cons x xs)
  have "adds (\<lambda>m. fold f xs (f x m)) (\<lambda>k. \<Union>y\<in>set (x # xs). A y k)"
    by (rule adds_comp [of "f x" "A x" _ "\<lambda>k. \<Union>y\<in>set xs. A y k"]) (use Cons in auto)
  then show ?case by (simp add: comp_def)
qed

lemma adds_extend: "adds (btm_extend key xs) (\<lambda>k. if k = key then set xs else {})"
  unfolding adds_def btm_extend_def
  by (auto simp: btm_take_def get_btm_update ascending_btm_update split: option.splits)

definition include_found :: "match_index \<Rightarrow> module \<Rightarrow> include_use \<Rightarrow> string \<times> string \<Rightarrow> boundary_evidence set" where
  "include_found index md use key =
     (if fst key = module_id md \<and> matching_dependencies index md (iu_path use) = [snd key]
      then set (include_evidence (snd key) use) else {})"

lemma collect_include_adds:
  "adds (\<lambda>m. snd (collect_include index md use (referenced, m))) (include_found index md use)"
proof (cases "\<exists>d. matching_dependencies index md (iu_path use) = [d]")
  case True
  then obtain d where d: "matching_dependencies index md (iu_path use) = [d]" by blast
  have "adds (fold (\<lambda>e. btm_extend (module_id md, d) [e]) (include_evidence d use))
      (\<lambda>k. \<Union>e\<in>set (include_evidence d use). if k = (module_id md, d) then set [e] else {})"
    by (rule adds_fold) (rule adds_extend)
  moreover have "(\<lambda>k. \<Union>e\<in>set (include_evidence d use). if k = (module_id md, d) then set [e] else {}) =
      include_found index md use"
    by (auto simp: include_found_def d fun_eq_iff)
  ultimately show ?thesis by (simp add: collect_include_def d)
next
  case False
  then have "collect_include index md use (referenced, m) = (referenced, m)" for m
    by (auto simp: collect_include_def split: list.split)
  moreover have "include_found index md use k = {}" for k using False by (auto simp: include_found_def)
  ultimately show ?thesis by (simp add: adds_def)
qed

lemma collect_includes_adds:
  "adds (\<lambda>m. snd (fold (collect_include index md) uses (referenced, m)))
     (\<lambda>k. \<Union>use\<in>set uses. include_found index md use k)"
proof (induction uses arbitrary: referenced)
  case Nil
  then show ?case by (simp add: adds_def)
next
  case (Cons use uses)
  have fst: "fst (collect_include index md use (referenced, m)) = fst (collect_include index md use (referenced, []))" for m
    by (simp add: collect_include_def split: list.split)
  let ?r = "fst (collect_include index md use (referenced, []))"
  have "adds (\<lambda>m. snd (fold (collect_include index md) uses (?r, snd (collect_include index md use (referenced, m)))))
      (\<lambda>k. \<Union>use\<in>set (use # uses). include_found index md use k)"
    by (rule adds_comp [OF collect_include_adds Cons.IH]) auto
  moreover have "collect_include index md use (referenced, m) =
      (?r, snd (collect_include index md use (referenced, m)))" for m
    using fst [of m] by (metis prod.collapse)
  ultimately show ?case by simp
qed

lemma collect_file_evidence:
  "fd_evidence (collect_file index md fscan found) =
     snd (fold (collect_include index md) (fi_includes fscan) ([], fd_evidence found))"
  unfolding collect_file_def by (auto simp: Let_def split: prod.split list.split)

lemma collect_files_evidence:
  "\<exists>f. adds f (\<lambda>k. \<Union>fscan\<in>set files. \<Union>use\<in>set (fi_includes fscan). include_found index md use k) \<and>
     (\<forall>found. fd_evidence (fold (collect_file index md) files found) = f (fd_evidence found))"
proof (induction files)
  case Nil
  then show ?case by (intro exI [of _ "\<lambda>m. m"]) (simp add: adds_def)
next
  case (Cons fscan files)
  then obtain f where f: "adds f (\<lambda>k. \<Union>fscan\<in>set files. \<Union>use\<in>set (fi_includes fscan). include_found index md use k)"
    "\<forall>found. fd_evidence (fold (collect_file index md) files found) = f (fd_evidence found)" by blast
  have "adds (\<lambda>m. f (snd (fold (collect_include index md) (fi_includes fscan) ([], m))))
      (\<lambda>k. \<Union>fscan\<in>set (fscan # files). \<Union>use\<in>set (fi_includes fscan). include_found index md use k)"
    by (rule adds_comp [OF collect_includes_adds f(1)]) auto
  then show ?case using f(2) by (intro exI conjI) (auto simp: collect_file_evidence)
qed

definition symbol_evidence :: "string \<Rightarrow> string \<Rightarrow> string \<times> source_location \<Rightarrow> boundary_evidence" where
  "symbol_evidence d relation entry =
     BoundaryEvidence CAbiSymbol (sl_file (snd entry)) (sl_line (snd entry))
       (''C ABI symbol `'' @ fst entry @ ''` is '' @ relation @ '' `'' @ d @ ''`'')"

text \<open>The symbols that one side declares and the other defines.\<close>

definition abi_found :: "(string \<times> module_scan) list \<Rightarrow> module_scan \<Rightarrow> string \<Rightarrow> boundary_evidence set" where
  "abi_found scans source d =
     (case btm_get scans d of
        None \<Rightarrow> {}
      | Some target \<Rightarrow>
          symbol_evidence d ''declared here and defined by'' `
            {entry \<in> set (ms_declarations source). fst entry \<in> fst ` set (ms_definitions target)} \<union>
          symbol_evidence d ''defined here and declared by'' `
            {entry \<in> set (ms_definitions source). fst entry \<in> fst ` set (ms_declarations target)})"

lemma insert_c_abi_adds:
  "adds (fold (insert_c_abi_evidence md d relation) entries)
     (\<lambda>k. if k = (module_id md, d) then symbol_evidence d relation ` set entries else {})"
proof -
  have "adds (fold (insert_c_abi_evidence md d relation) entries)
      (\<lambda>k. \<Union>entry\<in>set entries. if k = (module_id md, d) then set [symbol_evidence d relation entry] else {})"
  proof (rule adds_fold)
    fix entry
    have "insert_c_abi_evidence md d relation entry = btm_extend (module_id md, d) [symbol_evidence d relation entry]"
      by (rule ext) (simp add: insert_c_abi_evidence_def symbol_evidence_def)
    then show "adds (insert_c_abi_evidence md d relation entry)
        (\<lambda>k. if k = (module_id md, d) then set [symbol_evidence d relation entry] else {})"
      using adds_extend by simp
  qed
  moreover have "(\<lambda>k. \<Union>entry\<in>set entries. if k = (module_id md, d) then set [symbol_evidence d relation entry] else {}) =
      (\<lambda>k. if k = (module_id md, d) then symbol_evidence d relation ` set entries else {})"
    by (auto simp: fun_eq_iff)
  ultimately show ?thesis by simp
qed

lemma collect_c_abi_dependency_adds:
  "adds (collect_c_abi_dependency md scans source d)
     (\<lambda>k. if k = (module_id md, dep_module d) then abi_found scans source (dep_module d) else {})"
proof (cases "btm_get scans (dep_module d)")
  case None
  then show ?thesis by (simp add: collect_c_abi_dependency_def abi_found_def adds_def)
next
  case (Some target)
  have sel: "(btm_get entries x \<noteq> None) = (x \<in> fst ` set entries)" for entries :: symbols and x
    by (metis domIff dom_map_of_conv_image_fst)
  have run: "collect_c_abi_dependency md scans source d = (\<lambda>m.
      fold (insert_c_abi_evidence md (dep_module d) ''defined here and declared by'')
        (filter (\<lambda>(symbol, _). symbol \<in> fst ` set (ms_declarations target)) (ms_definitions source))
        (fold (insert_c_abi_evidence md (dep_module d) ''declared here and defined by'')
          (filter (\<lambda>(symbol, _). symbol \<in> fst ` set (ms_definitions target)) (ms_declarations source)) m))"
    by (rule ext) (unfold collect_c_abi_dependency_def Some option.case sel, rule refl)
  show ?thesis
    unfolding run
  proof (rule adds_comp [OF insert_c_abi_adds insert_c_abi_adds])
    fix k
    show "(if k = (module_id md, dep_module d) then abi_found scans source (dep_module d) else {}) =
      (if k = (module_id md, dep_module d) then symbol_evidence (dep_module d) ''declared here and defined by'' `
         set (filter (\<lambda>(symbol, _). symbol \<in> fst ` set (ms_definitions target)) (ms_declarations source)) else {}) \<union>
      (if k = (module_id md, dep_module d) then symbol_evidence (dep_module d) ''defined here and declared by'' `
         set (filter (\<lambda>(symbol, _). symbol \<in> fst ` set (ms_declarations target)) (ms_definitions source)) else {})"
      by (simp add: abi_found_def Some case_prod_beta)
  qed
qed

text \<open>All the evidence under an edge.\<close>

definition edge_evidence :: "module list \<Rightarrow> (string \<times> module_scan) list \<Rightarrow> string \<times> string \<Rightarrow> boundary_evidence set" where
  "edge_evidence mds scans key =
     (\<Union>md\<in>{md \<in> set mds. module_id md = fst key}.
        case btm_get scans (fst key) of
          None \<Rightarrow> {}
        | Some scan \<Rightarrow>
            {e. \<exists>fscan\<in>set (ms_files scan). \<exists>use\<in>set (fi_includes fscan).
               matching_dependencies (build_match_index mds) md (iu_path use) = [snd key] \<and>
               e \<in> set (include_evidence (snd key) use)} \<union>
            (if snd key \<in> dep_module ` set (module_dependencies md) then abi_found scans scan (snd key) else {}))"

definition module_found :: "match_index \<Rightarrow> (string \<times> module_scan) list \<Rightarrow> module \<Rightarrow> string \<times> string \<Rightarrow> boundary_evidence set" where
  "module_found index scans md key =
     (case btm_get scans (module_id md) of
        None \<Rightarrow> {}
      | Some scan \<Rightarrow>
          (\<Union>fscan\<in>set (ms_files scan). \<Union>use\<in>set (fi_includes fscan). include_found index md use key) \<union>
          (\<Union>d\<in>set (module_dependencies md).
             if key = (module_id md, dep_module d) then abi_found scans scan (dep_module d) else {}))"

lemma collect_module_evidence:
  "\<exists>f. adds f (module_found index scans md) \<and>
     (\<forall>found. fd_evidence (collect_module_findings index scans md found) = f (fd_evidence found))"
proof (cases "btm_get scans (module_id md)")
  case None
  have "adds (\<lambda>m. m) (module_found index scans md)" by (rule adds_id) (simp add: module_found_def None)
  then show ?thesis by (intro exI conjI) (auto simp: collect_module_findings_def None)
next
  case (Some scan)
  obtain f where f: "adds f (\<lambda>k. \<Union>fscan\<in>set (ms_files scan). \<Union>use\<in>set (fi_includes fscan). include_found index md use k)"
    "\<forall>found. fd_evidence (fold (collect_file index md) (ms_files scan) found) = f (fd_evidence found)"
    using collect_files_evidence by blast
  have abi: "adds (collect_c_abi_evidence md scans) (\<lambda>k. \<Union>d\<in>set (module_dependencies md).
      if k = (module_id md, dep_module d) then abi_found scans scan (dep_module d) else {})"
  proof -
    have "collect_c_abi_evidence md scans = fold (collect_c_abi_dependency md scans scan) (module_dependencies md)"
      by (rule ext) (simp add: collect_c_abi_evidence_def Some)
    then show ?thesis using adds_fold [OF collect_c_abi_dependency_adds] by simp
  qed
  have "adds (\<lambda>m. collect_c_abi_evidence md scans (f m)) (module_found index scans md)"
    by (rule adds_comp [OF f(1) abi]) (simp add: module_found_def Some)
  then show ?thesis
    using f(2) by (intro exI conjI) (auto simp: collect_module_findings_def Some collect_include_evidence_def Let_def)
qed

lemma collect_modules_evidence:
  "\<exists>f. adds f (\<lambda>k. \<Union>md\<in>set mds. module_found index scans md k) \<and>
     (\<forall>found. fd_evidence (fold (collect_module_findings index scans) mds found) = f (fd_evidence found))"
proof (induction mds)
  case Nil
  then show ?case by (intro exI [of _ "\<lambda>m. m"]) (simp add: adds_def)
next
  case (Cons md mds)
  then obtain f where f: "adds f (\<lambda>k. \<Union>md\<in>set mds. module_found index scans md k)"
    "\<forall>found. fd_evidence (fold (collect_module_findings index scans) mds found) = f (fd_evidence found)" by blast
  obtain g where g: "adds g (module_found index scans md)"
    "\<forall>found. fd_evidence (collect_module_findings index scans md found) = g (fd_evidence found)"
    using collect_module_evidence by blast
  have "adds (\<lambda>m. f (g m)) (\<lambda>k. \<Union>md\<in>set (md # mds). module_found index scans md k)"
    by (rule adds_comp [OF g(1) f(1)]) simp
  then show ?case using f(2) g(2) by (intro exI conjI) auto
qed

lemma collect_findings_evidence:
  "set (btm_take key (fd_evidence (collect_findings mds scans))) = edge_evidence mds scans key"
proof -
  let ?index = "build_match_index mds"
  obtain f where f: "adds f (\<lambda>k. \<Union>md\<in>set mds. module_found ?index scans md k)"
    "\<forall>found. fd_evidence (fold (collect_module_findings ?index scans) mds found) = f (fd_evidence found)"
    using collect_modules_evidence by blast
  have "ascending_keys ([] :: boundary_evidence edge_map)" by simp
  then have "set (btm_take key (f [])) = set (btm_take key []) \<union> (\<Union>md\<in>set mds. module_found ?index scans md key)"
    using f(1) unfolding adds_def by blast
  then have "set (btm_take key (f [])) = (\<Union>md\<in>set mds. module_found ?index scans md key)"
    by (simp add: btm_take_def [of _ "[]"])
  moreover have "module_found ?index scans md key = (if module_id md = fst key then
      case btm_get scans (fst key) of
          None \<Rightarrow> {}
        | Some scan \<Rightarrow>
            {e. \<exists>fscan\<in>set (ms_files scan). \<exists>use\<in>set (fi_includes fscan).
               matching_dependencies ?index md (iu_path use) = [snd key] \<and>
               e \<in> set (include_evidence (snd key) use)} \<union>
            (if snd key \<in> dep_module ` set (module_dependencies md) then abi_found scans scan (snd key) else {})
      else {})" for md
    by (cases key) (auto simp: module_found_def include_found_def split: option.splits)
  ultimately show ?thesis
    by (auto simp: collect_findings_def f(2) no_findings_def edge_evidence_def split: if_splits)
qed

section \<open>Merging\<close>

lemma set_merge_evidence [simp]: "set (merge_evidence incoming target) = set incoming \<union> set target"
  by (simp add: merge_evidence_def)

lemma ascending_merge_evidence: "ascending (merge_evidence incoming target)"
  by (simp add: merge_evidence_def ascending_bts_extend)

lemma merge_evidence_again: "merge_evidence incoming (merge_evidence incoming target) = merge_evidence incoming target"
  by (rule bts.elems_eqI) (auto simp: ascending_merge_evidence)

text \<open>The map of reviews: every entry is filed under its own subject.\<close>

definition filed :: "(review_subject \<times> boundary_review) list \<Rightarrow> bool" where
  "filed m \<longleftrightarrow> ascending_keys m \<and> (\<forall>k r. btm_get m k = Some r \<longrightarrow> review_subject r = k)"

lemma filedI: "ascending_keys m \<Longrightarrow> (\<And>k r. btm_get m k = Some r \<Longrightarrow> review_subject r = k) \<Longrightarrow> filed m"
  unfolding filed_def by blast

lemma filedD: "filed m \<Longrightarrow> ascending_keys m" "filed m \<Longrightarrow> btm_get m k = Some r \<Longrightarrow> review_subject r = k"
  unfolding filed_def by blast+

lemma filed_target: "filed (btm_of_list (map (\<lambda>r. (review_subject r, r)) target))"
proof (rule filedI)
  fix k r assume "btm_get (btm_of_list (map (\<lambda>r. (review_subject r, r)) target)) k = Some r"
  then have "(k, r) \<in> set (rev (map (\<lambda>r. (review_subject r, r)) target))"
    unfolding get_btm_of_list by (rule map_of_SomeD)
  then show "review_subject r = k" by auto
qed simp

lemma filed_insert:
  assumes "filed m" and "review_subject r = k"
  shows "filed (btm_insert k r m)"
proof (rule filedI)
  show "ascending_keys (btm_insert k r m)" by (rule ascending_btm_insert [OF filedD(1) [OF assms(1)]])
  fix j q assume "btm_get (btm_insert k r m) j = Some q"
  then show "review_subject q = j"
    using assms(2) filedD(2) [OF assms(1)] unfolding get_btm_insert [OF filedD(1) [OF assms(1)]]
    by (cases "j = k") simp_all
qed

lemma review_subject_resolve_with [simp]: "review_subject (resolve_with review existing) = review_subject existing"
  by (simp add: resolve_with_def review_subject_def)

lemma resolved_resolve_with [simp]:
  "review_resolved (resolve_with review existing) \<longleftrightarrow> review_resolved existing \<or> review_resolved review"
  by (simp add: resolve_with_def)

lemma filed_merge_review: "filed m \<Longrightarrow> filed (merge_review review m)"
  unfolding merge_review_def
  by (cases "btm_get m (review_subject review)") (simp_all add: filed_insert filedD(2))

text \<open>What is filed stays filed, resolved if it was, and what is merged is filed.\<close>

lemma get_merge_review_old:
  "filed m \<Longrightarrow> btm_get m k = Some r \<Longrightarrow>
   \<exists>r'. btm_get (merge_review review m) k = Some r' \<and> (review_resolved r \<longrightarrow> review_resolved r')"
  unfolding merge_review_def
  by (cases "btm_get m (review_subject review)"; cases "k = review_subject review") (simp_all add: filedD(1))

lemma get_merge_review_new:
  "filed m \<Longrightarrow> \<exists>r'. btm_get (merge_review review m) (review_subject review) = Some r' \<and>
     (review_resolved review \<longrightarrow> review_resolved r')"
  unfolding merge_review_def
  by (cases "btm_get m (review_subject review)") (simp_all add: filedD(1))

lemma fold_merge_review:
  "filed m \<Longrightarrow> filed (fold merge_review incoming m) \<and>
     (\<forall>k r. btm_get m k = Some r \<longrightarrow>
        (\<exists>r'. btm_get (fold merge_review incoming m) k = Some r' \<and> (review_resolved r \<longrightarrow> review_resolved r'))) \<and>
     (\<forall>review\<in>set incoming. \<exists>r'. btm_get (fold merge_review incoming m) (review_subject review) = Some r' \<and>
        (review_resolved review \<longrightarrow> review_resolved r'))"
proof (induction incoming arbitrary: m)
  case (Cons x xs)
  let ?m = "merge_review x m" and ?m' = "fold merge_review xs (merge_review x m)"
  from Cons.IH [OF filed_merge_review [OF Cons.prems]]
  have I: "filed ?m'" "\<And>k r. btm_get ?m k = Some r \<Longrightarrow> \<exists>r'. btm_get ?m' k = Some r' \<and> (review_resolved r \<longrightarrow> review_resolved r')"
    "\<And>review. review \<in> set xs \<Longrightarrow>
      \<exists>r'. btm_get ?m' (review_subject review) = Some r' \<and> (review_resolved review \<longrightarrow> review_resolved r')" by blast+
  have "\<exists>r'. btm_get ?m' k = Some r' \<and> (review_resolved r \<longrightarrow> review_resolved r')" if "btm_get m k = Some r" for k r
    using get_merge_review_old [OF Cons.prems that, of x] I(2) by blast
  moreover have "\<exists>r'. btm_get ?m' (review_subject x) = Some r' \<and> (review_resolved x \<longrightarrow> review_resolved r')"
    using get_merge_review_new [OF Cons.prems, of x] I(2) by blast
  ultimately show ?case using I(1,3) by simp
qed simp

lemma merge_review_filed:
  assumes "filed m" and "btm_get m (review_subject review) = Some e" and "review_resolved review \<longrightarrow> review_resolved e"
  shows "merge_review review m = m"
proof -
  have "resolve_with review e = e" using assms(3) by (cases e) (auto simp: resolve_with_def)
  then have "merge_review review m = btm_insert (review_subject review) e m"
    using assms(2) by (simp add: merge_review_def)
  moreover have "btm_insert (review_subject review) e m = m"
    using assms(1,2) filedD(1) [OF assms(1)]
    by (intro ascending_keys_eqI) (simp_all add: ascending_btm_insert fun_upd_idem)
  ultimately show ?thesis by simp
qed

lemma filed_values:
  assumes "filed m"
  shows "btm_of_list (map (\<lambda>r. (review_subject r, r)) (map snd m)) = m"
proof -
  have asc: "ascending_keys m" and sub: "\<And>k r. btm_get m k = Some r \<Longrightarrow> review_subject r = k"
    using filedD [OF assms] by blast+
  have "(review_subject (snd x), snd x) = x" if "x \<in> set m" for x
    using sub [of "fst x" "snd x"] that btm.get_Some_iff [OF asc] by (cases x) auto
  then have "map (\<lambda>r. (review_subject r, r)) (map snd m) = m" by (simp add: map_idI)
  then show ?thesis using btm_of_list_ascending [OF asc] by simp
qed

lemma merge_reviews_again: "merge_reviews incoming (merge_reviews incoming target) = merge_reviews incoming target"
proof -
  let ?m = "fold merge_review incoming (btm_of_list (map (\<lambda>r. (review_subject r, r)) target))"
  note F = fold_merge_review [OF filed_target, of incoming target]
  then have m: "filed ?m"
    and new: "\<forall>review\<in>set incoming. \<exists>r'. btm_get ?m (review_subject review) = Some r' \<and>
      (review_resolved review \<longrightarrow> review_resolved r')" by blast+
  have "fold merge_review xs ?m = ?m" if "set xs \<subseteq> set incoming" for xs
    using that
  proof (induction xs)
    case (Cons x xs)
    then obtain r where "btm_get ?m (review_subject x) = Some r" "review_resolved x \<longrightarrow> review_resolved r"
      using new by auto
    from merge_review_filed [OF m this] Cons show ?case by simp
  qed simp
  then show ?thesis
    unfolding merge_reviews_def filed_values [OF m] by simp
qed

lemma merge_found_again: "merge_found_reviews found (merge_found_reviews found target) = merge_found_reviews found target"
  by (simp add: merge_found_reviews_def merge_reviews_again split: option.split)

text \<open>No review is lost, and a subject all of whose reviews are resolved stays resolved.\<close>

definition reviews_kept :: "boundary_review list \<Rightarrow> boundary_review list \<Rightarrow> bool" where
  "reviews_kept rs rs' \<longleftrightarrow>
     (\<forall>r\<in>set rs. \<exists>r'\<in>set rs'. review_subject r' = review_subject r \<and>
        ((\<forall>q\<in>set rs. review_subject q = review_subject r \<longrightarrow> review_resolved q) \<longrightarrow> review_resolved r'))"

lemma reviews_kept_refl: "reviews_kept rs rs"
  by (auto simp: reviews_kept_def)

lemma merge_reviews_kept: "reviews_kept target (merge_reviews incoming target)"
  unfolding reviews_kept_def
proof
  fix r assume r: "r \<in> set target"
  let ?old = "btm_of_list (map (\<lambda>r. (review_subject r, r)) target)"
  let ?m = "fold merge_review incoming ?old"
  note F = fold_merge_review [OF filed_target, of incoming target]
  have "review_subject r \<in> fst ` set ?old" using r by (simp add: keys_btm_of_list image_image)
  then obtain r0 where r0: "btm_get ?old (review_subject r) = Some r0"
    by (cases "btm_get ?old (review_subject r)") (auto simp: map_of_eq_None_iff)
  then have "map_of (rev (map (\<lambda>r. (review_subject r, r)) target)) (review_subject r) = Some r0"
    by (simp add: get_btm_of_list)
  from map_of_SomeD [OF this] have sub0: "r0 \<in> set target" "review_subject r0 = review_subject r" by auto
  from F r0 obtain r' where r': "btm_get ?m (review_subject r) = Some r'" "review_resolved r0 \<longrightarrow> review_resolved r'"
    by blast
  have "review_subject r' = review_subject r" using F r'(1) filedD(2) by blast
  moreover have "r' \<in> set (merge_reviews incoming target)"
    unfolding merge_reviews_def using map_of_SomeD [OF r'(1)] by force
  ultimately show "\<exists>r'\<in>set (merge_reviews incoming target). review_subject r' = review_subject r \<and>
      ((\<forall>q\<in>set target. review_subject q = review_subject r \<longrightarrow> review_resolved q) \<longrightarrow> review_resolved r')"
    using sub0 r'(2) by blast
qed

lemma merge_found_kept: "reviews_kept target (merge_found_reviews found target)"
  by (simp add: merge_found_reviews_def reviews_kept_refl merge_reviews_kept split: option.split)

section \<open>Scanning the result again\<close>

text \<open>The scan of a module and the findings do not look at what the annotation writes.\<close>

definition same_shape :: "module \<Rightarrow> module \<Rightarrow> bool" where
  "same_shape md md' \<longleftrightarrow> module_id md' = module_id md \<and> module_path md' = module_path md \<and>
     module_sources md' = module_sources md \<and>
     map dep_module (module_dependencies md') = map dep_module (module_dependencies md)"

lemma same_shape_annotated: "same_shape md (annotated_module found md)"
  by (simp add: same_shape_def annotated_module_def comp_def)

lemma same_shapeD:
  assumes "same_shape md md'"
  shows "module_id md' = module_id md" and "module_path md' = module_path md"
    and "module_sources md' = module_sources md"
    and "map dep_module (module_dependencies md') = map dep_module (module_dependencies md)"
  using assms unfolding same_shape_def by blast+

lemma scan_alone_shape: "same_shape md md' \<Longrightarrow> scan_alone fs root md' = scan_alone fs root md"
proof -
  assume shape: "same_shape md md'"
  have "scan_source_file fs root md' = scan_source_file fs root md"
    unfolding scan_source_file_def resolve_source_path_def same_shapeD(1,2) [OF shape] ..
  then show ?thesis unfolding scan_alone_def scan_module_sources_def same_shapeD(3) [OF shape] by simp
qed

lemma gathered_shape:
  assumes "list_all2 same_shape mds mds'"
  shows "gathered fs root mds' c \<longleftrightarrow> gathered fs root mds c"
proof -
  have "map (\<lambda>md. (module_id md, scan_of fs root md)) mds' = map (\<lambda>md. (module_id md, scan_of fs root md)) mds \<and>
    map (missing_of fs root) mds' = map (missing_of fs root) mds \<and> map (files_of fs root) mds' = map (files_of fs root) mds \<and>
    map (scannable fs root) mds' = map (scannable fs root) mds"
    using assms
  proof (induction rule: list_all2_induct)
    case (Cons md mds md' mds')
    note eq = scan_alone_shape [OF Cons.hyps(1)] same_shapeD(1) [OF Cons.hyps(1)]
    have "scan_of fs root md' = scan_of fs root md" "missing_of fs root md' = missing_of fs root md"
      "files_of fs root md' = files_of fs root md" "scannable fs root md' = scannable fs root md"
      unfolding scan_of_def missing_of_def files_of_def scannable_def eq by (rule refl)+
    then show ?case using Cons.IH eq(2) by simp
  qed simp
  note eqs = this
  have "(\<forall>md\<in>set xs. scannable fs root md) \<longleftrightarrow> set (map (scannable fs root) xs) \<subseteq> {True}" for xs
    by auto
  with eqs have "(\<forall>md\<in>set mds'. scannable fs root md) \<longleftrightarrow> (\<forall>md\<in>set mds. scannable fs root md)" by metis
  with eqs show ?thesis unfolding gathered_def by simp
qed

lemma fold_shape:
  assumes "list_all2 R xs ys" and "\<And>x y. R x y \<Longrightarrow> f y = g x"
  shows "fold f ys s = fold g xs s"
  using assms(1) by (induction arbitrary: s rule: list_all2_induct) (simp_all add: assms(2))

lemma build_match_index_shape:
  assumes "list_all2 same_shape mds mds'"
  shows "build_match_index mds' = build_match_index mds"
proof -
  have ids: "map module_id mds' = map module_id mds"
    using assms by (induction rule: list_all2_induct) (simp_all add: same_shape_def)
  have entries: "list_all2 (\<lambda>(n, md) (n', md'). n' = n \<and> same_shape md md') (enumerate k mds) (enumerate k mds')" for k
    using assms by (induction arbitrary: k rule: list_all2_induct) simp_all
  have module: "index_module y = index_module x" if "(\<lambda>(n, md) (n', md'). n' = n \<and> same_shape md md') x y" for x y
    using that by (cases x; cases y) (auto simp: same_shape_def index_module_def fun_eq_iff)
  have deps: "index_dependencies md' = index_dependencies md" if "same_shape md md'" for md md'
  proof -
    have filter: "List.map_filter (\<lambda>d. f (dep_module d)) ds = List.map_filter f (map dep_module ds)"
      for f :: "string \<Rightarrow> nat option" and ds
      by (induction ds) (auto simp: List.map_filter_simps split: option.split)
    show ?thesis
      by (rule ext) (unfold index_dependencies_def filter same_shapeD(1,4) [OF that], rule refl)
  qed
  have "fold index_module (enumerate 0 mds') s = fold index_module (enumerate 0 mds) s" for s
    by (rule fold_shape [OF entries module])
  moreover have "fold index_dependencies mds' s = fold index_dependencies mds s" for s
    by (rule fold_shape [OF assms deps])
  ultimately show ?thesis unfolding build_match_index_def Let_def ids by simp
qed

lemma collect_findings_shape:
  assumes "list_all2 same_shape mds mds'"
  shows "collect_findings mds' scans = collect_findings mds scans"
proof -
  have "collect_module_findings index scans md' = collect_module_findings index scans md" if "same_shape md md'" for index md md'
  proof -
    note eq = same_shapeD [OF that]
    have "collect_include index md' = collect_include index md"
      by (intro ext) (unfold collect_include_def matching_dependencies_def eq(1), rule refl)
    then have "collect_file index md' = collect_file index md"
      by (intro ext) (unfold collect_file_def eq(1), simp)
    then have incl_eq: "collect_include_evidence index md' = collect_include_evidence index md"
      by (intro ext) (simp add: collect_include_evidence_def)
    have abi: "collect_c_abi_dependency md' sc source d' = collect_c_abi_dependency md sc source d"
      if "dep_module d' = dep_module d" for sc source d d'
    proof -
      have ins: "insert_c_abi_evidence md' = insert_c_abi_evidence md"
        by (intro ext) (unfold insert_c_abi_evidence_def eq(1), rule refl)
      show ?thesis by (intro ext) (unfold collect_c_abi_dependency_def that ins, rule refl)
    qed
    have deps: "list_all2 (\<lambda>d d'. dep_module d' = dep_module d) (module_dependencies md) (module_dependencies md')"
      using arg_cong [OF eq(4), of length] arg_cong [OF eq(4), of "\<lambda>xs. xs ! n" for n]
      by (auto simp: list_all2_conv_all_nth) (metis eq(4) nth_map)
    have fold_eq: "fold (collect_c_abi_dependency md' sc source) (module_dependencies md') m =
        fold (collect_c_abi_dependency md sc source) (module_dependencies md) m" for sc source m
      by (rule fold_shape [OF deps abi])
    have abi_eq: "collect_c_abi_evidence md' = collect_c_abi_evidence md"
      by (intro ext) (unfold collect_c_abi_evidence_def eq(1) fold_eq, rule refl)
    show ?thesis
      by (intro ext) (unfold collect_module_findings_def incl_eq abi_eq eq(1), rule refl)
  qed
  then show ?thesis
    unfolding collect_findings_def build_match_index_shape [OF assms] by (intro fold_shape [OF assms])
qed

text \<open>Annotating twice with the same findings is annotating once.\<close>

lemma detected_not_open:
  assumes "b \<in> set (detected_boundaries detected)"
  shows "\<not> open_boundary b"
proof -
  from assms obtain e where "b = evidence_boundary (evidence_kind e)" by (auto simp: detected_boundaries_def)
  then show ?thesis by (cases "evidence_kind e") (simp_all add: open_boundary_def)
qed

lemma with_findings_again: "with_findings found i (with_findings found i d) = with_findings found i d"
  by (simp add: with_findings_def evidence_on_def merge_evidence_again merge_found_again)

lemma annotated_dependency_eq:
  "annotated_dependency found i d = (with_findings found i d)\<lparr>dep_boundary := dep_boundary (annotated_dependency found i d)\<rparr>"
  by (auto simp: annotated_dependency_def with_findings_def split: list.split)

lemma evidence_on_annotated [simp]: "evidence_on found i (annotated_dependency found i d) = evidence_on found i d"
  by (simp add: evidence_on_def)

lemma dep_boundary_annotated:
  "dep_boundary (annotated_dependency found i d) =
     (case detected_boundaries (evidence_on found i d) of
        [b] \<Rightarrow> if open_boundary (dep_boundary d) then b else dep_boundary d | _ \<Rightarrow> dep_boundary d)"
  by (auto simp: annotated_dependency_def with_findings_def split: list.split)

lemma with_findings_boundary: "with_findings found i (d\<lparr>dep_boundary := b\<rparr>) = (with_findings found i d)\<lparr>dep_boundary := b\<rparr>"
  by (simp add: with_findings_def evidence_on_def)

lemma annotated_dependency_again:
  "annotated_dependency found i (annotated_dependency found i d) = annotated_dependency found i d"
proof -
  let ?d = "annotated_dependency found i d"
  have "with_findings found i ?d = with_findings found i ((with_findings found i d)\<lparr>dep_boundary := dep_boundary ?d\<rparr>)"
    by (rule arg_cong [OF annotated_dependency_eq])
  also have "\<dots> = (with_findings found i d)\<lparr>dep_boundary := dep_boundary ?d\<rparr>"
    unfolding with_findings_boundary with_findings_again ..
  also have "\<dots> = ?d" by (rule annotated_dependency_eq [symmetric])
  finally have w: "with_findings found i ?d = ?d" .
  show ?thesis
  proof (cases "\<exists>b. detected_boundaries (evidence_on found i d) = [b]")
    case True
    then obtain b where b: "detected_boundaries (evidence_on found i d) = [b]" by blast
    then have "\<not> open_boundary (dep_boundary ?d)"
      using detected_not_open [of b "evidence_on found i d"] by (auto simp: dep_boundary_annotated)
    then show ?thesis
      unfolding annotated_dependency_def [of found i ?d] evidence_on_annotated b by (simp add: w)
  next
    case False
    then show ?thesis
      unfolding annotated_dependency_def [of found i ?d] evidence_on_annotated by (simp add: w split: list.split)
  qed
qed

lemma update_on_annotated: "update_on found i (annotated_dependency found i d) = []"
  unfolding update_on_def evidence_on_annotated
  using detected_not_open by (auto simp: dep_boundary_annotated split: list.split)

lemma conflict_on_annotated: "conflict_on found i (annotated_dependency found i d) = conflict_on found i d"
  unfolding conflict_on_def evidence_on_annotated
  using detected_not_open by (auto simp: dep_boundary_annotated conflict_of_def open_boundary_def split: list.split)

lemma annotated_module_again: "annotated_module found (annotated_module found md) = annotated_module found md"
  by (simp add: annotated_module_def merge_found_again annotated_dependency_again comp_def)

lemma finish_scan_again:
  assumes "finish_scan m c = Inr out"
  shows "\<exists>out'. finish_scan (sn_manifest out) c = Inr out' \<and> sn_manifest out' = sn_manifest out \<and>
    sm_updated_boundaries (sn_summary out') = [] \<and>
    sm_conflicts (sn_summary out') = sm_conflicts (sn_summary out) \<and>
    sm_missing_sources (sn_summary out') = sm_missing_sources (sn_summary out) \<and>
    sm_scanned_files (sn_summary out') = sm_scanned_files (sn_summary out)"
proof -
  define found where "found = collect_findings (manifest_modules m) (co_scans c)"
  let ?mds = "map (annotated_module found) (manifest_modules m)"
  note A = finish_scan_annotated [OF assms, folded found_def]
  have shape: "list_all2 same_shape (manifest_modules m) ?mds"
    by (simp add: list_all2_conv_all_nth same_shape_annotated)
  have found': "collect_findings (manifest_modules (sn_manifest out)) (co_scans c) = found"
    using collect_findings_shape [OF shape, of "co_scans c"] A by (simp add: found_def)
  have again: "map (annotated_module found) ?mds = ?mds"
    by (simp add: annotated_module_again)
  have "unique_edges ?mds"
    using finish_scan_unique_edges [OF assms]
    by (simp add: unique_edges_def annotated_module_def comp_def)
  from annotate_modules_eq [OF this, of found] obtain an where
    an: "annotate_modules ?mds found = (?mds, an)"
    and upd: "an_updates an = concat (map (\<lambda>md. concat (map (update_on found (module_id md)) (module_dependencies md))) ?mds)"
    and conf: "an_conflicts an = concat (map (\<lambda>md. concat (map (conflict_on found (module_id md)) (module_dependencies md))) ?mds)"
    unfolding again by blast
  have "an_updates an = []"
    unfolding upd by (simp add: annotated_module_def update_on_annotated comp_def concat_eq_Nil_conv)
  moreover have "an_conflicts an =
      concat (map (\<lambda>md. concat (map (conflict_on found (module_id md)) (module_dependencies md))) (manifest_modules m))"
    unfolding conf by (simp add: annotated_module_def conflict_on_annotated comp_def)
  moreover have "sn_manifest out\<lparr>manifest_modules := ?mds\<rparr> = sn_manifest out" "manifest_modules (sn_manifest out) = ?mds"
    using A by simp_all
  moreover have "validate (sn_manifest out) = Inr ()"
    using finish_scan_valid(2) [OF assms] by (simp add: validate_def)
  moreover have "sm_missing_sources (sn_summary out) = sort_key (\<lambda>s. (mi_module s, mi_file s)) (co_missing c)"
    "sm_scanned_files (sn_summary out) = co_files c"
    using assms unfolding finish_scan_def Let_def by (auto split: prod.splits sum.splits)
  ultimately show ?thesis
    using A unfolding finish_scan_def [of "sn_manifest out"] found' by (simp add: an)
qed

section \<open>From the pool to the manifest\<close>

lemma scans_manifest_finish:
  assumes "scans_manifest fs root k m (Inr out)" and "0 < k"
  shows "\<exists>c mds. finish_scan m c = Inr out \<and> mset mds = mset (manifest_modules m) \<and> gathered fs root mds c"
  using assms(1)
proof (rule scans_manifest_InrE)
  fix c assume c: "Inr out = finish_scan m c" "scans_modules fs root k (manifest_modules m) (Inr c)"
  from scans_modules_cases [OF c(2) assms(2)] c(1) show ?thesis by (auto split: if_splits)
qed

lemma distinct_map_perm: "mset xs = mset ys \<Longrightarrow> distinct (map f ys) \<Longrightarrow> distinct (map f xs)"
  by (metis mset_eq_imp_distinct_iff mset_map)

lemma gathered_get:
  assumes "gathered fs root mds c" and "distinct (map module_id mds)" and "md \<in> set mds"
  shows "btm_get (co_scans c) (module_id md) = Some (scan_of fs root md)"
proof -
  have "distinct (map fst (rev (map (\<lambda>md. (module_id md, scan_of fs root md)) mds)))"
    using assms(2) by (simp add: rev_map [symmetric] comp_def)
  then have "map_of (rev (map (\<lambda>md. (module_id md, scan_of fs root md)) mds)) (module_id md) = Some (scan_of fs root md)"
    using assms(3) by (intro map_of_is_SomeI) auto
  then show ?thesis using assms(1) unfolding gathered_def by simp
qed

lemma scan_again:
  assumes "scans_manifest fs root k m (Inr out)" and "0 < k" and "scans_manifest fs root k' (sn_manifest out) r" and "0 < k'"
  shows "\<exists>c out'. finish_scan m c = Inr out \<and> finish_scan (sn_manifest out) c = Inr out' \<and> r = Inr out'"
proof -
  from scans_manifest_finish [OF assms(1,2)] obtain c mds where
    c: "finish_scan m c = Inr out" "mset mds = mset (manifest_modules m)" "gathered fs root mds c" by blast
  define found where "found = collect_findings (manifest_modules m) (co_scans c)"
  let ?mds = "manifest_modules (sn_manifest out)"
  have mods: "?mds = map (annotated_module found) (manifest_modules m)"
    using finish_scan_annotated [OF c(1)] by (simp add: found_def)
  have shape: "list_all2 same_shape mds (map (annotated_module found) mds)"
    by (simp add: list_all2_conv_all_nth same_shape_annotated)
  then have g: "gathered fs root (map (annotated_module found) mds) c" using gathered_shape c(3) by blast
  have perm: "mset (map (annotated_module found) mds) = mset ?mds" by (simp add: mods c(2))
  from assms(3) obtain r' where r': "scans_modules fs root k' ?mds r'"
    and r: "r = (case r' of Inl e \<Rightarrow> Inl e | Inr c' \<Rightarrow> finish_scan (sn_manifest out) c')"
    by cases auto
  have "\<forall>md\<in>set ?mds. scannable fs root md"
    using g mset_eq_setD [OF perm] unfolding gathered_def by blast
  with scans_modules_cases [OF r' assms(4)] obtain c' mds' where
    c': "r' = Inr c'" "mset mds' = mset ?mds" "gathered fs root mds' c'" by auto
  obtain out' where out': "finish_scan (sn_manifest out) c = Inr out'" using finish_scan_again [OF c(1)] by blast
  have "distinct (map module_id ?mds)" by (rule finish_scan_distinct [OF out'])
  then have d: "distinct (map module_id (map (annotated_module found) mds))"
    using perm by (rule distinct_map_perm [rotated])
  note eq = gathered_unique [OF g c'(3) trans [OF perm c'(2) [symmetric]] d]
  have "finish_scan (sn_manifest out) c = finish_scan (sn_manifest out) c'" by (rule finish_scan_cong [OF eq])
  then have "r = Inr out'" using r c'(1) out' by simp
  with c(1) out' show ?thesis by blast
qed

section \<open>Properties\<close>

text \<open>What the evidence \<open>E\<close> found for an edge makes of its dependency.\<close>

definition annotates :: "boundary_evidence set \<Rightarrow> dependency \<Rightarrow> dependency \<Rightarrow> bool" where
  "annotates E d d' \<longleftrightarrow>
     dep_module d' = dep_module d \<and> set (dep_evidence d') = set (dep_evidence d) \<union> E \<and>
     dep_boundary d' =
       (if open_boundary (dep_boundary d) \<and> is_singleton (evidence_boundary ` evidence_kind ` E)
        then the_elem (evidence_boundary ` evidence_kind ` E) else dep_boundary d)"

lemma annotates_dependency:
  "annotates (set (evidence_on found i d)) d (annotated_dependency found i d)"
proof -
  let ?B = "evidence_boundary ` evidence_kind ` set (evidence_on found i d)"
  have set: "set (detected_boundaries (evidence_on found i d)) = ?B"
    by (simp add: detected_boundaries_def image_image)
  have asc: "ascending (detected_boundaries (evidence_on found i d))" by (simp add: detected_boundaries_def)
  have "dep_boundary (annotated_dependency found i d) =
      (if open_boundary (dep_boundary d) \<and> is_singleton ?B then the_elem ?B else dep_boundary d)"
  proof (cases "detected_boundaries (evidence_on found i d)")
    case Nil
    then show ?thesis using set by (simp add: dep_boundary_annotated is_singleton_def)
  next
    case (Cons b bs)
    show ?thesis
    proof (cases bs)
      case Nil
      then have B: "?B = {b}" using set Cons by simp
      show ?thesis unfolding B dep_boundary_annotated Cons Nil by simp
    next
      case (Cons b' bs')
      then have two: "detected_boundaries (evidence_on found i d) = b # b' # bs'"
        using \<open>detected_boundaries (evidence_on found i d) = b # bs\<close> by simp
      then have "b \<noteq> b'" using asc by auto
      then have "\<not> is_singleton ?B" using set two by (auto simp: is_singleton_def)
      then show ?thesis unfolding dep_boundary_annotated two by simp
    qed
  qed
  moreover have "dep_evidence (annotated_dependency found i d) = merge_evidence (evidence_on found i d) (dep_evidence d)"
    by (subst annotated_dependency_eq) (simp add: with_findings_def)
  ultimately show ?thesis by (auto simp: annotates_def)
qed

text \<open>C18: a successful scan adds to each edge exactly the evidence its sources show: includes that resolve to the
  dependency alone, and C ABI symbols that one side declares and the other defines. A boundary is decided
  only when it was open and all the evidence points to one boundary.\<close>

theorem scan_annotates_edges:
  assumes "scans_manifest fs source_root parallelism m (Inr out)" and "0 < parallelism"
  shows "\<exists>scans. (\<forall>md\<in>set (manifest_modules m). btm_get scans (module_id md) = Some (scan_of fs source_root md)) \<and>
    list_all2 (\<lambda>md md'. module_id md' = module_id md \<and>
        list_all2 (\<lambda>d d'. annotates (edge_evidence (manifest_modules m) scans (module_id md, dep_module d)) d d')
          (module_dependencies md) (module_dependencies md'))
      (manifest_modules m) (manifest_modules (sn_manifest out))"
proof -
  from scans_manifest_finish [OF assms] obtain c mds where
    c: "finish_scan m c = Inr out" "mset mds = mset (manifest_modules m)" "gathered fs source_root mds c" by blast
  define found where "found = collect_findings (manifest_modules m) (co_scans c)"
  have "distinct (map module_id mds)"
    by (rule distinct_map_perm [OF c(2) finish_scan_distinct [OF c(1)]])
  then have "\<forall>md\<in>set (manifest_modules m). btm_get (co_scans c) (module_id md) = Some (scan_of fs source_root md)"
    using gathered_get [OF c(3)] mset_eq_setD [OF c(2)] by blast
  moreover have "annotates (edge_evidence (manifest_modules m) (co_scans c) (i, dep_module d)) d (annotated_dependency found i d)" for i d
    using annotates_dependency [of found i d]
    by (simp add: evidence_on_def found_def collect_findings_evidence)
  moreover have "manifest_modules (sn_manifest out) = map (annotated_module found) (manifest_modules m)"
    using finish_scan_annotated [OF c(1)] by (simp add: found_def)
  ultimately show ?thesis
    by (intro exI [of _ "co_scans c"]) (simp add: list_all2_conv_all_nth annotated_module_def)
qed

text \<open>C23: a scan never loses evidence or a review, never reopens a review, never changes a classified boundary,
  and classifies an open one only as a cross-language boundary that recorded evidence supports; everything
  but reviews and dependencies of the modules stays as it was.\<close>

theorem scan_keeps:
  assumes "scans_manifest fs source_root parallelism m (Inr out)" and "0 < parallelism"
  shows "sn_manifest out = m\<lparr>manifest_modules := manifest_modules (sn_manifest out)\<rparr> \<and>
    list_all2 (\<lambda>md md'.
        md' = md\<lparr>module_reviews := module_reviews md', module_dependencies := module_dependencies md'\<rparr> \<and>
        reviews_kept (module_reviews md) (module_reviews md') \<and>
        list_all2 (\<lambda>d d'. set (dep_evidence d) \<subseteq> set (dep_evidence d') \<and>
            reviews_kept (dep_reviews d) (dep_reviews d') \<and>
            (dep_boundary d' = dep_boundary d \<or>
             open_boundary (dep_boundary d) \<and> is_audited_cross_language (dep_boundary d') \<and>
             (\<exists>e\<in>set (dep_evidence d'). evidence_boundary (evidence_kind e) = dep_boundary d')))
          (module_dependencies md) (module_dependencies md'))
      (manifest_modules m) (manifest_modules (sn_manifest out))"
proof -
  from scans_manifest_finish [OF assms] obtain c where c: "finish_scan m c = Inr out" by blast
  define found where "found = collect_findings (manifest_modules m) (co_scans c)"
  have out: "sn_manifest out = m\<lparr>manifest_modules := map (annotated_module found) (manifest_modules m)\<rparr>"
    using finish_scan_annotated [OF c] by (simp add: found_def)
  have dep: "set (dep_evidence d) \<subseteq> set (dep_evidence d') \<and> reviews_kept (dep_reviews d) (dep_reviews d') \<and>
      (dep_boundary d' = dep_boundary d \<or> open_boundary (dep_boundary d) \<and> is_audited_cross_language (dep_boundary d') \<and>
       (\<exists>e\<in>set (dep_evidence d'). evidence_boundary (evidence_kind e) = dep_boundary d'))"
    if d': "d' = annotated_dependency found i d" for i d d'
  proof -
    note A = annotates_dependency [of found i d, folded d', unfolded annotates_def]
    have "dep_reviews d' = merge_found_reviews (btm_get (fd_edge_reviews found) (i, dep_module d)) (dep_reviews d)"
      unfolding d' by (subst annotated_dependency_eq) (simp add: with_findings_def)
    then have "reviews_kept (dep_reviews d) (dep_reviews d')" by (simp add: merge_found_kept)
    moreover have "open_boundary (dep_boundary d) \<and> is_audited_cross_language (dep_boundary d') \<and>
       (\<exists>e\<in>set (dep_evidence d'). evidence_boundary (evidence_kind e) = dep_boundary d')"
      if "dep_boundary d' \<noteq> dep_boundary d"
    proof -
      let ?B = "evidence_boundary ` evidence_kind ` set (evidence_on found i d)"
      from that A have B: "open_boundary (dep_boundary d)" "is_singleton ?B" "dep_boundary d' = the_elem ?B"
        by (auto split: if_splits)
      then have "dep_boundary d' \<in> ?B" by (metis is_singleton_the_elem singletonI)
      then obtain e where e: "e \<in> set (evidence_on found i d)" "evidence_boundary (evidence_kind e) = dep_boundary d'"
        by auto
      then have "is_audited_cross_language (dep_boundary d')" by (metis evidence_boundary.simps boundary_evidence_kind.exhaust is_audited_cross_language.simps(1-3))
      with B(1) e A show ?thesis by blast
    qed
    ultimately show ?thesis using A by blast
  qed
  show ?thesis
    unfolding out
    by (auto simp: list_all2_conv_all_nth annotated_module_def merge_found_kept intro!: dep)
qed

text \<open>C27: a second scan of the same sources leaves the manifest of the first one as it is, reports no new
  boundary and the same conflicts and missing sources.\<close>

theorem scan_idempotent:
  assumes "scans_manifest fs source_root parallelism m (Inr out)" and "0 < parallelism"
    and "scans_manifest fs source_root parallelism' (sn_manifest out) r" and "0 < parallelism'"
  shows "\<exists>out'. r = Inr out' \<and> sn_manifest out' = sn_manifest out \<and>
    sm_updated_boundaries (sn_summary out') = [] \<and>
    sm_conflicts (sn_summary out') = sm_conflicts (sn_summary out) \<and>
    sm_missing_sources (sn_summary out') = sm_missing_sources (sn_summary out)"
proof -
  from scan_again [OF assms] obtain c out' where
    c: "finish_scan m c = Inr out" "finish_scan (sn_manifest out) c = Inr out'" "r = Inr out'" by blast
  with finish_scan_again [OF c(1)] show ?thesis by auto
qed

text \<open>A module that calls a C function which the module it depends on defines.\<close>

definition abi_checkout :: file_system where
  "abi_checkout =
     \<lparr>fs_nodes = [([''r''], Directory), ([''r'', ''a.cc''], RegularFile (extern_c @ '' void f();'')),
        ([''r'', ''b.cc''], RegularFile (extern_c @ '' void f() {}''))], fs_cwd = []\<rparr>"

definition abi_manifest :: manifest where
  "abi_manifest =
     \<lparr>schema_version = supported_schema_version,
      manifest_project = \<lparr>project_name = ''p'', project_upstream = ''u'', project_baseline = ''b''\<rparr>,
      manifest_inventory = None, manifest_targets = [], manifest_gates = [],
      manifest_modules =
        [(example_module ''a'' [''b''])\<lparr>module_sources := [''a.cc'']\<rparr>,
         (example_module ''b'' [])\<lparr>module_sources := [''b.cc'']\<rparr>]\<rparr>"

definition abi_scan :: "manifest \<Rightarrow> (scan_error, scan_output) result" where
  "abi_scan m = and_then (join_workers (pl_workers (fold (worker_round abi_checkout ''/r'' (manifest_modules m)) [0, 0, 0]
     (initial_pool (worker_count 1 (manifest_modules m)))))) (finish_scan m)"

lemma abi_scan_ok: "\<not> isl (abi_scan abi_manifest)"
  by code_simp

lemma abi_scans: "\<exists>out. abi_scan abi_manifest = Inr out \<and> scans_manifest abi_checkout ''/r'' 1 abi_manifest (Inr out)"
proof -
  from abi_scan_ok obtain out where out: "abi_scan abi_manifest = Inr out"
    by (cases "abi_scan abi_manifest") auto
  have "schedule_ok abi_checkout ''/r'' (manifest_modules abi_manifest) [0, 0, 0]
      (initial_pool (worker_count 1 (manifest_modules abi_manifest)))" by code_simp
  from scans_schedule [OF this _ out [unfolded abi_scan_def]] out show ?thesis
    by (intro exI conjI) (simp_all add: abi_manifest_def)
qed

lemma scan_annotates_edges_witness:
  "\<exists>out scans. abi_scan abi_manifest = Inr out \<and>
     map (\<lambda>md. map dep_boundary (module_dependencies md)) (manifest_modules (sn_manifest out)) = [[CAbi], []] \<and>
     list_all2 (\<lambda>md md'. module_id md' = module_id md \<and>
        list_all2 (\<lambda>d d'. annotates (edge_evidence (manifest_modules abi_manifest) scans (module_id md, dep_module d)) d d')
          (module_dependencies md) (module_dependencies md'))
      (manifest_modules abi_manifest) (manifest_modules (sn_manifest out))"
proof -
  obtain out where out: "abi_scan abi_manifest = Inr out"
    "scans_manifest abi_checkout ''/r'' 1 abi_manifest (Inr out)" using abi_scans by blast
  have "map (\<lambda>md. map dep_boundary (module_dependencies md)) (manifest_modules (sn_manifest (projr (abi_scan abi_manifest)))) =
      [[CAbi], []]" by code_simp
  then have "map (\<lambda>md. map dep_boundary (module_dependencies md)) (manifest_modules (sn_manifest out)) = [[CAbi], []]"
    by (simp add: out(1))
  with out(1) scan_annotates_edges [OF out(2)] show ?thesis by auto
qed

lemma scan_keeps_witness:
  "\<exists>out. abi_scan abi_manifest = Inr out \<and>
     sn_manifest out = abi_manifest\<lparr>manifest_modules := manifest_modules (sn_manifest out)\<rparr>"
proof -
  obtain out where out: "abi_scan abi_manifest = Inr out"
    "scans_manifest abi_checkout ''/r'' 1 abi_manifest (Inr out)" using abi_scans by blast
  have "sn_manifest out = abi_manifest\<lparr>manifest_modules := manifest_modules (sn_manifest out)\<rparr>"
    by (rule conjunct1 [OF scan_keeps [OF out(2)]]) simp
  with out(1) show ?thesis by (intro exI conjI)
qed

lemma scan_idempotent_witness:
  "\<exists>out out'. scans_manifest abi_checkout ''/r'' 1 abi_manifest (Inr out) \<and>
     scans_manifest abi_checkout ''/r'' 1 (sn_manifest out) (Inr out') \<and> sn_manifest out' = sn_manifest out"
proof -
  obtain out where out: "scans_manifest abi_checkout ''/r'' 1 abi_manifest (Inr out)" using abi_scans by blast
  obtain r' where r': "scans_modules abi_checkout ''/r'' 1 (manifest_modules (sn_manifest out)) r'"
    using scans_modules_ends by blast
  obtain r where r: "scans_manifest abi_checkout ''/r'' 1 (sn_manifest out) r"
  proof (cases r')
    case (Inl e)
    with r' that scan_fails show thesis by blast
  next
    case (Inr c)
    with r' that scan_ends show thesis by blast
  qed
  from scan_idempotent [OF out _ r] obtain out' where "r = Inr out'" "sn_manifest out' = sn_manifest out" by auto
  with out r show ?thesis by blast
qed

end
