(* ===== verification/Exposure.thy ===== *)
theory Exposure
  imports Checks FileSystem
begin

text \<open>
  \<open>crates/chromifer-migration/src/exposure_measure.rs\<close>: measures the sources that a specification lists,
  the baseline from git and the candidate from the working tree. The TOML and Rust parsers, git, SHA-256
  (as lowercase hexadecimal) and the messages of the operating system are fields of \<open>tools\<close>.
\<close>

section \<open>Specifications, reports and errors\<close>

record exposure_side_spec =
  side_files :: "string list"
  side_methods :: "string list"

record exposure_contract_review =
  review_new_public_api :: "64 word"
  review_new_mojom_methods :: "64 word"

record exposure_source_spec =
  spec_schema_version :: "32 word"
  spec_baseline :: exposure_side_spec
  spec_candidate :: exposure_side_spec
  spec_contract_review :: exposure_contract_review

record exposure_file_measurement =
  ef_side :: string
  ef_path :: string
  ef_language :: string
  ef_sha256 :: string
  ef_production_loc :: "64 word"
  ef_memory_unsafe_loc :: "64 word"
  ef_branch_points :: "64 word"
  ef_raw_pointer_fields :: "64 word"

record exposure_results =
  baseline_memory_unsafe_loc :: "64 word"
  candidate_memory_unsafe_loc :: "64 word"
  baseline_production_loc :: "64 word"
  candidate_production_loc :: "64 word"
  baseline_implementation_files :: "64 word"
  candidate_implementation_files :: "64 word"
  baseline_branch_points :: "64 word"
  candidate_branch_points :: "64 word"
  baseline_raw_pointer_fields :: "64 word"
  candidate_raw_pointer_fields :: "64 word"
  baseline_forwarding_methods :: "64 word"
  candidate_forwarding_methods :: "64 word"
  new_public_api_count :: "64 word"
  new_mojom_method_count :: "64 word"
  measurement_tool_version :: string
  file_hashes_sha256 :: string
  raw_counts_sha256 :: string

record exposure_report =
  report_results :: exposure_results
  report_file_list :: "exposure_file_measurement list"
  report_contract_review :: exposure_contract_review

datatype exposure_error =
    ReadSpec string string
  | ParseSpec string string
  | UnsupportedSpecSchema "32 word" "32 word"
  | InvalidSpec string
  | ReadCandidate string string
  | ReadBaseline string string string
  | ParseRust string string

text \<open>
  What \<open>syn\<close> hands to the visitor: the nodes in the order of the default traversal, with what the visitor
  reads of them. The two numbers of a node are the first and the last line of its span.
\<close>

datatype rust_kind =
    ExprUnsafe
  | ItemFn bool
  | ImplItemFn bool
  | ItemImpl bool
  | ItemTrait bool
  | ItemForeignMod bool
  | ForeignItemFn bool
  | Field bool
  | ExprIf
  | ExprForLoop
  | ExprWhile
  | ExprMatch nat
  | ExprTry
  | OtherNode

datatype rust_node = RustNode rust_kind nat nat "rust_node list"

datatype process_output = LaunchFailed string | Exited bool string string

record tools =
  sha256_text :: "string \<Rightarrow> string"
  spec_from_toml :: "string \<Rightarrow> string + exposure_source_spec"
  io_message :: "string \<Rightarrow> string"
  git_show_output :: "string \<Rightarrow> string \<Rightarrow> process_output"
  parse_rust :: "string \<Rightarrow> string + rust_node list"

definition migration_schema_version :: "32 word" where
  "migration_schema_version = 1"

definition exposure_tool_version :: string where
  "exposure_tool_version = ''chromifer-exposure-v1''"

section \<open>Validation of a specification\<close>

definition is_normal :: "component \<Rightarrow> bool" where
  "is_normal c \<longleftrightarrow> (case c of Normal _ \<Rightarrow> True | _ \<Rightarrow> False)"

definition validate_repo_relative_source_path :: "string \<Rightarrow> (exposure_error, unit) result" where
  "validate_repo_relative_source_path path =
     (if is_blank path \<or> is_absolute (components path) \<or> \<not> list_all is_normal (components path)
      then Inl (InvalidSpec (''source path `'' @ path @ ''` must be a normalized repository-relative path''))
      else Inr ())"

datatype source_language = Cpp | Rust

definition show_language :: "source_language \<Rightarrow> string" where
  "show_language l = (case l of Cpp \<Rightarrow> ''cpp'' | Rust \<Rightarrow> ''rust'')"

definition infer_language :: "string \<Rightarrow> (exposure_error, source_language) result" where
  "infer_language path =
     (case extension path of
        Some e \<Rightarrow>
          if e = ''rs'' then Inr Rust
          else if e \<in> {''c'', ''cc'', ''cpp'', ''cxx'', ''h'', ''hh'', ''hpp''} then Inr Cpp
          else Inl (InvalidSpec (''source `'' @ path @ ''` has unsupported language extension''))
      | None \<Rightarrow> Inl (InvalidSpec (''source `'' @ path @ ''` has unsupported language extension'')))"

definition side_file :: "string \<Rightarrow> string \<Rightarrow> string list \<Rightarrow> (exposure_error, string list) result" where
  "side_file label path files =
     and_then (validate_repo_relative_source_path path) (\<lambda>_.
     if path \<in> set files
     then Inl (InvalidSpec (''duplicate '' @ label @ '' source `'' @ path @ ''`''))
     else and_then (infer_language path) (\<lambda>_. Inr (bts_insert path files)))"

definition side_method :: "string \<Rightarrow> string \<Rightarrow> string list \<Rightarrow> (exposure_error, string list) result" where
  "side_method label method methods =
     (if is_blank method
      then Inl (InvalidSpec (label @ '' cross-language forwarding method must not be empty''))
      else if method \<in> set methods
      then Inl (InvalidSpec
        (''duplicate '' @ label @ '' cross-language forwarding method `'' @ method @ ''`''))
      else Inr (bts_insert method methods))"

definition validate_side :: "string \<Rightarrow> exposure_side_spec \<Rightarrow> (exposure_error, unit) result" where
  "validate_side label side =
     (if side_files side = [] then Inl (InvalidSpec (label @ '' file list must not be empty''))
      else
        and_then (try_fold (side_file label) (side_files side) []) (\<lambda>_.
        and_then (try_fold (side_method label) (side_methods side) []) (\<lambda>_. Inr ())))"

definition validate_spec :: "exposure_source_spec \<Rightarrow> (exposure_error, unit) result" where
  "validate_spec spec =
     (if spec_schema_version spec \<noteq> migration_schema_version
      then Inl (UnsupportedSpecSchema (spec_schema_version spec) migration_schema_version)
      else
        and_then (validate_side ''baseline'' (spec_baseline spec)) (\<lambda>_.
        validate_side ''candidate'' (spec_candidate spec)))"

text \<open>\<open>ExposureSourceSpec::load\<close>\<close>

definition load_spec :: "tools \<Rightarrow> file_system \<Rightarrow> string \<Rightarrow> (exposure_error, exposure_source_spec) result" where
  "load_spec t fs path =
     (case read_to_string fs (components path) of
        None \<Rightarrow> Inl (ReadSpec path (io_message t path))
      | Some source \<Rightarrow>
          (case spec_from_toml t source of
             Inl message \<Rightarrow> Inl (ParseSpec path message)
           | Inr spec \<Rightarrow> and_then (validate_spec spec) (\<lambda>_. Inr spec)))"

section \<open>Comments\<close>

datatype strip_state = Code | StringLiteral | CharLiteral | LineComment | BlockComment

text \<open>
  The loop of \<open>strip_comments\<close> from one character on, with \<open>block_depth\<close> and \<open>escaped\<close>; the result is what
  the rest of the loop pushes, character by character.
\<close>

definition literal_state :: "strip_state \<Rightarrow> string \<Rightarrow> bool \<Rightarrow> string \<Rightarrow> strip_state \<times> bool" where
  "literal_state state quote_mark escaped ch =
     (if escaped then (state, False)
      else if ch = [CHR 0x5C] then (state, True)
      else if ch = quote_mark then (Code, False)
      else (state, False))"

function (sequential) strip_loop ::
    "bool \<Rightarrow> strip_state \<Rightarrow> nat \<Rightarrow> bool \<Rightarrow> string list \<Rightarrow> string list" where
  "strip_loop nested state depth escaped [] = []"
| "strip_loop nested Code depth escaped (ch # rest) =
     (if ch = ''/'' \<and> rest \<noteq> [] \<and> hd rest = ''/''
      then '' '' # '' '' # strip_loop nested LineComment depth escaped (tl rest)
      else if ch = ''/'' \<and> rest \<noteq> [] \<and> hd rest = ''*''
      then '' '' # '' '' # strip_loop nested BlockComment 1 escaped (tl rest)
      else if ch = [CHR 0x22] then ch # strip_loop nested StringLiteral depth False rest
      else if ch = [CHR 0x27] then ch # strip_loop nested CharLiteral depth False rest
      else ch # strip_loop nested Code depth escaped rest)"
| "strip_loop nested StringLiteral depth escaped (ch # rest) =
     (case literal_state StringLiteral [CHR 0x22] escaped ch of
        (state, e) \<Rightarrow> ch # strip_loop nested state depth e rest)"
| "strip_loop nested CharLiteral depth escaped (ch # rest) =
     (case literal_state CharLiteral [CHR 0x27] escaped ch of
        (state, e) \<Rightarrow> ch # strip_loop nested state depth e rest)"
| "strip_loop nested LineComment depth escaped (ch # rest) =
     (if ch = [CHR 0x0A] then ch # strip_loop nested Code depth escaped rest
      else '' '' # strip_loop nested LineComment depth escaped rest)"
| "strip_loop nested BlockComment depth escaped (ch # rest) =
     (if nested \<and> ch = ''/'' \<and> rest \<noteq> [] \<and> hd rest = ''*''
      then '' '' # '' '' # strip_loop nested BlockComment (depth + 1) escaped (tl rest)
      else if ch = ''*'' \<and> rest \<noteq> [] \<and> hd rest = ''/''
      then '' '' # '' '' #
        strip_loop nested (if depth - 1 = 0 then Code else BlockComment) (depth - 1) escaped (tl rest)
      else (if ch = [CHR 0x0A] then ch else '' '') # strip_loop nested BlockComment depth escaped rest)"
  by pat_completeness auto
termination strip_loop
  by (relation "measure (\<lambda>(nested, state, depth, escaped, cs). length cs)") auto

definition strip_comments :: "string \<Rightarrow> bool \<Rightarrow> string" where
  "strip_comments source nested_block_comments =
     concat (strip_loop nested_block_comments Code 0 False (chars source))"

section \<open>Counting\<close>

definition authored_line_numbers :: "string \<Rightarrow> nat list" where
  "authored_line_numbers cleaned =
     map (\<lambda>(index, line). index + 1)
       (filter (\<lambda>(index, line). \<not> is_blank line) (enumerate 0 (lines cleaned)))"

definition branch_keyword :: "string \<Rightarrow> bool" where
  "branch_keyword ident \<longleftrightarrow> ident \<in> {''if'', ''for'', ''while'', ''case'', ''catch''}"

definition flush_ident :: "string \<Rightarrow> 64 word \<Rightarrow> 64 word" where
  "flush_ident ident n = (if branch_keyword ident then n + 1 else n)"

text \<open>A character \<open>_\<close> or an ASCII letter or digit; no other character starts with such a byte.\<close>

definition identifier_char :: "string \<Rightarrow> bool" where
  "identifier_char ch \<longleftrightarrow> (case ch of [c] \<Rightarrow> c = CHR ''_'' \<or> is_ascii_alphanumeric c | _ \<Rightarrow> False)"

fun branch_loop :: "string list \<Rightarrow> string \<Rightarrow> 64 word \<Rightarrow> 64 word" where
  "branch_loop [] ident n = flush_ident ident n"
| "branch_loop (ch # cs) ident n =
     (if identifier_char ch then branch_loop cs (ident @ ch) n
      else branch_loop cs [] (if ch = ''?'' then flush_ident ident n + 1 else flush_ident ident n))"

definition count_cpp_branch_points :: "string \<Rightarrow> 64 word" where
  "count_cpp_branch_points cleaned = branch_loop (chars cleaned) [] 0"

definition raw_pointer_field :: "string \<Rightarrow> bool" where
  "raw_pointer_field raw_line =
     (let line = trim raw_line
      in if \<not> ends_with '';'' line \<or> contains_str ''('' line then False
         else if contains_str ''raw_ptr<'' line \<or> contains_str ''raw_ref<'' line then True
         else
           (let declaration = trim (trim_end_matches '';'' line)
            in case rsplit_once ''*'' declaration of
                 None \<Rightarrow> False
               | Some (before, after) \<Rightarrow>
                   (let name = trim after
                    in name \<noteq> [] \<and> list_all identifier_char (chars name))))"

definition count_cpp_raw_pointer_fields :: "string \<Rightarrow> 64 word" where
  "count_cpp_raw_pointer_fields cleaned = of_nat (length (filter raw_pointer_field (lines cleaned)))"

record rust_metrics =
  rm_unsafe_lines :: "nat list"
  rm_branch_points :: "64 word"
  rm_raw_pointer_fields :: "64 word"

definition mark_span :: "nat \<Rightarrow> nat \<Rightarrow> rust_metrics \<Rightarrow> rust_metrics" where
  "mark_span start stop v =
     v\<lparr>rm_unsafe_lines := bts_extend [start..<Suc (max stop start)] (rm_unsafe_lines v)\<rparr>"

definition mark_if :: "bool \<Rightarrow> nat \<Rightarrow> nat \<Rightarrow> rust_metrics \<Rightarrow> rust_metrics" where
  "mark_if unsafe start stop v = (if unsafe then mark_span start stop v else v)"

definition add_branches :: "nat \<Rightarrow> rust_metrics \<Rightarrow> rust_metrics" where
  "add_branches n v = v\<lparr>rm_branch_points := rm_branch_points v + of_nat n\<rparr>"

text \<open>What each \<open>visit_\<close> method of \<open>RustMetricVisitor\<close> does before it visits the children.\<close>

definition visit_kind :: "rust_kind \<Rightarrow> nat \<Rightarrow> nat \<Rightarrow> rust_metrics \<Rightarrow> rust_metrics" where
  "visit_kind kind start stop v =
     (case kind of
        ExprUnsafe \<Rightarrow> mark_span start stop v
      | ItemFn unsafe \<Rightarrow> mark_if unsafe start stop v
      | ImplItemFn unsafe \<Rightarrow> mark_if unsafe start stop v
      | ItemImpl unsafe \<Rightarrow> mark_if unsafe start stop v
      | ItemTrait unsafe \<Rightarrow> mark_if unsafe start stop v
      | ItemForeignMod unsafe \<Rightarrow> mark_if unsafe start stop v
      | ForeignItemFn unsafe \<Rightarrow> mark_if unsafe start stop v
      | Field pointer \<Rightarrow>
          if pointer then v\<lparr>rm_raw_pointer_fields := rm_raw_pointer_fields v + 1\<rparr> else v
      | ExprIf \<Rightarrow> add_branches 1 v
      | ExprForLoop \<Rightarrow> add_branches 1 v
      | ExprWhile \<Rightarrow> add_branches 1 v
      | ExprMatch arms \<Rightarrow> add_branches arms v
      | ExprTry \<Rightarrow> add_branches 1 v
      | OtherNode \<Rightarrow> v)"

fun visit_rust :: "rust_node \<Rightarrow> rust_metrics \<Rightarrow> rust_metrics" where
  "visit_rust (RustNode kind start stop children) v =
     fold visit_rust children (visit_kind kind start stop v)"

definition no_metrics :: rust_metrics where
  "no_metrics = \<lparr>rm_unsafe_lines = [], rm_branch_points = 0, rm_raw_pointer_fields = 0\<rparr>"

section \<open>Measuring files\<close>

definition git_show :: "tools \<Rightarrow> string \<Rightarrow> string \<Rightarrow> string \<Rightarrow> (exposure_error, string) result" where
  "git_show t source_root revision path =
     (case git_show_output t source_root (revision @ '':'' @ path) of
        LaunchFailed message \<Rightarrow> Inl (ReadBaseline path revision message)
      | Exited success stdout stderr \<Rightarrow>
          if success then Inr stdout else Inl (ReadBaseline path revision (trim (utf8_lossy stderr))))"

definition rust_counts ::
    "tools \<Rightarrow> string \<Rightarrow> string \<Rightarrow> nat list \<Rightarrow> (exposure_error, 64 word \<times> 64 word \<times> 64 word) result" where
  "rust_counts t path source authored =
     (case parse_rust t source of
        Inl message \<Rightarrow> Inl (ParseRust path message)
      | Inr syntax \<Rightarrow>
          (let v = fold visit_rust syntax no_metrics
           in Inr (of_nat (length (filter (\<lambda>l. l \<in> set authored) (rm_unsafe_lines v))),
                   rm_branch_points v, rm_raw_pointer_fields v)))"

definition language_counts ::
    "tools \<Rightarrow> source_language \<Rightarrow> string \<Rightarrow> string \<Rightarrow> string \<Rightarrow>
     (exposure_error, 64 word \<times> 64 word \<times> 64 word) result" where
  "language_counts t language path source cleaned =
     (case language of
        Cpp \<Rightarrow> Inr (of_nat (length (authored_line_numbers cleaned)),
                    count_cpp_branch_points cleaned, count_cpp_raw_pointer_fields cleaned)
      | Rust \<Rightarrow> rust_counts t path source (authored_line_numbers cleaned))"

definition measure_file ::
    "tools \<Rightarrow> string \<Rightarrow> string \<Rightarrow> string \<Rightarrow> (exposure_error, exposure_file_measurement) result" where
  "measure_file t side path bytes =
     and_then (infer_language path) (\<lambda>language.
     and_then (language_counts t language path (utf8_lossy bytes)
         (strip_comments (utf8_lossy bytes) (language = Rust))) (\<lambda>(unsafe_loc, branches, pointers).
     Inr \<lparr>ef_side = side, ef_path = path, ef_language = show_language language,
          ef_sha256 = sha256_text t bytes,
          ef_production_loc = of_nat (length (authored_line_numbers
            (strip_comments (utf8_lossy bytes) (language = Rust)))),
          ef_memory_unsafe_loc = unsafe_loc, ef_branch_points = branches,
          ef_raw_pointer_fields = pointers\<rparr>))"

definition measure_baseline ::
    "tools \<Rightarrow> string \<Rightarrow> string \<Rightarrow> string \<Rightarrow> (exposure_error, exposure_file_measurement) result" where
  "measure_baseline t source_root revision path =
     and_then (git_show t source_root revision path) (measure_file t ''baseline'' path)"

definition measure_candidate ::
    "tools \<Rightarrow> file_system \<Rightarrow> string \<Rightarrow> string \<Rightarrow> (exposure_error, exposure_file_measurement) result" where
  "measure_candidate t fs source_root path =
     (let full_path = join_path source_root path
      in and_then (ok_or (read_file fs (components full_path))
             (ReadCandidate full_path (io_message t full_path)))
           (measure_file t ''candidate'' path))"

record aggregate =
  ag_production_loc :: "64 word"
  ag_memory_unsafe_loc :: "64 word"
  ag_branch_points :: "64 word"
  ag_raw_pointer_fields :: "64 word"

definition no_aggregate :: aggregate where
  "no_aggregate = \<lparr>ag_production_loc = 0, ag_memory_unsafe_loc = 0, ag_branch_points = 0,
     ag_raw_pointer_fields = 0\<rparr>"

definition add_measurement :: "exposure_file_measurement \<Rightarrow> aggregate \<Rightarrow> aggregate" where
  "add_measurement file a =
     \<lparr>ag_production_loc = ag_production_loc a + ef_production_loc file,
      ag_memory_unsafe_loc = ag_memory_unsafe_loc a + ef_memory_unsafe_loc file,
      ag_branch_points = ag_branch_points a + ef_branch_points file,
      ag_raw_pointer_fields = ag_raw_pointer_fields a + ef_raw_pointer_fields file\<rparr>"

definition aggregate_side :: "exposure_file_measurement list \<Rightarrow> string \<Rightarrow> aggregate" where
  "aggregate_side files side =
     fold add_measurement (filter (\<lambda>file. ef_side file = side) files) no_aggregate"

definition inventory_line :: "exposure_file_measurement \<Rightarrow> string" where
  "inventory_line file =
     ef_side file @ [CHR 0x00] @ ef_path file @ [CHR 0x00] @ ef_sha256 file @ [CHR 0x0A]"

text \<open>The digest of the bytes the hasher was updated with.\<close>

definition hash_file_inventory :: "tools \<Rightarrow> exposure_file_measurement list \<Rightarrow> string" where
  "hash_file_inventory t files = sha256_text t (concat (map inventory_line files))"

definition show_u64 :: "64 word \<Rightarrow> string" where
  "show_u64 n = show_nat (unat n)"

definition counts_line :: "exposure_file_measurement \<Rightarrow> string" where
  "counts_line file =
     ef_side file @ [CHR 0x09] @ ef_path file @ [CHR 0x09] @ show_u64 (ef_production_loc file) @
     [CHR 0x09] @ show_u64 (ef_memory_unsafe_loc file) @ [CHR 0x09] @
     show_u64 (ef_branch_points file) @ [CHR 0x09] @ show_u64 (ef_raw_pointer_fields file) @ [CHR 0x0A]"

definition method_line :: "string \<Rightarrow> string \<Rightarrow> string" where
  "method_line side method =
     ''ffi'' @ [CHR 0x09] @ side @ [CHR 0x09] @ method @ [CHR 0x0A]"

definition raw_counts_text :: "exposure_file_measurement list \<Rightarrow> exposure_source_spec \<Rightarrow> string" where
  "raw_counts_text files spec =
     exposure_tool_version @ [CHR 0x0A] @ concat (map counts_line files) @
     concat (map (method_line ''baseline'') (side_methods (spec_baseline spec))) @
     concat (map (method_line ''candidate'') (side_methods (spec_candidate spec))) @
     ''contract'' @ [CHR 0x09] @ show_u64 (review_new_public_api (spec_contract_review spec)) @
     [CHR 0x09] @ show_u64 (review_new_mojom_methods (spec_contract_review spec)) @ [CHR 0x0A]"

definition hash_raw_counts ::
    "tools \<Rightarrow> exposure_file_measurement list \<Rightarrow> exposure_source_spec \<Rightarrow> string" where
  "hash_raw_counts t files spec = sha256_text t (raw_counts_text files spec)"

definition measured_results ::
    "tools \<Rightarrow> exposure_source_spec \<Rightarrow> exposure_file_measurement list \<Rightarrow> exposure_results" where
  "measured_results t spec files =
     (let baseline = aggregate_side files ''baseline''; candidate = aggregate_side files ''candidate''
      in \<lparr>baseline_memory_unsafe_loc = ag_memory_unsafe_loc baseline,
          candidate_memory_unsafe_loc = ag_memory_unsafe_loc candidate,
          baseline_production_loc = ag_production_loc baseline,
          candidate_production_loc = ag_production_loc candidate,
          baseline_implementation_files = of_nat (length (side_files (spec_baseline spec))),
          candidate_implementation_files = of_nat (length (side_files (spec_candidate spec))),
          baseline_branch_points = ag_branch_points baseline,
          candidate_branch_points = ag_branch_points candidate,
          baseline_raw_pointer_fields = ag_raw_pointer_fields baseline,
          candidate_raw_pointer_fields = ag_raw_pointer_fields candidate,
          baseline_forwarding_methods = of_nat (length (side_methods (spec_baseline spec))),
          candidate_forwarding_methods = of_nat (length (side_methods (spec_candidate spec))),
          new_public_api_count = review_new_public_api (spec_contract_review spec),
          new_mojom_method_count = review_new_mojom_methods (spec_contract_review spec),
          measurement_tool_version = exposure_tool_version,
          file_hashes_sha256 = hash_file_inventory t files,
          raw_counts_sha256 = hash_raw_counts t files spec\<rparr>)"

text \<open>\<open>measure_exposure_spec\<close>, for the upstream revision of the pilot, and \<open>measure_exposure\<close>.\<close>

definition measure_exposure_spec ::
    "tools \<Rightarrow> file_system \<Rightarrow> string \<Rightarrow> string \<Rightarrow> exposure_source_spec \<Rightarrow>
     (exposure_error, exposure_report) result" where
  "measure_exposure_spec t fs revision source_root spec =
     and_then (validate_spec spec) (\<lambda>_.
     and_then (try_map (measure_baseline t source_root revision) (side_files (spec_baseline spec))) (\<lambda>base.
     and_then (try_map (measure_candidate t fs source_root) (side_files (spec_candidate spec))) (\<lambda>cand.
     let files = sort_key (\<lambda>file. (ef_side file, ef_path file)) (base @ cand)
     in Inr \<lparr>report_results = measured_results t spec files, report_file_list = files,
             report_contract_review = spec_contract_review spec\<rparr>)))"

definition measure_exposure ::
    "tools \<Rightarrow> file_system \<Rightarrow> string \<Rightarrow> string \<Rightarrow> string \<Rightarrow> (exposure_error, exposure_report) result" where
  "measure_exposure t fs revision source_root spec_path =
     and_then (load_spec t fs spec_path) (measure_exposure_spec t fs revision source_root)"

end
