(* ===== verification/Pilot.thy ===== *)
theory Pilot
  imports Complex_Main Exposure
begin

text \<open>
  \<open>crates/chromifer-migration/src/lib.rs\<close>: the evidence of a migration pilot (the pilot record and the
  parity, performance and exposure records it links), loaded from a directory and validated. A check
  pushes its message onto one vector, in the order of the code.
\<close>

section \<open>Records\<close>

datatype pilot_status = InProgress | Complete | Retired

datatype evidence_status =
  Pending | Partial | DefinedNotMeasured | Verified | Passed | PassedLinux | Failed

definition is_satisfied :: "evidence_status \<Rightarrow> bool" where
  "is_satisfied s \<longleftrightarrow> s = Passed"

text \<open>The derived \<open>Debug\<close>\<close>

definition debug_status :: "evidence_status \<Rightarrow> string" where
  "debug_status s =
     (case s of Pending \<Rightarrow> ''Pending'' | Partial \<Rightarrow> ''Partial''
      | DefinedNotMeasured \<Rightarrow> ''DefinedNotMeasured'' | Verified \<Rightarrow> ''Verified'' | Passed \<Rightarrow> ''Passed''
      | PassedLinux \<Rightarrow> ''PassedLinux'' | Failed \<Rightarrow> ''Failed'')"

record upstream =
  up_repository :: string
  up_revision :: string
  up_target :: string
  up_ownership :: string
  up_blobs :: "(string \<times> string) list"

record pilot_boundary =
  pb_kind :: string
  pb_interface :: string
  pb_mojom :: string
  pb_legacy_sources :: "string list"
  pb_rust_source :: string
  pb_factory :: string
  pb_methods :: "string list"

record rollback =
  rb_status :: evidence_status
  rb_gn_arg :: string
  rb_rust_value :: bool
  rb_fallback_value :: bool
  rb_default_expression :: string
  rb_shared_test_target :: string

record patch_artifact =
  pa_path :: string
  pa_base_revision :: string
  pa_sha256 :: string

record implementation_evidence =
  im_status :: evidence_status
  im_patch :: "patch_artifact option"

record pilot_verification =
  ve_id :: string
  ve_status :: evidence_status
  ve_configuration :: "string option"
  ve_target :: string
  ve_passed_tests :: "64 word option"
  ve_failed_tests :: "64 word option"
  ve_rust_receiver_present :: "bool option"

record m3_acceptance =
  m3_feature_parity :: evidence_status
  m3_upstream_test_parity :: evidence_status
  m3_performance_budget :: evidence_status
  m3_rollback :: evidence_status
  m3_memory_safety :: evidence_status
  m3_maintenance :: evidence_status

record linked_evidence =
  le_matrix :: "string option"
  le_budget :: "string option"
  le_measurement :: "string option"
  le_status :: evidence_status

definition linked_path :: "linked_evidence \<Rightarrow> string option" where
  "linked_path l =
     (case le_matrix l of Some p \<Rightarrow> Some p
      | None \<Rightarrow> (case le_budget l of Some p \<Rightarrow> Some p | None \<Rightarrow> le_measurement l))"

record pilot_notes =
  no_verified_platform :: string
  no_feature_parity_scope :: string
  no_closeout_reason :: "string option"

record pilot_manifest =
  pi_schema_version :: "32 word"
  pi_id :: string
  pi_status :: pilot_status
  pi_upstream :: upstream
  pi_boundary :: pilot_boundary
  pi_rollback :: rollback
  pi_implementation :: implementation_evidence
  pi_verification :: "pilot_verification list"
  pi_m3 :: m3_acceptance
  pi_parity :: linked_evidence
  pi_performance :: linked_evidence
  pi_exposure :: linked_evidence
  pi_notes :: pilot_notes

record parity_interface =
  in_mojom :: string
  in_name :: string
  in_methods :: "string list"
  in_identical_mojom :: bool
  in_identical_factory :: bool

record contract_case =
  cc_id :: string
  cc_status :: evidence_status
  cc_method :: "string option"
  cc_methods :: "string list"
  cc_evidence_sha256 :: "string option"

record upstream_suite =
  su_id :: string
  su_target :: string
  su_status :: evidence_status
  su_evidence_sha256 :: "string option"

record desktop_matrix =
  dm_platforms :: "string list"
  dm_rust_build :: bool
  dm_shared_contract_test :: bool
  dm_upstream_suite :: bool
  dm_linux :: evidence_status
  dm_mac :: evidence_status
  dm_win :: evidence_status
  dm_evidence_sha256 :: "(string \<times> string) list"

record rollback_matrix =
  rx_fallback_build :: bool
  rx_shared_contract_test :: bool
  rx_linux :: evidence_status
  rx_mac :: evidence_status
  rx_win :: evidence_status
  rx_evidence_sha256 :: "(string \<times> string) list"

record parity_manifest =
  pm_schema_version :: "32 word"
  pm_id :: string
  pm_status :: evidence_status
  pm_interface :: parity_interface
  pm_contract_cases :: "contract_case list"
  pm_upstream_suites :: "upstream_suite list"
  pm_desktop_matrix :: desktop_matrix
  pm_rollback_matrix :: rollback_matrix

text \<open>\<open>f64\<close> as far as it is compared: a finite number, an infinity or not a number.\<close>

datatype f64 = Finite rat | PosInfinity | NegInfinity | NaN

definition f64_is_finite :: "f64 \<Rightarrow> bool" where
  "f64_is_finite x \<longleftrightarrow> (case x of Finite _ \<Rightarrow> True | _ \<Rightarrow> False)"

definition f64_less :: "f64 \<Rightarrow> f64 \<Rightarrow> bool" where
  "f64_less x y \<longleftrightarrow>
     (case x of
        NaN \<Rightarrow> False
      | PosInfinity \<Rightarrow> False
      | NegInfinity \<Rightarrow> y \<noteq> NaN \<and> y \<noteq> NegInfinity
      | Finite a \<Rightarrow> (case y of Finite b \<Rightarrow> a < b | PosInfinity \<Rightarrow> True | _ \<Rightarrow> False))"

record performance_comparison =
  pc_upstream_revision :: string
  pc_baseline :: string
  pc_candidate :: string
  pc_build_mode :: string
  pc_identical_gn_args :: bool
  pc_same_machine :: bool
  pc_alternating_samples :: bool

record performance_workload =
  pw_warmup_messages :: "64 word"
  pw_messages_per_sample :: "64 word"
  pw_samples :: "64 word"
  pw_in_process_mojo :: bool
  pw_cases :: "string list"

record performance_validity =
  pv_minimum_samples :: "64 word"
  pv_reject_cpu :: bool
  pv_reject_background :: bool
  pv_raw_samples :: bool
  pv_binary_hashes :: bool
  pv_gn_args_hashes :: bool

record performance_case =
  pr_id :: string
  pr_median :: f64
  pr_p95 :: f64

record performance_results =
  rs_completed_samples :: "64 word"
  rs_cases :: "performance_case list"
  rs_rss_regression_bytes :: "64 word" \<comment> \<open>an \<open>i64\<close>, read by \<open>sint\<close>\<close>
  rs_baseline_binary_sha256 :: string
  rs_candidate_binary_sha256 :: string
  rs_baseline_gn_args_sha256 :: string
  rs_candidate_gn_args_sha256 :: string
  rs_raw_samples_sha256 :: string

record latency_budget =
  lb_median_max :: f64
  lb_p95_max :: f64

record memory_budget =
  mb_rss_regression_bytes_max :: "64 word"

record performance_manifest =
  pf_schema_version :: "32 word"
  pf_id :: string
  pf_status :: evidence_status
  pf_comparison :: performance_comparison
  pf_workload :: performance_workload
  pf_latency_budget :: latency_budget
  pf_memory_budget :: memory_budget
  pf_validity :: performance_validity
  pf_results :: "performance_results option"

record exposure_comparison =
  ec_upstream_revision :: string
  ec_baseline :: string
  ec_candidate :: string
  ec_production_only :: bool
  ec_exclude_tests :: bool
  ec_exclude_generated :: bool

record memory_safety_measurement =
  ms_metric :: string
  ms_require_less :: bool
  ms_unsafe_blocks :: bool
  ms_unsafe_loc :: bool
  ms_cpp_loc :: bool
  ms_generated_loc :: bool
  ms_raw_pointer_fields :: bool

record maintenance_measurement =
  mm_metrics :: "string list"
  mm_non_increasing :: "string list"
  mm_strict_decrease :: bool
  mm_no_new_public_api :: bool
  mm_no_new_mojom_methods :: bool
  mm_no_more_raw_pointers :: bool

record exposure_evidence =
  ee_source_inventory :: string
  ee_file_hashes :: bool
  ee_tool_version :: bool
  ee_raw_counts :: bool

record exposure_manifest =
  em_schema_version :: "32 word"
  em_id :: string
  em_status :: evidence_status
  em_comparison :: exposure_comparison
  em_memory_safety :: memory_safety_measurement
  em_maintenance :: maintenance_measurement
  em_evidence :: exposure_evidence
  em_results :: "exposure_results option"

record migration_evidence =
  mi_directory :: string
  mi_pilot :: pilot_manifest
  mi_parity :: parity_manifest
  mi_performance :: performance_manifest
  mi_exposure :: exposure_manifest

datatype pilot_load_error =
    LoadRead string string
  | LoadParse string string
  | LoadValidation "string list"
  | LoadPanics

section \<open>The small checks\<close>

definition check_text :: "string \<Rightarrow> string \<Rightarrow> string list \<Rightarrow> string list" where
  "check_text label value = push_if (is_blank value) (label @ '' must not be empty'')"

definition check_unique_value ::
    "string \<Rightarrow> string \<Rightarrow> string list \<times> string list \<Rightarrow> string list \<times> string list" where
  "check_unique_value label value = (\<lambda>(seen, errors).
     if is_blank value then (seen, errors @ [label @ '' must not be empty''])
     else if value \<in> set seen then (seen, errors @ [''duplicate '' @ label @ '' `'' @ value @ ''`''])
     else (bts_insert value seen, errors))"

definition check_unique_nonempty :: "string \<Rightarrow> string list \<Rightarrow> string list \<Rightarrow> string list" where
  "check_unique_nonempty label values errors =
     (if values = [] then errors @ [label @ '' list must not be empty'']
      else snd (fold (check_unique_value label) values ([], errors)))"

definition lower_hex :: "nat \<Rightarrow> string \<Rightarrow> bool" where
  "lower_hex n value \<longleftrightarrow>
     length value = n \<and>
     list_all (\<lambda>c. is_ascii_digit c \<or> (CHR ''a'' \<le> c \<and> c \<le> CHR ''f'')) value"

definition check_git_sha :: "string \<Rightarrow> string \<Rightarrow> string list \<Rightarrow> string list" where
  "check_git_sha label value =
     push_if (\<not> lower_hex 40 value) (label @ '' must be a 40-character lowercase Git SHA-1'')"

definition check_sha256_text :: "string \<Rightarrow> string \<Rightarrow> string list \<Rightarrow> string list" where
  "check_sha256_text label value =
     push_if (\<not> lower_hex 64 value) (label @ '' must be a 64-character lowercase SHA-256 digest'')"

definition as_set :: "string list \<Rightarrow> string list" where
  "as_set values = bts_of_list values"

definition required_platforms :: "string list" where
  "required_platforms = [''linux'', ''mac'', ''win'']"

definition check_platform_digest ::
    "string \<Rightarrow> string \<times> string \<Rightarrow> string list \<Rightarrow> string list" where
  "check_platform_digest label = (\<lambda>(platform, digest) errors.
     check_sha256_text (label @ '' `'' @ platform @ ''` evidence'') digest
       (push_if (platform \<notin> set required_platforms)
         (label @ '' evidence contains unknown platform `'' @ platform @ ''`'') errors))"

definition check_platform_evidence ::
    "string \<Rightarrow> (string \<times> string) list \<Rightarrow> bool \<Rightarrow> string list \<Rightarrow> string list" where
  "check_platform_evidence label evidence require_complete errors =
     push_if (require_complete \<and> as_set (map fst evidence) \<noteq> required_platforms)
       (label @ '' pass requires evidence for linux, mac, and win exactly'')
       (fold (check_platform_digest label) evidence errors)"

definition plain_filename :: "string \<Rightarrow> string \<Rightarrow> bool" where
  "plain_filename ending value \<longleftrightarrow>
     extension value = Some ending \<and> list_all is_normal (components value) \<and> file_name value = Some value"

definition is_plain_toml_filename :: "string \<Rightarrow> bool" where
  "is_plain_toml_filename = plain_filename ''toml''"

definition is_plain_patch_filename :: "string \<Rightarrow> bool" where
  "is_plain_patch_filename = plain_filename ''patch''"

section \<open>Budgets and acceptance criteria\<close>

text \<open>\<open>u64::MAX\<close>\<close>

definition u64_max :: "64 word" where
  "u64_max = - 1"

text \<open>\<open>maintenance_metric_pair\<close>: the values of a metric, or whether the metric exists when there are no
  results; the pair of two maximal numbers stands for an unknown metric.\<close>

definition metric_values :: "exposure_results \<Rightarrow> string \<Rightarrow> 64 word \<times> 64 word" where
  "metric_values r metric =
     (if metric = ''authored_production_loc'' then (baseline_production_loc r, candidate_production_loc r)
      else if metric = ''active_implementation_files''
      then (baseline_implementation_files r, candidate_implementation_files r)
      else if metric = ''branch_points'' then (baseline_branch_points r, candidate_branch_points r)
      else if metric = ''manual_raw_pointer_fields''
      then (baseline_raw_pointer_fields r, candidate_raw_pointer_fields r)
      else if metric = ''cross_language_forwarding_methods''
      then (baseline_forwarding_methods r, candidate_forwarding_methods r)
      else (u64_max, u64_max))"

definition known_metrics :: "string list" where
  "known_metrics =
     [''authored_production_loc'', ''active_implementation_files'', ''branch_points'',
      ''manual_raw_pointer_fields'', ''cross_language_forwarding_methods'']"

definition maintenance_metric_pair ::
    "exposure_results option \<Rightarrow> string \<Rightarrow> (64 word \<times> 64 word) option" where
  "maintenance_metric_pair results metric =
     (case results of
        Some r \<Rightarrow>
          if metric_values r metric = (u64_max, u64_max) then None else Some (metric_values r metric)
      | None \<Rightarrow> if metric \<in> set known_metrics then Some (0, 0) else None)"

definition case_violations ::
    "latency_budget \<Rightarrow> performance_case \<Rightarrow> string list \<Rightarrow> string list" where
  "case_violations budget result violations =
     push_if (f64_less (lb_p95_max budget) (pr_p95 result))
       (''performance result `'' @ pr_id result @ ''` exceeds the p95 regression budget'')
       (push_if (f64_less (lb_median_max budget) (pr_median result))
         (''performance result `'' @ pr_id result @ ''` exceeds the median regression budget'') violations)"

definition performance_budget_violations ::
    "performance_manifest \<Rightarrow> performance_results \<Rightarrow> string list" where
  "performance_budget_violations p results =
     push_if (sint (mb_rss_regression_bytes_max (pf_memory_budget p)) < sint (rs_rss_regression_bytes results))
       ''performance results exceed the steady-state RSS budget''
       (fold (case_violations (pf_latency_budget p)) (rs_cases results) [])"

definition exposure_memory_safety_violations ::
    "exposure_manifest \<Rightarrow> exposure_results \<Rightarrow> string list" where
  "exposure_memory_safety_violations e r =
     push_if (ms_require_less (em_memory_safety e) \<and>
         baseline_memory_unsafe_loc r \<le> candidate_memory_unsafe_loc r)
       ''exposure results do not reduce authored memory-unsafe LOC'' []"

definition metric_violation ::
    "exposure_results \<Rightarrow> string \<Rightarrow> string list \<times> bool \<Rightarrow> string list \<times> bool" where
  "metric_violation r metric = (\<lambda>(violations, strict_decrease).
     case maintenance_metric_pair (Some r) metric of
       None \<Rightarrow> (violations, strict_decrease)
     | Some (baseline, candidate) \<Rightarrow>
         (push_if (baseline < candidate)
            (''maintenance metric `'' @ metric @ ''` increases from '' @ show_u64 baseline @ '' to '' @
             show_u64 candidate) violations,
          strict_decrease \<or> candidate < baseline))"

definition exposure_maintenance_violations ::
    "exposure_manifest \<Rightarrow> exposure_results \<Rightarrow> string list" where
  "exposure_maintenance_violations e r =
     (let (violations, strict_decrease) =
            fold (metric_violation r) (mm_non_increasing (em_maintenance e)) ([], False)
      in push_if (mm_no_new_mojom_methods (em_maintenance e) \<and> new_mojom_method_count r \<noteq> 0)
           ''exposure results introduce new Mojom methods''
        (push_if (mm_no_new_public_api (em_maintenance e) \<and> new_public_api_count r \<noteq> 0)
           ''exposure results introduce new public API''
        (push_if (mm_no_more_raw_pointers (em_maintenance e) \<and>
             baseline_raw_pointer_fields r < candidate_raw_pointer_fields r)
           ''exposure results increase manual raw-pointer fields''
        (push_if (mm_strict_decrease (em_maintenance e) \<and> \<not> strict_decrease)
           ''maintenance results require at least one strict structural decrease'' violations))))"

section \<open>The pilot record\<close>

definition check_schema_version :: "string \<times> 32 word \<Rightarrow> string list \<Rightarrow> string list" where
  "check_schema_version = (\<lambda>(name, version).
     push_if (version \<noteq> migration_schema_version)
       (name @ '' schema version '' @ show_nat (unat version) @ '' is unsupported; expected '' @
        show_nat (unat migration_schema_version)))"

definition check_evidence_id ::
    "string \<Rightarrow> string \<times> string \<times> string \<Rightarrow> string list \<Rightarrow> string list" where
  "check_evidence_id pilot = (\<lambda>(kind, actual, expected).
     push_if (actual \<noteq> expected)
       (kind @ '' evidence id `'' @ actual @ ''` does not match pilot id `'' @ pilot @ ''`''))"

definition check_blob :: "string \<times> string \<Rightarrow> string list \<Rightarrow> string list" where
  "check_blob = (\<lambda>(name, digest) errors.
     check_git_sha (''upstream blob `'' @ name @ ''`'') digest
       (check_text ''upstream blob name'' name errors))"

definition check_upstream :: "upstream \<Rightarrow> string list \<Rightarrow> string list" where
  "check_upstream u errors =
     fold check_blob (up_blobs u)
       (push_if (up_blobs u = []) ''upstream blob identity map must not be empty''
       (check_git_sha ''upstream revision'' (up_revision u)
       (check_text ''upstream ownership'' (up_ownership u)
       (check_text ''upstream target'' (up_target u)
       (check_text ''upstream repository'' (up_repository u) errors)))))"

definition check_boundary :: "pilot_boundary \<Rightarrow> string list \<Rightarrow> string list" where
  "check_boundary b errors =
     check_unique_nonempty ''legacy source'' (pb_legacy_sources b)
       (check_unique_nonempty ''boundary method'' (pb_methods b)
       (check_text ''boundary factory'' (pb_factory b)
       (check_text ''boundary Rust source'' (pb_rust_source b)
       (check_text ''boundary mojom'' (pb_mojom b)
       (check_text ''boundary interface'' (pb_interface b)
       (check_text ''boundary kind'' (pb_kind b) errors))))))"

definition check_rollback :: "rollback \<Rightarrow> string list \<Rightarrow> string list" where
  "check_rollback r errors =
     push_if (rb_rust_value r = rb_fallback_value r) ''rollback Rust and fallback values must differ''
       (check_text ''rollback shared test target'' (rb_shared_test_target r)
       (check_text ''rollback default expression'' (rb_default_expression r)
       (check_text ''rollback GN arg'' (rb_gn_arg r) errors)))"

definition unwrap_or :: "'a option \<Rightarrow> 'a \<Rightarrow> 'a" where
  "unwrap_or x d = (case x of Some y \<Rightarrow> y | None \<Rightarrow> d)"

definition check_passed_verification :: "pilot_verification \<Rightarrow> string list \<Rightarrow> string list" where
  "check_passed_verification v errors =
     (if ve_status v = Passed
      then push_if (unwrap_or (ve_failed_tests v) 0 \<noteq> 0)
             (''passed verification `'' @ ve_id v @ ''` must record zero failed tests'')
             (push_if (unwrap_or (ve_passed_tests v) 0 = 0)
               (''passed verification `'' @ ve_id v @ ''` must record at least one passed test'') errors)
      else errors)"

definition check_verification ::
    "pilot_verification \<Rightarrow> string list \<times> string list \<Rightarrow> string list \<times> string list" where
  "check_verification v = (\<lambda>(ids, errors).
     (bts_insert (ve_id v) ids,
      check_passed_verification v
        (push_if (ve_id v \<in> set ids) (''duplicate verification id `'' @ ve_id v @ ''`'')
        (check_text ''verification target'' (ve_target v)
        (check_text ''verification id'' (ve_id v) errors)))))"

definition rust_passed :: "pilot_manifest \<Rightarrow> bool" where
  "rust_passed p =
     list_ex (\<lambda>v. ve_status v = Passed \<and>
         ve_configuration v = Some (rb_gn_arg (pi_rollback p) @ ''=true'') \<and>
         ve_target v = rb_shared_test_target (pi_rollback p)) (pi_verification p)"

definition fallback_passed :: "pilot_manifest \<Rightarrow> bool" where
  "fallback_passed p =
     list_ex (\<lambda>v. ve_status v = Passed \<and>
         ve_configuration v = Some (rb_gn_arg (pi_rollback p) @ ''=false'') \<and>
         ve_target v = rb_shared_test_target (pi_rollback p) \<and>
         ve_rust_receiver_present v = Some False) (pi_verification p)"

definition check_verified_rollback :: "pilot_manifest \<Rightarrow> string list \<Rightarrow> string list" where
  "check_verified_rollback p =
     push_if (rb_status (pi_rollback p) = Verified \<and> (\<not> rust_passed p \<or> \<not> fallback_passed p))
       ''verified rollback requires passed Rust and dependency-clean fallback configurations''"

definition check_m3_rollback :: "pilot_manifest \<Rightarrow> rollback_matrix \<Rightarrow> string list \<Rightarrow> string list" where
  "check_m3_rollback p matrix errors =
     (let m3 = m3_rollback (pi_m3 p);
          advanced = push_if ((m3 = Verified \<or> m3 = Passed) \<and> rb_status (pi_rollback p) \<noteq> Verified)
            ''M3 rollback cannot advance before rollback evidence is verified'' errors
      in if m3 = Passed
         then check_platform_evidence ''rollback'' (rx_evidence_sha256 matrix) True
           (push_if (\<not> list_all is_satisfied [rx_linux matrix, rx_mac matrix, rx_win matrix])
             ''passed M3 rollback requires linux, mac, and win rollback rows to pass''
           (push_if (\<not> rx_fallback_build matrix \<or> \<not> rx_shared_contract_test matrix)
             ''passed M3 rollback requires fallback-build and shared-contract checks'' advanced))
         else check_platform_evidence ''rollback'' (rx_evidence_sha256 matrix) False advanced)"

section \<open>The implementation patch\<close>

definition check_patch_file ::
    "tools \<Rightarrow> file_system \<Rightarrow> string \<Rightarrow> patch_artifact \<Rightarrow> string list \<Rightarrow> string list" where
  "check_patch_file t fs directory patch errors =
     (let patch_path = join_path directory (pa_path patch)
      in case read_file fs (components patch_path) of
           Some bytes \<Rightarrow>
             push_if (sha256_text t bytes \<noteq> pa_sha256 patch)
               (''implementation patch SHA-256 mismatch: declared '' @ pa_sha256 patch @ '', actual '' @
                sha256_text t bytes) errors
         | None \<Rightarrow>
             errors @ [''failed to read implementation patch `'' @ patch_path @ ''`: '' @
               io_message t patch_path])"

definition check_patch ::
    "tools \<Rightarrow> file_system \<Rightarrow> string \<Rightarrow> string \<Rightarrow> patch_artifact \<Rightarrow> string list \<Rightarrow> string list" where
  "check_patch t fs directory revision patch errors =
     (let checked =
            check_sha256_text ''implementation patch'' (pa_sha256 patch)
              (push_if (pa_base_revision patch \<noteq> revision)
                ''implementation patch base revision does not match pilot revision''
              (check_git_sha ''implementation patch base revision'' (pa_base_revision patch) errors))
      in if \<not> is_plain_patch_filename (pa_path patch)
         then checked @ [''implementation patch path `'' @ pa_path patch @
           ''` must be a plain .patch filename'']
         else check_patch_file t fs directory patch checked)"

definition validate_implementation ::
    "tools \<Rightarrow> file_system \<Rightarrow> migration_evidence \<Rightarrow> string list \<Rightarrow> string list" where
  "validate_implementation t fs ev errors =
     (let implementation = pi_implementation (mi_pilot ev);
          checked = push_if (im_status implementation = Passed \<and> im_patch implementation = None)
            ''passed implementation evidence requires a patch artifact'' errors
      in case im_patch implementation of
           None \<Rightarrow> checked
         | Some patch \<Rightarrow>
             check_patch t fs (mi_directory ev) (up_revision (pi_upstream (mi_pilot ev))) patch checked)"

section \<open>The parity record\<close>

definition check_optional_digest :: "string \<Rightarrow> string option \<Rightarrow> string list \<Rightarrow> string list" where
  "check_optional_digest label digest errors =
     (case digest of None \<Rightarrow> errors | Some d \<Rightarrow> check_sha256_text label d errors)"

definition check_suite ::
    "upstream_suite \<Rightarrow> string list \<times> string list \<Rightarrow> string list \<times> string list" where
  "check_suite suite = (\<lambda>(ids, errors).
     (bts_insert (su_id suite) ids,
      check_optional_digest (''upstream suite `'' @ su_id suite @ ''` evidence'') (su_evidence_sha256 suite)
        (push_if (su_id suite \<in> set ids) (''duplicate upstream suite id `'' @ su_id suite @ ''`'')
        (check_text ''upstream suite target'' (su_target suite)
        (check_text ''upstream suite id'' (su_id suite) errors)))))"

definition check_case_method ::
    "string list \<Rightarrow> string \<Rightarrow> string \<Rightarrow> string list \<Rightarrow> string list" where
  "check_case_method methods case_id method =
     push_if (method \<notin> set methods)
       (''contract case `'' @ case_id @ ''` references unknown method `'' @ method @ ''`'')"

definition check_case ::
    "string list \<Rightarrow> contract_case \<Rightarrow> string list \<times> string list \<Rightarrow> string list \<times> string list" where
  "check_case methods c = (\<lambda>(ids, errors).
     (bts_insert (cc_id c) ids,
      check_optional_digest (''contract case `'' @ cc_id c @ ''` evidence'') (cc_evidence_sha256 c)
        (fold (check_case_method methods (cc_id c)) (cc_methods c)
        (fold (check_case_method methods (cc_id c)) (case cc_method c of None \<Rightarrow> [] | Some m \<Rightarrow> [m])
        (push_if (cc_id c \<in> set ids) (''duplicate contract case id `'' @ cc_id c @ ''`'')
        (check_text ''contract case id'' (cc_id c) errors))))))"

definition check_case_evidence :: "contract_case \<Rightarrow> string list \<Rightarrow> string list" where
  "check_case_evidence c =
     push_if (cc_evidence_sha256 c = None)
       (''satisfied feature parity requires evidence for contract case `'' @ cc_id c @ ''`'')"

definition check_suite_evidence :: "upstream_suite \<Rightarrow> string list \<Rightarrow> string list" where
  "check_suite_evidence suite =
     push_if (su_evidence_sha256 suite = None)
       (''satisfied upstream test parity requires evidence for suite `'' @ su_id suite @ ''`'')"

definition check_feature_parity :: "evidence_status \<Rightarrow> parity_manifest \<Rightarrow> string list \<Rightarrow> string list" where
  "check_feature_parity feature_parity parity errors =
     (let desktop = pm_desktop_matrix parity
      in if is_satisfied feature_parity
         then check_platform_evidence ''desktop parity'' (dm_evidence_sha256 desktop) True
           (fold check_case_evidence (pm_contract_cases parity)
           (push_if (list_ex (\<lambda>c. \<not> is_satisfied (cc_status c)) (pm_contract_cases parity))
             ''satisfied feature parity requires every contract case to pass''
           (push_if (\<not> list_all is_satisfied [dm_linux desktop, dm_mac desktop, dm_win desktop])
             ''satisfied feature parity requires all desktop rows to pass'' errors)))
         else check_platform_evidence ''desktop parity'' (dm_evidence_sha256 desktop) False errors)"

definition check_upstream_parity :: "evidence_status \<Rightarrow> parity_manifest \<Rightarrow> string list \<Rightarrow> string list" where
  "check_upstream_parity upstream_parity parity errors =
     (let suites_passed =
            push_if (is_satisfied upstream_parity \<and>
                list_ex (\<lambda>s. \<not> is_satisfied (su_status s)) (pm_upstream_suites parity))
              ''satisfied upstream test parity requires every upstream suite to pass'' errors
      in if is_satisfied upstream_parity
         then fold check_suite_evidence (pm_upstream_suites parity) suites_passed
         else suites_passed)"

definition check_interface :: "pilot_boundary \<Rightarrow> parity_manifest \<Rightarrow> string list \<Rightarrow> string list" where
  "check_interface b parity errors =
     (let i = pm_interface parity; platforms = dm_platforms (pm_desktop_matrix parity)
      in push_if (pm_upstream_suites parity = []) ''parity upstream suite list must not be empty''
        (push_if (pm_contract_cases parity = []) ''parity contract case list must not be empty''
        (push_if (as_set platforms \<noteq> required_platforms)
          ''desktop parity matrix must cover linux, mac, and win exactly''
        (check_unique_nonempty ''desktop platform'' platforms
        (check_unique_nonempty ''parity interface method'' (in_methods i)
        (push_if (as_set (in_methods i) \<noteq> as_set (pb_methods b))
          ''parity methods do not match pilot boundary methods''
        (push_if (in_name i \<noteq> pb_interface b) ''parity interface name does not match pilot boundary''
        (push_if (in_mojom i \<noteq> pb_mojom b) ''parity mojom path does not match pilot boundary''
          errors))))))))"

definition validate_parity :: "migration_evidence \<Rightarrow> string list \<Rightarrow> string list" where
  "validate_parity ev errors =
     (let parity = mi_parity ev; pilot = mi_pilot ev
      in check_upstream_parity (m3_upstream_test_parity (pi_m3 pilot)) parity
        (check_feature_parity (m3_feature_parity (pi_m3 pilot)) parity
        (snd (fold (check_case (pb_methods (pi_boundary pilot))) (pm_contract_cases parity) ([],
         snd (fold check_suite (pm_upstream_suites parity) ([],
         check_interface (pi_boundary pilot) parity errors)))))))"

section \<open>The performance record\<close>

definition show_bool :: "bool \<Rightarrow> string" where
  "show_bool b = (if b then ''true'' else ''false'')"

definition configuration_of :: "rollback \<Rightarrow> bool \<Rightarrow> string" where
  "configuration_of r value = rb_gn_arg r @ ''='' @ show_bool value"

definition check_performance_comparison ::
    "pilot_manifest \<Rightarrow> performance_comparison \<Rightarrow> string list \<Rightarrow> string list" where
  "check_performance_comparison pilot c errors =
     push_if (pc_candidate c \<noteq> configuration_of (pi_rollback pilot) (rb_rust_value (pi_rollback pilot)))
       ''performance candidate does not match Rust configuration''
       (push_if (pc_baseline c \<noteq>
           configuration_of (pi_rollback pilot) (rb_fallback_value (pi_rollback pilot)))
         ''performance baseline does not match rollback fallback configuration''
       (push_if (pc_upstream_revision c \<noteq> up_revision (pi_upstream pilot))
         ''performance revision does not match pilot revision'' errors))"

definition check_workload :: "performance_manifest \<Rightarrow> string list \<Rightarrow> string list" where
  "check_workload p errors =
     (let w = pf_workload p; b = pf_latency_budget p
      in push_if (\<not> f64_is_finite (lb_median_max b) \<or> \<not> f64_is_finite (lb_p95_max b) \<or>
             f64_less (lb_median_max b) (Finite 0) \<or> f64_less (lb_p95_max b) (Finite 0))
           ''performance latency budgets must be finite and non-negative''
        (push_if (pw_samples w < pv_minimum_samples (pf_validity p))
           ''minimum completed samples exceeds configured samples''
        (push_if (pw_samples w < 3 \<or> pw_messages_per_sample w = 0 \<or> pw_cases w = [])
           ''performance workload is too small to be meaningful'' errors)))"

definition check_result_case ::
    "performance_case \<Rightarrow> string list \<times> string list \<Rightarrow> string list \<times> string list" where
  "check_result_case result = (\<lambda>(ids, errors).
     (bts_insert (pr_id result) ids,
      push_if (\<not> f64_is_finite (pr_median result) \<or> \<not> f64_is_finite (pr_p95 result))
        (''performance result `'' @ pr_id result @ ''` contains non-finite latency values'')
        (push_if (pr_id result \<in> set ids)
          (''duplicate performance result case `'' @ pr_id result @ ''`'')
        (check_text ''performance result case id'' (pr_id result) errors))))"

definition check_labelled_digest :: "string \<times> string \<Rightarrow> string list \<Rightarrow> string list" where
  "check_labelled_digest = (\<lambda>(label, digest). check_sha256_text label digest)"

definition check_performance_results ::
    "performance_manifest \<Rightarrow> performance_results \<Rightarrow> string list \<Rightarrow> string list" where
  "check_performance_results p r errors =
     (let (result_ids, checked) =
            fold check_result_case (rs_cases r)
              ([], push_if (rs_completed_samples r < pv_minimum_samples (pf_validity p))
                 ''performance results do not contain enough completed samples'' errors)
      in fold check_labelled_digest
           [(''baseline performance binary'', rs_baseline_binary_sha256 r),
            (''candidate performance binary'', rs_candidate_binary_sha256 r),
            (''baseline performance GN args'', rs_baseline_gn_args_sha256 r),
            (''candidate performance GN args'', rs_candidate_gn_args_sha256 r),
            (''raw performance samples'', rs_raw_samples_sha256 r)]
           (push_if (result_ids \<noteq> as_set (pw_cases (pf_workload p)))
             ''performance result cases do not match configured workload cases'' checked))"

definition check_performance_status :: "performance_manifest \<Rightarrow> string list \<Rightarrow> string list" where
  "check_performance_status p errors =
     (case pf_results p of
        Some results \<Rightarrow>
          (case pf_status p of
             Passed \<Rightarrow> errors @ performance_budget_violations p results
           | Failed \<Rightarrow>
               push_if (performance_budget_violations p results = [])
                 ''failed performance record must violate at least one configured budget'' errors
           | _ \<Rightarrow> errors @ [''measured performance results require status `passed` or `failed`''])
      | None \<Rightarrow>
          (case pf_status p of
             Passed \<Rightarrow> errors @ [''passed performance record requires measured results'']
           | Failed \<Rightarrow> errors @ [''failed performance record requires measured results'']
           | _ \<Rightarrow> errors))"

definition validate_performance :: "migration_evidence \<Rightarrow> string list \<Rightarrow> string list" where
  "validate_performance ev errors =
     (let p = mi_performance ev; pilot = mi_pilot ev;
          workload = check_workload p (check_performance_comparison pilot (pf_comparison p) errors);
          results =
            (case pf_results p of
               None \<Rightarrow> workload | Some r \<Rightarrow> check_performance_results p r workload)
      in push_if (is_satisfied (m3_performance_budget (pi_m3 pilot)) \<and> pf_status p \<noteq> Passed)
           ''satisfied performance acceptance requires a passed performance record''
           (check_performance_status p results))"

section \<open>The exposure record\<close>

text \<open>The derived \<open>Display\<close>\<close>

definition show_exposure_error :: "exposure_error \<Rightarrow> string" where
  "show_exposure_error e =
     (case e of
        ReadSpec path message \<Rightarrow>
          ''failed to read exposure source specification `'' @ path @ ''`: '' @ message
      | ParseSpec path message \<Rightarrow>
          ''failed to parse exposure source specification `'' @ path @ ''`: '' @ message
      | UnsupportedSpecSchema found supported \<Rightarrow>
          ''unsupported exposure source specification schema version '' @ show_nat (unat found) @
          ''; supported version is '' @ show_nat (unat supported)
      | InvalidSpec message \<Rightarrow> ''invalid exposure source specification: '' @ message
      | ReadCandidate path message \<Rightarrow> ''failed to read candidate source `'' @ path @ ''`: '' @ message
      | ReadBaseline path revision detail \<Rightarrow>
          ''failed to read baseline source `'' @ path @ ''` from revision `'' @ revision @ ''`: '' @ detail
      | ParseRust path message \<Rightarrow> ''failed to parse Rust source `'' @ path @ ''`: '' @ message)"

definition check_exposure_comparison ::
    "pilot_manifest \<Rightarrow> exposure_comparison \<Rightarrow> string list \<Rightarrow> string list" where
  "check_exposure_comparison pilot c errors =
     push_if (ec_candidate c \<noteq> configuration_of (pi_rollback pilot) (rb_rust_value (pi_rollback pilot)))
       ''exposure candidate does not match Rust configuration''
       (push_if (ec_baseline c \<noteq>
           configuration_of (pi_rollback pilot) (rb_fallback_value (pi_rollback pilot)))
         ''exposure baseline does not match rollback fallback configuration''
       (push_if (ec_upstream_revision c \<noteq> up_revision (pi_upstream pilot))
         ''exposure revision does not match pilot revision'' errors))"

definition check_non_increasing :: "string list \<Rightarrow> string \<Rightarrow> string list \<Rightarrow> string list" where
  "check_non_increasing metrics metric errors =
     push_if (maintenance_metric_pair None metric = None)
       (''unsupported maintenance metric `'' @ metric)
       (push_if (metric \<notin> set metrics)
         (''non-increasing maintenance metric `'' @ metric @ ''` is not in the reported metric set'') errors)"

definition check_metrics :: "exposure_manifest \<Rightarrow> string list \<Rightarrow> string list" where
  "check_metrics e errors =
     (let m = em_maintenance e
      in fold (check_non_increasing (mm_metrics m)) (mm_non_increasing m)
        (check_unique_nonempty ''non-increasing maintenance metric'' (mm_non_increasing m)
        (check_unique_nonempty ''maintenance metric'' (mm_metrics m)
        (check_text ''memory-safety metric'' (ms_metric (em_memory_safety e)) errors))))"

definition source_inventory_spec ::
    "tools \<Rightarrow> file_system \<Rightarrow> string \<Rightarrow> string \<Rightarrow> exposure_source_spec option \<times> string list" where
  "source_inventory_spec t fs directory inventory =
     (if \<not> is_plain_toml_filename inventory
      then (None, [''exposure source inventory path `'' @ inventory @ ''` must be a plain .toml filename''])
      else case load_spec t fs (join_path directory inventory) of
             Inr spec \<Rightarrow> (Some spec, [])
           | Inl e \<Rightarrow> (None, [''invalid exposure source inventory: '' @ show_exposure_error e]))"

definition check_declared ::
    "string \<times> 64 word \<times> 64 word \<Rightarrow> string list \<Rightarrow> string list" where
  "check_declared = (\<lambda>(label, measured, declared).
     push_if (measured \<noteq> declared)
       (''exposure '' @ label @ '' '' @ show_u64 measured @ '' does not match source inventory '' @
        show_u64 declared))"

definition declared_counts ::
    "exposure_results \<Rightarrow> exposure_source_spec \<Rightarrow> (string \<times> 64 word \<times> 64 word) list" where
  "declared_counts r spec =
     [(''baseline active implementation files'', baseline_implementation_files r,
        of_nat (length (side_files (spec_baseline spec)))),
      (''candidate active implementation files'', candidate_implementation_files r,
        of_nat (length (side_files (spec_candidate spec)))),
      (''baseline cross-language forwarding methods'', baseline_forwarding_methods r,
        of_nat (length (side_methods (spec_baseline spec)))),
      (''candidate cross-language forwarding methods'', candidate_forwarding_methods r,
        of_nat (length (side_methods (spec_candidate spec)))),
      (''new public API count'', new_public_api_count r,
        review_new_public_api (spec_contract_review spec)),
      (''new Mojom method count'', new_mojom_method_count r,
        review_new_mojom_methods (spec_contract_review spec))]"

definition check_inventory_counts ::
    "exposure_results \<Rightarrow> exposure_source_spec option \<Rightarrow> string list \<Rightarrow> string list" where
  "check_inventory_counts r spec errors =
     (case spec of None \<Rightarrow> errors | Some sp \<Rightarrow> fold check_declared (declared_counts r sp) errors)"

definition check_exposure_status ::
    "exposure_manifest \<Rightarrow> exposure_results \<Rightarrow> string list \<Rightarrow> string list" where
  "check_exposure_status e r errors =
     (let memory = exposure_memory_safety_violations e r; maintenance = exposure_maintenance_violations e r
      in case em_status e of
           Passed \<Rightarrow> errors @ memory @ maintenance
         | Failed \<Rightarrow>
             push_if (memory = [] \<and> maintenance = [])
               ''failed exposure record must violate at least one configured acceptance criterion'' errors
         | _ \<Rightarrow> errors @ [''measured exposure results require status `passed` or `failed`''])"

definition check_exposure_results ::
    "exposure_manifest \<Rightarrow> exposure_source_spec option \<Rightarrow> exposure_results \<Rightarrow> string list \<Rightarrow> string list" where
  "check_exposure_results e spec r errors =
     check_sha256_text ''exposure raw counts'' (raw_counts_sha256 r)
       (check_sha256_text ''exposure file hashes'' (file_hashes_sha256 r)
       (check_text ''exposure measurement tool version'' (measurement_tool_version r)
       (check_exposure_status e r
       (check_inventory_counts r spec
       (push_if (measurement_tool_version r \<noteq> exposure_tool_version)
         (''unsupported exposure measurement tool version `'' @ measurement_tool_version r @
          ''`; expected `'' @ exposure_tool_version @ ''`'') errors)))))"

definition check_unmeasured_exposure :: "exposure_manifest \<Rightarrow> string list \<Rightarrow> string list" where
  "check_unmeasured_exposure e errors =
     (if em_results e = None \<and> (em_status e = Passed \<or> em_status e = Failed)
      then errors @ [if em_status e = Passed then ''passed exposure record requires measured results''
                     else ''failed exposure record requires measured results'']
      else errors)"

definition check_accepted_violations ::
    "bool \<Rightarrow> (exposure_results \<Rightarrow> string list) \<Rightarrow> string \<Rightarrow> exposure_results option \<Rightarrow>
     string list \<Rightarrow> string list" where
  "check_accepted_violations satisfied violations message results errors =
     (if satisfied
      then (case results of Some r \<Rightarrow> errors @ violations r | None \<Rightarrow> errors @ [message])
      else errors)"

definition check_exposure_acceptance ::
    "m3_acceptance \<Rightarrow> exposure_manifest \<Rightarrow> string list \<Rightarrow> string list" where
  "check_exposure_acceptance m3 e errors =
     push_if (is_satisfied (m3_memory_safety m3) \<and> is_satisfied (m3_maintenance m3) \<and>
         em_status e \<noteq> Passed)
       ''satisfied exposure acceptance requires a passed exposure record''
       (check_accepted_violations (is_satisfied (m3_maintenance m3)) (exposure_maintenance_violations e)
         ''satisfied maintenance acceptance requires measured exposure results'' (em_results e)
       (check_accepted_violations (is_satisfied (m3_memory_safety m3)) (exposure_memory_safety_violations e)
         ''satisfied memory-safety acceptance requires measured exposure results'' (em_results e) errors))"

definition validate_exposure ::
    "tools \<Rightarrow> file_system \<Rightarrow> migration_evidence \<Rightarrow> string list \<Rightarrow> string list" where
  "validate_exposure t fs ev errors =
     (let e = mi_exposure ev; pilot = mi_pilot ev;
          spec = source_inventory_spec t fs (mi_directory ev) (ee_source_inventory (em_evidence e));
          inventory =
            check_metrics e (check_exposure_comparison pilot (em_comparison e) errors) @ snd spec;
          results =
            (case em_results e of
               None \<Rightarrow> inventory | Some r \<Rightarrow> check_exposure_results e (fst spec) r inventory)
      in check_exposure_acceptance (pi_m3 pilot) e (check_unmeasured_exposure e results))"

section \<open>The validation\<close>

definition check_linked_status ::
    "string \<times> evidence_status \<times> evidence_status \<Rightarrow> string list \<Rightarrow> string list" where
  "check_linked_status = (\<lambda>(kind, linked, actual).
     push_if (linked \<noteq> actual)
       (''linked '' @ kind @ '' status '' @ debug_status linked @ '' does not match record status '' @
        debug_status actual))"

definition acceptance :: "m3_acceptance \<Rightarrow> (string \<times> evidence_status) list" where
  "acceptance m3 =
     [(''feature parity'', m3_feature_parity m3),
      (''upstream test parity'', m3_upstream_test_parity m3),
      (''performance budget'', m3_performance_budget m3),
      (''rollback'', m3_rollback m3),
      (''memory-safety reduction'', m3_memory_safety m3),
      (''maintenance-complexity reduction'', m3_maintenance m3)]"

definition check_retired :: "pilot_manifest \<Rightarrow> string list \<Rightarrow> string list" where
  "check_retired p errors =
     (if pi_status p = Retired
      then push_if (list_all is_satisfied (map snd (acceptance (pi_m3 p))) \<and>
             is_satisfied (im_status (pi_implementation p)))
           ''retired pilot cannot have every M3 acceptance criterion satisfied; use complete''
           (push_if (case no_closeout_reason (pi_notes p) of None \<Rightarrow> True | Some r \<Rightarrow> trim r = [])
             ''retired pilot requires a non-empty closeout reason'' errors)
      else errors)"

definition check_acceptance :: "string \<times> evidence_status \<Rightarrow> string list \<Rightarrow> string list" where
  "check_acceptance = (\<lambda>(name, status).
     push_if (\<not> is_satisfied status)
       (''complete pilot requires satisfied '' @ name @ ''; found '' @ debug_status status))"

definition check_complete :: "pilot_manifest \<Rightarrow> string list \<Rightarrow> string list" where
  "check_complete p errors =
     (if pi_status p = Complete
      then push_if (\<not> is_satisfied (im_status (pi_implementation p)))
           (''complete pilot requires passed implementation patch; found '' @
            debug_status (im_status (pi_implementation p)))
           (fold check_acceptance (acceptance (pi_m3 p)) errors)
      else errors)"

definition check_records :: "migration_evidence \<Rightarrow> string list \<Rightarrow> string list" where
  "check_records ev errors =
     (let p = mi_pilot ev
      in fold (check_evidence_id (pi_id p))
           [(''parity'', pm_id (mi_parity ev), pi_id p @ ''-parity''),
            (''performance'', pf_id (mi_performance ev), pi_id p @ ''-performance''),
            (''exposure'', em_id (mi_exposure ev), pi_id p @ ''-exposure'')]
        (check_text ''pilot id'' (pi_id p)
        (fold check_schema_version
           [(''pilot'', pi_schema_version p), (''parity'', pm_schema_version (mi_parity ev)),
            (''performance'', pf_schema_version (mi_performance ev)),
            (''exposure'', em_schema_version (mi_exposure ev))] errors)))"

definition check_pilot :: "migration_evidence \<Rightarrow> string list \<Rightarrow> string list" where
  "check_pilot ev errors =
     (let p = mi_pilot ev
      in check_m3_rollback p (pm_rollback_matrix (mi_parity ev))
        (check_verified_rollback p
        (snd (fold check_verification (pi_verification p) ([],
         check_rollback (pi_rollback p)
        (check_boundary (pi_boundary p)
        (check_upstream (pi_upstream p) errors)))))))"

definition check_links :: "migration_evidence \<Rightarrow> string list \<Rightarrow> string list" where
  "check_links ev =
     fold check_linked_status
       [(''parity'', le_status (pi_parity (mi_pilot ev)), pm_status (mi_parity ev)),
        (''performance'', le_status (pi_performance (mi_pilot ev)), pf_status (mi_performance ev)),
        (''exposure'', le_status (pi_exposure (mi_pilot ev)), em_status (mi_exposure ev))]"

definition evidence_errors :: "tools \<Rightarrow> file_system \<Rightarrow> migration_evidence \<Rightarrow> string list" where
  "evidence_errors t fs ev =
     check_complete (mi_pilot ev)
       (check_retired (mi_pilot ev)
       (validate_exposure t fs ev
       (validate_performance ev
       (validate_parity ev
       (check_links ev
       (validate_implementation t fs ev
       (check_pilot ev
       (check_records ev []))))))))"

definition validate_evidence ::
    "tools \<Rightarrow> file_system \<Rightarrow> migration_evidence \<Rightarrow> (string list, unit) result" where
  "validate_evidence t fs ev =
     (if evidence_errors t fs ev = [] then Inr () else Inl (evidence_errors t fs ev))"

section \<open>Loading\<close>

record parsers =
  pilot_from_toml :: "string \<Rightarrow> string + pilot_manifest"
  parity_from_toml :: "string \<Rightarrow> string + parity_manifest"
  performance_from_toml :: "string \<Rightarrow> string + performance_manifest"
  exposure_from_toml :: "string \<Rightarrow> string + exposure_manifest"

definition load_toml ::
    "tools \<Rightarrow> file_system \<Rightarrow> (string \<Rightarrow> string + 'a) \<Rightarrow> string \<Rightarrow> (pilot_load_error, 'a) result" where
  "load_toml t fs parse path =
     (case read_to_string fs (components path) of
        None \<Rightarrow> Inl (LoadRead path (io_message t path))
      | Some source \<Rightarrow>
          (case parse source of Inl message \<Rightarrow> Inl (LoadParse path message) | Inr x \<Rightarrow> Inr x))"

definition correct_field :: "string \<Rightarrow> linked_evidence \<Rightarrow> bool" where
  "correct_field kind l \<longleftrightarrow>
     (if kind = ''parity'' then le_matrix l \<noteq> None \<and> le_budget l = None \<and> le_measurement l = None
      else if kind = ''performance'' then le_matrix l = None \<and> le_budget l \<noteq> None \<and> le_measurement l = None
      else if kind = ''exposure'' then le_matrix l = None \<and> le_budget l = None \<and> le_measurement l \<noteq> None
      else False)"

definition link_count :: "linked_evidence \<Rightarrow> nat" where
  "link_count l = length (filter (\<lambda>f. f \<noteq> None) [le_matrix l, le_budget l, le_measurement l])"

text \<open>\<open>LoadPanics\<close> is the \<open>expect\<close> of the code.\<close>

definition load_linked ::
    "tools \<Rightarrow> file_system \<Rightarrow> (string \<Rightarrow> string + 'a) \<Rightarrow> string \<Rightarrow> linked_evidence \<Rightarrow> string \<Rightarrow>
     (pilot_load_error, 'a) result" where
  "load_linked t fs parse directory l kind =
     (if \<not> correct_field kind l
      then Inl (LoadValidation [kind @ '' evidence must use its designated link field''])
      else if link_count l \<noteq> 1
      then Inl (LoadValidation [kind @ '' evidence must declare exactly one linked TOML file; found '' @
        show_nat (link_count l)])
      else case linked_path l of
             None \<Rightarrow> Inl LoadPanics
           | Some path \<Rightarrow>
               if \<not> is_plain_toml_filename path
               then Inl (LoadValidation [kind @ '' evidence path `'' @ path @
                 ''` must be a plain .toml filename''])
               else load_toml t fs parse (join_path directory path))"

definition load_evidence ::
    "tools \<Rightarrow> file_system \<Rightarrow> parsers \<Rightarrow> string \<Rightarrow> (pilot_load_error, migration_evidence) result" where
  "load_evidence t fs ps directory =
     and_then (load_toml t fs (pilot_from_toml ps) (join_path directory ''pilot.toml'')) (\<lambda>pilot.
     and_then (load_linked t fs (parity_from_toml ps) directory (pi_parity pilot) ''parity'') (\<lambda>parity.
     and_then (load_linked t fs (performance_from_toml ps) directory (pi_performance pilot) ''performance'')
       (\<lambda>performance.
     and_then (load_linked t fs (exposure_from_toml ps) directory (pi_exposure pilot) ''exposure'') (\<lambda>exposure.
     let ev = \<lparr>mi_directory = directory, mi_pilot = pilot, mi_parity = parity,
               mi_performance = performance, mi_exposure = exposure\<rparr>
     in case validate_evidence t fs ev of
          Inl errors \<Rightarrow> Inl (LoadValidation errors)
        | Inr _ \<Rightarrow> Inr ev))))"

end
