(* ===== verification/CommentSyntax.thy ===== *)
theory CommentSyntax
  imports Exposure
begin

text \<open>
  The comments of \<open>crates/chromifer-migration/src/exposure_measure.rs\<close>: a grammar of sources with comments,
  and the proof that the loop of \<open>strip_comments\<close> blanks what the grammar says is a comment, and nothing else.
\<close>

section \<open>What a comment is\<close>

text \<open>The content of a block comment, between its marks: with nesting, comments in it are closed before it
  is. No mark of an end, and with nesting no mark of a start, begins at another of its characters.\<close>

definition marks :: "bool \<Rightarrow> string \<Rightarrow> string list \<Rightarrow> bool" where
  "marks nested ch rest \<longleftrightarrow>
     rest \<noteq> [] \<and> (ch = ''*'' \<and> hd rest = ''/'' \<or> nested \<and> ch = ''/'' \<and> hd rest = ''*'')"

inductive comment_content :: "bool \<Rightarrow> string list \<Rightarrow> bool" for nested where
  content_end: "comment_content nested []"
| content_char: "comment_content nested cs \<Longrightarrow> \<not> marks nested ch (cs @ [''*'', ''/'']) \<Longrightarrow>
    comment_content nested (ch # cs)"
| content_comment: "nested \<Longrightarrow> comment_content nested inner \<Longrightarrow> comment_content nested cs \<Longrightarrow>
    comment_content nested ([''/'', ''*''] @ inner @ [''*'', ''/''] @ cs)"

text \<open>The content of a literal with a quotation mark: a backslash takes the next character with it.\<close>

inductive literal_content :: "string \<Rightarrow> string list \<Rightarrow> bool" for mark where
  literal_end: "literal_content mark []"
| literal_char: "literal_content mark cs \<Longrightarrow> ch \<noteq> mark \<Longrightarrow> ch \<noteq> [CHR 0x5C] \<Longrightarrow> literal_content mark (ch # cs)"
| literal_escape: "literal_content mark cs \<Longrightarrow> literal_content mark ([CHR 0x5C] # ch # cs)"

definition blank_of :: "string \<Rightarrow> string" where
  "blank_of ch = (if ch = [CHR 0x0A] then ch else '' '')"

definition opens_comment :: "string list \<Rightarrow> bool" where
  "opens_comment cs \<longleftrightarrow> (\<exists>rest. cs = ''/'' # ''/'' # rest \<or> cs = ''/'' # ''*'' # rest)"

definition quote_marks :: "string list" where
  "quote_marks = [[CHR 0x22], [CHR 0x27]]"

text \<open>A source with its comments blanked: code and literals stay, line comments up to the end of their line and
  block comments are blanked; a literal or a comment that does not end goes on to the end of the source.\<close>

inductive stripped :: "bool \<Rightarrow> string list \<Rightarrow> string list \<Rightarrow> bool" for nested where
  stripped_end: "stripped nested [] []"
| stripped_code: "stripped nested cs out \<Longrightarrow> ch \<notin> set quote_marks \<Longrightarrow> \<not> opens_comment (ch # cs) \<Longrightarrow>
    stripped nested (ch # cs) (ch # out)"
| stripped_literal: "mark \<in> set quote_marks \<Longrightarrow> literal_content mark body \<Longrightarrow> stripped nested cs out \<Longrightarrow>
    stripped nested (mark # body @ mark # cs) (mark # body @ mark # out)"
| stripped_open_literal: "mark \<in> set quote_marks \<Longrightarrow>
    \<nexists>body rest. literal_content mark body \<and> cs = body @ mark # rest \<Longrightarrow>
    stripped nested (mark # cs) (mark # cs)"
| stripped_line: "[CHR 0x0A] \<notin> set body \<Longrightarrow> cs = [] \<or> hd cs = [CHR 0x0A] \<Longrightarrow> stripped nested cs out \<Longrightarrow>
    stripped nested ([''/'', ''/''] @ body @ cs) (map blank_of ([''/'', ''/''] @ body) @ out)"
| stripped_block: "comment_content nested body \<Longrightarrow> stripped nested cs out \<Longrightarrow>
    stripped nested ([''/'', ''*''] @ body @ [''*'', ''/''] @ cs)
      (map blank_of ([''/'', ''*''] @ body @ [''*'', ''/'']) @ out)"
| stripped_open_block: "\<nexists>body rest. comment_content nested body \<and> cs = body @ [''*'', ''/''] @ rest \<Longrightarrow>
    stripped nested ([''/'', ''*''] @ cs) (map blank_of ([''/'', ''*''] @ cs))"

section \<open>Every source has one\<close>

lemma stripped_exists: "\<exists>out. stripped nested cs out"
proof (induction "length cs" arbitrary: cs rule: less_induct)
  case less
  consider "cs = []" | mark rest where "cs = mark # rest" "mark \<in> set quote_marks"
    | rest where "cs = [''/'', ''/''] @ rest" | rest where "cs = [''/'', ''*''] @ rest"
    | ch rest where "cs = ch # rest" "ch \<notin> set quote_marks" "\<not> opens_comment cs"
    by (cases cs) (auto simp: opens_comment_def)
  then show ?case
  proof cases
    case 1
    then show ?thesis by (auto intro: stripped_end)
  next
    case (2 mark rest)
    show ?thesis
    proof (cases "\<exists>body cs'. literal_content mark body \<and> rest = body @ mark # cs'")
      case True
      then obtain body cs' where b: "literal_content mark body" "rest = body @ mark # cs'" by blast
      then obtain out where "stripped nested cs' out" using less.hyps [of cs'] 2 by auto
      then show ?thesis using stripped_literal [OF 2(2) b(1)] 2(1) b(2) by blast
    next
      case False
      then show ?thesis using stripped_open_literal [OF 2(2)] 2(1) by blast
    qed
  next
    case (3 rest)
    let ?line = "takeWhile (\<lambda>ch. ch \<noteq> [CHR 0x0A]) rest" and ?cs = "dropWhile (\<lambda>ch. ch \<noteq> [CHR 0x0A]) rest"
    have "length ?cs \<le> length rest" by (rule length_dropWhile_le)
    then obtain out where "stripped nested ?cs out" using less.hyps [of ?cs] 3 by auto
    moreover have "[CHR 0x0A] \<notin> set ?line" by (auto dest: set_takeWhileD)
    moreover have "?cs = [] \<or> hd ?cs = [CHR 0x0A]" using hd_dropWhile [of "\<lambda>ch. ch \<noteq> [CHR 0x0A]" rest] by blast
    ultimately have "stripped nested ([''/'', ''/''] @ ?line @ ?cs) (map blank_of ([''/'', ''/''] @ ?line) @ out)"
      by (intro stripped_line)
    then show ?thesis using 3 by (auto simp: takeWhile_dropWhile_id)
  next
    case (4 rest)
    show ?thesis
    proof (cases "\<exists>body cs'. comment_content nested body \<and> rest = body @ [''*'', ''/''] @ cs'")
      case True
      then obtain body cs' where b: "comment_content nested body" "rest = body @ [''*'', ''/''] @ cs'" by blast
      then obtain out where "stripped nested cs' out" using less.hyps [of cs'] 4 by auto
      then show ?thesis using stripped_block [OF b(1)] 4 b(2) by blast
    next
      case False
      then show ?thesis using stripped_open_block [of nested rest] 4 by blast
    qed
  next
    case (5 ch rest)
    then obtain out where "stripped nested rest out" using less.hyps [of rest] by auto
    then show ?thesis using stripped_code 5 by blast
  qed
qed

section \<open>The loop finds it\<close>

lemma strip_block_char:
  "\<not> marks nested ch rest \<Longrightarrow>
   strip_loop nested BlockComment depth escaped (ch # rest) =
     blank_of ch # strip_loop nested BlockComment depth escaped rest"
  by (auto simp: marks_def blank_of_def)

lemma strip_content:
  "comment_content nested body \<Longrightarrow> 0 < depth \<Longrightarrow>
   strip_loop nested BlockComment depth escaped (body @ [''*'', ''/''] @ cs) =
     map blank_of (body @ [''*'', ''/'']) @
     strip_loop nested (if depth - 1 = 0 then Code else BlockComment) (depth - 1) escaped cs"
proof (induction arbitrary: depth cs rule: comment_content.induct)
  case content_end
  then show ?case by (simp add: blank_of_def)
next
  case (content_char body ch)
  then have "\<not> marks nested ch (body @ [''*'', ''/''] @ cs)"
    by (cases body) (auto simp: marks_def)
  from strip_block_char [OF this] show ?case using content_char.IH [OF content_char.prems] by simp
next
  case (content_comment inner body)
  have "strip_loop nested BlockComment depth escaped (([''/'', ''*''] @ inner @ [''*'', ''/''] @ body) @ [''*'', ''/''] @ cs) =
      ['' '', '' ''] @ strip_loop nested BlockComment (depth + 1) escaped
        (inner @ [''*'', ''/''] @ body @ [''*'', ''/''] @ cs)"
    using content_comment.hyps(1) by simp
  also have "\<dots> = ['' '', '' ''] @ map blank_of (inner @ [''*'', ''/'']) @
      strip_loop nested BlockComment depth escaped (body @ [''*'', ''/''] @ cs)"
    using content_comment.IH(1) [of "depth + 1" "body @ [''*'', ''/''] @ cs"] content_comment.prems by simp
  finally show ?case using content_comment.IH(2) [OF content_comment.prems] by (simp add: blank_of_def)
qed

text \<open>A comment at some depth is closed that many times, or goes on to the end.\<close>

lemma strip_block_cases:
  "0 < depth \<Longrightarrow>
   (\<exists>bodies rest. length bodies = depth \<and> list_all (comment_content nested) bodies \<and>
      cs = concat (map (\<lambda>body. body @ [''*'', ''/'']) bodies) @ rest) \<or>
   strip_loop nested BlockComment depth escaped cs = map blank_of cs"
proof (induction "length cs" arbitrary: cs depth rule: less_induct)
  case less
  consider "cs = []" | rest where "cs = ''*'' # ''/'' # rest" | rest where "nested" "cs = ''/'' # ''*'' # rest"
    | ch rest where "cs = ch # rest" "\<not> marks nested ch rest"
    by (cases cs; cases "tl cs") (auto simp: marks_def)
  then show ?case
  proof cases
    case 1
    then show ?thesis by simp
  next
    case (2 rest)
    show ?thesis
    proof (cases "depth = 1")
      case True
      then show ?thesis using 2 by (intro disjI1 exI [of _ "[[]]"] exI [of _ rest]) (simp add: content_end)
    next
      case False
      then have d: "0 < depth - 1" using less.prems by simp
      have "length rest < length cs" using 2 by simp
      from less.hyps [OF this d] show ?thesis
      proof (elim disjE exE conjE)
        fix bodies rest' assume b: "length bodies = depth - 1" "list_all (comment_content nested) bodies"
          "rest = concat (map (\<lambda>body. body @ [''*'', ''/'']) bodies) @ rest'"
        then show ?thesis using 2 less.prems
          by (intro disjI1 exI [of _ "[] # bodies"] exI [of _ rest']) (auto simp: content_end)
      next
        assume "strip_loop nested BlockComment (depth - 1) escaped rest = map blank_of rest"
        then show ?thesis using 2 False less.prems by (intro disjI2) (auto simp: blank_of_def)
      qed
    qed
  next
    case (3 rest)
    have "length rest < length cs" "0 < depth + 1" using 3 by simp_all
    from less.hyps [OF this] show ?thesis
    proof (elim disjE exE conjE)
      fix bodies rest' assume b: "length bodies = depth + 1" "list_all (comment_content nested) bodies"
        "rest = concat (map (\<lambda>body. body @ [''*'', ''/'']) bodies) @ rest'"
      then obtain b1 b2 bs where bodies: "bodies = b1 # b2 # bs"
        using less.prems by (cases bodies; cases "tl bodies") auto
      have "comment_content nested ([''/'', ''*''] @ b1 @ [''*'', ''/''] @ b2)"
        using b(2) 3(1) bodies by (intro content_comment) auto
      then show ?thesis using b bodies 3(2)
        by (intro disjI1 exI [of _ "([''/'', ''*''] @ b1 @ [''*'', ''/''] @ b2) # bs"] exI [of _ rest']) simp
    next
      assume "strip_loop nested BlockComment (depth + 1) escaped rest = map blank_of rest"
      then show ?thesis using 3 by (intro disjI2) (simp add: blank_of_def)
    qed
  next
    case (4 ch rest)
    have "length rest < length cs" using 4 by simp
    from less.hyps [OF this less.prems] show ?thesis
    proof (elim disjE exE conjE)
      fix bodies rest' assume b: "length bodies = depth" "list_all (comment_content nested) bodies"
        "rest = concat (map (\<lambda>body. body @ [''*'', ''/'']) bodies) @ rest'"
      then obtain b1 bs where bodies: "bodies = b1 # bs" using less.prems by (cases bodies) auto
      have "\<not> marks nested ch (b1 @ [''*'', ''/''])"
        using 4(2) b(3) bodies by (cases b1) (auto simp: marks_def)
      then have "comment_content nested (ch # b1)" using b(2) bodies by (intro content_char) auto
      then show ?thesis using b bodies 4(1)
        by (intro disjI1 exI [of _ "(ch # b1) # bs"] exI [of _ rest']) simp
    next
      assume "strip_loop nested BlockComment depth escaped rest = map blank_of rest"
      then show ?thesis using 4 strip_block_char [OF 4(2)] by (intro disjI2) simp
    qed
  qed
qed

lemma strip_open_block:
  assumes "\<nexists>body rest. comment_content nested body \<and> cs = body @ [''*'', ''/''] @ rest"
  shows "strip_loop nested BlockComment 1 escaped cs = map blank_of cs"
proof -
  have False if "length bodies = 1" "list_all (comment_content nested) bodies"
    "cs = concat (map (\<lambda>body. body @ [''*'', ''/'']) bodies) @ rest" for bodies rest
    using that assms by (cases bodies) auto
  then show ?thesis using strip_block_cases [of 1 nested cs escaped] by auto
qed

lemma strip_line:
  "[CHR 0x0A] \<notin> set body \<Longrightarrow>
   strip_loop nested LineComment depth escaped (body @ cs) =
     map blank_of body @ strip_loop nested LineComment depth escaped cs"
  by (induction body) (auto simp: blank_of_def)

definition literal_of :: "string \<Rightarrow> strip_state" where
  "literal_of mark = (if mark = [CHR 0x22] then StringLiteral else CharLiteral)"

lemma strip_literal:
  "literal_content mark body \<Longrightarrow> mark \<in> set quote_marks \<Longrightarrow>
   strip_loop nested (literal_of mark) depth False (body @ mark # cs) =
     body @ mark # strip_loop nested Code depth False cs"
proof (induction rule: literal_content.induct)
  case literal_end
  then show ?case by (auto simp: literal_of_def literal_state_def quote_marks_def)
next
  case (literal_char body ch)
  then show ?case by (auto simp: literal_of_def literal_state_def quote_marks_def)
next
  case (literal_escape body ch)
  then show ?case by (auto simp: literal_of_def literal_state_def quote_marks_def)
qed

lemma strip_open_literal:
  assumes "mark \<in> set quote_marks" and "\<nexists>body rest. literal_content mark body \<and> cs = body @ mark # rest"
  shows "strip_loop nested (literal_of mark) depth False cs = cs"
  using assms(2)
proof (induction "length cs" arbitrary: cs rule: less_induct)
  case less
  consider "cs = []" | rest where "cs = mark # rest" | "cs = [[CHR 0x5C]]"
    | ch rest where "cs = [CHR 0x5C] # ch # rest" | ch rest where "cs = ch # rest" "ch \<noteq> mark" "ch \<noteq> [CHR 0x5C]"
    by (cases cs; cases "tl cs") auto
  then show ?case
  proof cases
    case (2 rest)
    then show ?thesis using less.prems literal_end [of mark] by fastforce
  next
    case (4 ch rest)
    have "\<nexists>body rest'. literal_content mark body \<and> rest = body @ mark # rest'"
      using less.prems literal_escape [of mark _ ch] 4 by fastforce
    then have "strip_loop nested (literal_of mark) depth False rest = rest" using less.hyps [of rest] 4 by simp
    then show ?thesis using 4 assms(1) by (auto simp: literal_of_def literal_state_def quote_marks_def)
  next
    case (5 ch rest)
    have "\<nexists>body rest'. literal_content mark body \<and> rest = body @ mark # rest'"
      using less.prems literal_char [of mark _ ch] 5 by fastforce
    then have "strip_loop nested (literal_of mark) depth False rest = rest" using less.hyps [of rest] 5 by simp
    then show ?thesis using 5 assms(1) by (auto simp: literal_of_def literal_state_def quote_marks_def)
  qed (auto simp: literal_of_def literal_state_def)
qed

lemma strip_code: "stripped nested cs out \<Longrightarrow> strip_loop nested Code depth escaped cs = out"
proof (induction arbitrary: depth escaped rule: stripped.induct)
  case (stripped_code cs out ch)
  then have "\<not> (ch = ''/'' \<and> cs \<noteq> [] \<and> hd cs = ''/'')" "\<not> (ch = ''/'' \<and> cs \<noteq> [] \<and> hd cs = ''*'')"
    by (auto simp: opens_comment_def neq_Nil_conv)
  then show ?case using stripped_code by (auto simp: quote_marks_def)
next
  case (stripped_literal mark body cs out)
  have "strip_loop nested Code depth escaped (mark # body @ mark # cs) =
      mark # strip_loop nested (literal_of mark) depth False (body @ mark # cs)"
    using stripped_literal.hyps(1) by (auto simp: quote_marks_def literal_of_def)
  then show ?case using strip_literal [OF stripped_literal.hyps(2,1)] stripped_literal.IH by simp
next
  case (stripped_open_literal mark cs)
  have "strip_loop nested Code depth escaped (mark # cs) = mark # strip_loop nested (literal_of mark) depth False cs"
    using stripped_open_literal.hyps(1) by (auto simp: quote_marks_def literal_of_def)
  then show ?case using strip_open_literal [OF stripped_open_literal.hyps] by simp
next
  case (stripped_line body cs out)
  have "strip_loop nested LineComment depth escaped cs = strip_loop nested Code depth escaped cs"
    using stripped_line.hyps(2) by (cases cs) auto
  then show ?case using stripped_line strip_line [OF stripped_line.hyps(1)] by (simp add: blank_of_def)
next
  case (stripped_block body cs out)
  then show ?case using strip_content [OF stripped_block.hyps(1), of 1 escaped cs] by (simp add: blank_of_def)
next
  case (stripped_open_block cs)
  then show ?case using strip_open_block [OF stripped_open_block.hyps] by (simp add: blank_of_def)
qed simp

lemma strip_loop_exact: "strip_loop nested Code depth escaped cs = out \<longleftrightarrow> stripped nested cs out"
  using stripped_exists [of nested cs] strip_code by metis

end
