(* ===== verification/ExposureCorrect.thy ===== *)
theory ExposureCorrect
  imports CommentSyntax "HOL-Library.Multiset"
begin

text \<open>
  What the measurement guarantees: exactly the comments are blanked, without moving a line, blanking is
  idempotent, and a report is about exactly the files of the specification it was measured for.
\<close>

section \<open>Comments\<close>

definition blanked :: "string \<Rightarrow> string \<Rightarrow> bool" where
  "blanked out ch \<longleftrightarrow> out = ch \<or> (out = '' '' \<and> ch \<noteq> [CHR 0x0A])"

lemma blanked_simps [simp]:
  "blanked ch ch" "blanked '' '' ''/''" "blanked '' '' ''*''"
  "ch \<noteq> [CHR 0x0A] \<Longrightarrow> blanked '' '' ch"
  by (simp_all add: blanked_def)

lemma second_char [simp]:
  "rest \<noteq> [] \<and> hd rest = ch \<Longrightarrow> list_all2 blanked out (tl rest) \<Longrightarrow> blanked o1 ch \<Longrightarrow>
   list_all2 blanked (o1 # out) rest"
  by (cases rest) auto

lemma strip_loop_blanks: "list_all2 blanked (strip_loop nested state depth escaped cs) cs"
  by (induction nested state depth escaped cs rule: strip_loop.induct)
    (auto simp: list_all2_Cons2 neq_Nil_conv split: prod.split)

text \<open>On its own output, the loop is in a literal when it was in one, and in code otherwise.\<close>

definition literal :: "strip_state \<Rightarrow> bool" where
  "literal state \<longleftrightarrow> state = StringLiteral \<or> state = CharLiteral"

definition second_state :: "strip_state \<Rightarrow> strip_state" where
  "second_state state = (if literal state then state else Code)"

lemma strip_loop_hd:
  assumes "strip_loop nested state depth escaped cs \<noteq> []"
    and "hd (strip_loop nested state depth escaped cs) \<noteq> '' ''"
  shows "cs \<noteq> [] \<and> hd cs = hd (strip_loop nested state depth escaped cs)"
proof -
  have "list_all2 blanked (strip_loop nested state depth escaped cs) cs" by (rule strip_loop_blanks)
  with assms show ?thesis
    by (cases cs; cases "strip_loop nested state depth escaped cs") (auto simp: blanked_def)
qed

lemma strip_loop_again:
  "(literal state \<longrightarrow> escaped' = escaped) \<Longrightarrow>
   strip_loop nested' (second_state state) depth' escaped' (strip_loop nested state depth escaped cs) =
     strip_loop nested state depth escaped cs"
proof (induction nested state depth escaped cs arbitrary: depth' escaped' rule: strip_loop.induct)
  case (2 nested depth escaped ch rest)
  have code: "second_state Code = Code" "second_state LineComment = Code" "second_state BlockComment = Code"
    "second_state StringLiteral = StringLiteral" "second_state CharLiteral = CharLiteral"
    by (simp_all add: second_state_def literal_def)
  have plain: "\<not> (strip_loop nested Code depth escaped rest \<noteq> [] \<and>
      (hd (strip_loop nested Code depth escaped rest) = ''/'' \<or>
       hd (strip_loop nested Code depth escaped rest) = ''*''))"
    if "ch = ''/''" "\<not> (rest \<noteq> [] \<and> hd rest = ''/'')" "\<not> (rest \<noteq> [] \<and> hd rest = ''*'')"
    using that strip_loop_hd [of nested Code depth escaped rest] by auto
  show ?case
    using 2(1,2,5) 2(3,4) [where escaped' = False] plain by (auto simp: code literal_def)
next
  case (3 nested depth escaped ch rest)
  obtain state e where ls: "literal_state StringLiteral [CHR 0x22] escaped ch = (state, e)"
    by (cases "literal_state StringLiteral [CHR 0x22] escaped ch")
  have "second_state state = state"
    using ls by (auto simp: literal_state_def second_state_def literal_def split: if_splits)
  moreover have "escaped' = escaped" using "3.prems" by (simp add: literal_def)
  ultimately show ?case
    using "3.IH" [OF ls [symmetric], of e depth'] ls by (simp add: second_state_def literal_def)
next
  case (4 nested depth escaped ch rest)
  obtain state e where ls: "literal_state CharLiteral [CHR 0x27] escaped ch = (state, e)"
    by (cases "literal_state CharLiteral [CHR 0x27] escaped ch")
  have "second_state state = state"
    using ls by (auto simp: literal_state_def second_state_def literal_def split: if_splits)
  moreover have "escaped' = escaped" using "4.prems" by (simp add: literal_def)
  ultimately show ?case
    using "4.IH" [OF ls [symmetric], of e depth'] ls by (simp add: second_state_def literal_def)
qed (auto simp: second_state_def literal_def)

text \<open>The characters of a concatenation of characters.\<close>

definition char_bytes :: "string \<Rightarrow> bool" where
  "char_bytes ch \<longleftrightarrow> ch \<noteq> [] \<and> list_all is_continuation (tl ch)"

lemma chars_append:
  assumes "char_bytes ch" and "s = [] \<or> \<not> is_continuation (hd s)"
  shows "chars (ch @ s) = ch # chars s"
proof -
  obtain c cs where ch: "ch = c # cs" and cs: "\<forall>b\<in>set cs. is_continuation b"
    using assms(1) by (cases ch) (auto simp: char_bytes_def list_all_iff)
  have "takeWhile is_continuation (cs @ s) = cs" "dropWhile is_continuation (cs @ s) = s"
    using cs assms(2) by (cases s; simp add: takeWhile_append dropWhile_append)+
  then show ?thesis by (simp add: ch)
qed

lemma chars_chunks: "ch \<in> set (chars s) \<Longrightarrow> char_bytes ch"
  by (induction s rule: chars.induct)
    (auto simp: char_bytes_def list_all_iff dest: set_takeWhileD)

lemma chars_later: "ch \<in> set (tl (chars s)) \<Longrightarrow> \<not> is_continuation (hd ch)"
proof (induction s rule: chars.induct)
  case (2 c s)
  have "\<not> is_continuation (hd ch)" if "ch \<in> set (chars (dropWhile is_continuation s))"
  proof (cases "dropWhile is_continuation s")
    case Nil
    with that show ?thesis by simp
  next
    case (Cons d t)
    have "\<not> is_continuation d" using hd_dropWhile [of is_continuation s] Cons by auto
    moreover have "ch = d # takeWhile is_continuation t \<or> ch \<in> set (tl (chars (dropWhile is_continuation s)))"
      using that Cons by auto
    ultimately show ?thesis using 2 by auto
  qed
  then show ?case using 2 by simp
qed simp

lemma chars_concat:
  assumes "\<forall>ch\<in>set cs. char_bytes ch" and "\<forall>ch\<in>set (tl cs). \<not> is_continuation (hd ch)"
  shows "chars (concat cs) = cs"
  using assms
proof (induction cs)
  case (Cons ch cs)
  have tail: "\<forall>c\<in>set (tl cs). \<not> is_continuation (hd c)"
    using Cons.prems(2) by (cases cs) auto
  have "concat cs = [] \<or> \<not> is_continuation (hd (concat cs))"
    using Cons.prems by (cases cs) (auto simp: char_bytes_def)
  then show ?case using Cons tail chars_append [of ch "concat cs"] by simp
qed simp

lemma blanked_member: "list_all2 blanked out cs \<Longrightarrow> ch \<in> set out \<Longrightarrow> ch = '' '' \<or> ch \<in> set cs"
  by (induction rule: list_all2_induct) (auto simp: blanked_def)

lemma chars_strip_loop:
  assumes "list_all2 blanked out (chars s)"
  shows "chars (concat out) = out"
proof (rule chars_concat)
  have space: "char_bytes '' ''" "\<not> is_continuation (hd '' '')"
    by (simp_all add: char_bytes_def is_continuation_def byte_of_def)
  show "\<forall>ch\<in>set out. char_bytes ch"
    using blanked_member [OF assms] chars_chunks space(1) by blast
  have "list_all2 blanked (tl out) (tl (chars s))"
    using assms by (cases out; cases "chars s") auto
  from blanked_member [OF this] show "\<forall>ch\<in>set (tl out). \<not> is_continuation (hd ch)"
    using chars_later space(2) by blast
qed

text \<open>C26: stripping blanks exactly the comments: of the characters of a source, those of line and block comments
  (nested ones when asked for) become spaces, but for ends of lines, and all others stay, in code and in
  literals; a comment or a literal that does not end goes on to the end. Stripping again, nested or not,
  changes nothing.\<close>

theorem strip_comments_blanks:
  "(stripped nested (chars source) out \<longleftrightarrow> out = chars (strip_comments source nested)) \<and>
   strip_comments (strip_comments source nested) nested' = strip_comments source nested"
proof -
  define stripped_source where "stripped_source = strip_loop nested Code 0 False (chars source)"
  have "chars (concat stripped_source) = stripped_source"
    by (rule chars_strip_loop [where s = source]) (simp add: stripped_source_def strip_loop_blanks)
  moreover have "strip_loop nested' Code 0 False stripped_source = stripped_source"
    using strip_loop_again [of Code False False nested' 0 nested 0 "chars source"]
    by (simp add: stripped_source_def second_state_def literal_def)
  ultimately show ?thesis
    using strip_loop_exact [of nested 0 False "chars source" out]
    by (auto simp: strip_comments_def stripped_source_def)
qed

text \<open>A quote opens a character literal, also when it starts a lifetime: the comment after it counts as
  code.\<close>

lemma lifetime_hides_comment:
  "strip_comments (''&'' @ [CHR 0x27] @ ''a T // x'') True = ''&'' @ [CHR 0x27] @ ''a T // x''"
  by code_simp

section \<open>Reports\<close>

lemma measure_file_fields:
  "measure_file t side path bytes = Inr f \<Longrightarrow> ef_side f = side \<and> ef_path f = path"
  by (auto simp: measure_file_def and_then_Inr_iff)

lemma measure_baseline_fields:
  "measure_baseline t root revision path = Inr f \<Longrightarrow> ef_side f = ''baseline'' \<and> ef_path f = path"
  by (auto simp: measure_baseline_def and_then_Inr_iff dest: measure_file_fields)

lemma measure_candidate_fields:
  "measure_candidate t fs root path = Inr f \<Longrightarrow> ef_side f = ''candidate'' \<and> ef_path f = path"
  by (auto simp: measure_candidate_def Let_def and_then_Inr_iff dest: measure_file_fields)

text \<open>The totals of one side, as sums.\<close>

definition totals :: "exposure_file_measurement list \<Rightarrow> aggregate" where
  "totals files =
     \<lparr>ag_production_loc = sum_list (map ef_production_loc files),
      ag_memory_unsafe_loc = sum_list (map ef_memory_unsafe_loc files),
      ag_branch_points = sum_list (map ef_branch_points files),
      ag_raw_pointer_fields = sum_list (map ef_raw_pointer_fields files)\<rparr>"

lemma fold_add_measurement:
  "fold add_measurement files a =
     \<lparr>ag_production_loc = ag_production_loc a + ag_production_loc (totals files),
      ag_memory_unsafe_loc = ag_memory_unsafe_loc a + ag_memory_unsafe_loc (totals files),
      ag_branch_points = ag_branch_points a + ag_branch_points (totals files),
      ag_raw_pointer_fields = ag_raw_pointer_fields a + ag_raw_pointer_fields (totals files)\<rparr>"
  by (induction files arbitrary: a) (simp_all add: add_measurement_def totals_def add.assoc)

lemma aggregate_side_totals:
  "aggregate_side files side = totals (filter (\<lambda>f. ef_side f = side) files)"
  by (simp add: aggregate_side_def fold_add_measurement no_aggregate_def totals_def)

lemma sum_list_mset:
  fixes g :: "'a \<Rightarrow> 'b::comm_monoid_add"
  shows "mset xs = mset ys \<Longrightarrow> sum_list (map g xs) = sum_list (map g ys)"
  by (metis mset_map sum_mset_sum_list)

lemma totals_mset: "mset xs = mset ys \<Longrightarrow> totals xs = totals ys"
  by (simp add: totals_def sum_list_mset [of xs ys])

lemma list_all2_right:
  assumes "list_all2 R xs ys" and "\<And>x y. R x y \<Longrightarrow> P y"
  shows "\<forall>y\<in>set ys. P y"
  using assms(1) by (induction rule: list_all2_induct) (auto intro: assms(2))

lemma filter_side:
  assumes "\<forall>f\<in>set base. ef_side f = ''baseline''" and "\<forall>f\<in>set cand. ef_side f = ''candidate''"
    and "mset files = mset (base @ cand)"
  shows "aggregate_side files ''baseline'' = totals base" "aggregate_side files ''candidate'' = totals cand"
proof -
  have "filter (\<lambda>f. ef_side f = ''baseline'') (base @ cand) = base"
    "filter (\<lambda>f. ef_side f = ''candidate'') (base @ cand) = cand"
    using assms(1,2) by (simp_all add: filter_empty_conv filter_id_conv)
  moreover have "mset (filter P files) = mset (filter P (base @ cand))" for P
    using assms(3) by (metis mset_filter)
  ultimately show "aggregate_side files ''baseline'' = totals base"
    "aggregate_side files ''candidate'' = totals cand"
    using totals_mset aggregate_side_totals by metis+
qed

text \<open>C25: A report measures exactly the listed files, the baseline as git shows it at the revision and the
  candidate as it is in the working tree, in the order of side and path, and its results are the sums of
  these measurements.\<close>

theorem measure_exposure_correct:
  assumes "measure_exposure t fs revision root path = Inr report"
  shows "\<exists>spec base cand. load_spec t fs path = Inr spec \<and>
    list_all2 (\<lambda>p f. measure_baseline t root revision p = Inr f) (side_files (spec_baseline spec)) base \<and>
    list_all2 (\<lambda>p f. measure_candidate t fs root p = Inr f) (side_files (spec_candidate spec)) cand \<and>
    mset (report_file_list report) = mset (base @ cand) \<and>
    sorted (map (\<lambda>f. (ef_side f, ef_path f)) (report_file_list report)) \<and>
    baseline_memory_unsafe_loc (report_results report) = sum_list (map ef_memory_unsafe_loc base) \<and>
    candidate_memory_unsafe_loc (report_results report) = sum_list (map ef_memory_unsafe_loc cand) \<and>
    baseline_production_loc (report_results report) = sum_list (map ef_production_loc base) \<and>
    candidate_production_loc (report_results report) = sum_list (map ef_production_loc cand) \<and>
    baseline_branch_points (report_results report) = sum_list (map ef_branch_points base) \<and>
    candidate_branch_points (report_results report) = sum_list (map ef_branch_points cand) \<and>
    baseline_raw_pointer_fields (report_results report) = sum_list (map ef_raw_pointer_fields base) \<and>
    candidate_raw_pointer_fields (report_results report) = sum_list (map ef_raw_pointer_fields cand)"
proof -
  obtain spec base cand files where m: "load_spec t fs path = Inr spec"
    "list_all2 (\<lambda>p f. measure_baseline t root revision p = Inr f) (side_files (spec_baseline spec)) base"
    "list_all2 (\<lambda>p f. measure_candidate t fs root p = Inr f) (side_files (spec_candidate spec)) cand"
    "files = sort_key (\<lambda>f. (ef_side f, ef_path f)) (base @ cand)"
    "report = \<lparr>report_results = measured_results t spec files, report_file_list = files,
       report_contract_review = spec_contract_review spec\<rparr>"
    using assms
    by (auto simp: measure_exposure_def measure_exposure_spec_def and_then_Inr_iff try_map_Inr_iff Let_def)
  have "\<forall>f\<in>set base. ef_side f = ''baseline''" "\<forall>f\<in>set cand. ef_side f = ''candidate''"
    by (rule list_all2_right [OF m(2)], use measure_baseline_fields in blast)
      (rule list_all2_right [OF m(3)], use measure_candidate_fields in blast)
  then have totals: "aggregate_side files ''baseline'' = totals base"
    "aggregate_side files ''candidate'' = totals cand"
    using filter_side [of base cand files] m(4) by simp_all
  have "sorted (map (\<lambda>f. (ef_side f, ef_path f)) files)" "mset files = mset (base @ cand)"
    using m(4) by simp_all
  then show ?thesis
    using m(1-3) totals unfolding m(5)
    by (intro exI [of _ spec] exI [of _ base] exI [of _ cand])
      (simp add: measured_results_def Let_def totals_def)
qed

text \<open>A tree with one C++ file, rewritten in Rust.\<close>

definition example_spec :: exposure_source_spec where
  "example_spec =
     \<lparr>spec_schema_version = 1, spec_baseline = \<lparr>side_files = [''a.cc''], side_methods = []\<rparr>,
      spec_candidate = \<lparr>side_files = [''a.rs''], side_methods = [''f'']\<rparr>,
      spec_contract_review = \<lparr>review_new_public_api = 0, review_new_mojom_methods = 0\<rparr>\<rparr>"

definition example_tools :: tools where
  "example_tools =
     \<lparr>sha256_text = (\<lambda>_. replicate 64 (CHR ''0'')),
      spec_from_toml = (\<lambda>s. if s = ''spec'' then Inr example_spec else Inl ''bad''),
      io_message = (\<lambda>_. ''io''),
      git_show_output = (\<lambda>root object. Exited True ''int *p; // c'' []),
      parse_rust = (\<lambda>_. Inr [RustNode (ItemFn False) 1 1 []])\<rparr>"

definition example_tree :: file_system where
  "example_tree =
     \<lparr>fs_nodes = [([''w''], Directory), ([''w'', ''s.toml''], RegularFile ''spec''),
        ([''w'', ''a.rs''], RegularFile ''fn f(){}''), ([''w'', ''c.patch''], RegularFile ''diff''),
        ([''w'', ''pilot.toml''], RegularFile ''p''), ([''w'', ''a.toml''], RegularFile ''a''),
        ([''w'', ''b.toml''], RegularFile ''b''), ([''w'', ''c.toml''], RegularFile ''c'')],
      fs_cwd = []\<rparr>"

lemma measure_exposure_correct_witness:
  "\<exists>(report :: exposure_report) spec base cand. load_spec example_tools example_tree ''/w/s.toml'' = Inr spec \<and>
     mset (report_file_list report) = mset (base @ cand) \<and>
     baseline_memory_unsafe_loc (report_results report) = sum_list (map ef_memory_unsafe_loc base)"
proof -
  have "case measure_exposure example_tools example_tree ''r'' ''/w'' ''/w/s.toml'' of
      Inl _ \<Rightarrow> False | Inr _ \<Rightarrow> True"
    by code_simp
  then obtain report where
    "measure_exposure example_tools example_tree ''r'' ''/w'' ''/w/s.toml'' = Inr report"
    by (auto split: sum.splits)
  from measure_exposure_correct [OF this] show ?thesis
    by (elim exE conjE) (intro exI conjI; assumption)
qed

end
