(* ===== verification/PilotCorrect.thy ===== *)
theory PilotCorrect
  imports Pilot ExposureCorrect
begin

text \<open>
  What an accepted pilot record guarantees. Every check of \<open>Pilot\<close> meets a contract of \<open>Checks\<close>, so the
  vector is empty exactly when each check reports nothing; \<open>sound_evidence\<close> is the declarative reading.
\<close>

section \<open>Every check only appends\<close>

interpretation texts: error_pass "check_text label" for label
  by unfold_locales (simp add: check_text_def push_if_def)

interpretation git_shas: error_pass "check_git_sha label" for label
  by unfold_locales (simp add: check_git_sha_def push_if_def)

interpretation digests: error_pass "check_sha256_text label" for label
  by unfold_locales (simp add: check_sha256_text_def push_if_def)

interpretation optional_digests: error_pass "check_optional_digest label" for label
  by unfold_locales (simp add: check_optional_digest_def appends split: option.split)

interpretation labelled_digests: error_pass check_labelled_digest
  by unfold_locales (simp add: check_labelled_digest_def appends split: prod.split)

lemma fold_check_unique_value:
  "snd (fold (check_unique_value label) vs (seen, errors)) =
     errors @ snd (fold (check_unique_value label) vs (seen, []))"
proof (induction vs arbitrary: seen errors)
  case (Cons v vs)
  show ?case
    using Cons [of seen "errors @ [label @ '' must not be empty'']"]
      Cons [of seen "[label @ '' must not be empty'']"]
      Cons [of seen "errors @ [''duplicate '' @ label @ '' `'' @ v @ ''`'']"]
      Cons [of seen "[''duplicate '' @ label @ '' `'' @ v @ ''`'']"]
      Cons [of "bts_insert v seen" errors]
    by (simp add: check_unique_value_def)
qed simp

lemma fold_check_unique_value_clean:
  "snd (fold (check_unique_value label) vs (seen, [])) = [] \<longleftrightarrow>
     distinct vs \<and> (\<forall>v\<in>set vs. \<not> is_blank v \<and> v \<notin> set seen)"
proof (induction vs arbitrary: seen)
  case (Cons v vs)
  show ?case
  proof (cases "is_blank v \<or> v \<in> set seen")
    case True
    then have "snd (fold (check_unique_value label) (v # vs) (seen, [])) \<noteq> []"
      using fold_check_unique_value [of label vs seen "[label @ '' must not be empty'']"]
        fold_check_unique_value [of label vs seen "[''duplicate '' @ label @ '' `'' @ v @ ''`'']"]
      by (auto simp: check_unique_value_def)
    with True show ?thesis by auto
  next
    case False
    then show ?thesis using Cons [of "bts_insert v seen"] by (auto simp: check_unique_value_def)
  qed
qed simp

interpretation uniques: error_pass "check_unique_nonempty label" for label
proof unfold_locales
  fix vs errors
  show "check_unique_nonempty label vs errors = errors @ check_unique_nonempty label vs []"
    using fold_check_unique_value [of label vs "[]" errors]
    by (simp add: check_unique_nonempty_def)
qed

interpretation platform_digests: error_pass "check_platform_digest label" for label
  by unfold_locales (simp add: check_platform_digest_def appends split: prod.split)

interpretation platform_evidence: error_pass "\<lambda>e. check_platform_evidence label e required" for label required
  by unfold_locales (simp add: check_platform_evidence_def appends)

interpretation schema_versions: error_pass check_schema_version
  by unfold_locales (simp add: check_schema_version_def push_if_def split: prod.split)

interpretation evidence_ids: error_pass "check_evidence_id p" for p
  by unfold_locales (simp add: check_evidence_id_def push_if_def split: prod.split)

interpretation blobs: error_pass check_blob
  by unfold_locales (simp add: check_blob_def appends split: prod.split)

interpretation upstreams: error_pass check_upstream
  by unfold_locales (simp add: check_upstream_def appends)

interpretation boundaries: error_pass check_boundary
  by unfold_locales (simp add: check_boundary_def appends)

interpretation rollbacks: error_pass check_rollback
  by unfold_locales (simp add: check_rollback_def appends)

interpretation passed_verifications: error_pass check_passed_verification
  by unfold_locales (simp add: check_passed_verification_def appends)

interpretation verifications: seen_pass check_verification ve_id
    "\<lambda>v seen. snd (check_verification v (if seen then [ve_id v] else [], []))"
  by unfold_locales (simp_all add: check_verification_def appends push_if_clean push_if_def)

interpretation verified_rollbacks: error_pass check_verified_rollback
  by unfold_locales (simp add: check_verified_rollback_def push_if_def)

interpretation m3_rollbacks: error_pass "check_m3_rollback p" for p
  by unfold_locales (simp add: check_m3_rollback_def Let_def appends)

interpretation patch_files: error_pass "check_patch_file t fs directory" for t fs directory
  by unfold_locales (simp add: check_patch_file_def Let_def appends split: option.split)

interpretation patches: error_pass "check_patch t fs directory revision" for t fs directory revision
  by unfold_locales (simp add: check_patch_def Let_def appends)

interpretation implementations: error_pass "validate_implementation t fs" for t fs
  by unfold_locales (simp add: validate_implementation_def Let_def appends split: option.split)

interpretation suites: seen_pass check_suite su_id
    "\<lambda>s seen. snd (check_suite s (if seen then [su_id s] else [], []))"
  by unfold_locales (simp_all add: check_suite_def appends push_if_clean push_if_def)

interpretation case_methods: error_pass "check_case_method methods i" for methods i
  by unfold_locales (simp add: check_case_method_def push_if_def)

interpretation cases_of: seen_pass "check_case methods" cc_id
    "\<lambda>c seen. snd (check_case methods c (if seen then [cc_id c] else [], []))" for methods
  by unfold_locales (simp_all add: check_case_def appends push_if_clean push_if_def)

interpretation case_evidence: error_pass check_case_evidence
  by unfold_locales (simp add: check_case_evidence_def push_if_def)

interpretation suite_evidence: error_pass check_suite_evidence
  by unfold_locales (simp add: check_suite_evidence_def push_if_def)

interpretation feature_parities: error_pass "check_feature_parity s" for s
  by unfold_locales (simp add: check_feature_parity_def Let_def appends)

interpretation upstream_parities: error_pass "check_upstream_parity s" for s
  by unfold_locales (simp add: check_upstream_parity_def Let_def appends)

interpretation interfaces: error_pass "check_interface b" for b
  by unfold_locales (simp add: check_interface_def Let_def appends)

interpretation parities: error_pass validate_parity
  by unfold_locales (simp add: validate_parity_def Let_def appends)

interpretation performance_comparisons: error_pass "check_performance_comparison p" for p
  by unfold_locales (simp add: check_performance_comparison_def appends)

interpretation workloads: error_pass check_workload
  by unfold_locales (simp add: check_workload_def Let_def appends)

interpretation result_cases: seen_pass check_result_case pr_id
    "\<lambda>r seen. snd (check_result_case r (if seen then [pr_id r] else [], []))"
  by unfold_locales (simp_all add: check_result_case_def appends push_if_clean push_if_def)

interpretation performance_results: error_pass "check_performance_results p" for p
  by unfold_locales (simp add: check_performance_results_def Let_def case_prod_beta appends
      result_cases.fst_fold)

interpretation performance_statuses: error_pass check_performance_status
  by unfold_locales (simp add: check_performance_status_def appends
      split: option.split evidence_status.split)

interpretation performances: error_pass validate_performance
  by unfold_locales (simp add: validate_performance_def Let_def appends split: option.split)

interpretation exposure_comparisons: error_pass "check_exposure_comparison p" for p
  by unfold_locales (simp add: check_exposure_comparison_def appends)

interpretation non_increasing: error_pass "check_non_increasing metrics" for metrics
  by unfold_locales (simp add: check_non_increasing_def appends)

interpretation metrics: error_pass check_metrics
  by unfold_locales (simp add: check_metrics_def Let_def appends)

interpretation declared: error_pass check_declared
  by unfold_locales (simp add: check_declared_def push_if_def split: prod.split)

interpretation inventory_counts: error_pass "check_inventory_counts r" for r
  by unfold_locales (simp add: check_inventory_counts_def appends split: option.split)

interpretation exposure_statuses: error_pass "check_exposure_status e" for e
  by unfold_locales (simp add: check_exposure_status_def Let_def appends split: evidence_status.split)

interpretation exposure_results: error_pass "check_exposure_results e spec" for e spec
  by unfold_locales (simp add: check_exposure_results_def appends)

interpretation unmeasured_exposures: error_pass check_unmeasured_exposure
  by unfold_locales (simp add: check_unmeasured_exposure_def)

interpretation accepted_violations: error_pass "check_accepted_violations b f message" for b f message
  by unfold_locales (simp add: check_accepted_violations_def split: option.split)

interpretation exposure_acceptances: error_pass "check_exposure_acceptance m3" for m3
  by unfold_locales (simp add: check_exposure_acceptance_def appends)

interpretation exposures: error_pass "validate_exposure t fs" for t fs
  by unfold_locales (simp add: validate_exposure_def Let_def appends split: option.split)

interpretation linked_statuses: error_pass check_linked_status
  by unfold_locales (simp add: check_linked_status_def push_if_def split: prod.split)

interpretation retirements: error_pass check_retired
  by unfold_locales (simp add: check_retired_def appends)

interpretation acceptances: error_pass check_acceptance
  by unfold_locales (simp add: check_acceptance_def push_if_def split: prod.split)

interpretation completions: error_pass check_complete
  by unfold_locales (simp add: check_complete_def appends)

interpretation records: error_pass check_records
  by unfold_locales (simp add: check_records_def Let_def appends)

interpretation pilots: error_pass check_pilot
  by unfold_locales (simp add: check_pilot_def Let_def appends)

interpretation links: error_pass check_links
  by unfold_locales (simp only: check_links_def, rule linked_statuses.fold_appends)

section \<open>What each check accepts\<close>

lemma check_text_clean [clean]: "check_text label value [] = [] \<longleftrightarrow> \<not> is_blank value"
  by (simp add: check_text_def push_if_clean)

lemma check_git_sha_clean [clean]: "check_git_sha label value [] = [] \<longleftrightarrow> lower_hex 40 value"
  by (simp add: check_git_sha_def push_if_clean)

lemma check_sha256_text_clean [clean]: "check_sha256_text label value [] = [] \<longleftrightarrow> lower_hex 64 value"
  by (simp add: check_sha256_text_def push_if_clean)

definition unique_nonempty :: "string list \<Rightarrow> bool" where
  "unique_nonempty vs \<longleftrightarrow> vs \<noteq> [] \<and> distinct vs \<and> (\<forall>v\<in>set vs. \<not> is_blank v)"

lemma check_unique_nonempty_clean [clean]:
  "check_unique_nonempty label vs [] = [] \<longleftrightarrow> unique_nonempty vs"
  by (simp add: check_unique_nonempty_def unique_nonempty_def fold_check_unique_value_clean)

lemma as_set_eq: "as_set xs = as_set ys \<longleftrightarrow> set xs = set ys"
  unfolding as_set_def by (metis bts_of_list_cong set_bts_of_list)

lemma as_set_platforms: "as_set xs = required_platforms \<longleftrightarrow> set xs = {''linux'', ''mac'', ''win''}"
proof -
  have "as_set required_platforms = required_platforms" by code_simp
  then show ?thesis using as_set_eq [of xs required_platforms] by (simp add: required_platforms_def)
qed

definition platform_evidence_sound :: "(string \<times> string) list \<Rightarrow> bool \<Rightarrow> bool" where
  "platform_evidence_sound evidence required \<longleftrightarrow>
     (\<forall>(platform, digest)\<in>set evidence.
        platform \<in> {''linux'', ''mac'', ''win''} \<and> lower_hex 64 digest) \<and>
     (required \<longrightarrow> fst ` set evidence = {''linux'', ''mac'', ''win''})"

lemma check_platform_digest_clean [clean]:
  "check_platform_digest label p [] = [] \<longleftrightarrow>
     (case p of (platform, digest) \<Rightarrow>
        platform \<in> {''linux'', ''mac'', ''win''} \<and> lower_hex 64 digest)"
proof (cases p)
  case (Pair platform digest)
  have "platform \<in> set required_platforms \<longleftrightarrow> platform \<in> {''linux'', ''mac'', ''win''}"
    by (simp only: required_platforms_def list.set)
  then show ?thesis
    by (simp only: Pair check_platform_digest_def prod.case
        digests.pass_appends [of _ _ "push_if _ _ []"] clean append_is_Nil_conv not_not conj_commute)
qed

lemma check_platform_evidence_clean [clean]:
  "check_platform_evidence label evidence required [] = [] \<longleftrightarrow>
     platform_evidence_sound evidence required"
  unfolding check_platform_evidence_def platform_evidence_sound_def
  by (simp add: appends clean as_set_platforms)

section \<open>The declarative reading\<close>

definition sound_records :: "migration_evidence \<Rightarrow> bool" where
  "sound_records ev \<longleftrightarrow>
     pi_schema_version (mi_pilot ev) = 1 \<and> pm_schema_version (mi_parity ev) = 1 \<and>
     pf_schema_version (mi_performance ev) = 1 \<and> em_schema_version (mi_exposure ev) = 1 \<and>
     \<not> is_blank (pi_id (mi_pilot ev)) \<and>
     pm_id (mi_parity ev) = pi_id (mi_pilot ev) @ ''-parity'' \<and>
     pf_id (mi_performance ev) = pi_id (mi_pilot ev) @ ''-performance'' \<and>
     em_id (mi_exposure ev) = pi_id (mi_pilot ev) @ ''-exposure''"

definition sound_upstream :: "upstream \<Rightarrow> bool" where
  "sound_upstream u \<longleftrightarrow>
     \<not> is_blank (up_repository u) \<and> \<not> is_blank (up_target u) \<and> \<not> is_blank (up_ownership u) \<and>
     lower_hex 40 (up_revision u) \<and> up_blobs u \<noteq> [] \<and>
     (\<forall>(name, digest)\<in>set (up_blobs u). \<not> is_blank name \<and> lower_hex 40 digest)"

definition sound_boundary :: "pilot_boundary \<Rightarrow> bool" where
  "sound_boundary b \<longleftrightarrow>
     \<not> is_blank (pb_kind b) \<and> \<not> is_blank (pb_interface b) \<and> \<not> is_blank (pb_mojom b) \<and>
     \<not> is_blank (pb_rust_source b) \<and> \<not> is_blank (pb_factory b) \<and>
     unique_nonempty (pb_methods b) \<and> unique_nonempty (pb_legacy_sources b)"

definition sound_rollback :: "rollback \<Rightarrow> bool" where
  "sound_rollback r \<longleftrightarrow>
     \<not> is_blank (rb_gn_arg r) \<and> \<not> is_blank (rb_default_expression r) \<and>
     \<not> is_blank (rb_shared_test_target r) \<and> rb_rust_value r \<noteq> rb_fallback_value r"

definition sound_verification :: "pilot_verification \<Rightarrow> bool" where
  "sound_verification v \<longleftrightarrow>
     \<not> is_blank (ve_id v) \<and> \<not> is_blank (ve_target v) \<and>
     (ve_status v = Passed \<longrightarrow>
        unwrap_or (ve_passed_tests v) 0 \<noteq> 0 \<and> unwrap_or (ve_failed_tests v) 0 = 0)"

definition rollback_justified :: "pilot_manifest \<Rightarrow> rollback_matrix \<Rightarrow> bool" where
  "rollback_justified p matrix \<longleftrightarrow>
     (rb_status (pi_rollback p) = Verified \<longrightarrow> rust_passed p \<and> fallback_passed p) \<and>
     (m3_rollback (pi_m3 p) \<in> {Verified, Passed} \<longrightarrow> rb_status (pi_rollback p) = Verified) \<and>
     (m3_rollback (pi_m3 p) = Passed \<longrightarrow>
        rx_fallback_build matrix \<and> rx_shared_contract_test matrix \<and>
        rx_linux matrix = Passed \<and> rx_mac matrix = Passed \<and> rx_win matrix = Passed) \<and>
     platform_evidence_sound (rx_evidence_sha256 matrix) (m3_rollback (pi_m3 p) = Passed)"

definition sound_pilot :: "migration_evidence \<Rightarrow> bool" where
  "sound_pilot ev \<longleftrightarrow>
     sound_upstream (pi_upstream (mi_pilot ev)) \<and> sound_boundary (pi_boundary (mi_pilot ev)) \<and>
     sound_rollback (pi_rollback (mi_pilot ev)) \<and>
     distinct (map ve_id (pi_verification (mi_pilot ev))) \<and>
     (\<forall>v\<in>set (pi_verification (mi_pilot ev)). sound_verification v) \<and>
     rollback_justified (mi_pilot ev) (pm_rollback_matrix (mi_parity ev))"

definition patch_attested :: "tools \<Rightarrow> file_system \<Rightarrow> migration_evidence \<Rightarrow> patch_artifact \<Rightarrow> bool" where
  "patch_attested t fs ev patch \<longleftrightarrow>
     lower_hex 40 (pa_base_revision patch) \<and>
     pa_base_revision patch = up_revision (pi_upstream (mi_pilot ev)) \<and>
     lower_hex 64 (pa_sha256 patch) \<and> is_plain_patch_filename (pa_path patch) \<and>
     (\<exists>bytes. read_file fs (components (join_path (mi_directory ev) (pa_path patch))) = Some bytes \<and>
              sha256_text t bytes = pa_sha256 patch)"

definition implementation_attested :: "tools \<Rightarrow> file_system \<Rightarrow> migration_evidence \<Rightarrow> bool" where
  "implementation_attested t fs ev \<longleftrightarrow>
     (case im_patch (pi_implementation (mi_pilot ev)) of
        None \<Rightarrow> im_status (pi_implementation (mi_pilot ev)) \<noteq> Passed
      | Some patch \<Rightarrow> patch_attested t fs ev patch)"

definition links_agree :: "migration_evidence \<Rightarrow> bool" where
  "links_agree ev \<longleftrightarrow>
     le_status (pi_parity (mi_pilot ev)) = pm_status (mi_parity ev) \<and>
     le_status (pi_performance (mi_pilot ev)) = pf_status (mi_performance ev) \<and>
     le_status (pi_exposure (mi_pilot ev)) = em_status (mi_exposure ev)"

text \<open>The checks of the pilot record.\<close>

lemma check_records_clean [clean]: "check_records ev [] = [] \<longleftrightarrow> sound_records ev"
  unfolding check_records_def Let_def sound_records_def
  by (simp add: appends clean check_schema_version_def check_evidence_id_def migration_schema_version_def
      conj_ac)

lemma check_upstream_clean [clean]: "check_upstream u [] = [] \<longleftrightarrow> sound_upstream u"
proof -
  have "check_blob p [] = [] \<longleftrightarrow> (case p of (name, digest) \<Rightarrow> \<not> is_blank name \<and> lower_hex 40 digest)" for p
    by (cases p) (simp add: check_blob_def appends clean)
  then show ?thesis unfolding check_upstream_def sound_upstream_def by (simp add: appends clean conj_ac)
qed

lemma check_boundary_clean [clean]: "check_boundary b [] = [] \<longleftrightarrow> sound_boundary b"
  unfolding check_boundary_def sound_boundary_def by (simp add: appends clean conj_ac)

lemma check_rollback_clean [clean]: "check_rollback r [] = [] \<longleftrightarrow> sound_rollback r"
  unfolding check_rollback_def sound_rollback_def by (simp add: appends clean conj_ac)

lemma check_verification_clean [clean]:
  "snd (check_verification v ([], [])) = [] \<longleftrightarrow> sound_verification v"
  unfolding check_verification_def sound_verification_def check_passed_verification_def
  by (simp add: appends clean conj_ac)

lemma check_verified_rollback_clean [clean]:
  "check_verified_rollback p [] = [] \<longleftrightarrow>
     (rb_status (pi_rollback p) = Verified \<longrightarrow> rust_passed p \<and> fallback_passed p)"
  unfolding check_verified_rollback_def by (auto simp: clean)

lemma check_m3_rollback_clean [clean]:
  "check_m3_rollback p matrix [] = [] \<longleftrightarrow>
     (m3_rollback (pi_m3 p) \<in> {Verified, Passed} \<longrightarrow> rb_status (pi_rollback p) = Verified) \<and>
     (m3_rollback (pi_m3 p) = Passed \<longrightarrow>
        rx_fallback_build matrix \<and> rx_shared_contract_test matrix \<and>
        rx_linux matrix = Passed \<and> rx_mac matrix = Passed \<and> rx_win matrix = Passed) \<and>
     platform_evidence_sound (rx_evidence_sha256 matrix) (m3_rollback (pi_m3 p) = Passed)"
  unfolding check_m3_rollback_def Let_def
  by (cases "m3_rollback (pi_m3 p)") (auto simp: appends clean is_satisfied_def)

lemma check_pilot_clean [clean]: "check_pilot ev [] = [] \<longleftrightarrow> sound_pilot ev"
  unfolding check_pilot_def Let_def sound_pilot_def rollback_justified_def
  by (auto simp: appends clean)

lemma validate_implementation_clean [clean]:
  "validate_implementation t fs ev [] = [] \<longleftrightarrow> implementation_attested t fs ev"
proof -
  have "check_patch t fs (mi_directory ev) (up_revision (pi_upstream (mi_pilot ev))) patch [] = [] \<longleftrightarrow>
      patch_attested t fs ev patch" for patch
    unfolding check_patch_def check_patch_file_def Let_def patch_attested_def
    by (auto simp: appends clean split: option.splits)
  then show ?thesis
    unfolding validate_implementation_def Let_def implementation_attested_def
    by (auto simp: appends clean split: option.splits)
qed

lemma check_links_clean [clean]: "check_links ev [] = [] \<longleftrightarrow> links_agree ev"
  unfolding check_links_def links_agree_def by (simp add: check_linked_status_def appends clean)

definition optional_digest_sound :: "string option \<Rightarrow> bool" where
  "optional_digest_sound d \<longleftrightarrow> (case d of None \<Rightarrow> True | Some digest \<Rightarrow> lower_hex 64 digest)"

definition sound_suite :: "upstream_suite \<Rightarrow> bool" where
  "sound_suite s \<longleftrightarrow>
     \<not> is_blank (su_id s) \<and> \<not> is_blank (su_target s) \<and> optional_digest_sound (su_evidence_sha256 s)"

definition sound_case :: "string list \<Rightarrow> contract_case \<Rightarrow> bool" where
  "sound_case methods c \<longleftrightarrow>
     \<not> is_blank (cc_id c) \<and> (\<forall>m. cc_method c = Some m \<longrightarrow> m \<in> set methods) \<and>
     set (cc_methods c) \<subseteq> set methods \<and> optional_digest_sound (cc_evidence_sha256 c)"

definition interface_sound :: "pilot_boundary \<Rightarrow> parity_manifest \<Rightarrow> bool" where
  "interface_sound b parity \<longleftrightarrow>
     in_mojom (pm_interface parity) = pb_mojom b \<and> in_name (pm_interface parity) = pb_interface b \<and>
     set (in_methods (pm_interface parity)) = set (pb_methods b) \<and>
     unique_nonempty (in_methods (pm_interface parity)) \<and>
     unique_nonempty (dm_platforms (pm_desktop_matrix parity)) \<and>
     set (dm_platforms (pm_desktop_matrix parity)) = {''linux'', ''mac'', ''win''} \<and>
     pm_contract_cases parity \<noteq> [] \<and> pm_upstream_suites parity \<noteq> []"

definition feature_parity_shown :: "parity_manifest \<Rightarrow> bool" where
  "feature_parity_shown parity \<longleftrightarrow>
     dm_linux (pm_desktop_matrix parity) = Passed \<and> dm_mac (pm_desktop_matrix parity) = Passed \<and>
     dm_win (pm_desktop_matrix parity) = Passed \<and>
     (\<forall>c\<in>set (pm_contract_cases parity). cc_status c = Passed \<and> cc_evidence_sha256 c \<noteq> None)"

definition upstream_parity_shown :: "parity_manifest \<Rightarrow> bool" where
  "upstream_parity_shown parity \<longleftrightarrow>
     (\<forall>s\<in>set (pm_upstream_suites parity). su_status s = Passed \<and> su_evidence_sha256 s \<noteq> None)"

definition sound_parity :: "migration_evidence \<Rightarrow> bool" where
  "sound_parity ev \<longleftrightarrow>
     interface_sound (pi_boundary (mi_pilot ev)) (mi_parity ev) \<and>
     distinct (map su_id (pm_upstream_suites (mi_parity ev))) \<and>
     (\<forall>s\<in>set (pm_upstream_suites (mi_parity ev)). sound_suite s) \<and>
     distinct (map cc_id (pm_contract_cases (mi_parity ev))) \<and>
     (\<forall>c\<in>set (pm_contract_cases (mi_parity ev)). sound_case (pb_methods (pi_boundary (mi_pilot ev))) c) \<and>
     platform_evidence_sound (dm_evidence_sha256 (pm_desktop_matrix (mi_parity ev)))
       (m3_feature_parity (pi_m3 (mi_pilot ev)) = Passed) \<and>
     (m3_feature_parity (pi_m3 (mi_pilot ev)) = Passed \<longrightarrow> feature_parity_shown (mi_parity ev)) \<and>
     (m3_upstream_test_parity (pi_m3 (mi_pilot ev)) = Passed \<longrightarrow> upstream_parity_shown (mi_parity ev))"

lemma check_optional_digest_clean [clean]:
  "check_optional_digest label d [] = [] \<longleftrightarrow> optional_digest_sound d"
  by (simp add: check_optional_digest_def optional_digest_sound_def clean split: option.split)

lemma check_suite_clean [clean]: "snd (check_suite s ([], [])) = [] \<longleftrightarrow> sound_suite s"
  unfolding check_suite_def sound_suite_def by (simp add: appends clean conj_ac)

lemma check_case_method_clean [clean]:
  "check_case_method methods i m [] = [] \<longleftrightarrow> m \<in> set methods"
  by (simp add: check_case_method_def clean)

lemma check_case_clean [clean]: "snd (check_case methods c ([], [])) = [] \<longleftrightarrow> sound_case methods c"
  unfolding check_case_def sound_case_def by (auto simp: appends clean split: option.splits)

lemma check_interface_clean [clean]: "check_interface b parity [] = [] \<longleftrightarrow> interface_sound b parity"
  unfolding check_interface_def Let_def interface_sound_def
  by (simp add: appends clean as_set_platforms as_set_eq conj_ac)

lemma check_feature_parity_clean [clean]:
  "check_feature_parity s parity [] = [] \<longleftrightarrow>
     platform_evidence_sound (dm_evidence_sha256 (pm_desktop_matrix parity)) (s = Passed) \<and>
     (s = Passed \<longrightarrow> feature_parity_shown parity)"
  unfolding check_feature_parity_def Let_def feature_parity_shown_def is_satisfied_def
  by (auto simp: appends clean check_case_evidence_def list_ex_iff)

lemma check_upstream_parity_clean [clean]:
  "check_upstream_parity s parity [] = [] \<longleftrightarrow> (s = Passed \<longrightarrow> upstream_parity_shown parity)"
  unfolding check_upstream_parity_def Let_def upstream_parity_shown_def is_satisfied_def
  by (auto simp: appends clean check_suite_evidence_def list_ex_iff)

lemma validate_parity_clean [clean]: "validate_parity ev [] = [] \<longleftrightarrow> sound_parity ev"
  unfolding validate_parity_def Let_def sound_parity_def by (simp add: appends clean conj_ac)

text \<open>Performance: budgets are compared as the numbers they are read as.\<close>

definition rss_budget :: "performance_manifest \<Rightarrow> int" where
  "rss_budget p = sint (mb_rss_regression_bytes_max (pf_memory_budget p))"

definition within_budget :: "performance_manifest \<Rightarrow> performance_results \<Rightarrow> bool" where
  "within_budget p r \<longleftrightarrow>
     (\<forall>c\<in>set (rs_cases r). \<not> f64_less (lb_median_max (pf_latency_budget p)) (pr_median c) \<and>
        \<not> f64_less (lb_p95_max (pf_latency_budget p)) (pr_p95 c)) \<and>
     sint (rs_rss_regression_bytes r) \<le> rss_budget p"

definition results_measured :: "performance_manifest \<Rightarrow> performance_results \<Rightarrow> bool" where
  "results_measured p r \<longleftrightarrow>
     pv_minimum_samples (pf_validity p) \<le> rs_completed_samples r \<and>
     distinct (map pr_id (rs_cases r)) \<and> set (map pr_id (rs_cases r)) = set (pw_cases (pf_workload p)) \<and>
     (\<forall>c\<in>set (rs_cases r). \<not> is_blank (pr_id c) \<and> f64_is_finite (pr_median c) \<and> f64_is_finite (pr_p95 c)) \<and>
     lower_hex 64 (rs_baseline_binary_sha256 r) \<and> lower_hex 64 (rs_candidate_binary_sha256 r) \<and>
     lower_hex 64 (rs_baseline_gn_args_sha256 r) \<and> lower_hex 64 (rs_candidate_gn_args_sha256 r) \<and>
     lower_hex 64 (rs_raw_samples_sha256 r)"

definition measurement_status :: "evidence_status \<Rightarrow> 'r option \<Rightarrow> ('r \<Rightarrow> bool) \<Rightarrow> bool" where
  "measurement_status status results good \<longleftrightarrow>
     (case results of
        None \<Rightarrow> status \<noteq> Passed \<and> status \<noteq> Failed
      | Some r \<Rightarrow> (status = Passed \<and> good r) \<or> (status = Failed \<and> \<not> good r))"

definition comparison_sound :: "pilot_manifest \<Rightarrow> string \<Rightarrow> string \<Rightarrow> string \<Rightarrow> bool" where
  "comparison_sound pilot revision baseline candidate \<longleftrightarrow>
     revision = up_revision (pi_upstream pilot) \<and>
     baseline = configuration_of (pi_rollback pilot) (rb_fallback_value (pi_rollback pilot)) \<and>
     candidate = configuration_of (pi_rollback pilot) (rb_rust_value (pi_rollback pilot))"

definition workload_sound :: "performance_manifest \<Rightarrow> bool" where
  "workload_sound p \<longleftrightarrow>
     3 \<le> pw_samples (pf_workload p) \<and> pw_messages_per_sample (pf_workload p) \<noteq> 0 \<and>
     pw_cases (pf_workload p) \<noteq> [] \<and> pv_minimum_samples (pf_validity p) \<le> pw_samples (pf_workload p) \<and>
     f64_is_finite (lb_median_max (pf_latency_budget p)) \<and> f64_is_finite (lb_p95_max (pf_latency_budget p)) \<and>
     \<not> f64_less (lb_median_max (pf_latency_budget p)) (Finite 0) \<and>
     \<not> f64_less (lb_p95_max (pf_latency_budget p)) (Finite 0)"

definition sound_performance :: "migration_evidence \<Rightarrow> bool" where
  "sound_performance ev \<longleftrightarrow>
     comparison_sound (mi_pilot ev) (pc_upstream_revision (pf_comparison (mi_performance ev)))
       (pc_baseline (pf_comparison (mi_performance ev))) (pc_candidate (pf_comparison (mi_performance ev))) \<and>
     workload_sound (mi_performance ev) \<and>
     (\<forall>r. pf_results (mi_performance ev) = Some r \<longrightarrow> results_measured (mi_performance ev) r) \<and>
     measurement_status (pf_status (mi_performance ev)) (pf_results (mi_performance ev))
       (within_budget (mi_performance ev)) \<and>
     (m3_performance_budget (pi_m3 (mi_pilot ev)) = Passed \<longrightarrow> pf_status (mi_performance ev) = Passed)"

lemma check_performance_comparison_clean [clean]:
  "check_performance_comparison pilot c [] = [] \<longleftrightarrow>
     comparison_sound pilot (pc_upstream_revision c) (pc_baseline c) (pc_candidate c)"
  unfolding check_performance_comparison_def comparison_sound_def by (simp add: appends clean conj_ac)

lemma check_workload_clean [clean]: "check_workload p [] = [] \<longleftrightarrow> workload_sound p"
  unfolding check_workload_def Let_def workload_sound_def
  by (simp add: appends clean conj_ac not_less)

lemma check_result_case_clean [clean]:
  "snd (check_result_case r ([], [])) = [] \<longleftrightarrow>
     \<not> is_blank (pr_id r) \<and> f64_is_finite (pr_median r) \<and> f64_is_finite (pr_p95 r)"
  unfolding check_result_case_def by (simp add: appends clean conj_ac)

lemma bts_extend_as_set: "bts_extend xs [] = as_set xs"
  by (simp add: as_set_def bts_of_list_def)

lemma check_performance_results_clean [clean]:
  "check_performance_results p r [] = [] \<longleftrightarrow> results_measured p r"
  unfolding check_performance_results_def Let_def case_prod_beta results_measured_def
  by (simp add: appends clean result_cases.fst_fold bts_extend_as_set as_set_eq
      check_labelled_digest_def not_less conj_ac)

interpretation budget_cases: error_pass "case_violations b" for b
  by unfold_locales (simp add: case_violations_def appends)

lemma performance_budget_violations_clean [clean]:
  "performance_budget_violations p r = [] \<longleftrightarrow> within_budget p r"
  unfolding performance_budget_violations_def within_budget_def rss_budget_def
  by (auto simp: appends clean case_violations_def)

lemma check_performance_status_clean [clean]:
  "check_performance_status p [] = [] \<longleftrightarrow>
     measurement_status (pf_status p) (pf_results p) (within_budget p)"
  unfolding check_performance_status_def measurement_status_def
  by (simp add: clean split: option.split evidence_status.split)

lemma validate_performance_clean [clean]: "validate_performance ev [] = [] \<longleftrightarrow> sound_performance ev"
  unfolding validate_performance_def Let_def sound_performance_def is_satisfied_def
  by (auto simp: appends clean split: option.split)

definition unsafe_code_reduced :: "exposure_manifest \<Rightarrow> exposure_results \<Rightarrow> bool" where
  "unsafe_code_reduced e r \<longleftrightarrow>
     (ms_require_less (em_memory_safety e) \<longrightarrow>
        candidate_memory_unsafe_loc r < baseline_memory_unsafe_loc r)"

definition maintenance_reduced :: "exposure_manifest \<Rightarrow> exposure_results \<Rightarrow> bool" where
  "maintenance_reduced e r \<longleftrightarrow>
     (\<forall>metric\<in>set (mm_non_increasing (em_maintenance e)). \<forall>baseline candidate.
        maintenance_metric_pair (Some r) metric = Some (baseline, candidate) \<longrightarrow> candidate \<le> baseline) \<and>
     (mm_strict_decrease (em_maintenance e) \<longrightarrow>
        (\<exists>metric\<in>set (mm_non_increasing (em_maintenance e)). \<exists>baseline candidate.
           maintenance_metric_pair (Some r) metric = Some (baseline, candidate) \<and> candidate < baseline)) \<and>
     (mm_no_more_raw_pointers (em_maintenance e) \<longrightarrow>
        candidate_raw_pointer_fields r \<le> baseline_raw_pointer_fields r) \<and>
     (mm_no_new_public_api (em_maintenance e) \<longrightarrow> new_public_api_count r = 0) \<and>
     (mm_no_new_mojom_methods (em_maintenance e) \<longrightarrow> new_mojom_method_count r = 0)"

definition matches_inventory :: "exposure_source_spec \<Rightarrow> exposure_results \<Rightarrow> bool" where
  "matches_inventory spec r \<longleftrightarrow>
     baseline_implementation_files r = of_nat (length (side_files (spec_baseline spec))) \<and>
     candidate_implementation_files r = of_nat (length (side_files (spec_candidate spec))) \<and>
     baseline_forwarding_methods r = of_nat (length (side_methods (spec_baseline spec))) \<and>
     candidate_forwarding_methods r = of_nat (length (side_methods (spec_candidate spec))) \<and>
     new_public_api_count r = review_new_public_api (spec_contract_review spec) \<and>
     new_mojom_method_count r = review_new_mojom_methods (spec_contract_review spec)"

definition metrics_sound :: "exposure_manifest \<Rightarrow> bool" where
  "metrics_sound e \<longleftrightarrow>
     \<not> is_blank (ms_metric (em_memory_safety e)) \<and> unique_nonempty (mm_metrics (em_maintenance e)) \<and>
     unique_nonempty (mm_non_increasing (em_maintenance e)) \<and>
     set (mm_non_increasing (em_maintenance e)) \<subseteq> set (mm_metrics (em_maintenance e)) \<inter> set known_metrics"

definition inventory_loads ::
    "tools \<Rightarrow> file_system \<Rightarrow> migration_evidence \<Rightarrow> exposure_source_spec \<Rightarrow> bool" where
  "inventory_loads t fs ev spec \<longleftrightarrow>
     is_plain_toml_filename (ee_source_inventory (em_evidence (mi_exposure ev))) \<and>
     load_spec t fs (join_path (mi_directory ev) (ee_source_inventory (em_evidence (mi_exposure ev)))) = Inr spec"

definition exposure_accepted :: "m3_acceptance \<Rightarrow> exposure_manifest \<Rightarrow> bool" where
  "exposure_accepted m3 e \<longleftrightarrow>
     (m3_memory_safety m3 = Passed \<longrightarrow> (\<exists>r. em_results e = Some r \<and> unsafe_code_reduced e r)) \<and>
     (m3_maintenance m3 = Passed \<longrightarrow> (\<exists>r. em_results e = Some r \<and> maintenance_reduced e r)) \<and>
     (m3_memory_safety m3 = Passed \<and> m3_maintenance m3 = Passed \<longrightarrow> em_status e = Passed)"

definition sound_exposure :: "tools \<Rightarrow> file_system \<Rightarrow> migration_evidence \<Rightarrow> bool" where
  "sound_exposure t fs ev \<longleftrightarrow>
     comparison_sound (mi_pilot ev) (ec_upstream_revision (em_comparison (mi_exposure ev)))
       (ec_baseline (em_comparison (mi_exposure ev))) (ec_candidate (em_comparison (mi_exposure ev))) \<and>
     metrics_sound (mi_exposure ev) \<and>
     (\<exists>spec. inventory_loads t fs ev spec \<and>
        (\<forall>r. em_results (mi_exposure ev) = Some r \<longrightarrow>
           matches_inventory spec r \<and> measurement_tool_version r = exposure_tool_version \<and>
           lower_hex 64 (file_hashes_sha256 r) \<and> lower_hex 64 (raw_counts_sha256 r))) \<and>
     measurement_status (em_status (mi_exposure ev)) (em_results (mi_exposure ev))
       (\<lambda>r. unsafe_code_reduced (mi_exposure ev) r \<and> maintenance_reduced (mi_exposure ev) r) \<and>
     exposure_accepted (pi_m3 (mi_pilot ev)) (mi_exposure ev)"

lemma check_exposure_comparison_clean [clean]:
  "check_exposure_comparison pilot c [] = [] \<longleftrightarrow>
     comparison_sound pilot (ec_upstream_revision c) (ec_baseline c) (ec_candidate c)"
  unfolding check_exposure_comparison_def comparison_sound_def by (simp add: appends clean conj_ac)

lemma check_non_increasing_clean [clean]:
  "check_non_increasing metrics m [] = [] \<longleftrightarrow> m \<in> set metrics \<and> m \<in> set known_metrics"
  unfolding check_non_increasing_def maintenance_metric_pair_def by (simp add: appends clean)

lemma check_metrics_clean [clean]: "check_metrics e [] = [] \<longleftrightarrow> metrics_sound e"
  unfolding check_metrics_def Let_def metrics_sound_def by (auto simp: appends clean)

lemma unsafe_violations_clean [clean]:
  "exposure_memory_safety_violations e r = [] \<longleftrightarrow> unsafe_code_reduced e r"
  unfolding exposure_memory_safety_violations_def unsafe_code_reduced_def by (auto simp: clean not_le)

lemma fold_metric_violation:
  "fold (metric_violation r) ms (es, b) =
     (es @ fst (fold (metric_violation r) ms ([], b)),
      b \<or> (\<exists>metric\<in>set ms. \<exists>baseline candidate.
             maintenance_metric_pair (Some r) metric = Some (baseline, candidate) \<and> candidate < baseline))"
proof (induction ms arbitrary: es b)
  case (Cons m ms)
  show ?case
  proof (cases "maintenance_metric_pair (Some r) m")
    case None
    then show ?thesis using Cons [of es b] by (simp add: metric_violation_def)
  next
    case (Some bc)
    obtain baseline candidate where [simp]: "bc = (baseline, candidate)" by (cases bc)
    define e where "e = push_if (baseline < candidate)
      (''maintenance metric `'' @ m @ ''` increases from '' @ show_u64 baseline @ '' to '' @
        show_u64 candidate)"
    have step: "metric_violation r m (es, b) = (es @ e [], b \<or> candidate < baseline)" for es
      using Some by (simp add: metric_violation_def e_def push_if_def)
    have "fold (metric_violation r) (m # ms) (es, b) =
        fold (metric_violation r) ms (es @ e [], b \<or> candidate < baseline)"
      by (simp add: step)
    moreover have "fst (fold (metric_violation r) (m # ms) ([], b)) =
        e [] @ fst (fold (metric_violation r) ms ([], b \<or> candidate < baseline))"
      using Cons [of "e []" "b \<or> candidate < baseline"] by (simp add: step)
    ultimately show ?thesis
      using Cons [of "es @ e []" "b \<or> candidate < baseline"] Some by auto
  qed
qed simp

lemma fold_metric_violation_clean:
  "fst (fold (metric_violation r) ms ([], b)) = [] \<longleftrightarrow>
     (\<forall>metric\<in>set ms. \<forall>baseline candidate.
        maintenance_metric_pair (Some r) metric = Some (baseline, candidate) \<longrightarrow> candidate \<le> baseline)"
proof (induction ms arbitrary: b)
  case (Cons m ms)
  show ?case
  proof (cases "maintenance_metric_pair (Some r) m")
    case None
    then show ?thesis using Cons [of b] by (simp add: metric_violation_def)
  next
    case (Some bc)
    obtain baseline candidate where bc: "bc = (baseline, candidate)" by (cases bc)
    show ?thesis
    proof (cases "baseline < candidate")
      case True
      then have "fst (fold (metric_violation r) (m # ms) ([], b)) \<noteq> []"
        using Some bc by (subst fold_simps, subst surjective_pairing [of "metric_violation r m ([], b)"],
            subst fold_metric_violation) (simp add: metric_violation_def push_if_def)
      moreover have "\<not> candidate \<le> baseline" using True by simp
      ultimately show ?thesis using Some bc by auto
    next
      case False
      then show ?thesis
        using Some bc Cons [of "b \<or> candidate < baseline"]
        by (auto simp: metric_violation_def push_if_def)
    qed
  qed
qed simp

lemma snd_fold_metric_violation:
  "snd (fold (metric_violation r) ms ([], b)) \<longleftrightarrow>
     b \<or> (\<exists>metric\<in>set ms. \<exists>baseline candidate.
            maintenance_metric_pair (Some r) metric = Some (baseline, candidate) \<and> candidate < baseline)"
  by (subst fold_metric_violation) simp

lemma maintenance_violations_clean [clean]:
  "exposure_maintenance_violations e r = [] \<longleftrightarrow> maintenance_reduced e r"
  unfolding exposure_maintenance_violations_def case_prod_beta Let_def maintenance_reduced_def
    snd_fold_metric_violation
  by (simp add: appends clean fold_metric_violation_clean not_less [of "baseline_raw_pointer_fields r"] conj_ac)

lemma check_inventory_counts_clean [clean]:
  "check_inventory_counts r (Some spec) [] = [] \<longleftrightarrow> matches_inventory spec r"
  unfolding check_inventory_counts_def declared_counts_def matches_inventory_def
  by (simp add: check_declared_def appends clean)

lemma check_exposure_status_clean [clean]:
  "check_exposure_status e r [] = [] \<longleftrightarrow>
     measurement_status (em_status e) (Some r) (\<lambda>r. unsafe_code_reduced e r \<and> maintenance_reduced e r)"
  unfolding check_exposure_status_def Let_def measurement_status_def
  by (simp add: clean split: evidence_status.split)

lemma check_exposure_results_clean [clean]:
  "check_exposure_results e (Some spec) r [] = [] \<longleftrightarrow>
     matches_inventory spec r \<and> measurement_tool_version r = exposure_tool_version \<and>
     lower_hex 64 (file_hashes_sha256 r) \<and> lower_hex 64 (raw_counts_sha256 r) \<and>
     measurement_status (em_status e) (Some r) (\<lambda>r. unsafe_code_reduced e r \<and> maintenance_reduced e r)"
proof -
  have "\<not> is_blank exposure_tool_version" by code_simp
  then show ?thesis unfolding check_exposure_results_def by (auto simp: appends clean)
qed

lemma check_unmeasured_exposure_clean [clean]:
  "check_unmeasured_exposure e [] = [] \<longleftrightarrow>
     (em_results e = None \<longrightarrow> em_status e \<noteq> Passed \<and> em_status e \<noteq> Failed)"
  by (auto simp: check_unmeasured_exposure_def)

lemma check_exposure_acceptance_clean [clean]:
  "check_exposure_acceptance m3 e [] = [] \<longleftrightarrow> exposure_accepted m3 e"
  unfolding check_exposure_acceptance_def check_accepted_violations_def exposure_accepted_def
    is_satisfied_def
  by (auto simp: appends clean split: option.split)

lemma source_inventory_spec_clean:
  "snd (source_inventory_spec t fs (mi_directory ev)
      (ee_source_inventory (em_evidence (mi_exposure ev)))) = [] \<longleftrightarrow> (\<exists>spec. inventory_loads t fs ev spec)"
  unfolding source_inventory_spec_def inventory_loads_def by (auto split: sum.split)

lemma source_inventory_spec_fst:
  "inventory_loads t fs ev spec \<Longrightarrow>
   fst (source_inventory_spec t fs (mi_directory ev)
      (ee_source_inventory (em_evidence (mi_exposure ev)))) = Some spec"
  unfolding source_inventory_spec_def inventory_loads_def by auto

lemma validate_exposure_clean [clean]:
  "validate_exposure t fs ev [] = [] \<longleftrightarrow> sound_exposure t fs ev"
proof (cases "\<exists>spec. inventory_loads t fs ev spec")
  case True
  then obtain spec where spec: "inventory_loads t fs ev spec" by blast
  have unique: "spec' = spec" if "inventory_loads t fs ev spec'" for spec'
    using spec that by (simp add: inventory_loads_def)
  show ?thesis
  proof (cases "em_results (mi_exposure ev)")
    case None
    then show ?thesis
      using spec True source_inventory_spec_clean [of t fs ev]
      unfolding validate_exposure_def Let_def sound_exposure_def measurement_status_def
      by (auto simp: appends clean)
  next
    case (Some r)
    have "(\<exists>spec. inventory_loads t fs ev spec \<and> P spec) \<longleftrightarrow> P spec" for P
      using spec unique by blast
    then show ?thesis
      using Some True source_inventory_spec_clean [of t fs ev] source_inventory_spec_fst [OF spec]
      unfolding validate_exposure_def Let_def sound_exposure_def
      by (auto simp: appends clean)
  qed
next
  case False
  then have "snd (source_inventory_spec t fs (mi_directory ev)
      (ee_source_inventory (em_evidence (mi_exposure ev)))) \<noteq> []"
    using source_inventory_spec_clean by blast
  then show ?thesis
    using False unfolding validate_exposure_def Let_def sound_exposure_def
    by (auto simp: appends clean split: option.split)
qed

text \<open>Terminal pilots.\<close>

definition all_accepted :: "pilot_manifest \<Rightarrow> bool" where
  "all_accepted p \<longleftrightarrow>
     m3_feature_parity (pi_m3 p) = Passed \<and> m3_upstream_test_parity (pi_m3 p) = Passed \<and>
     m3_performance_budget (pi_m3 p) = Passed \<and> m3_rollback (pi_m3 p) = Passed \<and>
     m3_memory_safety (pi_m3 p) = Passed \<and> m3_maintenance (pi_m3 p) = Passed \<and>
     im_status (pi_implementation p) = Passed"

definition terminal_status_sound :: "pilot_manifest \<Rightarrow> bool" where
  "terminal_status_sound p \<longleftrightarrow>
     (pi_status p = Complete \<longrightarrow> all_accepted p) \<and>
     (pi_status p = Retired \<longrightarrow>
        \<not> all_accepted p \<and> (\<exists>r. no_closeout_reason (pi_notes p) = Some r \<and> \<not> is_blank r))"

lemma check_complete_clean [clean]:
  "check_complete p [] = [] \<longleftrightarrow> (pi_status p = Complete \<longrightarrow> all_accepted p)"
  unfolding check_complete_def all_accepted_def acceptance_def is_satisfied_def
  by (auto simp: appends clean check_acceptance_def is_satisfied_def)

lemma check_retired_clean [clean]:
  "check_retired p [] = [] \<longleftrightarrow>
     (pi_status p = Retired \<longrightarrow>
        \<not> all_accepted p \<and> (\<exists>r. no_closeout_reason (pi_notes p) = Some r \<and> \<not> is_blank r))"
  unfolding check_retired_def all_accepted_def acceptance_def is_satisfied_def is_blank_def
  by (auto simp: appends clean split: option.split)

definition sound_evidence :: "tools \<Rightarrow> file_system \<Rightarrow> migration_evidence \<Rightarrow> bool" where
  "sound_evidence t fs ev \<longleftrightarrow>
     sound_records ev \<and> sound_pilot ev \<and> implementation_attested t fs ev \<and> links_agree ev \<and>
     sound_parity ev \<and> sound_performance ev \<and> sound_exposure t fs ev \<and>
     terminal_status_sound (mi_pilot ev)"

text \<open>C5: \<open>MigrationEvidence::validate\<close> accepts a pilot exactly when it is sound: every record is well
  formed and consistent with the pilot, every claimed status is backed by the evidence that shows it, and
  a terminal status by the acceptance criteria.\<close>

theorem validate_evidence_iff:
  "validate_evidence t fs ev = Inr () \<longleftrightarrow> sound_evidence t fs ev"
proof -
  have "evidence_errors t fs ev = [] \<longleftrightarrow> sound_evidence t fs ev"
    unfolding evidence_errors_def sound_evidence_def terminal_status_sound_def
    by (simp add: appends clean conj_ac)
  then show ?thesis by (simp add: validate_evidence_def)
qed

section \<open>What acceptance means\<close>

lemma rust_passed_iff:
  "rust_passed p \<longleftrightarrow>
     (\<exists>v\<in>set (pi_verification p). ve_status v = Passed \<and>
        ve_configuration v = Some (rb_gn_arg (pi_rollback p) @ ''=true'') \<and>
        ve_target v = rb_shared_test_target (pi_rollback p))"
  by (simp add: rust_passed_def list_ex_iff)

lemma fallback_passed_iff:
  "fallback_passed p \<longleftrightarrow>
     (\<exists>v\<in>set (pi_verification p). ve_status v = Passed \<and>
        ve_configuration v = Some (rb_gn_arg (pi_rollback p) @ ''=false'') \<and>
        ve_target v = rb_shared_test_target (pi_rollback p) \<and> ve_rust_receiver_present v = Some False)"
  by (simp add: fallback_passed_def list_ex_iff)

text \<open>A run of a configuration in which tests ran and none failed.\<close>

definition clean_run :: "pilot_manifest \<Rightarrow> string \<Rightarrow> pilot_verification \<Rightarrow> bool" where
  "clean_run p configuration v \<longleftrightarrow>
     v \<in> set (pi_verification p) \<and> ve_status v = Passed \<and> ve_configuration v = Some configuration \<and>
     ve_target v = rb_shared_test_target (pi_rollback p) \<and>
     unwrap_or (ve_passed_tests v) 0 \<noteq> 0 \<and> unwrap_or (ve_failed_tests v) 0 = 0"

lemma verified_rollback_runs:
  assumes "sound_pilot ev" and "rb_status (pi_rollback (mi_pilot ev)) = Verified"
  shows "(\<exists>v. clean_run (mi_pilot ev) (rb_gn_arg (pi_rollback (mi_pilot ev)) @ ''=true'') v) \<and>
    (\<exists>v. clean_run (mi_pilot ev) (rb_gn_arg (pi_rollback (mi_pilot ev)) @ ''=false'') v \<and>
         ve_rust_receiver_present v = Some False)"
proof -
  from assms have runs: "rust_passed (mi_pilot ev)" "fallback_passed (mi_pilot ev)"
    and sound: "\<forall>v\<in>set (pi_verification (mi_pilot ev)). sound_verification v"
    by (simp_all add: sound_pilot_def rollback_justified_def)
  from runs(1) obtain v where "clean_run (mi_pilot ev) (rb_gn_arg (pi_rollback (mi_pilot ev)) @ ''=true'') v"
    using sound unfolding rust_passed_iff clean_run_def sound_verification_def by blast
  moreover from runs(2) obtain w where
    "clean_run (mi_pilot ev) (rb_gn_arg (pi_rollback (mi_pilot ev)) @ ''=false'') w"
    "ve_rust_receiver_present w = Some False"
    using sound unfolding fallback_passed_iff clean_run_def sound_verification_def by blast
  ultimately show ?thesis by blast
qed

definition platforms_evidenced :: "(string \<times> string) list \<Rightarrow> bool" where
  "platforms_evidenced evidence \<longleftrightarrow>
     fst ` set evidence = {''linux'', ''mac'', ''win''} \<and>
     (\<forall>(platform, digest)\<in>set evidence. lower_hex 64 digest)"

lemma platforms_evidencedI:
  assumes "platform_evidence_sound evidence True"
  shows "platforms_evidenced evidence"
proof -
  have "fst ` set evidence = {''linux'', ''mac'', ''win''}"
    by (rule mp [OF conjunct2 [OF assms [unfolded platform_evidence_sound_def]] TrueI])
  moreover have "\<forall>p\<in>set evidence. case p of (platform, digest) \<Rightarrow> lower_hex 64 digest"
  proof
    fix p
    assume "p \<in> set evidence"
    with conjunct1 [OF assms [unfolded platform_evidence_sound_def]]
    have "case p of (platform, digest) \<Rightarrow>
        platform \<in> {''linux'', ''mac'', ''win''} \<and> lower_hex 64 digest"
      by (rule bspec)
    then show "case p of (platform, digest) \<Rightarrow> lower_hex 64 digest"
      by (cases p) (simp only: prod.case)
  qed
  ultimately show ?thesis by (simp only: platforms_evidenced_def)
qed

text \<open>C4: A pilot accepted as complete is backed by its evidence: the patch is in the directory with its digest
  and base revision; every contract case and upstream suite passed with a digest; the desktop matrix and the
  rollback matrix have a digest for every platform; the verified rollback has clean runs with the GN argument
  on and off, the latter without the Rust receiver; the comparisons are at the pinned revision; every workload
  case was measured within the budgets; and the measured exposure matches the source inventory and shrinks as
  required.\<close>

theorem complete_pilot_guarantees:
  assumes "validate_evidence t fs ev = Inr ()" and "pi_status (mi_pilot ev) = Complete"
  shows
    "(\<exists>patch. im_patch (pi_implementation (mi_pilot ev)) = Some patch \<and> patch_attested t fs ev patch) \<and>
     (\<forall>c\<in>set (pm_contract_cases (mi_parity ev)). cc_status c = Passed \<and>
        (\<exists>digest. cc_evidence_sha256 c = Some digest \<and> lower_hex 64 digest)) \<and>
     (\<forall>s\<in>set (pm_upstream_suites (mi_parity ev)). su_status s = Passed \<and>
        (\<exists>digest. su_evidence_sha256 s = Some digest \<and> lower_hex 64 digest)) \<and>
     platforms_evidenced (dm_evidence_sha256 (pm_desktop_matrix (mi_parity ev))) \<and>
     platforms_evidenced (rx_evidence_sha256 (pm_rollback_matrix (mi_parity ev))) \<and>
     (\<exists>v. clean_run (mi_pilot ev) (rb_gn_arg (pi_rollback (mi_pilot ev)) @ ''=true'') v) \<and>
     (\<exists>v. clean_run (mi_pilot ev) (rb_gn_arg (pi_rollback (mi_pilot ev)) @ ''=false'') v \<and>
          ve_rust_receiver_present v = Some False) \<and>
     pc_upstream_revision (pf_comparison (mi_performance ev)) = up_revision (pi_upstream (mi_pilot ev)) \<and>
     (\<exists>r. pf_results (mi_performance ev) = Some r \<and> results_measured (mi_performance ev) r \<and>
          within_budget (mi_performance ev) r) \<and>
     ec_upstream_revision (em_comparison (mi_exposure ev)) = up_revision (pi_upstream (mi_pilot ev)) \<and>
     (\<exists>r spec. em_results (mi_exposure ev) = Some r \<and> inventory_loads t fs ev spec \<and>
          matches_inventory spec r \<and> unsafe_code_reduced (mi_exposure ev) r \<and>
          maintenance_reduced (mi_exposure ev) r)"
proof -
  from assms(1) have sound: "sound_evidence t fs ev" by (simp only: validate_evidence_iff)
  then have parts: "sound_pilot ev" "implementation_attested t fs ev" "sound_parity ev"
    "sound_performance ev" "sound_exposure t fs ev" "terminal_status_sound (mi_pilot ev)"
    by (simp_all add: sound_evidence_def)
  from parts(6) assms(2) have all: "all_accepted (mi_pilot ev)" by (simp add: terminal_status_sound_def)
  have rollback: "rb_status (pi_rollback (mi_pilot ev)) = Verified"
    "platforms_evidenced (rx_evidence_sha256 (pm_rollback_matrix (mi_parity ev)))"
    using parts(1) all
    by (simp_all add: sound_pilot_def rollback_justified_def all_accepted_def platforms_evidencedI)
  have patch: "\<exists>patch. im_patch (pi_implementation (mi_pilot ev)) = Some patch \<and> patch_attested t fs ev patch"
    using parts(2) all by (auto simp: implementation_attested_def all_accepted_def split: option.splits)
  have cases: "\<forall>c\<in>set (pm_contract_cases (mi_parity ev)). cc_status c = Passed \<and>
        (\<exists>digest. cc_evidence_sha256 c = Some digest \<and> lower_hex 64 digest)"
    using parts(3) all
    by (fastforce simp: sound_parity_def feature_parity_shown_def all_accepted_def sound_case_def
        optional_digest_sound_def)
  have suites: "\<forall>s\<in>set (pm_upstream_suites (mi_parity ev)). su_status s = Passed \<and>
        (\<exists>digest. su_evidence_sha256 s = Some digest \<and> lower_hex 64 digest)"
    using parts(3) all
    by (fastforce simp: sound_parity_def upstream_parity_shown_def all_accepted_def sound_suite_def
        optional_digest_sound_def)
  have desktop: "platforms_evidenced (dm_evidence_sha256 (pm_desktop_matrix (mi_parity ev)))"
    using parts(3) all by (simp add: sound_parity_def all_accepted_def platforms_evidencedI)
  have performance: "\<exists>r. pf_results (mi_performance ev) = Some r \<and>
      results_measured (mi_performance ev) r \<and> within_budget (mi_performance ev) r"
    using parts(4) all
    by (auto simp: sound_performance_def all_accepted_def measurement_status_def split: option.splits)
  have exposure: "\<exists>r spec. em_results (mi_exposure ev) = Some r \<and> inventory_loads t fs ev spec \<and>
          matches_inventory spec r \<and> unsafe_code_reduced (mi_exposure ev) r \<and>
          maintenance_reduced (mi_exposure ev) r"
    using parts(5) all
    by (fastforce simp: sound_exposure_def all_accepted_def exposure_accepted_def)
  show ?thesis
    using patch cases suites desktop rollback(2) verified_rollback_runs [OF parts(1) rollback(1)]
      performance exposure parts(4,5)
    by (simp add: sound_performance_def sound_exposure_def comparison_sound_def)
qed

section \<open>A complete pilot\<close>

definition digest0 :: string where
  "digest0 = replicate 64 (CHR ''0'')"

definition revision0 :: string where
  "revision0 = replicate 40 (CHR ''1'')"

definition link_to :: "string \<Rightarrow> evidence_status \<Rightarrow> linked_evidence" where
  "link_to kind status =
     \<lparr>le_matrix = (if kind = ''matrix'' then Some ''a.toml'' else None),
      le_budget = (if kind = ''budget'' then Some ''b.toml'' else None),
      le_measurement = (if kind = ''measurement'' then Some ''c.toml'' else None), le_status = status\<rparr>"

definition all_platforms :: "(string \<times> string) list" where
  "all_platforms = [(''linux'', digest0), (''mac'', digest0), (''win'', digest0)]"

definition run_of :: "string \<Rightarrow> string \<Rightarrow> pilot_verification" where
  "run_of i configuration =
     \<lparr>ve_id = i, ve_status = Passed, ve_configuration = Some configuration, ve_target = ''t'',
      ve_passed_tests = Some 5, ve_failed_tests = Some 0, ve_rust_receiver_present = Some False\<rparr>"

definition complete_pilot :: pilot_manifest where
  "complete_pilot =
     \<lparr>pi_schema_version = 1, pi_id = ''p'', pi_status = Complete,
      pi_upstream = \<lparr>up_repository = ''r'', up_revision = revision0, up_target = ''t'',
        up_ownership = ''o'', up_blobs = [(''b'', revision0)]\<rparr>,
      pi_boundary = \<lparr>pb_kind = ''mojo'', pb_interface = ''I'', pb_mojom = ''m'', pb_legacy_sources = [''a.cc''],
        pb_rust_source = ''a.rs'', pb_factory = ''f'', pb_methods = [''M'']\<rparr>,
      pi_rollback = \<lparr>rb_status = Verified, rb_gn_arg = ''g'', rb_rust_value = True, rb_fallback_value = False,
        rb_default_expression = ''d'', rb_shared_test_target = ''t''\<rparr>,
      pi_implementation = \<lparr>im_status = Passed,
        im_patch = Some \<lparr>pa_path = ''c.patch'', pa_base_revision = revision0, pa_sha256 = digest0\<rparr>\<rparr>,
      pi_verification = [run_of ''x'' ''g=true'', run_of ''y'' ''g=false''],
      pi_m3 = \<lparr>m3_feature_parity = Passed, m3_upstream_test_parity = Passed, m3_performance_budget = Passed,
        m3_rollback = Passed, m3_memory_safety = Passed, m3_maintenance = Passed\<rparr>,
      pi_parity = link_to ''matrix'' Passed, pi_performance = link_to ''budget'' Passed,
      pi_exposure = link_to ''measurement'' Passed,
      pi_notes = \<lparr>no_verified_platform = ''linux'', no_feature_parity_scope = ''s'',
        no_closeout_reason = None\<rparr>\<rparr>"

definition complete_parity :: parity_manifest where
  "complete_parity =
     \<lparr>pm_schema_version = 1, pm_id = ''p-parity'', pm_status = Passed,
      pm_interface = \<lparr>in_mojom = ''m'', in_name = ''I'', in_methods = [''M''], in_identical_mojom = True,
        in_identical_factory = True\<rparr>,
      pm_contract_cases = [\<lparr>cc_id = ''c'', cc_status = Passed, cc_method = Some ''M'', cc_methods = [],
        cc_evidence_sha256 = Some digest0\<rparr>],
      pm_upstream_suites = [\<lparr>su_id = ''s'', su_target = ''t'', su_status = Passed,
        su_evidence_sha256 = Some digest0\<rparr>],
      pm_desktop_matrix = \<lparr>dm_platforms = [''linux'', ''mac'', ''win''], dm_rust_build = True,
        dm_shared_contract_test = True, dm_upstream_suite = True, dm_linux = Passed, dm_mac = Passed,
        dm_win = Passed, dm_evidence_sha256 = all_platforms\<rparr>,
      pm_rollback_matrix = \<lparr>rx_fallback_build = True, rx_shared_contract_test = True, rx_linux = Passed,
        rx_mac = Passed, rx_win = Passed, rx_evidence_sha256 = all_platforms\<rparr>\<rparr>"

definition complete_performance :: performance_manifest where
  "complete_performance =
     \<lparr>pf_schema_version = 1, pf_id = ''p-performance'', pf_status = Passed,
      pf_comparison = \<lparr>pc_upstream_revision = revision0, pc_baseline = ''g=false'', pc_candidate = ''g=true'',
        pc_build_mode = ''release'', pc_identical_gn_args = True, pc_same_machine = True,
        pc_alternating_samples = True\<rparr>,
      pf_workload = \<lparr>pw_warmup_messages = 1, pw_messages_per_sample = 1, pw_samples = 3,
        pw_in_process_mojo = True, pw_cases = [''k'']\<rparr>,
      pf_latency_budget = \<lparr>lb_median_max = Finite 5, lb_p95_max = Finite 10\<rparr>,
      pf_memory_budget = \<lparr>mb_rss_regression_bytes_max = 1024\<rparr>,
      pf_validity = \<lparr>pv_minimum_samples = 3, pv_reject_cpu = True, pv_reject_background = True,
        pv_raw_samples = True, pv_binary_hashes = True, pv_gn_args_hashes = True\<rparr>,
      pf_results = Some \<lparr>rs_completed_samples = 3,
        rs_cases = [\<lparr>pr_id = ''k'', pr_median = Finite 1, pr_p95 = Finite (-2)\<rparr>],
        rs_rss_regression_bytes = - 1, rs_baseline_binary_sha256 = digest0,
        rs_candidate_binary_sha256 = digest0, rs_baseline_gn_args_sha256 = digest0,
        rs_candidate_gn_args_sha256 = digest0, rs_raw_samples_sha256 = digest0\<rparr>\<rparr>"

definition complete_results :: exposure_results where
  "complete_results =
     \<lparr>baseline_memory_unsafe_loc = 2, candidate_memory_unsafe_loc = 1, baseline_production_loc = 2,
      candidate_production_loc = 1, baseline_implementation_files = 1, candidate_implementation_files = 1,
      baseline_branch_points = 0, candidate_branch_points = 0, baseline_raw_pointer_fields = 0,
      candidate_raw_pointer_fields = 0, baseline_forwarding_methods = 0, candidate_forwarding_methods = 1,
      new_public_api_count = 0, new_mojom_method_count = 0, measurement_tool_version = exposure_tool_version,
      file_hashes_sha256 = digest0, raw_counts_sha256 = digest0\<rparr>"

definition complete_exposure :: exposure_manifest where
  "complete_exposure =
     \<lparr>em_schema_version = 1, em_id = ''p-exposure'', em_status = Passed,
      em_comparison = \<lparr>ec_upstream_revision = revision0, ec_baseline = ''g=false'', ec_candidate = ''g=true'',
        ec_production_only = True, ec_exclude_tests = True, ec_exclude_generated = True\<rparr>,
      em_memory_safety = \<lparr>ms_metric = ''u'', ms_require_less = True, ms_unsafe_blocks = True,
        ms_unsafe_loc = True, ms_cpp_loc = True, ms_generated_loc = True, ms_raw_pointer_fields = True\<rparr>,
      em_maintenance = \<lparr>mm_metrics = [''authored_production_loc''],
        mm_non_increasing = [''authored_production_loc''], mm_strict_decrease = True,
        mm_no_new_public_api = True, mm_no_new_mojom_methods = True, mm_no_more_raw_pointers = True\<rparr>,
      em_evidence = \<lparr>ee_source_inventory = ''s.toml'', ee_file_hashes = True, ee_tool_version = True,
        ee_raw_counts = True\<rparr>,
      em_results = Some complete_results\<rparr>"

definition complete_evidence :: migration_evidence where
  "complete_evidence =
     \<lparr>mi_directory = ''/w'', mi_pilot = complete_pilot, mi_parity = complete_parity,
      mi_performance = complete_performance, mi_exposure = complete_exposure\<rparr>"

lemma complete_digests: "lower_hex 64 digest0" "lower_hex 40 revision0"
  by code_simp+

lemma complete_texts:
  "list_all (\<lambda>s. \<not> is_blank s) [''p'', ''r'', ''t'', ''o'', ''b'', ''mojo'', ''I'', ''m'', ''a.cc'', ''a.rs'', ''f'',
     ''M'', ''g'', ''d'', ''x'', ''y'', ''linux'', ''mac'', ''win'', ''s'', ''c'', ''k'', ''u'',
     ''authored_production_loc'']"
  by code_simp

lemmas complete_defs =
  complete_evidence_def complete_pilot_def complete_parity_def complete_performance_def
  complete_exposure_def complete_results_def run_of_def link_to_def all_platforms_def

lemma complete_evidence_valid: "validate_evidence example_tools example_tree complete_evidence = Inr ()"
proof -
  note texts = complete_texts [simplified]
  have "sound_records complete_evidence" by (simp add: sound_records_def complete_defs texts)
  moreover have "sound_pilot complete_evidence"
    by (simp add: sound_pilot_def sound_upstream_def sound_boundary_def sound_rollback_def
        sound_verification_def rollback_justified_def rust_passed_def fallback_passed_def unwrap_or_def
        unique_nonempty_def platform_evidence_sound_def complete_defs complete_digests texts)
  moreover have "implementation_attested example_tools example_tree complete_evidence"
  proof -
    have "is_plain_patch_filename ''c.patch''" by code_simp
    moreover have "read_file example_tree (components (join_path ''/w'' ''c.patch'')) = Some ''diff''"
      by code_simp
    ultimately show ?thesis
      by (simp add: implementation_attested_def patch_attested_def complete_defs complete_digests
          example_tools_def digest0_def [symmetric])
  qed
  moreover have "links_agree complete_evidence" by (simp add: links_agree_def complete_defs)
  moreover have "sound_parity complete_evidence"
    by (simp add: sound_parity_def interface_sound_def feature_parity_shown_def upstream_parity_shown_def
        sound_suite_def sound_case_def optional_digest_sound_def unique_nonempty_def
        platform_evidence_sound_def complete_defs complete_digests texts)
  moreover have "sound_performance complete_evidence"
    by (simp add: sound_performance_def comparison_sound_def configuration_of_def show_bool_def
        workload_sound_def results_measured_def measurement_status_def within_budget_def rss_budget_def
        f64_is_finite_def f64_less_def complete_defs complete_digests texts)
  moreover have "sound_exposure example_tools example_tree complete_evidence"
  proof -
    have "is_plain_toml_filename ''s.toml''" by code_simp
    moreover have "load_spec example_tools example_tree (join_path ''/w'' ''s.toml'') = Inr example_spec"
      by code_simp
    ultimately have "inventory_loads example_tools example_tree complete_evidence example_spec"
      by (simp add: inventory_loads_def complete_defs)
    moreover have "matches_inventory example_spec complete_results"
      by (simp add: matches_inventory_def complete_results_def example_spec_def)
    moreover have "maintenance_reduced complete_exposure complete_results"
      by (simp add: maintenance_reduced_def maintenance_metric_pair_def metric_values_def u64_max_def
          complete_exposure_def complete_results_def)
    ultimately show ?thesis
      unfolding sound_exposure_def
      by (intro conjI exI [of _ example_spec])
        (simp_all add: comparison_sound_def configuration_of_def show_bool_def metrics_sound_def
          unique_nonempty_def known_metrics_def measurement_status_def unsafe_code_reduced_def
          exposure_accepted_def complete_evidence_def complete_pilot_def complete_exposure_def
          complete_digests texts, simp_all add: complete_results_def complete_digests)
  qed
  moreover have "terminal_status_sound (mi_pilot complete_evidence)"
    by (simp add: terminal_status_sound_def all_accepted_def complete_defs)
  ultimately show ?thesis by (simp add: validate_evidence_iff sound_evidence_def)
qed

lemma complete_pilot_guarantees_witness:
  "(\<exists>patch. im_patch (pi_implementation (mi_pilot complete_evidence)) = Some patch \<and>
      patch_attested example_tools example_tree complete_evidence patch) \<and>
   (\<exists>r. pf_results (mi_performance complete_evidence) = Some r \<and>
      within_budget (mi_performance complete_evidence) r)"
proof -
  have "pi_status (mi_pilot complete_evidence) = Complete"
    by (simp add: complete_evidence_def complete_pilot_def)
  from complete_pilot_guarantees [OF complete_evidence_valid this] show ?thesis
    by (elim conjE exE) (intro conjI exI; assumption)
qed

section \<open>What the validation does not see\<close>

text \<open>The memory budget is an unsigned number that the check reads as a signed one: a budget of
  \<open>2^63\<close> bytes or more is negative, and every measured growth, none included, violates it.\<close>

theorem rss_budget_wraps:
  assumes "2 ^ 63 \<le> uint (mb_rss_regression_bytes_max (pf_memory_budget p))"
    and "0 \<le> sint (rs_rss_regression_bytes r)"
  shows "sint (rs_rss_regression_bytes r) < uint (mb_rss_regression_bytes_max (pf_memory_budget p)) \<and>
    performance_budget_violations p r \<noteq> []"
proof -
  let ?budget = "mb_rss_regression_bytes_max (pf_memory_budget p)"
  have "uint ?budget div 2 ^ 63 = 1"
    using assms(1) uint_lt2p [of ?budget] by simp
  then have "bit (uint ?budget) 63" by (simp add: bit_iff_odd)
  then have "bit ?budget 63" by (simp add: bit_uint_iff)
  then have "sint ?budget < 0" using bit_last_iff [of ?budget] by simp
  then have "\<not> within_budget p r" using assms(2) by (simp add: within_budget_def rss_budget_def)
  moreover have "sint (rs_rss_regression_bytes r) < 2 ^ 63"
    using sint_lt [of "rs_rss_regression_bytes r"] by simp
  ultimately show ?thesis
    using assms(1) by (simp add: performance_budget_violations_clean)
qed

lemma rss_budget_wraps_witness:
  "performance_budget_violations
     (complete_performance\<lparr>pf_memory_budget := \<lparr>mb_rss_regression_bytes_max = 9223372036854775808\<rparr>\<rparr>)
     \<lparr>rs_completed_samples = 3, rs_cases = [], rs_rss_regression_bytes = 0,
      rs_baseline_binary_sha256 = digest0, rs_candidate_binary_sha256 = digest0,
      rs_baseline_gn_args_sha256 = digest0, rs_candidate_gn_args_sha256 = digest0,
      rs_raw_samples_sha256 = digest0\<rparr> \<noteq> []"
  by (rule conjunct2 [OF rss_budget_wraps]) simp_all

text \<open>When the Rust side is the value \<open>false\<close>, the run that a verified rollback accepts as the Rust run is
  a run of the configuration that the performance and exposure records call the fallback.\<close>

lemma rollback_polarity_fixed:
  assumes "validate_evidence t fs ev = Inr ()"
    and "rb_rust_value (pi_rollback (mi_pilot ev)) = False"
    and "rb_status (pi_rollback (mi_pilot ev)) = Verified"
  shows "(\<exists>v. clean_run (mi_pilot ev) (pc_baseline (pf_comparison (mi_performance ev))) v) \<and>
    (\<exists>v. clean_run (mi_pilot ev) (pc_candidate (pf_comparison (mi_performance ev))) v \<and>
         ve_rust_receiver_present v = Some False)"
proof -
  from assms(1) have sound: "sound_pilot ev" "sound_performance ev"
    by (simp_all add: validate_evidence_iff sound_evidence_def)
  have "rb_fallback_value (pi_rollback (mi_pilot ev))"
    using sound(1) assms(2) by (simp add: sound_pilot_def sound_rollback_def)
  then have "pc_baseline (pf_comparison (mi_performance ev)) =
      rb_gn_arg (pi_rollback (mi_pilot ev)) @ ''=true''"
    "pc_candidate (pf_comparison (mi_performance ev)) = rb_gn_arg (pi_rollback (mi_pilot ev)) @ ''=false''"
    using sound(2) assms(2)
    by (simp_all add: sound_performance_def comparison_sound_def configuration_of_def show_bool_def)
  then show ?thesis using verified_rollback_runs [OF sound(1) assms(3)] by (simp only:)
qed

text \<open>The status of the parity record is compared with its link only: any other status would do.\<close>

definition with_parity_status :: "evidence_status \<Rightarrow> migration_evidence \<Rightarrow> migration_evidence" where
  "with_parity_status s ev =
     ev\<lparr>mi_pilot := (mi_pilot ev)\<lparr>pi_parity := (pi_parity (mi_pilot ev))\<lparr>le_status := s\<rparr>\<rparr>,
        mi_parity := (mi_parity ev)\<lparr>pm_status := s\<rparr>\<rparr>"

lemma parity_status_unconstrained:
  assumes "validate_evidence t fs ev = Inr ()"
  shows "validate_evidence t fs (with_parity_status s ev) = Inr ()"
proof -
  let ?ev = "with_parity_status s ev"
  note frame = with_parity_status_def
  have "sound_records ?ev = sound_records ev" by (simp add: frame sound_records_def)
  moreover have "sound_pilot ?ev = sound_pilot ev"
    by (simp add: frame sound_pilot_def rollback_justified_def rust_passed_def fallback_passed_def)
  moreover have "implementation_attested t fs ?ev = implementation_attested t fs ev"
    unfolding implementation_attested_def patch_attested_def
    by (cases "im_patch (pi_implementation (mi_pilot ev))") (simp_all add: frame)
  moreover have "sound_parity ?ev = sound_parity ev"
    by (simp add: frame sound_parity_def interface_sound_def feature_parity_shown_def upstream_parity_shown_def)
  moreover have "sound_performance ?ev = sound_performance ev"
    by (simp add: frame sound_performance_def comparison_sound_def)
  moreover have "sound_exposure t fs ?ev = sound_exposure t fs ev"
    by (simp add: frame sound_exposure_def inventory_loads_def comparison_sound_def)
  moreover have "terminal_status_sound (mi_pilot ?ev) = terminal_status_sound (mi_pilot ev)"
    by (simp add: frame terminal_status_sound_def all_accepted_def)
  moreover have "links_agree ?ev" if "links_agree ev" using that by (simp add: frame links_agree_def)
  ultimately show ?thesis using assms by (simp add: validate_evidence_iff sound_evidence_def)
qed

section \<open>Loading\<close>

lemma plain_filename_in_directory:
  assumes "plain_filename e v"
  shows "v \<noteq> [] \<and> v \<noteq> ''.'' \<and> v \<noteq> ''..'' \<and> CHR ''/'' \<notin> set v \<and> components v = [Normal v]"
proof -
  have "file_name v = Some v" using assms by (simp add: plain_filename_def)
  then obtain cs where "rev (components v) = Normal v # cs"
    unfolding file_name_def by (auto split: list.splits component.splits)
  then have "Normal v \<in> set (rev (components v))" by (simp only: list.set insertI1)
  then have "Normal v \<in> set (components v)" by (simp only: set_rev)
  from components_Normal [OF this] have v: "v \<noteq> []" "v \<noteq> ''.''" "v \<noteq> ''..''" "v \<in> set (split_on (CHR ''/'') v)"
    by simp_all
  from split_on_segments [OF v(4)] have slash: "CHR ''/'' \<notin> set v" .
  then have "\<not> starts_with ''/'' v" by (auto simp: starts_with_iff)
  then have "components v = [Normal v]"
    using v slash by (simp add: components_def Let_def segment_component_def)
  with v slash show ?thesis by simp
qed

definition linked_file :: "tools \<Rightarrow> file_system \<Rightarrow> (string \<Rightarrow> string + 'a) \<Rightarrow> string \<Rightarrow> string option \<Rightarrow> 'a \<Rightarrow> bool" where
  "linked_file t fs parse directory link x \<longleftrightarrow>
     (\<exists>name source. link = Some name \<and> components name = [Normal name] \<and>
        read_to_string fs (components (join_path directory name)) = Some source \<and> parse source = Inr x)"

lemma load_toml_Inr:
  "load_toml t fs parse path = Inr x \<longleftrightarrow>
     (\<exists>source. read_to_string fs (components path) = Some source \<and> parse source = Inr x)"
  by (simp add: load_toml_def split: option.split sum.split)

lemma load_linked_Inr:
  assumes "load_linked t fs parse directory l kind = Inr x"
  shows "correct_field kind l \<and> linked_file t fs parse directory (linked_path l) x"
proof -
  from assms obtain name where name: "correct_field kind l" "linked_path l = Some name"
    "is_plain_toml_filename name" "load_toml t fs parse (join_path directory name) = Inr x"
    unfolding load_linked_def by (cases "linked_path l") (simp_all split: if_splits)
  have "components name = [Normal name]"
    using plain_filename_in_directory [of "''toml''" name] name(3) by (simp add: is_plain_toml_filename_def)
  then show ?thesis using name(1,2,4) unfolding linked_file_def load_toml_Inr by blast
qed

lemma load_linked_no_panic: "load_linked t fs parse directory l kind \<noteq> Inl LoadPanics"
  by (auto simp: load_linked_def load_toml_def correct_field_def linked_path_def
      split: option.splits sum.splits)

lemma load_toml_no_panic: "load_toml t fs parse path \<noteq> Inl LoadPanics"
  by (auto simp: load_toml_def split: option.splits sum.splits)

text \<open>C24: Loading never panics, and what it returns has been validated: the pilot is the parsed
  \<open>pilot.toml\<close>, and every linked record the parsed content of a file directly in the directory.\<close>

theorem load_evidence_sound:
  "load_evidence t fs ps directory \<noteq> Inl LoadPanics \<and>
   (\<forall>ev. load_evidence t fs ps directory = Inr ev \<longrightarrow>
      sound_evidence t fs ev \<and> mi_directory ev = directory \<and>
      linked_file t fs (pilot_from_toml ps) directory (Some ''pilot.toml'') (mi_pilot ev) \<and>
      linked_file t fs (parity_from_toml ps) directory (le_matrix (pi_parity (mi_pilot ev))) (mi_parity ev) \<and>
      linked_file t fs (performance_from_toml ps) directory (le_budget (pi_performance (mi_pilot ev)))
        (mi_performance ev) \<and>
      linked_file t fs (exposure_from_toml ps) directory (le_measurement (pi_exposure (mi_pilot ev)))
        (mi_exposure ev))"
proof (intro conjI allI impI)
  show "load_evidence t fs ps directory \<noteq> Inl LoadPanics"
    by (simp add: load_evidence_def and_then_Inl_iff Let_def load_toml_no_panic load_linked_no_panic
        split: sum.split)
next
  fix ev
  assume "load_evidence t fs ps directory = Inr ev"
  then obtain pilot parity performance exposure where l:
    "load_toml t fs (pilot_from_toml ps) (join_path directory ''pilot.toml'') = Inr pilot"
    "load_linked t fs (parity_from_toml ps) directory (pi_parity pilot) ''parity'' = Inr parity"
    "load_linked t fs (performance_from_toml ps) directory (pi_performance pilot) ''performance'' = Inr performance"
    "load_linked t fs (exposure_from_toml ps) directory (pi_exposure pilot) ''exposure'' = Inr exposure"
    "validate_evidence t fs ev = Inr ()"
    "ev = \<lparr>mi_directory = directory, mi_pilot = pilot, mi_parity = parity,
       mi_performance = performance, mi_exposure = exposure\<rparr>"
    unfolding load_evidence_def and_then_Inr_iff Let_def
    by (elim exE conjE) (rule that, auto split: sum.splits)
  have "components ''pilot.toml'' = [Normal ''pilot.toml'']" by code_simp
  then have "linked_file t fs (pilot_from_toml ps) directory (Some ''pilot.toml'') pilot"
    using l(1) unfolding linked_file_def load_toml_Inr by blast
  moreover have "le_matrix (pi_parity pilot) = linked_path (pi_parity pilot)"
    "le_budget (pi_performance pilot) = linked_path (pi_performance pilot)"
    "le_measurement (pi_exposure pilot) = linked_path (pi_exposure pilot)"
    using load_linked_Inr [OF l(2)] load_linked_Inr [OF l(3)] load_linked_Inr [OF l(4)]
    by (auto simp: correct_field_def linked_path_def)
  ultimately show "sound_evidence t fs ev" "mi_directory ev = directory"
    "linked_file t fs (pilot_from_toml ps) directory (Some ''pilot.toml'') (mi_pilot ev)"
    "linked_file t fs (parity_from_toml ps) directory (le_matrix (pi_parity (mi_pilot ev))) (mi_parity ev)"
    "linked_file t fs (performance_from_toml ps) directory (le_budget (pi_performance (mi_pilot ev)))
      (mi_performance ev)"
    "linked_file t fs (exposure_from_toml ps) directory (le_measurement (pi_exposure (mi_pilot ev)))
      (mi_exposure ev)"
    using load_linked_Inr [OF l(2)] load_linked_Inr [OF l(3)] load_linked_Inr [OF l(4)] l(5)
    by (simp_all add: l(6) validate_evidence_iff)
qed

definition example_parsers :: parsers where
  "example_parsers =
     \<lparr>pilot_from_toml = (\<lambda>s. if s = ''p'' then Inr complete_pilot else Inl ''bad''),
      parity_from_toml = (\<lambda>s. if s = ''a'' then Inr complete_parity else Inl ''bad''),
      performance_from_toml = (\<lambda>s. if s = ''b'' then Inr complete_performance else Inl ''bad''),
      exposure_from_toml = (\<lambda>s. if s = ''c'' then Inr complete_exposure else Inl ''bad'')\<rparr>"

lemma load_evidence_sound_witness:
  "sound_evidence example_tools example_tree complete_evidence \<and>
   linked_file example_tools example_tree (parity_from_toml example_parsers) ''/w'' (Some ''a.toml'')
     complete_parity"
proof -
  have files: "read_to_string example_tree (components (join_path ''/w'' ''pilot.toml'')) = Some ''p''"
    "read_to_string example_tree (components (join_path ''/w'' ''a.toml'')) = Some ''a''"
    "read_to_string example_tree (components (join_path ''/w'' ''b.toml'')) = Some ''b''"
    "read_to_string example_tree (components (join_path ''/w'' ''c.toml'')) = Some ''c''"
    by code_simp+
  have names: "is_plain_toml_filename ''a.toml''" "is_plain_toml_filename ''b.toml''"
    "is_plain_toml_filename ''c.toml''"
    by code_simp+
  have links: "pi_parity complete_pilot = link_to ''matrix'' Passed"
    "pi_performance complete_pilot = link_to ''budget'' Passed"
    "pi_exposure complete_pilot = link_to ''measurement'' Passed"
    by (simp_all add: complete_pilot_def)
  have pilot: "load_toml example_tools example_tree (pilot_from_toml example_parsers)
      (join_path ''/w'' ''pilot.toml'') = Inr complete_pilot"
    using files(1) by (simp add: load_toml_def example_parsers_def)
  have parity: "load_linked example_tools example_tree (parity_from_toml example_parsers) ''/w''
      (link_to ''matrix'' Passed) ''parity'' = Inr complete_parity"
    using files(2) names(1)
    by (simp add: load_linked_def load_toml_def example_parsers_def link_to_def correct_field_def
        link_count_def linked_path_def)
  have performance: "load_linked example_tools example_tree (performance_from_toml example_parsers) ''/w''
      (link_to ''budget'' Passed) ''performance'' = Inr complete_performance"
    using files(3) names(2)
    by (simp add: load_linked_def load_toml_def example_parsers_def link_to_def correct_field_def
        link_count_def linked_path_def)
  have exposure: "load_linked example_tools example_tree (exposure_from_toml example_parsers) ''/w''
      (link_to ''measurement'' Passed) ''exposure'' = Inr complete_exposure"
    using files(4) names(3)
    by (simp add: load_linked_def load_toml_def example_parsers_def link_to_def correct_field_def
        link_count_def linked_path_def)
  have "load_evidence example_tools example_tree example_parsers ''/w'' = Inr complete_evidence"
    using complete_evidence_valid
    by (simp add: load_evidence_def pilot links parity performance exposure Let_def
        complete_evidence_def [symmetric])
  with load_evidence_sound [of example_tools example_tree example_parsers "''/w''"]
  have "sound_evidence example_tools example_tree complete_evidence \<and>
    linked_file example_tools example_tree (parity_from_toml example_parsers) ''/w''
      (le_matrix (pi_parity (mi_pilot complete_evidence))) (mi_parity complete_evidence)"
    by blast
  moreover have "le_matrix (pi_parity (mi_pilot complete_evidence)) = Some ''a.toml''"
    "mi_parity complete_evidence = complete_parity"
    by (simp_all add: complete_evidence_def links link_to_def)
  ultimately show ?thesis by simp
qed

end
