(* ===== verification/Disk.thy ===== *)
theory Disk
  imports FileSystem "HOL-Library.Word"
begin

text \<open>
  A disk that commands write to: names are entries of directories, and several names may be one file, so
  the contents and the mode of a file belong to its inode. What is read is the \<open>FileSystem\<close> tree of the
  disk. A write may fail, before the file is opened or after some of the bytes.
\<close>

datatype disk_entry = FileEntry nat | DirEntry | LinkEntry string

record inode =
  ino_bytes :: string
  ino_mode :: "32 word"

record disk =
  dk_entries :: "(string list \<times> disk_entry) list"
  dk_inodes :: "(nat \<times> inode) list"
  dk_cwd :: "string list"
  dk_new_mode :: "32 word"

definition inode_at :: "disk \<Rightarrow> nat \<Rightarrow> inode" where
  "inode_at d i =
     (case map_of (dk_inodes d) i of Some n \<Rightarrow> n | None \<Rightarrow> \<lparr>ino_bytes = [], ino_mode = dk_new_mode d\<rparr>)"

definition entry_at :: "disk \<Rightarrow> string list \<Rightarrow> disk_entry option" where
  "entry_at d real = (if real = [] then Some DirEntry else map_of (dk_entries d) real)"

definition node_of :: "disk \<Rightarrow> disk_entry \<Rightarrow> fs_node" where
  "node_of d e =
     (case e of FileEntry i \<Rightarrow> RegularFile (ino_bytes (inode_at d i)) | DirEntry \<Rightarrow> Directory
      | LinkEntry target \<Rightarrow> Symlink target)"

definition tree :: "disk \<Rightarrow> file_system" where
  "tree d = \<lparr>fs_nodes = map (\<lambda>(p, e). (p, node_of d e)) (dk_entries d), fs_cwd = dk_cwd d\<rparr>"

text \<open>\<open>symlink_metadata\<close>: the entry a path names, the last link not followed.\<close>

definition link_location :: "file_system \<Rightarrow> path \<Rightarrow> string list option" where
  "link_location fs p =
     (if p = [] then None
      else (case last p of
              Normal w \<Rightarrow>
                (case follow fs max_links (fs_cwd fs) (butlast p) of
                   None \<Rightarrow> None
                 | Some dir \<Rightarrow> if fs_lookup fs dir = Some Directory then Some (dir @ [w]) else None)
            | _ \<Rightarrow> canonicalize fs p))"

definition lstat :: "disk \<Rightarrow> path \<Rightarrow> disk_entry option" where
  "lstat d p = Option.bind (link_location (tree d) p) (entry_at d)"

text \<open>Whether \<open>symlink_metadata\<close> fails with \<open>NotFound\<close>, and not with another error.\<close>

definition lstat_missing :: "disk \<Rightarrow> path \<Rightarrow> bool" where
  "lstat_missing d p \<longleftrightarrow>
     p = [] \<or>
     (case last p of
        Normal w \<Rightarrow>
          (case follow (tree d) max_links (dk_cwd d) (butlast p) of
             None \<Rightarrow> follow_missing (tree d) max_links (dk_cwd d) (butlast p)
           | Some dir \<Rightarrow> entry_at d dir = Some DirEntry \<and> entry_at d (dir @ [w]) = None)
      | _ \<Rightarrow> follow_missing (tree d) max_links (dk_cwd d) p)"

section \<open>Writing\<close>

text \<open>Where \<open>open\<close> with \<open>O_CREAT\<close> leads: as \<open>follow\<close>, but the last name need not exist.\<close>

fun open_target :: "file_system \<Rightarrow> nat \<Rightarrow> string list \<Rightarrow> path \<Rightarrow> string list option" where
  "open_target fs links dir [] = Some dir"
| "open_target fs links dir (RootDir # cs) = open_target fs links [] cs"
| "open_target fs links dir (CurDir # cs) = open_target fs links dir cs"
| "open_target fs links dir (ParentDir # cs) = open_target fs links (butlast dir) cs"
| "open_target fs links dir (Normal w # cs) =
     (case fs_lookup fs (dir @ [w]) of
        None \<Rightarrow> if cs = [] then Some (dir @ [w]) else None
      | Some Directory \<Rightarrow> open_target fs links (dir @ [w]) cs
      | Some (RegularFile _) \<Rightarrow> if cs = [] then Some (dir @ [w]) else None
      | Some (Symlink target) \<Rightarrow>
          if links = 0 then None else open_target fs (links - 1) dir (components target @ cs))"

datatype write_fault = NoFault | NotOpened | Interrupted nat

definition written_bytes :: "write_fault \<Rightarrow> string \<Rightarrow> string" where
  "written_bytes fault bytes = (case fault of Interrupted n \<Rightarrow> take n bytes | _ \<Rightarrow> bytes)"

definition put_inode :: "nat \<Rightarrow> inode \<Rightarrow> disk \<Rightarrow> disk" where
  "put_inode i n d = d\<lparr>dk_inodes := (i, n) # dk_inodes d\<rparr>"

definition used_inodes :: "disk \<Rightarrow> nat list" where
  "used_inodes d =
     map fst (dk_inodes d) @
     concat (map (\<lambda>(p, e). case e of FileEntry i \<Rightarrow> [i] | _ \<Rightarrow> []) (dk_entries d))"

definition fresh_inode :: "disk \<Rightarrow> nat" where
  "fresh_inode d = Suc (fold max (used_inodes d) 0)"

definition create_file :: "string list \<Rightarrow> string \<Rightarrow> disk \<Rightarrow> disk" where
  "create_file real bytes d =
     put_inode (fresh_inode d) \<lparr>ino_bytes = bytes, ino_mode = dk_new_mode d\<rparr>
       (d\<lparr>dk_entries := (real, FileEntry (fresh_inode d)) # dk_entries d\<rparr>)"

text \<open>\<open>fs::write\<close>: whether it succeeded, and the disk after it.\<close>

definition fs_write :: "write_fault \<Rightarrow> path \<Rightarrow> string \<Rightarrow> disk \<Rightarrow> bool \<times> disk" where
  "fs_write fault p bytes d =
     (if p = [] \<or> fault = NotOpened then (False, d)
      else case open_target (tree d) max_links (dk_cwd d) p of
             None \<Rightarrow> (False, d)
           | Some real \<Rightarrow>
               (case entry_at d real of
                  Some (FileEntry i) \<Rightarrow>
                    (fault = NoFault,
                     put_inode i ((inode_at d i)\<lparr>ino_bytes := written_bytes fault bytes\<rparr>) d)
                | None \<Rightarrow> (fault = NoFault, create_file real (written_bytes fault bytes) d)
                | _ \<Rightarrow> (False, d)))"

text \<open>Which reads the operating system refuses and how writes end, by the path they are called with.\<close>

record device =
  dv_read_fails :: "string \<Rightarrow> bool"
  dv_write_fault :: "string \<Rightarrow> write_fault"

section \<open>What a write leaves alone\<close>

lemma fs_lookup_tree: "fs_lookup (tree d) real = map_option (node_of d) (entry_at d real)"
proof -
  have "map_of (map (\<lambda>(p, e). (p, node_of d e)) es) real = map_option (node_of d) (map_of es real)" for es
    by (induction es) auto
  then show ?thesis by (simp add: fs_lookup_def tree_def entry_at_def node_of_def)
qed

lemma fs_cwd_tree [simp]: "fs_cwd (tree d) = dk_cwd d"
  by (simp add: tree_def)

lemma node_of_simps [simp]:
  "node_of d DirEntry = Directory" "node_of d (LinkEntry t) = Symlink t"
  "node_of d (FileEntry i) = RegularFile (ino_bytes (inode_at d i))"
  by (simp_all add: node_of_def)

lemma node_of_Directory [simp]: "node_of d e = Directory \<longleftrightarrow> e = DirEntry"
  by (cases e) simp_all

text \<open>A disk with more names resolves every path the same.\<close>

definition extends :: "disk \<Rightarrow> disk \<Rightarrow> bool" where
  "extends d d' \<longleftrightarrow>
     dk_cwd d' = dk_cwd d \<and> (\<forall>real e. entry_at d real = Some e \<longrightarrow> entry_at d' real = Some e)"

lemma extends_refl [simp]: "extends d d"
  by (simp add: extends_def)

lemma extends_entry: "extends d d' \<Longrightarrow> entry_at d real = Some e \<Longrightarrow> entry_at d' real = Some e"
  by (simp add: extends_def)

lemma follow_extends:
  assumes "extends d d'"
  shows "follow (tree d) links dir cs = Some r \<Longrightarrow> follow (tree d') links dir cs = Some r"
proof (induction "tree d" links dir cs rule: follow.induct)
  case (5 links dir w cs)
  then obtain e where e: "entry_at d (dir @ [w]) = Some e"
    by (cases "entry_at d (dir @ [w])") (auto simp: fs_lookup_tree)
  then have "entry_at d' (dir @ [w]) = Some e" using assms by (rule extends_entry [rotated])
  then show ?case using 5 e by (cases e) (auto simp: fs_lookup_tree split: if_splits)
qed auto

lemma link_location_extends:
  assumes "extends d d'" and "link_location (tree d) p = Some real"
  shows "link_location (tree d') p = Some real"
proof -
  have dir: "fs_lookup (tree d') dir = Some Directory" if "fs_lookup (tree d) dir = Some Directory" for dir
    using that extends_entry [OF assms(1)] by (auto simp: fs_lookup_tree)
  have cwd: "dk_cwd d' = dk_cwd d" using assms(1) by (simp add: extends_def)
  show ?thesis
    using assms(2) follow_extends [OF assms(1)] dir
    by (auto simp: link_location_def canonicalize_def cwd split: if_splits option.splits component.splits)
qed

lemma lstat_extends: "extends d d' \<Longrightarrow> lstat d p = Some e \<Longrightarrow> lstat d' p = Some e"
  by (auto simp: lstat_def link_location_extends extends_entry bind_eq_Some_conv)

lemma entry_at_put_inode [simp]: "entry_at (put_inode i n d) real = entry_at d real"
  by (simp add: entry_at_def put_inode_def)

lemma inode_at_put_inode: "inode_at (put_inode i n d) j = (if j = i then n else inode_at d j)"
  by (simp add: inode_at_def put_inode_def split: option.split)

lemma fold_max_upper: "(i :: nat) \<in> set is \<Longrightarrow> i \<le> fold max is k"
proof -
  have lower: "k \<le> fold max is k" for k :: nat and "is"
    by (induction "is" arbitrary: k) (auto, meson max.bounded_iff order_trans)
  show "i \<in> set is \<Longrightarrow> i \<le> fold max is k"
  proof (induction "is" arbitrary: k)
    case (Cons j js)
    then show ?case using lower [of "max j k" js] by auto
  qed simp
qed

lemma fresh_inode_entry: "entry_at d real = Some (FileEntry i) \<Longrightarrow> i \<noteq> fresh_inode d"
proof -
  assume "entry_at d real = Some (FileEntry i)"
  then have "(real, FileEntry i) \<in> set (dk_entries d)"
    by (auto simp: entry_at_def split: if_splits dest: map_of_SomeD)
  then have "i \<in> set (used_inodes d)" by (force simp: used_inodes_def)
  then have "i \<le> fold max (used_inodes d) 0" by (rule fold_max_upper)
  then show ?thesis by (simp add: fresh_inode_def)
qed

lemma fs_write_extends: "extends d (snd (fs_write fault p bytes d))"
  by (auto simp: fs_write_def extends_def create_file_def put_inode_def entry_at_def
      split: option.splits disk_entry.splits)

text \<open>A file keeps its bytes and its mode unless the write leads to it.\<close>

lemma fs_write_other_inode:
  assumes "entry_at d real = Some (FileEntry i)"
    and "\<And>target. open_target (tree d) max_links (dk_cwd d) p = Some target \<Longrightarrow>
         entry_at d target \<noteq> Some (FileEntry i)"
  shows "inode_at (snd (fs_write fault p bytes d)) i = inode_at d i"
proof -
  have "inode_at (d\<lparr>dk_entries := es\<rparr>) i = inode_at d i" for es
    by (simp add: inode_at_def split: option.split)
  then show ?thesis
    using assms(2) fresh_inode_entry [OF assms(1)]
    by (auto simp: fs_write_def create_file_def inode_at_put_inode
        split: option.splits disk_entry.splits)
qed

text \<open>A file that was written is found again under the same path, with what was written.\<close>

lemma open_target_follow:
  assumes "extends d d'" and "entry_at d' real = Some (FileEntry i)"
  shows "open_target (tree d) links dir cs = Some real \<Longrightarrow> follow (tree d') links dir cs = Some real"
proof (induction "tree d" links dir cs rule: open_target.induct)
  case (5 links dir w cs)
  show ?case
  proof (cases "entry_at d (dir @ [w])")
    case None
    then show ?thesis using 5 assms(2) by (auto simp: fs_lookup_tree split: if_splits)
  next
    case (Some e)
    then have "entry_at d' (dir @ [w]) = Some e" by (rule extends_entry [OF assms(1)])
    then show ?thesis using 5 Some by (cases e) (auto simp: fs_lookup_tree split: if_splits)
  qed
qed auto

lemma fs_write_reads:
  assumes "fst (fs_write fault p bytes d)"
  shows "read_file (tree (snd (fs_write fault p bytes d))) p = Some bytes"
proof -
  define d' where "d' = snd (fs_write fault p bytes d)"
  from assms obtain real where real: "open_target (tree d) max_links (dk_cwd d) p = Some real"
    and ok: "fault = NoFault" "p \<noteq> []"
    by (auto simp: fs_write_def split: if_splits option.splits disk_entry.splits)
  have "\<exists>i. entry_at d' real = Some (FileEntry i) \<and> ino_bytes (inode_at d' i) = bytes"
  proof (cases "entry_at d real")
    case None
    then have "d' = create_file real bytes d"
      using real ok by (simp add: d'_def fs_write_def written_bytes_def)
    moreover have "real \<noteq> []" using None by (auto simp: entry_at_def)
    ultimately show ?thesis
      by (simp add: create_file_def inode_at_put_inode) (simp add: entry_at_def)
  next
    case (Some e)
    then show ?thesis
      using assms real ok
      by (auto simp: d'_def fs_write_def written_bytes_def inode_at_put_inode
          split: disk_entry.splits)
  qed
  then obtain i where i: "entry_at d' real = Some (FileEntry i)" "ino_bytes (inode_at d' i) = bytes"
    by blast
  have extends: "extends d d'" unfolding d'_def by (rule fs_write_extends)
  have "follow (tree d') max_links (dk_cwd d') p = Some real"
    using open_target_follow [OF extends i(1) real] extends by (simp add: extends_def)
  then show ?thesis
    unfolding d'_def [symmetric] using ok(2) i
    by (simp add: read_file_def metadata_def canonicalize_def fs_lookup_tree)
qed

section \<open>Where a write to a named file goes\<close>

lemma open_target_append:
  "follow fs links dir cs = Some r \<Longrightarrow> fs_lookup fs r = Some Directory \<Longrightarrow>
   (\<forall>t. fs_lookup fs (r @ [w]) \<noteq> Some (Symlink t)) \<Longrightarrow>
   open_target fs links dir (cs @ [Normal w]) = Some (r @ [w])"
proof (induction fs links dir cs rule: follow.induct)
  case (1 fs links dir)
  then show ?case by (auto split: option.split fs_node.split)
qed (auto split: option.splits fs_node.splits if_splits)

lemma open_target_stuck:
  "follow fs links dir cs = None \<Longrightarrow> open_target fs links dir (cs @ [Normal w]) = None"
  by (induction fs links dir cs rule: follow.induct) (auto split: option.splits fs_node.splits if_splits)

lemma open_target_dots:
  "cs = [] \<or> (\<forall>w. last cs \<noteq> Normal w) \<Longrightarrow> open_target fs links dir cs = follow fs links dir cs"
  by (induction fs links dir cs rule: follow.induct) (auto split: option.splits fs_node.splits if_splits)

lemma follow_append:
  "follow fs links dir cs = Some r \<Longrightarrow> fs_lookup fs r = Some Directory \<Longrightarrow>
   fs_lookup fs (r @ [w]) = Some (RegularFile bytes) \<Longrightarrow>
   follow fs links dir (cs @ [Normal w]) = Some (r @ [w])"
  by (induction fs links dir cs rule: follow.induct) (auto split: option.splits fs_node.splits if_splits)

lemma butlast_last: "p \<noteq> [] \<Longrightarrow> last p = x \<Longrightarrow> p = butlast p @ [x]"
  by (metis append_butlast_last_id)

text \<open>A path that names a regular file is read from the inode of that file.\<close>

lemma lstat_file_reads:
  assumes "lstat d p = Some (FileEntry i)"
  shows "read_file (tree d) p = Some (ino_bytes (inode_at d i))"
proof -
  from assms obtain real where real: "link_location (tree d) p = Some real"
    "entry_at d real = Some (FileEntry i)"
    by (auto simp: lstat_def bind_eq_Some_conv)
  have "canonicalize (tree d) p = Some real"
  proof (cases "\<exists>w. last p = Normal w")
    case True
    then obtain w where w: "last p = Normal w" by blast
    with real(1) obtain dir where dir: "p \<noteq> []" "follow (tree d) max_links (dk_cwd d) (butlast p) = Some dir"
      "fs_lookup (tree d) dir = Some Directory" "real = dir @ [w]"
      by (auto simp: link_location_def split: if_splits option.splits)
    have "fs_lookup (tree d) (dir @ [w]) = Some (RegularFile (ino_bytes (inode_at d i)))"
      using real(2) dir(4) by (simp add: fs_lookup_tree)
    from follow_append [OF dir(2,3) this] butlast_last [OF dir(1) w] show ?thesis
      using dir(1,4) by (simp add: canonicalize_def)
  next
    case False
    with real(1) show ?thesis by (auto simp: link_location_def split: if_splits component.splits)
  qed
  then show ?thesis using real(2) by (simp add: read_file_def metadata_def fs_lookup_tree)
qed

lemma open_target_lstat:
  assumes "open_target (tree d) max_links (dk_cwd d) p = Some target" and "p \<noteq> []"
    and "(\<exists>i. lstat d p = Some (FileEntry i)) \<or> (lstat d p = None \<and> lstat_missing d p)"
  shows "entry_at d target = lstat d p \<and> link_location (tree d) p = Some target"
proof (cases "\<exists>w. last p = Normal w")
  case True
  then obtain w where w: "last p = Normal w" by blast
  have p: "p = butlast p @ [Normal w]" using assms(2) w by (rule butlast_last)
  show ?thesis
  proof (cases "follow (tree d) max_links (dk_cwd d) (butlast p)")
    case None
    then have "open_target (tree d) max_links (dk_cwd d) p = None"
      by (subst p) (rule open_target_stuck)
    with assms(1) show ?thesis by simp
  next
    case (Some dir)
    have dir: "entry_at d dir = Some DirEntry"
      using assms(2,3) w Some
      by (auto simp: lstat_def lstat_missing_def link_location_def bind_eq_Some_conv fs_lookup_tree
          split: if_splits)
    then have lstat: "lstat d p = entry_at d (dir @ [w])" "link_location (tree d) p = Some (dir @ [w])"
      using assms(2) w Some by (simp_all add: lstat_def link_location_def fs_lookup_tree)
    have "open_target (tree d) max_links (dk_cwd d) (butlast p @ [Normal w]) = Some (dir @ [w])"
      by (rule open_target_append [OF Some]) (use dir lstat(1) assms(3) in \<open>auto simp: fs_lookup_tree\<close>)
    then show ?thesis using assms(1) lstat p by simp
  qed
next
  case False
  then have "open_target (tree d) max_links (dk_cwd d) p = follow (tree d) max_links (dk_cwd d) p"
    by (intro open_target_dots) auto
  then have "canonicalize (tree d) p = Some target"
    using assms(1,2) by (simp add: canonicalize_def)
  moreover have "link_location (tree d) p = canonicalize (tree d) p"
    using False assms(2) by (auto simp: link_location_def split: component.split)
  ultimately show ?thesis by (simp add: lstat_def)
qed

text \<open>A write to a path that names a regular file, or nothing, changes only that file.\<close>

lemma fs_write_other_file:
  assumes "(\<exists>i. lstat d p = Some (FileEntry i)) \<or> (lstat d p = None \<and> lstat_missing d p)"
    and "lstat d q = Some (FileEntry i)" and "lstat d p \<noteq> Some (FileEntry i)"
  shows "lstat (snd (fs_write fault p bytes d)) q = Some (FileEntry i) \<and>
    inode_at (snd (fs_write fault p bytes d)) i = inode_at d i"
proof
  show "lstat (snd (fs_write fault p bytes d)) q = Some (FileEntry i)"
    by (rule lstat_extends [OF fs_write_extends assms(2)])
  obtain real where real: "entry_at d real = Some (FileEntry i)"
    using assms(2) by (auto simp: lstat_def bind_eq_Some_conv)
  show "inode_at (snd (fs_write fault p bytes d)) i = inode_at d i"
  proof (cases "p = []")
    case True
    then show ?thesis by (simp add: fs_write_def)
  next
    case False
    show ?thesis
      by (rule fs_write_other_inode [OF real]) (use open_target_lstat [OF _ False assms(1)] assms(3) in metis)
  qed
qed

lemma fs_write_names_file:
  assumes "(\<exists>i. lstat d p = Some (FileEntry i)) \<or> (lstat d p = None \<and> lstat_missing d p)"
    and "fst (fs_write fault p bytes d)"
  shows "\<exists>i. lstat (snd (fs_write fault p bytes d)) p = Some (FileEntry i)"
proof (cases "\<exists>i. lstat d p = Some (FileEntry i)")
  case True
  then show ?thesis using lstat_extends [OF fs_write_extends] by blast
next
  case False
  then have missing: "lstat d p = None" using assms(1) by blast
  from assms(2) obtain real where real: "open_target (tree d) max_links (dk_cwd d) p = Some real"
    and ok: "fault = NoFault" "p \<noteq> []"
    by (auto simp: fs_write_def split: if_splits option.splits disk_entry.splits)
  from open_target_lstat [OF real ok(2) assms(1)] missing
  have none: "entry_at d real = None" and loc: "link_location (tree d) p = Some real" by simp_all
  define d' where "d' = snd (fs_write fault p bytes d)"
  have "d' = create_file real bytes d"
    using real ok none by (simp add: d'_def fs_write_def written_bytes_def)
  moreover have "real \<noteq> []" using none by (auto simp: entry_at_def)
  ultimately have "entry_at d' real = Some (FileEntry (fresh_inode d))"
    by (simp add: create_file_def) (simp add: entry_at_def)
  moreover have "link_location (tree d') p = Some real"
    unfolding d'_def by (rule link_location_extends [OF fs_write_extends loc])
  ultimately show ?thesis unfolding d'_def by (simp add: lstat_def)
qed

end
