(* ===== verification/Hex.thy ===== *)
theory Hex
  imports Prelude "HOL-Library.Word"
begin

unbundle bit_operations_syntax

text \<open>
  Lower-case hexadecimal, as \<open>crates/chromifer-attestation/src/lib.rs\<close> writes and reads it; several crates
  have their own copy of \<open>encode_hex\<close>.
\<close>

section \<open>Definitions\<close>

definition byte_word :: "char \<Rightarrow> 8 word" where
  "byte_word c = of_nat (byte_of c)"

definition decode_nibble :: "char \<Rightarrow> 8 word option" where
  "decode_nibble c =
     (if CHR ''0'' \<le> c \<and> c \<le> CHR ''9'' then Some (byte_word c - byte_word (CHR ''0''))
      else if CHR ''a'' \<le> c \<and> c \<le> CHR ''f'' then Some (byte_word c - byte_word (CHR ''a'') + 10)
      else None)"

definition char_of_word :: "8 word \<Rightarrow> char" where
  "char_of_word w = char_of (unat w)"

fun decode_pairs :: "string \<Rightarrow> string option" where
  "decode_pairs (a # b # s) =
     (case decode_nibble a of None \<Rightarrow> None
      | Some high \<Rightarrow>
          (case decode_nibble b of None \<Rightarrow> None
           | Some low \<Rightarrow> map_option (Cons (char_of_word (push_bit 4 high OR low))) (decode_pairs s)))"
| "decode_pairs _ = Some []"

definition decode_array :: "nat \<Rightarrow> string \<Rightarrow> string option" where
  "decode_array n value = (if length value \<noteq> n * 2 then None else decode_pairs value)"

definition is_lower_hex :: "string \<Rightarrow> nat \<Rightarrow> bool" where
  "is_lower_hex value n \<longleftrightarrow>
     length value = n \<and> list_all (\<lambda>c. is_ascii_digit c \<or> (CHR ''a'' \<le> c \<and> c \<le> CHR ''f'')) value"

definition hex_table :: string where
  "hex_table = ''0123456789abcdef''"

definition encode_byte :: "char \<Rightarrow> string" where
  "encode_byte c =
     [hex_table ! unat (drop_bit 4 (byte_word c)), hex_table ! unat (byte_word c AND 0x0F)]"

definition encode_hex :: "string \<Rightarrow> string" where
  "encode_hex bytes = concat (map encode_byte bytes)"

section \<open>Encoding and decoding are inverse\<close>

lemma decode_nibble_table: "list_all (\<lambda>n. decode_nibble (hex_table ! n) = Some (of_nat n)) [0..<16]"
  by code_simp

lemma decode_nibble_digit: "n < 16 \<Longrightarrow> decode_nibble (hex_table ! n) = Some (of_nat n)"
  using decode_nibble_table by (simp add: list_all_iff)

lemma table_lower_hex:
  "list_all (\<lambda>n. is_ascii_digit (hex_table ! n) \<or> (CHR ''a'' \<le> hex_table ! n \<and> hex_table ! n \<le> CHR ''f''))
     [0..<16]"
  by code_simp

lemma nibble_bound:
  fixes w :: "8 word"
  shows "unat (drop_bit 4 w) < 16" "unat (w AND 0x0F) < 16"
proof -
  have "unat w < 2 ^ LENGTH(8)" by (rule unsigned_less)
  then have "unat w < 256" by simp
  then show "unat (drop_bit 4 w) < 16" by (simp add: drop_bit_eq_div unat_div_distrib)
  have "w AND 0x0F = take_bit 4 w" by (simp add: take_bit_eq_mask mask_eq_exp_minus_1)
  then show "unat (w AND 0x0F) < 16" by (simp add: take_bit_eq_mod unat_mod_distrib)
qed

lemma nibbles_join:
  fixes w :: "8 word"
  shows "push_bit 4 (drop_bit 4 w) OR (w AND 0x0F) = w"
proof -
  have "w AND 0x0F = take_bit 4 w" by (simp add: take_bit_eq_mask mask_eq_exp_minus_1)
  then show ?thesis by (auto intro!: bit_word_eqI simp: bit_simps)
qed

lemma char_byte_word [simp]: "char_of_word (byte_word c) = c"
  by (simp add: char_of_word_def byte_word_def byte_of_def unat_of_nat)

lemma byte_char_word [simp]: "byte_word (char_of_word w) = w"
proof -
  have "unat w < 2 ^ LENGTH(8)" by (rule unsigned_less)
  then have "unat w < 256" by simp
  then show ?thesis by (simp add: char_of_word_def byte_word_def byte_of_def)
qed

lemma encode_byte_decode:
  obtains a b high low where "encode_byte c = [a, b]"
    and "decode_nibble a = Some high" and "decode_nibble b = Some low"
    and "char_of_word (push_bit 4 high OR low) = c"
    and "list_all (\<lambda>x. is_ascii_digit x \<or> (CHR ''a'' \<le> x \<and> x \<le> CHR ''f'')) [a, b]"
proof
  let ?h = "drop_bit 4 (byte_word c)" and ?l = "byte_word c AND 0x0F"
  show "encode_byte c = [hex_table ! unat ?h, hex_table ! unat ?l]" by (simp add: encode_byte_def)
  show "decode_nibble (hex_table ! unat ?h) = Some ?h" "decode_nibble (hex_table ! unat ?l) = Some ?l"
    using nibble_bound [of "byte_word c"] by (simp_all add: decode_nibble_digit)
  show "char_of_word (push_bit 4 ?h OR ?l) = c" by (simp add: nibbles_join)
  show "list_all (\<lambda>x. is_ascii_digit x \<or> (CHR ''a'' \<le> x \<and> x \<le> CHR ''f''))
      [hex_table ! unat ?h, hex_table ! unat ?l]"
    using nibble_bound [of "byte_word c"] table_lower_hex by (simp add: list_all_iff)
qed

lemma decode_encode: "decode_pairs (encode_hex bytes) = Some bytes"
proof (induction bytes)
  case (Cons c bytes)
  obtain a b high low where "encode_byte c = [a, b]" "decode_nibble a = Some high"
    "decode_nibble b = Some low" "char_of_word (push_bit 4 high OR low) = c"
    by (rule encode_byte_decode)
  then show ?case using Cons by (simp add: encode_hex_def)
qed (simp add: encode_hex_def)

lemma length_encode_hex [simp]: "length (encode_hex bytes) = length bytes * 2"
  by (induction bytes) (simp_all add: encode_hex_def encode_byte_def)

lemma decode_array_encode: "length bytes = n \<Longrightarrow> decode_array n (encode_hex bytes) = Some bytes"
  by (simp add: decode_array_def decode_encode)

lemma is_lower_hex_encode: "length bytes * 2 = n \<Longrightarrow> is_lower_hex (encode_hex bytes) n"
proof -
  have "list_all (\<lambda>x. is_ascii_digit x \<or> (CHR ''a'' \<le> x \<and> x \<le> CHR ''f'')) (encode_hex bytes)"
  proof (induction bytes)
    case (Cons c bytes)
    obtain a b where "encode_byte c = [a, b]"
      "list_all (\<lambda>x. is_ascii_digit x \<or> (CHR ''a'' \<le> x \<and> x \<le> CHR ''f'')) [a, b]"
      by (rule encode_byte_decode)
    then show ?case using Cons by (simp add: encode_hex_def)
  qed (simp add: encode_hex_def)
  then show "length bytes * 2 = n \<Longrightarrow> is_lower_hex (encode_hex bytes) n" by (simp add: is_lower_hex_def)
qed

text \<open>Only one encoding decodes to a byte.\<close>

lemma nibbles_split:
  fixes h l :: "8 word"
  assumes "take_bit 4 h = h" and "take_bit 4 l = l"
  shows "drop_bit 4 (push_bit 4 h OR l) = h" and "(push_bit 4 h OR l) AND 0x0F = l"
proof -
  have h: "bit h n \<Longrightarrow> n < 4" and l: "bit l n \<Longrightarrow> n < 4" for n
    using assms by (metis bit_take_bit_iff)+
  show "drop_bit 4 (push_bit 4 h OR l) = h"
    by (rule bit_word_eqI) (auto simp: bit_simps dest: h l)
  have "(push_bit 4 h OR l) AND 0x0F = take_bit 4 (push_bit 4 h OR l)"
    by (simp add: take_bit_eq_mask mask_eq_exp_minus_1)
  then show "(push_bit 4 h OR l) AND 0x0F = l"
    by (auto intro!: bit_word_eqI simp: bit_simps dest: l)
qed

lemma decode_nibble_inverse:
  assumes "decode_nibble a = Some h"
  shows "\<exists>n<16. a = hex_table ! n \<and> h = of_nat n"
proof -
  have "byte_of a \<in> {48..57} \<or> byte_of a \<in> {97..102}"
    using assms by (auto simp: decode_nibble_def byte_of_def less_eq_char_def split: if_splits)
  then obtain n where n: "n < 16" "byte_of a = byte_of (hex_table ! n)"
  proof
    assume a: "byte_of a \<in> {48..57}"
    then have "byte_of a - 48 < 10" "byte_of a = 48 + (byte_of a - 48)" by auto
    moreover have "list_all (\<lambda>n. byte_of (hex_table ! n) = 48 + n) [0..<10]" by code_simp
    ultimately show thesis by (intro that [of "byte_of a - 48"]) (auto simp: list_all_iff)
  next
    assume a: "byte_of a \<in> {97..102}"
    then have "byte_of a - 87 < 16" "10 \<le> byte_of a - 87" "byte_of a = 87 + (byte_of a - 87)" by auto
    moreover have "list_all (\<lambda>n. byte_of (hex_table ! n) = 87 + n) [10..<16]" by code_simp
    then have "\<forall>n\<in>{10..<16}. byte_of (hex_table ! n) = 87 + n"
      by (simp only: list_all_iff set_upt)
    ultimately show thesis by (intro that [of "byte_of a - 87"]) simp_all
  qed
  then have "a = hex_table ! n" by (simp add: byte_of_def)
  then show ?thesis using n(1) decode_nibble_digit [of n] assms by auto
qed

lemma encode_decode_pairs: "even (length s) \<Longrightarrow> decode_pairs s = Some bytes \<Longrightarrow> encode_hex bytes = s"
proof (induction s arbitrary: bytes rule: decode_pairs.induct)
  case (1 a b s)
  from "1.prems"(2) obtain high low rest where r: "decode_nibble a = Some high"
    "decode_nibble b = Some low" "decode_pairs s = Some rest"
    "bytes = char_of_word (push_bit 4 high OR low) # rest"
    by (auto split: option.splits)
  obtain i j where i: "i < 16" "a = hex_table ! i" "high = of_nat i"
    and j: "j < 16" "b = hex_table ! j" "low = of_nat j"
    using decode_nibble_inverse [OF r(1)] decode_nibble_inverse [OF r(2)] by blast
  have t: "take_bit 4 high = high" "take_bit 4 low = low" and u: "unat high = i" "unat low = j"
    using i(1,3) j(1,3)
    by (simp_all add: take_bit_of_nat take_bit_nat_eq_self unsigned_of_nat)
  then have "encode_byte (char_of_word (push_bit 4 high OR low)) = [a, b]"
    by (simp only: encode_byte_def byte_char_word nibbles_split [OF t] u i(2) j(2))
  moreover have "encode_hex rest = s" using "1.IH" [OF r(1,2)] "1.prems"(1) r(3) by simp
  ultimately show ?case using r(4) by (simp add: encode_hex_def)
qed (auto simp: encode_hex_def)

lemma encode_decode_array: "decode_array n s = Some bytes \<Longrightarrow> encode_hex bytes = s"
  by (rule encode_decode_pairs) (auto simp: decode_array_def split: if_splits)

lemma lower_hex_ascii:
  assumes "is_lower_hex s n" and "x \<in> set s"
  shows "0x30 \<le> byte_of x \<and> byte_of x < 0x80"
proof -
  have "is_ascii_digit x \<or> (CHR ''a'' \<le> x \<and> x \<le> CHR ''f'')"
    using assms by (auto simp: is_lower_hex_def list_all_iff)
  then show ?thesis by (auto simp: is_ascii_digit_def less_eq_char_def byte_of_def)
qed

end
