(* ===== verification/Attestation.thy ===== *)
theory Attestation
  imports Disk Hex
begin

unbundle bit_operations_syntax

text \<open>
  \<open>crates/chromifer-attestation/src/lib.rs\<close>: signs an evidence file and verifies the signature, on a disk with
  hard links. Ed25519, SHA-256 and the JSON codec are fields of \<open>crypto\<close>; whether the operating system
  refuses a read or a write is the part of the \<open>device\<close>.
\<close>

section \<open>Options, attestations and errors\<close>

record sign_options =
  sg_evidence :: string
  sg_private_key :: string
  sg_output :: string
  sg_runner_id :: string
  sg_force :: bool
  sg_check :: bool

record public_key_options =
  pk_private_key :: string
  pk_output :: string
  pk_force :: bool
  pk_check :: bool

record evidence_attestation =
  ea_schema_version :: "32 word"
  ea_algorithm :: string
  ea_runner_id :: string
  ea_evidence_sha256 :: string
  ea_public_key_sha256 :: string
  ea_public_key :: string
  ea_signature :: string

record sign_summary =
  ss_evidence_sha256 :: string
  ss_runner_id :: string
  ss_public_key_sha256 :: string
  ss_output :: string
  ss_checked :: bool

record verify_summary =
  vs_evidence_sha256 :: string
  vs_runner_id :: string
  vs_public_key_sha256 :: string
  vs_signature_valid :: bool

datatype attestation_error =
    InvalidRunnerId
  | InvalidFile string
  | InsecurePrivateKeyPermissions string
  | ReadFile string
  | InvalidKey string
  | ParseAttestation
  | UnsupportedSchema "32 word" "32 word"
  | UnsupportedAlgorithm string
  | UntrustedPublicKey
  | PublicKeyDigestMismatch
  | EvidenceDigestMismatch string
  | InvalidSignature
  | OutputExists string
  | OutputAliasesInput string string
  | Drift string
  | WriteFile string

record crypto =
  public_key_of :: "string \<Rightarrow> string"
  valid_public_key :: "string \<Rightarrow> bool"
  sign_message :: "string \<Rightarrow> string \<Rightarrow> string"
  verify_strict :: "string \<Rightarrow> string \<Rightarrow> string \<Rightarrow> bool"
  sha256_digest :: "string \<Rightarrow> string"
  attestation_to_json :: "evidence_attestation \<Rightarrow> string option"
  attestation_from_json :: "string \<Rightarrow> evidence_attestation option"

definition attestation_schema_version :: "32 word" where
  "attestation_schema_version = 1"

definition algorithm_name :: string where
  "algorithm_name = ''ed25519''"

definition signing_domain :: string where
  "signing_domain = ''chromifer:evidence-attestation:v1'' @ [CHR 0x0A]"

definition display_text :: "string \<Rightarrow> string" where
  "display_text path = replace_char (CHR 0x5C) (CHR ''/'') path"

section \<open>Digests\<close>

definition attestation_sha256 :: "crypto \<Rightarrow> string \<Rightarrow> string" where
  "attestation_sha256 c bytes = encode_hex (sha256_digest c bytes)"

section \<open>Reading\<close>

definition regular_file_metadata :: "disk \<Rightarrow> string \<Rightarrow> (attestation_error, nat) result" where
  "regular_file_metadata d path =
     (case lstat d (components path) of
        Some (FileEntry i) \<Rightarrow> Inr i
      | _ \<Rightarrow> Inl (InvalidFile (display_text path)))"

definition read_bytes :: "device \<Rightarrow> disk \<Rightarrow> string \<Rightarrow> (attestation_error, string) result" where
  "read_bytes v d path =
     (if dv_read_fails v path then Inl (ReadFile (display_text path))
      else ok_or (read_file (tree d) (components path)) (ReadFile (display_text path)))"

definition read_regular_file :: "device \<Rightarrow> disk \<Rightarrow> string \<Rightarrow> (attestation_error, string) result" where
  "read_regular_file v d path = and_then (regular_file_metadata d path) (\<lambda>_. read_bytes v d path)"

text \<open>The mask is \<open>0o077\<close>.\<close>

definition validate_private_permissions :: "disk \<Rightarrow> string \<Rightarrow> nat \<Rightarrow> (attestation_error, unit) result" where
  "validate_private_permissions d path i =
     (if ino_mode (inode_at d i) AND 0x3F \<noteq> 0
      then Inl (InsecurePrivateKeyPermissions (display_text path)) else Inr ())"

definition strip_suffix_char :: "char \<Rightarrow> string \<Rightarrow> string" where
  "strip_suffix_char c s = (if s \<noteq> [] \<and> last s = c then butlast s else s)"

definition key_text :: "string \<Rightarrow> string" where
  "key_text text = strip_suffix_char (CHR 0x0D) (strip_suffix_char (CHR 0x0A) text)"

definition read_key_file :: "device \<Rightarrow> disk \<Rightarrow> string \<Rightarrow> bool \<Rightarrow> (attestation_error, string) result" where
  "read_key_file v d path private =
     and_then (regular_file_metadata d path) (\<lambda>i.
     and_then (if private then validate_private_permissions d path i else Inr ()) (\<lambda>_.
     and_then (read_bytes v d path) (\<lambda>bytes.
     if \<not> valid_utf8 bytes then Inl (InvalidKey (display_text path))
     else (let text = key_text bytes
           in if length text \<noteq> 64 \<or> trim text \<noteq> text \<or> \<not> is_lower_hex text 64
              then Inl (InvalidKey (display_text path)) else Inr text))))"

definition load_private_key :: "device \<Rightarrow> disk \<Rightarrow> string \<Rightarrow> (attestation_error, string) result" where
  "load_private_key v d path =
     and_then (read_key_file v d path True) (\<lambda>text.
     ok_or (decode_array 32 text) (InvalidKey (display_text path)))"

definition load_public_key :: "crypto \<Rightarrow> device \<Rightarrow> disk \<Rightarrow> string \<Rightarrow> (attestation_error, string) result" where
  "load_public_key c v d path =
     and_then (read_key_file v d path False) (\<lambda>text.
     and_then (ok_or (decode_array 32 text) (InvalidKey (display_text path))) (\<lambda>key.
     if valid_public_key c key then Inr key else Inl (InvalidKey (display_text path))))"

section \<open>Writing\<close>

definition reject_output_alias :: "disk \<Rightarrow> string \<Rightarrow> string \<Rightarrow> (attestation_error, unit) result" where
  "reject_output_alias d output input =
     (if components output = components input
      then Inl (OutputAliasesInput (display_text output) (display_text input))
      else case lstat d (components output) of
             None \<Rightarrow> Inr ()
           | Some (LinkEntry _) \<Rightarrow> Inl (InvalidFile (display_text output))
           | Some e \<Rightarrow>
               and_then (regular_file_metadata d input) (\<lambda>i.
               if e = FileEntry i
               then Inl (OutputAliasesInput (display_text output) (display_text input)) else Inr ()))"

text \<open>The checks of \<open>write_or_check\<close> before the write.\<close>

definition writable_output :: "disk \<Rightarrow> string \<Rightarrow> bool \<Rightarrow> (attestation_error, unit) result" where
  "writable_output d path force =
     (case lstat d (components path) of
        Some (FileEntry _) \<Rightarrow> if \<not> force then Inl (OutputExists (display_text path)) else Inr ()
      | Some _ \<Rightarrow> Inl (InvalidFile (display_text path))
      | None \<Rightarrow>
          if lstat_missing d (components path) then Inr () else Inl (InvalidFile (display_text path)))"

definition check_output :: "device \<Rightarrow> disk \<Rightarrow> string \<Rightarrow> string \<Rightarrow> (attestation_error, unit) result" where
  "check_output v d path bytes =
     (case read_regular_file v d path of
        Inl _ \<Rightarrow> Inl (Drift (display_text path))
      | Inr actual \<Rightarrow> if actual \<noteq> bytes then Inl (Drift (display_text path)) else Inr ())"

definition write_or_check ::
    "device \<Rightarrow> string \<Rightarrow> string \<Rightarrow> bool \<Rightarrow> bool \<Rightarrow> disk \<Rightarrow> (attestation_error, unit) result \<times> disk" where
  "write_or_check v path bytes force check d =
     (if check then (check_output v d path bytes, d)
      else case writable_output d path force of
             Inl e \<Rightarrow> (Inl e, d)
           | Inr _ \<Rightarrow>
               (case fs_write (dv_write_fault v path) (components path) bytes d of
                  (ok, d') \<Rightarrow> (if ok then Inr () else Inl (WriteFile (display_text path)), d')))"

section \<open>Signing\<close>

definition valid_runner_byte :: "char \<Rightarrow> bool" where
  "valid_runner_byte c \<longleftrightarrow> is_ascii_alphanumeric c \<or> c \<in> set ''._:@/-''"

definition validate_runner_id :: "string \<Rightarrow> (attestation_error, unit) result" where
  "validate_runner_id value =
     (if value = [] \<or> 128 < length value \<or> \<not> list_all valid_runner_byte value
      then Inl InvalidRunnerId else Inr ())"

definition signing_payload :: "string \<Rightarrow> string \<Rightarrow> string \<Rightarrow> string \<Rightarrow> string" where
  "signing_payload runner_id evidence_sha256 public_key public_key_sha256 =
     signing_domain @
     concat (map (\<lambda>value. value @ [CHR 0x0A]) [runner_id, evidence_sha256, public_key, public_key_sha256])"

definition attest :: "crypto \<Rightarrow> string \<Rightarrow> string \<Rightarrow> string \<Rightarrow> evidence_attestation" where
  "attest c secret runner_id evidence =
     (let evidence_sha256 = attestation_sha256 c evidence;
          public_key = encode_hex (public_key_of c secret);
          public_key_sha256 = attestation_sha256 c (public_key_of c secret);
          message = signing_payload runner_id evidence_sha256 public_key public_key_sha256
      in \<lparr>ea_schema_version = attestation_schema_version, ea_algorithm = algorithm_name,
          ea_runner_id = runner_id, ea_evidence_sha256 = evidence_sha256,
          ea_public_key_sha256 = public_key_sha256, ea_public_key = public_key,
          ea_signature = encode_hex (sign_message c secret message)\<rparr>)"

text \<open>\<open>sign_and_write\<close> up to the call of \<open>write_or_check\<close>: the attestation and its text.\<close>

definition prepare_signature ::
    "crypto \<Rightarrow> device \<Rightarrow> sign_options \<Rightarrow> disk \<Rightarrow> (attestation_error, evidence_attestation \<times> string) result" where
  "prepare_signature c v options d =
     and_then (validate_runner_id (sg_runner_id options)) (\<lambda>_.
     and_then (reject_output_alias d (sg_output options) (sg_evidence options)) (\<lambda>_.
     and_then (reject_output_alias d (sg_output options) (sg_private_key options)) (\<lambda>_.
     and_then (read_regular_file v d (sg_evidence options)) (\<lambda>evidence.
     and_then (load_private_key v d (sg_private_key options)) (\<lambda>secret.
     let attestation = attest c secret (sg_runner_id options) evidence
     in and_then (ok_or (attestation_to_json c attestation) ParseAttestation) (\<lambda>json.
     Inr (attestation, json @ [CHR 0x0A])))))))"

definition sign_and_write ::
    "crypto \<Rightarrow> device \<Rightarrow> sign_options \<Rightarrow> disk \<Rightarrow> (attestation_error, sign_summary) result \<times> disk" where
  "sign_and_write c v options d =
     (case prepare_signature c v options d of
        Inl e \<Rightarrow> (Inl e, d)
      | Inr (attestation, json) \<Rightarrow>
          (case write_or_check v (sg_output options) json (sg_force options) (sg_check options) d of
             (Inl e, d') \<Rightarrow> (Inl e, d')
           | (Inr _, d') \<Rightarrow>
               (Inr \<lparr>ss_evidence_sha256 = ea_evidence_sha256 attestation,
                     ss_runner_id = sg_runner_id options,
                     ss_public_key_sha256 = ea_public_key_sha256 attestation,
                     ss_output = display_text (sg_output options), ss_checked = sg_check options\<rparr>, d')))"

definition prepare_public_key ::
    "crypto \<Rightarrow> device \<Rightarrow> public_key_options \<Rightarrow> disk \<Rightarrow> (attestation_error, string) result" where
  "prepare_public_key c v options d =
     and_then (reject_output_alias d (pk_output options) (pk_private_key options)) (\<lambda>_.
     and_then (load_private_key v d (pk_private_key options)) (\<lambda>secret.
     Inr (encode_hex (public_key_of c secret) @ [CHR 0x0A])))"

definition derive_public_key ::
    "crypto \<Rightarrow> device \<Rightarrow> public_key_options \<Rightarrow> disk \<Rightarrow> (attestation_error, string) result \<times> disk" where
  "derive_public_key c v options d =
     (case prepare_public_key c v options d of
        Inl e \<Rightarrow> (Inl e, d)
      | Inr output \<Rightarrow>
          (case write_or_check v (pk_output options) output (pk_force options) (pk_check options) d of
             (Inl e, d') \<Rightarrow> (Inl e, d')
           | (Inr _, d') \<Rightarrow> (Inr (trim_end output), d')))"

section \<open>Verifying\<close>

definition validate_attestation :: "evidence_attestation \<Rightarrow> (attestation_error, unit) result" where
  "validate_attestation a =
     (if ea_schema_version a \<noteq> attestation_schema_version
      then Inl (UnsupportedSchema (ea_schema_version a) attestation_schema_version)
      else if ea_algorithm a \<noteq> algorithm_name then Inl (UnsupportedAlgorithm (ea_algorithm a))
      else and_then (validate_runner_id (ea_runner_id a)) (\<lambda>_.
        if \<not> is_lower_hex (ea_evidence_sha256 a) 64 \<or> \<not> is_lower_hex (ea_public_key_sha256 a) 64 \<or>
           \<not> is_lower_hex (ea_public_key a) 64 \<or> \<not> is_lower_hex (ea_signature a) 128
        then Inl InvalidSignature else Inr ()))"

definition attestation_message :: "evidence_attestation \<Rightarrow> string" where
  "attestation_message a =
     signing_payload (ea_runner_id a) (ea_evidence_sha256 a) (ea_public_key a) (ea_public_key_sha256 a)"

definition check_signature ::
    "crypto \<Rightarrow> string \<Rightarrow> evidence_attestation \<Rightarrow> (attestation_error, verify_summary) result" where
  "check_signature c trusted a =
     and_then (ok_or (decode_array 64 (ea_signature a)) InvalidSignature) (\<lambda>signature.
     if \<not> verify_strict c trusted (attestation_message a) signature then Inl InvalidSignature
     else Inr \<lparr>vs_evidence_sha256 = ea_evidence_sha256 a, vs_runner_id = ea_runner_id a,
               vs_public_key_sha256 = ea_public_key_sha256 a, vs_signature_valid = True\<rparr>)"

definition verify ::
    "crypto \<Rightarrow> device \<Rightarrow> disk \<Rightarrow> string \<Rightarrow> string \<Rightarrow> string \<Rightarrow> (attestation_error, verify_summary) result" where
  "verify c v d evidence_path attestation_path trusted_path =
     and_then (read_regular_file v d evidence_path) (\<lambda>evidence.
     and_then (read_regular_file v d attestation_path) (\<lambda>attestation_bytes.
     and_then (ok_or (attestation_from_json c attestation_bytes) ParseAttestation) (\<lambda>a.
     and_then (validate_attestation a) (\<lambda>_.
     and_then (load_public_key c v d trusted_path) (\<lambda>trusted.
     and_then (ok_or (decode_array 32 (ea_public_key a)) (InvalidKey (display_text attestation_path))) (\<lambda>key.
     if trusted \<noteq> key then Inl UntrustedPublicKey
     else if attestation_sha256 c key \<noteq> ea_public_key_sha256 a then Inl PublicKeyDigestMismatch
     else if attestation_sha256 c evidence \<noteq> ea_evidence_sha256 a
     then Inl (EvidenceDigestMismatch (display_text evidence_path))
     else check_signature c trusted a))))))"

end
