(* ===== verification/AttestationCorrect.thy ===== *)
theory AttestationCorrect
  imports Attestation
begin

text \<open>
  What signing and verifying guarantee: hexadecimal and the signed text are injective, signing never
  touches its inputs, what was signed verifies, and what verifies was signed over this evidence.
\<close>

section \<open>The signed text\<close>

lemma line_injective:
  "a @ x # s = b @ x # t \<Longrightarrow> x \<notin> set a \<Longrightarrow> x \<notin> set b \<Longrightarrow> a = b \<and> s = t"
proof (induction a arbitrary: b)
  case Nil
  then show ?case by (cases b) auto
next
  case (Cons c a)
  then show ?case by (cases b) auto
qed

lemma runner_no_newline: "validate_runner_id r = Inr () \<Longrightarrow> CHR 0x0A \<notin> set r"
proof -
  have "\<not> valid_runner_byte (CHR 0x0A)" by code_simp
  then show "validate_runner_id r = Inr () \<Longrightarrow> CHR 0x0A \<notin> set r"
    by (auto simp: validate_runner_id_def list_all_iff split: if_splits)
qed

lemma hex_no_newline: "is_lower_hex s n \<Longrightarrow> CHR 0x0A \<notin> set s"
proof -
  have "\<not> (is_ascii_digit (CHR 0x0A) \<or> (CHR ''a'' \<le> CHR 0x0A \<and> CHR 0x0A \<le> CHR ''f''))" by code_simp
  then show "is_lower_hex s n \<Longrightarrow> CHR 0x0A \<notin> set s"
    unfolding is_lower_hex_def list_all_iff by blast
qed

lemma signing_payload_injective:
  assumes "signing_payload r e k h = signing_payload r' e' k' h'"
    and "validate_runner_id r = Inr ()" and "validate_runner_id r' = Inr ()"
    and "is_lower_hex e m" and "is_lower_hex e' m'" and "is_lower_hex k n" and "is_lower_hex k' n'"
  shows "r = r' \<and> e = e' \<and> k = k' \<and> h = h'"
proof -
  from assms(1) have 1: "r @ CHR 0x0A # e @ CHR 0x0A # k @ CHR 0x0A # h @ [CHR 0x0A] =
      r' @ CHR 0x0A # e' @ CHR 0x0A # k' @ CHR 0x0A # h' @ [CHR 0x0A]"
    by (simp add: signing_payload_def)
  from line_injective [OF this] assms(2,3) runner_no_newline have 2: "r = r'"
    "e @ CHR 0x0A # k @ CHR 0x0A # h @ [CHR 0x0A] = e' @ CHR 0x0A # k' @ CHR 0x0A # h' @ [CHR 0x0A]"
    by blast+
  from line_injective [OF 2(2)] assms(4,5) hex_no_newline have 3: "e = e'"
    "k @ CHR 0x0A # h @ [CHR 0x0A] = k' @ CHR 0x0A # h' @ [CHR 0x0A]"
    by blast+
  from line_injective [OF 3(2)] assms(6,7) hex_no_newline have "k = k'"
    "h @ [CHR 0x0A] = h' @ [CHR 0x0A]"
    by blast+
  with 2(1) 3(1) show ?thesis by simp
qed

section \<open>What the commands leave alone\<close>

lemma regular_file_metadata_Inr:
  "regular_file_metadata d path = Inr i \<longleftrightarrow> lstat d (components path) = Some (FileEntry i)"
  by (auto simp: regular_file_metadata_def split: option.splits disk_entry.splits)

lemma read_regular_file_Inr:
  "read_regular_file v d path = Inr bytes \<longleftrightarrow>
     (\<exists>i. lstat d (components path) = Some (FileEntry i) \<and> \<not> dv_read_fails v path \<and>
          bytes = ino_bytes (inode_at d i))"
  by (auto simp: read_regular_file_def and_then_Inr_iff regular_file_metadata_Inr read_bytes_def
      ok_or_Inr_iff lstat_file_reads)

lemma writable_output_Inr:
  "writable_output d path force = Inr () \<Longrightarrow>
   (\<exists>i. lstat d (components path) = Some (FileEntry i)) \<or>
   (lstat d (components path) = None \<and> lstat_missing d (components path))"
  by (auto simp: writable_output_def split: option.splits disk_entry.splits if_splits)

text \<open>The named files keep their inode, its bytes and its mode.\<close>

definition untouched :: "disk \<Rightarrow> disk \<Rightarrow> string \<Rightarrow> bool" where
  "untouched d d' path \<longleftrightarrow>
     (\<forall>i. lstat d (components path) = Some (FileEntry i) \<longrightarrow>
        lstat d' (components path) = Some (FileEntry i) \<and> inode_at d' i = inode_at d i)"

lemma untouched_refl [simp]: "untouched d d path"
  by (simp add: untouched_def)

lemma untouched_trans: "untouched d d1 path \<Longrightarrow> untouched d1 d2 path \<Longrightarrow> untouched d d2 path"
  by (simp add: untouched_def)

lemma write_or_check_untouched:
  assumes "\<And>i. lstat d (components path) = Some (FileEntry i) \<Longrightarrow>
      lstat d (components output) \<noteq> Some (FileEntry i)"
  shows "untouched d (snd (write_or_check v output bytes force check d)) path"
proof (cases "check \<or> (\<exists>e. writable_output d output force = Inl e)")
  case True
  then show ?thesis by (auto simp: write_or_check_def)
next
  case False
  then have w: "writable_output d output force = Inr ()"
    by (cases "writable_output d output force") auto
  have "snd (write_or_check v output bytes force check d) =
      snd (fs_write (dv_write_fault v output) (components output) bytes d)"
    using False w by (simp add: write_or_check_def split: prod.split)
  then show ?thesis
    using fs_write_other_file [OF writable_output_Inr [OF w]] assms by (simp add: untouched_def)
qed

lemma reject_output_alias_distinct:
  assumes "reject_output_alias d output input = Inr ()"
    and "lstat d (components input) = Some (FileEntry i)"
  shows "lstat d (components output) \<noteq> Some (FileEntry i)"
  using assms
  by (auto simp: reject_output_alias_def regular_file_metadata_def split: if_splits)

lemma prepare_signature_Inr:
  assumes "prepare_signature c v options d = Inr (a, json)"
  obtains evidence secret json0 where "validate_runner_id (sg_runner_id options) = Inr ()"
    and "reject_output_alias d (sg_output options) (sg_evidence options) = Inr ()"
    and "reject_output_alias d (sg_output options) (sg_private_key options) = Inr ()"
    and "read_regular_file v d (sg_evidence options) = Inr evidence"
    and "load_private_key v d (sg_private_key options) = Inr secret"
    and "a = attest c secret (sg_runner_id options) evidence"
    and "attestation_to_json c a = Some json0" and "json = json0 @ [CHR 0x0A]"
  using assms unfolding prepare_signature_def and_then_Inr_iff ok_or_Inr_iff Let_def
  by (elim exE conjE) (rule that, auto)

lemma sign_and_write_Inr:
  assumes "sign_and_write c v options d = (Inr summary, d')"
  obtains a json where "prepare_signature c v options d = Inr (a, json)"
    and "write_or_check v (sg_output options) json (sg_force options) (sg_check options) d = (Inr (), d')"
    and "ss_evidence_sha256 summary = ea_evidence_sha256 a" and "ss_runner_id summary = sg_runner_id options"
    and "ss_public_key_sha256 summary = ea_public_key_sha256 a"
  using assms unfolding sign_and_write_def by (auto split: sum.splits prod.splits)

text \<open>An input that the output is compared with survives the write.\<close>

lemma checked_input_untouched:
  assumes "reject_output_alias d output input = Inr ()"
  shows "untouched d (snd (write_or_check v output bytes force check d)) input"
  by (rule write_or_check_untouched) (rule reject_output_alias_distinct [OF assms])

text \<open>C11: Whatever it is called with and however it ends, signing leaves the evidence and the private key as
  they are, also when the output is another name of one of these files, or the write is interrupted; when
  it only checks, it leaves the whole disk as it is.\<close>

theorem sign_preserves_inputs:
  "untouched d (snd (sign_and_write c v options d)) (sg_evidence options) \<and>
   untouched d (snd (sign_and_write c v options d)) (sg_private_key options) \<and>
   (sg_check options \<longrightarrow> snd (sign_and_write c v options d) = d)"
proof (cases "prepare_signature c v options d")
  case (Inl e)
  then show ?thesis by (simp add: sign_and_write_def)
next
  case (Inr aj)
  obtain a json where aj: "aj = (a, json)" by (cases aj)
  let ?w = "write_or_check v (sg_output options) json (sg_force options) (sg_check options) d"
  have w: "snd (sign_and_write c v options d) = snd ?w"
    by (simp add: sign_and_write_def Inr aj split: sum.split prod.split)
  obtain "reject_output_alias d (sg_output options) (sg_evidence options) = Inr ()"
    "reject_output_alias d (sg_output options) (sg_private_key options) = Inr ()"
    using prepare_signature_Inr [OF Inr [unfolded aj]] by blast
  then have "untouched d (snd ?w) (sg_evidence options)" "untouched d (snd ?w) (sg_private_key options)"
    by (blast intro: checked_input_untouched)+
  moreover have "snd ?w = d" if "sg_check options" using that by (simp add: write_or_check_def)
  ultimately show ?thesis by (simp add: w)
qed

section \<open>Round trip\<close>

text \<open>What the primitives promise.\<close>

definition crypto_laws :: "crypto \<Rightarrow> bool" where
  "crypto_laws c \<longleftrightarrow>
     (\<forall>k. length k = 32 \<longrightarrow> length (public_key_of c k) = 32 \<and> valid_public_key c (public_key_of c k)) \<and>
     (\<forall>k m. length k = 32 \<longrightarrow>
        length (sign_message c k m) = 64 \<and> verify_strict c (public_key_of c k) m (sign_message c k m)) \<and>
     (\<forall>m. length (sha256_digest c m) = 32) \<and>
     (\<forall>a text. attestation_to_json c a = Some text \<longrightarrow> attestation_from_json c (text @ [CHR 0x0A]) = Some a)"

lemma write_or_check_Inr:
  assumes "write_or_check v path bytes force check d = (Inr (), d')"
  shows "(\<exists>i. lstat d' (components path) = Some (FileEntry i) \<and> ino_bytes (inode_at d' i) = bytes)"
proof (cases check)
  case True
  then show ?thesis
    using assms
    by (auto simp: write_or_check_def check_output_def read_regular_file_Inr split: sum.splits if_splits)
next
  case False
  then obtain ok where ok: "writable_output d path force = Inr ()"
    "fs_write (dv_write_fault v path) (components path) bytes d = (ok, d')" "ok"
    using assms by (auto simp: write_or_check_def split: sum.splits prod.splits if_splits)
  from fs_write_names_file [OF writable_output_Inr [OF ok(1)], of "dv_write_fault v path" bytes] ok(2,3)
  obtain i where i: "lstat d' (components path) = Some (FileEntry i)" by auto
  have "read_file (tree d') (components path) = Some bytes"
    using fs_write_reads [of "dv_write_fault v path" "components path" bytes d] ok(2,3) by simp
  then show ?thesis using lstat_file_reads [OF i] i by simp
qed

lemma derive_public_key_Inr:
  assumes "derive_public_key c v options d = (Inr line, d')"
  obtains secret where "load_private_key v d (pk_private_key options) = Inr secret"
    and "write_or_check v (pk_output options) (encode_hex (public_key_of c secret) @ [CHR 0x0A])
      (pk_force options) (pk_check options) d = (Inr (), d')"
    and "reject_output_alias d (pk_output options) (pk_private_key options) = Inr ()"
  using assms unfolding derive_public_key_def prepare_public_key_def
  by (auto simp: and_then_Inr_iff split: sum.splits prod.splits)

lemma load_private_key_untouched:
  assumes "untouched d d' path" and "load_private_key v d path = Inr secret"
  shows "load_private_key v d' path = Inr secret"
proof -
  from assms(2) obtain i where i: "lstat d (components path) = Some (FileEntry i)"
    by (auto simp: load_private_key_def read_key_file_def and_then_Inr_iff regular_file_metadata_Inr)
  with assms(1) have i': "lstat d' (components path) = Some (FileEntry i)" "inode_at d' i = inode_at d i"
    by (simp_all add: untouched_def)
  have "load_private_key v d' path = load_private_key v d path"
    using i i' by (simp add: load_private_key_def read_key_file_def regular_file_metadata_def
        validate_private_permissions_def read_bytes_def lstat_file_reads)
  then show ?thesis using assms(2) by simp
qed

lemma load_private_key_length: "load_private_key v d path = Inr secret \<Longrightarrow> length secret = 32"
proof -
  assume "load_private_key v d path = Inr secret"
  then obtain key where "decode_array 32 key = Some secret"
    by (auto simp: load_private_key_def and_then_Inr_iff ok_or_Inr_iff)
  then show "length secret = 32"
    using encode_decode_array [of 32 key secret] length_encode_hex [of secret]
    by (auto simp: decode_array_def split: if_splits)
qed

section \<open>Key files\<close>

lemma utf8_ascii: "\<forall>x\<in>set s. byte_of x < 0x80 \<Longrightarrow> valid_utf8 s"
  by (induction s) (simp_all add: utf8_tail_def)

text \<open>White space never starts or ends with a byte from \<open>0\<close> up.\<close>

lemma whitespace_bytes:
  "\<forall>w\<in>set whitespace. byte_of (hd w) < 0x30 \<or> 0x80 \<le> byte_of (hd w)"
  "\<forall>w\<in>set (map rev whitespace). byte_of (hd w) < 0x30 \<or> 0x80 \<le> byte_of (hd w)"
  by (simp_all add: whitespace_def byte_of_def)

lemma strip_any_dark:
  assumes "\<forall>w\<in>set ws. byte_of (hd w) < 0x30 \<or> 0x80 \<le> byte_of (hd w)"
    and "\<forall>x\<in>set s. 0x30 \<le> byte_of x \<and> byte_of x < 0x80"
  shows "strip_any ws s = s"
proof -
  have "\<not> (w \<noteq> [] \<and> starts_with w s)" if "w \<in> set ws" for w
  proof
    assume w: "w \<noteq> [] \<and> starts_with w s"
    then obtain x w' r where "w = x # w'" "s = x # w' @ r" by (cases w) (auto simp: starts_with_iff)
    then show False using assms that by fastforce
  qed
  then have "find (\<lambda>w. w \<noteq> [] \<and> starts_with w s) ws = None" by (simp add: find_None_iff)
  then show ?thesis by (subst strip_any.simps) simp
qed

lemma trim_lower_hex: "is_lower_hex s n \<Longrightarrow> trim s = s"
proof -
  assume s: "is_lower_hex s n"
  have "strip_any whitespace s = s" "strip_any (map rev whitespace) (rev s) = rev s"
    by (rule strip_any_dark, rule whitespace_bytes, use lower_hex_ascii [OF s] in force)+
  then show "trim s = s" by (simp add: trim_def trim_start_def trim_end_def)
qed

lemma key_text_line: "is_lower_hex s n \<Longrightarrow> key_text (s @ [CHR 0x0A]) = s"
proof -
  assume s: "is_lower_hex s n"
  have "CHR 0x0D \<notin> set s" using lower_hex_ascii [OF s, of "CHR 0x0D"] by (auto simp: byte_of_def)
  then have "s \<noteq> [] \<Longrightarrow> last s \<noteq> CHR 0x0D" by (metis last_in_set)
  then show ?thesis by (auto simp: key_text_def strip_suffix_char_def)
qed

text \<open>A public key file that \<open>derive_public_key\<close> wrote is loaded as the key.\<close>

lemma load_public_key_written:
  assumes "lstat d (components path) = Some (FileEntry i)"
    and "ino_bytes (inode_at d i) = encode_hex key @ [CHR 0x0A]" and "\<not> dv_read_fails v path"
    and "length key = 32" and "valid_public_key c key"
  shows "load_public_key c v d path = Inr key"
proof -
  have hex: "is_lower_hex (encode_hex key) 64" using assms(4) by (intro is_lower_hex_encode) simp
  have "valid_utf8 (encode_hex key @ [CHR 0x0A])"
    by (rule utf8_ascii) (use lower_hex_ascii [OF hex] in \<open>auto simp: byte_of_def\<close>)
  moreover have "read_bytes v d path = Inr (encode_hex key @ [CHR 0x0A])"
    using assms(1-3) by (simp add: read_bytes_def lstat_file_reads)
  moreover have "regular_file_metadata d path = Inr i" using assms(1) by (simp add: regular_file_metadata_Inr)
  ultimately have "read_key_file v d path False = Inr (encode_hex key)"
    using hex assms(4) by (simp add: read_key_file_def key_text_line trim_lower_hex)
  then show ?thesis using assms(4,5) by (simp add: load_public_key_def decode_array_encode)
qed

lemma read_regular_file_untouched:
  "untouched d d' path \<Longrightarrow> read_regular_file v d path = Inr bytes \<Longrightarrow> read_regular_file v d' path = Inr bytes"
  by (auto simp: read_regular_file_Inr untouched_def)

lemma write_or_check_extends: "extends d (snd (write_or_check v path bytes force check d))"
proof -
  have "snd (write_or_check v path bytes force check d) \<in>
      {d, snd (fs_write (dv_write_fault v path) (components path) bytes d)}"
    by (auto simp: write_or_check_def split: sum.split prod.split)
  then show ?thesis using fs_write_extends by (metis empty_iff extends_refl insert_iff)
qed

lemma attest_simps [simp]:
  "ea_schema_version (attest c k r e) = attestation_schema_version"
  "ea_algorithm (attest c k r e) = algorithm_name" "ea_runner_id (attest c k r e) = r"
  "ea_evidence_sha256 (attest c k r e) = attestation_sha256 c e"
  "ea_public_key_sha256 (attest c k r e) = attestation_sha256 c (public_key_of c k)"
  "ea_public_key (attest c k r e) = encode_hex (public_key_of c k)"
  "ea_signature (attest c k r e) = encode_hex (sign_message c k (attestation_message (attest c k r e)))"
  by (simp_all add: attest_def attestation_message_def Let_def)

lemma validate_attest:
  assumes "crypto_laws c" and "length k = 32" and "validate_runner_id r = Inr ()"
  shows "validate_attestation (attest c k r e) = Inr ()"
  using assms
  by (simp add: validate_attestation_def attestation_sha256_def is_lower_hex_encode crypto_laws_def)

lemma check_signature_attest:
  assumes "crypto_laws c" and "length k = 32"
  shows "check_signature c (public_key_of c k) (attest c k r e) =
    Inr \<lparr>vs_evidence_sha256 = attestation_sha256 c e, vs_runner_id = r,
         vs_public_key_sha256 = attestation_sha256 c (public_key_of c k), vs_signature_valid = True\<rparr>"
  using assms by (simp add: check_signature_def decode_array_encode crypto_laws_def)

lemma verify_attested:
  assumes "crypto_laws c" and "length secret = 32" and "validate_runner_id runner = Inr ()"
    and "read_regular_file v d evidence_path = Inr evidence"
    and "attestation_to_json c (attest c secret runner evidence) = Some json"
    and "read_regular_file v d attestation_path = Inr (json @ [CHR 0x0A])"
    and "load_public_key c v d trusted_path = Inr (public_key_of c secret)"
  shows "verify c v d evidence_path attestation_path trusted_path =
    Inr \<lparr>vs_evidence_sha256 = attestation_sha256 c evidence, vs_runner_id = runner,
         vs_public_key_sha256 = attestation_sha256 c (public_key_of c secret), vs_signature_valid = True\<rparr>"
proof -
  have "attestation_from_json c (json @ [CHR 0x0A]) = Some (attest c secret runner evidence)"
    using assms(1,5) by (simp add: crypto_laws_def)
  moreover have "decode_array 32 (encode_hex (public_key_of c secret)) = Some (public_key_of c secret)"
    using assms(1,2) by (simp add: decode_array_encode crypto_laws_def)
  ultimately show ?thesis
    using validate_attest [OF assms(1-3)] check_signature_attest [OF assms(1,2)]
    by (simp add: verify_def assms(4,6,7) ok_or_def)
qed

text \<open>C13: What was signed verifies: after the public key of the private key was written to one file and the
  attestation of the evidence to another, or both were found there, verifying the evidence with them
  succeeds and reports the digests and the runner that signing reported.\<close>

theorem attestation_roundtrip:
  assumes "crypto_laws c"
    and "derive_public_key c v key d = (Inr line, d1)"
    and "sign_and_write c v options d1 = (Inr summary, d2)"
    and "pk_private_key key = sg_private_key options"
    and "lstat d2 (components (pk_output key)) \<noteq> lstat d2 (components (sg_output options))"
    and "\<not> dv_read_fails v (sg_output options)" and "\<not> dv_read_fails v (pk_output key)"
  shows "verify c v d2 (sg_evidence options) (sg_output options) (pk_output key) =
    Inr \<lparr>vs_evidence_sha256 = ss_evidence_sha256 summary, vs_runner_id = ss_runner_id summary,
         vs_public_key_sha256 = ss_public_key_sha256 summary, vs_signature_valid = True\<rparr>"
proof -
  obtain secret where key: "load_private_key v d (pk_private_key key) = Inr secret"
    "write_or_check v (pk_output key) (encode_hex (public_key_of c secret) @ [CHR 0x0A])
      (pk_force key) (pk_check key) d = (Inr (), d1)"
    "reject_output_alias d (pk_output key) (pk_private_key key) = Inr ()"
    using assms(2) by (rule derive_public_key_Inr)
  obtain a json where sign: "prepare_signature c v options d1 = Inr (a, json)"
    "write_or_check v (sg_output options) json (sg_force options) (sg_check options) d1 = (Inr (), d2)"
    "ss_evidence_sha256 summary = ea_evidence_sha256 a" "ss_runner_id summary = sg_runner_id options"
    "ss_public_key_sha256 summary = ea_public_key_sha256 a"
    using assms(3) by (rule sign_and_write_Inr)
  obtain evidence secret' json0 where a: "validate_runner_id (sg_runner_id options) = Inr ()"
    "reject_output_alias d1 (sg_output options) (sg_evidence options) = Inr ()"
    "read_regular_file v d1 (sg_evidence options) = Inr evidence"
    "load_private_key v d1 (sg_private_key options) = Inr secret'"
    "a = attest c secret' (sg_runner_id options) evidence"
    "attestation_to_json c a = Some json0" "json = json0 @ [CHR 0x0A]"
    using prepare_signature_Inr [OF sign(1)] by metis
  have "untouched d d1 (pk_private_key key)"
    using checked_input_untouched [OF key(3), of v _ "pk_force key" "pk_check key"] key(2) by (metis snd_conv)
  then have secret: "secret' = secret"
    using load_private_key_untouched key(1) a(4) assms(4) by fastforce
  have length: "length secret = 32" by (rule load_private_key_length [OF key(1)])
  obtain i where i: "lstat d1 (components (pk_output key)) = Some (FileEntry i)"
    "ino_bytes (inode_at d1 i) = encode_hex (public_key_of c secret) @ [CHR 0x0A]"
    using write_or_check_Inr [OF key(2)] by blast
  have extends: "extends d1 d2" using write_or_check_extends sign(2) by (metis snd_conv)
  have "untouched d1 (snd (write_or_check v (sg_output options) json (sg_force options)
      (sg_check options) d1)) (pk_output key)"
    by (rule write_or_check_untouched) (use lstat_extends [OF extends] assms(5) in metis)
  then have public: "lstat d2 (components (pk_output key)) = Some (FileEntry i)"
    "ino_bytes (inode_at d2 i) = encode_hex (public_key_of c secret) @ [CHR 0x0A]"
    using i sign(2) by (simp_all add: untouched_def)
  have trusted: "load_public_key c v d2 (pk_output key) = Inr (public_key_of c secret)"
    by (rule load_public_key_written [OF public assms(7)]) (use assms(1) length in \<open>simp_all add: crypto_laws_def\<close>)
  have "untouched d1 d2 (sg_evidence options)"
    using checked_input_untouched [OF a(2)] sign(2) by (metis snd_conv)
  then have evidence: "read_regular_file v d2 (sg_evidence options) = Inr evidence"
    using a(3) by (rule read_regular_file_untouched)
  have signed: "read_regular_file v d2 (sg_output options) = Inr (json0 @ [CHR 0x0A])"
    using write_or_check_Inr [OF sign(2)] assms(6) a(7) by (auto simp: read_regular_file_Inr)
  show ?thesis
    using verify_attested [OF assms(1) length a(1) evidence _ signed trusted] a(5,6) sign(3-5)
    by (simp add: secret)
qed

text \<open>Primitives that keep the promises, and a disk with an evidence file and a private key.\<close>

definition sample_to_json :: "evidence_attestation \<Rightarrow> string option" where
  "sample_to_json a =
     (let fields = [ea_algorithm a, ea_runner_id a, ea_evidence_sha256 a, ea_public_key_sha256 a,
                    ea_public_key a, ea_signature a]
      in if ea_schema_version a = 1 \<and> list_all (\<lambda>f. CHR 0x0A \<notin> set f) fields
         then Some (join [CHR 0x0A] fields) else None)"

definition sample_from_json :: "string \<Rightarrow> evidence_attestation option" where
  "sample_from_json text =
     (case split_on (CHR 0x0A) (butlast text) of
        [algorithm, runner, evidence, key_digest, key, signature] \<Rightarrow>
          Some \<lparr>ea_schema_version = 1, ea_algorithm = algorithm, ea_runner_id = runner,
                ea_evidence_sha256 = evidence, ea_public_key_sha256 = key_digest,
                ea_public_key = key, ea_signature = signature\<rparr>
      | _ \<Rightarrow> None)"

definition sample_crypto :: crypto where
  "sample_crypto =
     \<lparr>public_key_of = (\<lambda>k. k), valid_public_key = (\<lambda>k. length k = 32),
      sign_message = (\<lambda>k m. take 64 (rev m @ replicate 64 (CHR ''x''))),
      verify_strict = (\<lambda>k m s. s = take 64 (rev m @ replicate 64 (CHR ''x''))),
      sha256_digest = (\<lambda>m. take 32 (m @ replicate 32 (CHR ''x''))),
      attestation_to_json = sample_to_json, attestation_from_json = sample_from_json\<rparr>"

definition sample_device :: device where
  "sample_device = \<lparr>dv_read_fails = (\<lambda>_. False), dv_write_fault = (\<lambda>_. NoFault)\<rparr>"

definition sample_disk :: disk where
  "sample_disk =
     \<lparr>dk_entries = [([''w''], DirEntry), ([''w'', ''run.json''], FileEntry 0), ([''w'', ''key''], FileEntry 1)],
      dk_inodes = [(0, \<lparr>ino_bytes = ''{}'', ino_mode = 0x1A4\<rparr>),
                   (1, \<lparr>ino_bytes = replicate 64 (CHR ''7'') @ [CHR 0x0A], ino_mode = 0x180\<rparr>)],
      dk_cwd = [''w''], dk_new_mode = 0x1A4\<rparr>"

definition sample_key_options :: public_key_options where
  "sample_key_options =
     \<lparr>pk_private_key = ''key'', pk_output = ''key.pub'', pk_force = False, pk_check = False\<rparr>"

definition sample_sign_options :: sign_options where
  "sample_sign_options =
     \<lparr>sg_evidence = ''run.json'', sg_private_key = ''key'', sg_output = ''run.sig'', sg_runner_id = ''ci-1'',
      sg_force = False, sg_check = False\<rparr>"

lemma sample_laws: "crypto_laws sample_crypto"
proof -
  have json: "sample_from_json (json @ [CHR 0x0A]) = Some a" if t: "sample_to_json a = Some json" for a json
  proof -
    let ?fields = "[ea_algorithm a, ea_runner_id a, ea_evidence_sha256 a, ea_public_key_sha256 a,
      ea_public_key a, ea_signature a]"
    have "json = join [CHR 0x0A] ?fields" "ea_schema_version a = 1" "\<forall>f\<in>set ?fields. CHR 0x0A \<notin> set f"
      using t by (auto simp: sample_to_json_def Let_def split: if_splits)
    moreover from this(3) have "split_on (CHR 0x0A) (join [CHR 0x0A] ?fields) = ?fields"
      by (intro split_on_join) auto
    ultimately show ?thesis unfolding sample_from_json_def butlast_snoc by simp
  qed
  then show ?thesis by (auto simp: crypto_laws_def sample_crypto_def min_def)
qed

lemma sample_signs:
  "case derive_public_key sample_crypto sample_device sample_key_options sample_disk of
     (Inr _, d1) \<Rightarrow>
       (case sign_and_write sample_crypto sample_device sample_sign_options d1 of
          (Inr _, d2) \<Rightarrow> lstat d2 (components ''key.pub'') \<noteq> lstat d2 (components ''run.sig'')
        | _ \<Rightarrow> False)
   | _ \<Rightarrow> False"
  by code_simp

lemma attestation_roundtrip_witness:
  "\<exists>d2 (summary :: sign_summary). verify sample_crypto sample_device d2 ''run.json'' ''run.sig'' ''key.pub'' =
     Inr \<lparr>vs_evidence_sha256 = ss_evidence_sha256 summary, vs_runner_id = ss_runner_id summary,
          vs_public_key_sha256 = ss_public_key_sha256 summary, vs_signature_valid = True\<rparr> \<and>
     snd (sign_and_write sample_crypto sample_device sample_sign_options
       (snd (derive_public_key sample_crypto sample_device sample_key_options sample_disk))) = d2"
proof -
  obtain line d1 summary d2
    where 1: "derive_public_key sample_crypto sample_device sample_key_options sample_disk = (Inr line, d1)"
      and 2: "sign_and_write sample_crypto sample_device sample_sign_options d1 = (Inr summary, d2)"
      and 3: "lstat d2 (components ''key.pub'') \<noteq> lstat d2 (components ''run.sig'')"
    using sample_signs by (auto split: prod.splits sum.splits)
  have "verify sample_crypto sample_device d2 ''run.json'' ''run.sig'' ''key.pub'' =
     Inr \<lparr>vs_evidence_sha256 = ss_evidence_sha256 summary, vs_runner_id = ss_runner_id summary,
          vs_public_key_sha256 = ss_public_key_sha256 summary, vs_signature_valid = True\<rparr>"
    using attestation_roundtrip [OF sample_laws 1 2] 3
    by (simp add: sample_key_options_def sample_sign_options_def sample_device_def)
  moreover have "snd (sign_and_write sample_crypto sample_device sample_sign_options
       (snd (derive_public_key sample_crypto sample_device sample_key_options sample_disk))) = d2"
    using 1 2 by simp
  ultimately show ?thesis by blast
qed

text \<open>C12: What verifies was signed: when verification accepts, the attestation at the path has a signature
  that the trusted key verifies, and the signed text determines the runner and the digest that the summary
  reports, and the digest is that of the evidence file; no other runner and digest have the same text.\<close>

theorem verify_sound:
  assumes "verify c v d evidence_path attestation_path trusted_path = Inr summary"
  shows "\<exists>evidence bytes a key signature.
    read_regular_file v d evidence_path = Inr evidence \<and>
    read_regular_file v d attestation_path = Inr bytes \<and> attestation_from_json c bytes = Some a \<and>
    load_public_key c v d trusted_path = Inr key \<and> encode_hex signature = ea_signature a \<and>
    verify_strict c key
      (signing_payload (vs_runner_id summary) (attestation_sha256 c evidence) (encode_hex key)
         (attestation_sha256 c key)) signature \<and>
    vs_evidence_sha256 summary = attestation_sha256 c evidence \<and>
    (\<forall>runner digest.
       signing_payload runner digest (encode_hex key) (attestation_sha256 c key) =
         signing_payload (vs_runner_id summary) (attestation_sha256 c evidence) (encode_hex key)
           (attestation_sha256 c key) \<longrightarrow>
       validate_runner_id runner = Inr () \<longrightarrow> is_lower_hex digest 64 \<longrightarrow>
       runner = vs_runner_id summary \<and> digest = attestation_sha256 c evidence)"
proof -
  from assms obtain evidence bytes a key key' where v:
    "read_regular_file v d evidence_path = Inr evidence" "read_regular_file v d attestation_path = Inr bytes"
    "attestation_from_json c bytes = Some a" "validate_attestation a = Inr ()"
    "load_public_key c v d trusted_path = Inr key" "decode_array 32 (ea_public_key a) = Some key'"
    "key = key'" "attestation_sha256 c key' = ea_public_key_sha256 a"
    "attestation_sha256 c evidence = ea_evidence_sha256 a" "check_signature c key a = Inr summary"
    unfolding verify_def and_then_Inr_iff ok_or_Inr_iff by (auto split: if_splits)
  from v(10) obtain signature where s: "decode_array 64 (ea_signature a) = Some signature"
    "verify_strict c key (attestation_message a) signature"
    "summary = \<lparr>vs_evidence_sha256 = ea_evidence_sha256 a, vs_runner_id = ea_runner_id a,
       vs_public_key_sha256 = ea_public_key_sha256 a, vs_signature_valid = True\<rparr>"
    unfolding check_signature_def and_then_Inr_iff ok_or_Inr_iff by (auto split: if_splits)
  have k: "encode_hex key = ea_public_key a" using encode_decode_array [OF v(6)] v(7) by simp
  have valid: "validate_runner_id (ea_runner_id a) = Inr ()" "is_lower_hex (ea_evidence_sha256 a) 64"
    "is_lower_hex (ea_public_key a) 64"
    using v(4) by (auto simp: validate_attestation_def and_then_Inr_iff split: if_splits)
  have message: "attestation_message a =
      signing_payload (vs_runner_id summary) (attestation_sha256 c evidence) (encode_hex key)
        (attestation_sha256 c key)"
    using v(7-9) k by (simp add: attestation_message_def s(3))
  have "runner = vs_runner_id summary \<and> digest = attestation_sha256 c evidence"
    if "signing_payload runner digest (encode_hex key) (attestation_sha256 c key) =
        signing_payload (vs_runner_id summary) (attestation_sha256 c evidence) (encode_hex key)
          (attestation_sha256 c key)"
      and "validate_runner_id runner = Inr ()" and "is_lower_hex digest 64" for runner digest
    using signing_payload_injective [OF that(1,2), of 64 64 64 64] that(3) valid v(9) k
    by (simp add: s(3))
  then show ?thesis
    using v(1-3,5,9) s(2) encode_decode_array [OF s(1)] message by (metis s(3) verify_summary.select_convs(1))
qed

lemma sign_preserves_inputs_witness:
  "snd (sign_and_write sample_crypto sample_device (sample_sign_options\<lparr>sg_check := True\<rparr>) sample_disk) =
     sample_disk"
  using sign_preserves_inputs [of sample_disk sample_crypto sample_device
      "sample_sign_options\<lparr>sg_check := True\<rparr>"] by simp

text \<open>An attestation and the public key, as signing leaves them.\<close>

definition sample_attestation :: evidence_attestation where
  "sample_attestation = attest sample_crypto (replicate 32 (CHR ''w'')) ''ci-1'' ''{}''"

definition sample_signed_disk :: disk where
  "sample_signed_disk =
     \<lparr>dk_entries = [([''w''], DirEntry), ([''w'', ''run.json''], FileEntry 0), ([''w'', ''run.sig''], FileEntry 1),
                    ([''w'', ''key.pub''], FileEntry 2)],
      dk_inodes =
        [(0, \<lparr>ino_bytes = ''{}'', ino_mode = 0x1A4\<rparr>),
         (1, \<lparr>ino_bytes = the (sample_to_json sample_attestation) @ [CHR 0x0A], ino_mode = 0x1A4\<rparr>),
         (2, \<lparr>ino_bytes = encode_hex (replicate 32 (CHR ''w'')) @ [CHR 0x0A], ino_mode = 0x1A4\<rparr>)],
      dk_cwd = [''w''], dk_new_mode = 0x1A4\<rparr>"

lemma sample_signed_files:
  "lstat sample_signed_disk (components ''run.json'') = Some (FileEntry 0)"
  "lstat sample_signed_disk (components ''run.sig'') = Some (FileEntry 1)"
  "lstat sample_signed_disk (components ''key.pub'') = Some (FileEntry 2)"
  by code_simp+

lemma sample_to_json_attestation: "\<exists>json. sample_to_json sample_attestation = Some json"
proof -
  have "validate_runner_id ''ci-1'' = Inr ()" by code_simp
  then have "validate_attestation sample_attestation = Inr ()"
    unfolding sample_attestation_def by (intro validate_attest [OF sample_laws]) simp_all
  then have "CHR 0x0A \<notin> set (ea_runner_id sample_attestation)"
    "CHR 0x0A \<notin> set (ea_evidence_sha256 sample_attestation)"
    "CHR 0x0A \<notin> set (ea_public_key_sha256 sample_attestation)"
    "CHR 0x0A \<notin> set (ea_public_key sample_attestation)" "CHR 0x0A \<notin> set (ea_signature sample_attestation)"
    by (auto simp: validate_attestation_def and_then_Inr_iff split: if_splits
        dest: runner_no_newline hex_no_newline)
  moreover have "ea_schema_version sample_attestation = 1" "ea_algorithm sample_attestation = ''ed25519''"
    by (simp_all add: sample_attestation_def attestation_schema_version_def algorithm_name_def)
  ultimately show ?thesis by (simp add: sample_to_json_def)
qed

lemma sample_verifies:
  "\<exists>summary. verify sample_crypto sample_device sample_signed_disk ''run.json'' ''run.sig'' ''key.pub'' =
     Inr summary \<and> vs_runner_id summary = ''ci-1''"
proof -
  obtain json where json: "sample_to_json sample_attestation = Some json"
    using sample_to_json_attestation by blast
  have runner: "validate_runner_id ''ci-1'' = Inr ()" by code_simp
  have "read_regular_file sample_device sample_signed_disk ''run.json'' = Inr ''{}''"
    "read_regular_file sample_device sample_signed_disk ''run.sig'' = Inr (json @ [CHR 0x0A])"
    using json
    by (simp_all add: read_regular_file_Inr sample_signed_files) (simp_all add: sample_device_def sample_signed_disk_def inode_at_def)
  moreover have "load_public_key sample_crypto sample_device sample_signed_disk ''key.pub'' =
      Inr (replicate 32 (CHR ''w''))"
    by (rule load_public_key_written [OF sample_signed_files(3)])
      (simp_all add: sample_device_def sample_signed_disk_def inode_at_def sample_crypto_def)
  moreover have "public_key_of sample_crypto k = k" "attestation_to_json sample_crypto = sample_to_json" for k
    by (simp_all add: sample_crypto_def)
  ultimately show ?thesis
    using verify_attested [OF sample_laws _ runner, of "replicate 32 (CHR ''w'')" sample_device
        sample_signed_disk "''run.json''" "''{}''" json "''run.sig''" "''key.pub''"]
      json [unfolded sample_attestation_def] by simp
qed

lemma verify_sound_witness:
  "\<exists>summary key signature.
     verify sample_crypto sample_device sample_signed_disk ''run.json'' ''run.sig'' ''key.pub'' = Inr summary \<and>
     vs_runner_id summary = ''ci-1'' \<and>
     verify_strict sample_crypto key
       (signing_payload ''ci-1'' (vs_evidence_sha256 summary) (encode_hex key)
          (attestation_sha256 sample_crypto key)) signature"
proof -
  obtain summary where v: "vs_runner_id summary = ''ci-1''"
    "verify sample_crypto sample_device sample_signed_disk ''run.json'' ''run.sig'' ''key.pub'' = Inr summary"
    using sample_verifies by blast
  from verify_sound [OF v(2)] v show ?thesis by metis
qed

end
