(* ===== verification/MojoSyntax.thy ===== *)
theory MojoSyntax
  imports FileSystem Manifest
begin

text \<open>
  The Mojom reader of \<open>crates/chromifer-mojo/src/lib.rs\<close>: the lexer, which keeps the line of every token, and
  the parser of the module, the imports and the declarations outside braces. Lines are natural numbers; a
  text is the bytes of its UTF-8 encoding. Indexing a map panics when the key is missing; that is the error
  \<open>MojoIndexPanic\<close>.
\<close>

section \<open>Tokens and errors\<close>

datatype token_kind = Ident string | StringLit string | Punct char

record token =
  tk_kind :: token_kind
  tk_line :: nat

datatype declaration_kind = Interface | Struct | Union | Enum

record parsed_import =
  pi_path :: string
  pi_line :: nat

record parsed_declaration =
  pd_kind :: declaration_kind
  pd_name :: string
  pd_line :: nat

record parsed_mojom =
  pm_module :: "string option"
  pm_imports :: "parsed_import list"
  pm_declarations :: "parsed_declaration list"

datatype mojo_error =
    InvalidPackageRoot string
  | InvalidContractPath string
  | InvalidOutputPath string
  | MojoReadFile string
  | ParseContract
  | UnsupportedContractSchema "32 word" "32 word"
  | EmptyContract
  | InvalidGnPackagePath string
  | InvalidTargetName string
  | DuplicateTarget string
  | GeneratedTargetCollision string string string
  | EmptyTarget string
  | InvalidSourcePath string
  | MissingMojomSource string
  | DuplicateSourceOwner string string string
  | InvalidImportPath string
  | InvalidImportMapping string string string
  | DuplicateImportMapping string string
  | MissingImportMapping string string string nat
  | UnassignedLocalImport string string string nat
  | UnusedImportMapping string string
  | SelfImport string nat
  | InvalidGnLabel string
  | MojoDependencyCycle string
  | DuplicateDeclaration string string string
  | MojomSyntax string nat string
  | MojoOutputExists string
  | MojoDrift string
  | MojoWriteFile string
  | MojoIndexPanic string

section \<open>Lexer\<close>

definition is_ident_start :: "char \<Rightarrow> bool" where
  "is_ident_start c \<longleftrightarrow> is_ascii_upper c \<or> is_ascii_lower c \<or> c = CHR ''_''"

definition is_ident_byte :: "char \<Rightarrow> bool" where
  "is_ident_byte c \<longleftrightarrow> is_ascii_alphanumeric c \<or> c = CHR ''_''"

text \<open>The rest of a block comment, with the line it ends on and what follows it.\<close>

fun skip_block_comment :: "nat \<Rightarrow> string \<Rightarrow> (nat \<times> string) option" where
  "skip_block_comment line [] = None"
| "skip_block_comment line (c # s) =
     (let line' = (if c = CHR 0x0A then line + 1 else line)
      in if c = CHR ''*'' \<and> starts_with ''/'' s then Some (line', tl s) else skip_block_comment line' s)"

definition unescape_byte :: "char \<Rightarrow> char option" where
  "unescape_byte c =
     (if c = CHR 0x22 then Some (CHR 0x22)
      else if c = CHR 0x5C then Some (CHR 0x5C)
      else if c = CHR ''n'' then Some (CHR 0x0A)
      else if c = CHR ''r'' then Some (CHR 0x0D)
      else if c = CHR ''t'' then Some (CHR 0x09)
      else None)"

text \<open>
  A quoted string from after its quote, with what follows it. A string does not go beyond its line. A
  character beyond ASCII is taken byte by byte; none of its bytes is a quote, a backslash or a line feed.
\<close>

fun lex_string :: "string \<Rightarrow> nat \<Rightarrow> string \<Rightarrow> (mojo_error, string \<times> string) result" where
  "lex_string path line [] = Inl (MojomSyntax path line ''unterminated quoted string'')"
| "lex_string path line (c # s) =
     (if c = CHR 0x22 then Inr ([], s)
      else if c = CHR 0x5C then
        (case s of
           [] \<Rightarrow> Inl (MojomSyntax path line ''unterminated string escape'')
         | e # s' \<Rightarrow>
             (case unescape_byte e of
                None \<Rightarrow> Inl (MojomSyntax path line ''unsupported string escape'')
              | Some x \<Rightarrow> and_then (lex_string path line s') (\<lambda>(text, rest). Inr (x # text, rest))))
      else if c = CHR 0x0A then Inl (MojomSyntax path line ''newline in quoted string'')
      else and_then (lex_string path line s) (\<lambda>(text, rest). Inr (c # text, rest)))"

lemma skip_block_comment_length: "skip_block_comment line s = Some (line', rest) \<Longrightarrow> length rest < length s"
  by (induction line s rule: skip_block_comment.induct)
    (auto simp: Let_def starts_with_iff split: if_splits)

declare lex_string.simps(2) [simp del]

lemma lex_string_Inr:
  "lex_string path line (c # s) = Inr (content, rest) \<longleftrightarrow>
     c = CHR 0x22 \<and> content = [] \<and> rest = s \<or>
     c = CHR 0x5C \<and> (\<exists>e s' x w. s = e # s' \<and> unescape_byte e = Some x \<and>
       lex_string path line s' = Inr (w, rest) \<and> content = x # w) \<or>
     c \<notin> {CHR 0x22, CHR 0x5C, CHR 0x0A} \<and> (\<exists>w. lex_string path line s = Inr (w, rest) \<and> content = c # w)"
proof -
  consider "c = CHR 0x22" | "c = CHR 0x5C" | "c = CHR 0x0A" | "c \<notin> {CHR 0x22, CHR 0x5C, CHR 0x0A}" by blast
  then show ?thesis
  proof cases
    case 2
    then show ?thesis
      by (simp add: lex_string.simps(2) and_then_Inr_iff split: option.split list.split) blast
  qed (simp_all add: lex_string.simps(2) and_then_Inr_iff, auto)
qed

lemma lex_string_length: "lex_string path line s = Inr (content, rest) \<Longrightarrow> length rest < length s"
proof (induction s arbitrary: content rule: length_induct)
  case (1 s)
  then obtain c s' where s: "s = c # s'" by (cases s) auto
  with 1 consider "rest = s'" | e s'' w where "s' = e # s''" "lex_string path line s'' = Inr (w, rest)"
    | w where "lex_string path line s' = Inr (w, rest)"
    unfolding s lex_string_Inr by blast
  then show ?case
  proof cases
    case 2
    moreover from this s have "length s'' < length s" by simp
    ultimately show ?thesis using 1(1) by (meson less_trans)
  next
    case 3
    moreover from s have "length s' < length s" by simp
    ultimately show ?thesis using 1(1) by (meson less_trans)
  qed (simp add: s)
qed

function lex_mojom :: "string \<Rightarrow> nat \<Rightarrow> string \<Rightarrow> (mojo_error, token list) result" where
  "lex_mojom path line [] = Inr []"
| "lex_mojom path line (c # s) =
     (if c = CHR '' '' \<or> c = CHR 0x09 \<or> c = CHR 0x0D then lex_mojom path line s
      else if c = CHR 0x0A then lex_mojom path (line + 1) s
      else if c = CHR ''/'' \<and> starts_with ''/'' s
      then lex_mojom path line (dropWhile (\<lambda>x. x \<noteq> CHR 0x0A) (tl s))
      else if c = CHR ''/'' \<and> starts_with ''*'' s then
        (case skip_block_comment line (tl s) of
           None \<Rightarrow> Inl (MojomSyntax path line ''unterminated block comment'')
         | Some (line', rest) \<Rightarrow> lex_mojom path line' rest)
      else if c = CHR 0x22 then
        (case lex_string path line s of
           Inl e \<Rightarrow> Inl e
         | Inr (text, rest) \<Rightarrow>
             and_then (lex_mojom path line rest) (\<lambda>tokens.
             Inr (\<lparr>tk_kind = StringLit text, tk_line = line\<rparr> # tokens)))
      else if is_ident_start c then
        and_then (lex_mojom path line (dropWhile is_ident_byte s)) (\<lambda>tokens.
        Inr (\<lparr>tk_kind = Ident (c # takeWhile is_ident_byte s), tk_line = line\<rparr> # tokens))
      else and_then (lex_mojom path line s) (\<lambda>tokens. Inr (\<lparr>tk_kind = Punct c, tk_line = line\<rparr> # tokens)))"
  by pat_completeness auto
termination
  by (relation "measure (\<lambda>(_, _, s). length s)")
    (auto simp: starts_with_iff le_imp_less_Suc length_dropWhile_le le_SucI
      dest: lex_string_length skip_block_comment_length)

declare lex_mojom.simps(2) [simp del]

section \<open>Parser\<close>

text \<open>The parts of a module name, up to the semicolon.\<close>

fun parse_module_parts :: "token list \<Rightarrow> (string list \<times> token list) option" where
  "parse_module_parts (t # u # ts) =
     (case (tk_kind t, tk_kind u) of
        (Ident part, Punct c) \<Rightarrow>
          if c = CHR ''.'' then map_option (\<lambda>(parts, rest). (part # parts, rest)) (parse_module_parts ts)
          else if c = CHR '';'' then Some ([part], ts) else None
      | _ \<Rightarrow> None)"
| "parse_module_parts _ = None"

lemma parse_module_parts_length:
  "parse_module_parts ts = Some (parts, rest) \<Longrightarrow> length rest < length ts"
  by (induction ts arbitrary: parts rule: parse_module_parts.induct)
    (fastforce split: token_kind.splits if_splits)+

definition declaration_keyword :: "string \<Rightarrow> declaration_kind option" where
  "declaration_keyword w =
     (if w = ''interface'' then Some Interface else if w = ''struct'' then Some Struct
      else if w = ''union'' then Some Union else if w = ''enum'' then Some Enum else None)"

definition parse_import :: "string \<Rightarrow> nat \<Rightarrow> token list \<Rightarrow> (mojo_error, parsed_import \<times> token list) result" where
  "parse_import path line ts =
     (case ts of
        t # ts' \<Rightarrow>
          (case tk_kind t of
             StringLit import_path \<Rightarrow>
               (case ts' of
                  u # rest \<Rightarrow>
                    if tk_kind u = Punct (CHR '';'')
                    then Inr (\<lparr>pi_path = import_path, pi_line = line\<rparr>, rest)
                    else Inl (MojomSyntax path line ''import must end with `;`'')
                | [] \<Rightarrow> Inl (MojomSyntax path line ''import must end with `;`''))
           | _ \<Rightarrow> Inl (MojomSyntax path line ''import must be followed by a quoted path''))
      | [] \<Rightarrow> Inl (MojomSyntax path line ''import must be followed by a quoted path''))"

definition parse_declaration ::
    "string \<Rightarrow> nat \<Rightarrow> declaration_kind \<Rightarrow> token list \<Rightarrow>
     (mojo_error, parsed_declaration \<times> token list) result" where
  "parse_declaration path line kind ts =
     (case ts of
        t # rest \<Rightarrow>
          (case tk_kind t of
             Ident name \<Rightarrow> Inr (\<lparr>pd_kind = kind, pd_name = name, pd_line = line\<rparr>, rest)
           | _ \<Rightarrow> Inl (MojomSyntax path line ''declaration keyword must be followed by a name''))
      | [] \<Rightarrow> Inl (MojomSyntax path line ''declaration keyword must be followed by a name''))"

lemma parse_import_length: "parse_import path line ts = Inr (i, rest) \<Longrightarrow> length rest < length ts"
  by (auto simp: parse_import_def split: list.splits token_kind.splits if_splits)

lemma parse_declaration_length:
  "parse_declaration path line kind ts = Inr (d, rest) \<Longrightarrow> length rest < length ts"
  by (auto simp: parse_declaration_def split: list.splits token_kind.splits)

text \<open>The loop, with the number of open braces and what was found; \<open>end_line\<close> is the last line of the text.\<close>

function parse_items ::
    "string \<Rightarrow> nat \<Rightarrow> nat \<Rightarrow> parsed_mojom \<Rightarrow> token list \<Rightarrow> (mojo_error, parsed_mojom) result" where
  "parse_items path end_line depth p [] =
     (if depth \<noteq> 0 then Inl (MojomSyntax path end_line ''unclosed declaration body'') else Inr p)"
| "parse_items path end_line depth p (t # ts) =
     (if tk_kind t = Punct (CHR ''{'') then parse_items path end_line (depth + 1) p ts
      else if tk_kind t = Punct (CHR ''}'') then
        (if depth = 0 then Inl (MojomSyntax path (tk_line t) ''unmatched closing brace'')
         else parse_items path end_line (depth - 1) p ts)
      else if 0 < depth then parse_items path end_line depth p ts
      else (case tk_kind t of
        Ident keyword \<Rightarrow>
          if keyword = ''import'' then
            (case parse_import path (tk_line t) ts of
               Inl e \<Rightarrow> Inl e
             | Inr (i, rest) \<Rightarrow> parse_items path end_line depth (p\<lparr>pm_imports := pm_imports p @ [i]\<rparr>) rest)
          else if keyword = ''module'' then
            if pm_module p \<noteq> None
            then Inl (MojomSyntax path (tk_line t) ''multiple module declarations'')
            else (case parse_module_parts ts of
                    None \<Rightarrow> Inl (MojomSyntax path (tk_line t) ''invalid module declaration'')
                  | Some (parts, rest) \<Rightarrow>
                      parse_items path end_line depth (p\<lparr>pm_module := Some (join ''.'' parts)\<rparr>) rest)
          else (case declaration_keyword keyword of
                  None \<Rightarrow> parse_items path end_line depth p ts
                | Some kind \<Rightarrow>
                    (case parse_declaration path (tk_line t) kind ts of
                       Inl e \<Rightarrow> Inl e
                     | Inr (d, rest) \<Rightarrow>
                         parse_items path end_line depth
                           (p\<lparr>pm_declarations := pm_declarations p @ [d]\<rparr>) rest))
      | _ \<Rightarrow> parse_items path end_line depth p ts))"
  by pat_completeness auto
termination
  by (relation "measure (\<lambda>(_, _, _, _, ts). length ts)")
    (auto dest: parse_module_parts_length parse_import_length parse_declaration_length)

declare parse_items.simps(2) [simp del]

fun declaration_rank :: "declaration_kind \<Rightarrow> nat" where
  "declaration_rank Interface = 0"
| "declaration_rank Struct = 1"
| "declaration_rank Union = 2"
| "declaration_rank Enum = 3"

definition sorted_mojom :: "parsed_mojom \<Rightarrow> parsed_mojom" where
  "sorted_mojom p =
     p\<lparr>pm_imports := sort_key (\<lambda>i. (pi_path i, pi_line i)) (pm_imports p),
       pm_declarations :=
         sort_key (\<lambda>d. (pd_name d, declaration_rank (pd_kind d), pd_line d)) (pm_declarations p)\<rparr>"

definition parse_mojom :: "string \<Rightarrow> string \<Rightarrow> (mojo_error, parsed_mojom) result" where
  "parse_mojom path bytes =
     (let text = utf8_lossy bytes
      in and_then (lex_mojom path 1 text) (\<lambda>tokens.
         and_then (parse_items path (max (length (lines text)) 1) 0
             \<lparr>pm_module = None, pm_imports = [], pm_declarations = []\<rparr> tokens) (\<lambda>p.
         Inr (sorted_mojom p))))"

end
