(* ===== verification/GnText.thy ===== *)
theory GnText
  imports Paths
begin

text \<open>
  Names, labels and lists of the \<open>BUILD.gn\<close> files that \<open>crates/chromifer-mojo/src/lib.rs\<close> and
  \<open>crates/chromifer-build/src/lib.rs\<close> write; the functions are the same in both crates.
\<close>

section \<open>Names and labels\<close>

definition gn_package_byte :: "char \<Rightarrow> bool" where
  "gn_package_byte c \<longleftrightarrow> is_ascii_alphanumeric c \<or> c \<in> set ''/_-.+''"

definition gn_label_byte :: "char \<Rightarrow> bool" where
  "gn_label_byte c \<longleftrightarrow> is_ascii_alphanumeric c \<or> c \<in> set ''/:_-.*+()''"

definition valid_label :: "string \<Rightarrow> bool" where
  "valid_label label \<longleftrightarrow>
     (starts_with ''//'' label \<or> starts_with '':'' label) \<and> list_all gn_label_byte label"

definition gn_label_key :: "string \<Rightarrow> nat \<times> string" where
  "gn_label_key label = (if starts_with '':'' label then 0 else 1, label)"

fun valid_target_name :: "string \<Rightarrow> bool" where
  "valid_target_name [] = False"
| "valid_target_name (c # s) =
     (\<not> is_ascii_digit c \<and> list_all (\<lambda>x. is_ascii_alphanumeric x \<or> x = CHR ''_'') (c # s))"

section \<open>Quoted strings and lists\<close>

definition escape_gn :: "string \<Rightarrow> string" where
  "escape_gn s =
     replace_with (CHR 0x22) [CHR 0x5C, CHR 0x22]
       (replace_with (CHR ''$'') [CHR 0x5C, CHR ''$''] (replace_with (CHR 0x5C) [CHR 0x5C, CHR 0x5C] s))"

definition quoted_gn :: "string \<Rightarrow> string" where
  "quoted_gn s = [CHR 0x22] @ escape_gn s @ [CHR 0x22]"

definition render_list :: "string \<Rightarrow> string list \<Rightarrow> string" where
  "render_list name vs =
     (case vs of
        [v] \<Rightarrow> ''  '' @ name @ '' = [ '' @ quoted_gn v @ '' ]'' @ newline
      | _ \<Rightarrow>
          ''  '' @ name @ '' = ['' @ newline @
          concat (map (\<lambda>v. ''    '' @ quoted_gn v @ '','' @ newline) vs) @ ''  ]'' @ newline)"

section \<open>Paths as text\<close>

text \<open>\<open>Path::parent\<close> of the text of a path: without its last component and what separates it.\<close>

fun drop_idle_segments :: "string list \<Rightarrow> string list" where
  "drop_idle_segments (w # v # ws) =
     (if w = [] \<or> w = ''.'' then drop_idle_segments (v # ws) else w # v # ws)"
| "drop_idle_segments ws = ws"

definition parent_path :: "string \<Rightarrow> string option" where
  "parent_path s =
     (case drop_idle_segments (rev (split_on (CHR ''/'') s)) of
        [] \<Rightarrow> None
      | [w] \<Rightarrow> if w = [] then None else Some []
      | w # ws \<Rightarrow>
          (case drop_idle_segments ws of
             [[]] \<Rightarrow> Some ''/''
           | ws' \<Rightarrow> Some (join ''/'' (rev ws'))))"

definition show_absolute :: "string list \<Rightarrow> string" where
  "show_absolute real = ''/'' @ join ''/'' real"

end
