(* ===== verification/MojoContract.thy ===== *)
theory MojoContract
  imports MojoSyntax Cycles Disk Hex GnText
begin

text \<open>
  \<open>crates/chromifer-mojo/src/lib.rs\<close>: validation of a contract, the target graph it gives with the imports of
  its sources, and the \<open>BUILD.gn\<close> and provenance files written for it. SHA-256 and the JSON codecs are the
  fields of \<open>mojo_codec\<close>.
\<close>

section \<open>Contracts and evidence\<close>

record mojo_target =
  mt_name :: string
  mt_sources :: "string list"
  mt_external_imports :: "(string \<times> string) list"
  mt_parser_deps :: "string list"
  mt_visibility :: "string list"
  mt_testonly :: bool

record mojo_contract =
  mc_schema_version :: "32 word"
  mc_gn_package_path :: string
  mc_targets :: "mojo_target list"

record mojo_source_evidence =
  se_source :: string
  se_sha256 :: string
  se_module :: "string option"

record mojo_import_evidence =
  ie_source :: string
  ie_line :: nat
  ie_path :: string
  ie_dependency_label :: "string option"
  ie_local :: bool

record mojo_declaration_evidence =
  de_source :: string
  de_line :: nat
  de_kind :: declaration_kind
  de_name :: string
  de_module :: "string option"

record mojo_target_evidence =
  te_name :: string
  te_cpp_label :: string
  te_rust_label :: string
  te_sources :: "mojo_source_evidence list"
  te_imports :: "mojo_import_evidence list"
  te_declarations :: "mojo_declaration_evidence list"
  te_public_deps :: "string list"
  te_parser_deps :: "string list"
  te_visibility :: "string list"
  te_testonly :: bool

record mojo_provenance =
  pv_schema_version :: "32 word"
  pv_contract_sha256 :: string
  pv_contract_path :: string
  pv_build_gn_sha256 :: string
  pv_build_gn_path :: string
  pv_gn_package_path :: string
  pv_targets :: "mojo_target_evidence list"

record mojo_summary =
  ms_contract :: string
  ms_output :: string
  ms_provenance :: string
  ms_gn_package_path :: string
  ms_target_count :: nat
  ms_source_count :: nat
  ms_import_count :: nat
  ms_declaration_count :: nat
  ms_checked :: bool

record generated_mojo =
  gm_build_gn :: string
  gm_provenance_json :: string
  gm_summary :: mojo_summary

record mojo_options =
  mo_package_root :: string
  mo_contract :: string
  mo_output :: string
  mo_force :: bool
  mo_check :: bool

record mojo_codec =
  mojo_digest :: "string \<Rightarrow> string"
  mojo_contract_from_json :: "string \<Rightarrow> mojo_contract option"
  mojo_provenance_to_json :: "mojo_provenance \<Rightarrow> string option"

definition contract_schema_version :: "32 word" where
  "contract_schema_version = 1"

definition provenance_schema_version :: "32 word" where
  "provenance_schema_version = 1"

definition mojo_sha256_hex :: "mojo_codec \<Rightarrow> string \<Rightarrow> string" where
  "mojo_sha256_hex c bytes = encode_hex (mojo_digest c bytes)"

section \<open>Paths and labels\<close>

definition mojom_extension :: "string \<Rightarrow> bool" where
  "mojom_extension path \<longleftrightarrow> extension path = Some ''mojom''"

definition normalize_gn_package_path :: "string \<Rightarrow> (mojo_error, string) result" where
  "normalize_gn_package_path path =
     (case strip_prefix ''//'' path of
        None \<Rightarrow> Inl (InvalidGnPackagePath path)
      | Some relative \<Rightarrow>
          if CHR '':'' \<in> set relative \<or> CHR ''*'' \<in> set relative \<or> \<not> list_all gn_package_byte relative
          then Inl (InvalidGnPackagePath path)
          else if relative = [] then Inr ''//''
          else and_then (ok_or (normalize_repo_relative_path relative) (InvalidGnPackagePath path))
                 (\<lambda>normalized. Inr (''//'' @ normalized)))"

definition normalize_mojom_source :: "string \<Rightarrow> (mojo_error, string) result" where
  "normalize_mojom_source path =
     and_then (ok_or (normalize_repo_relative_path path) (InvalidSourcePath path)) (\<lambda>normalized.
     if \<not> mojom_extension normalized then Inl (InvalidSourcePath path) else Inr normalized)"

text \<open>The error names the path after the leading slashes were removed.\<close>

definition normalize_import_path :: "string \<Rightarrow> (mojo_error, string) result" where
  "normalize_import_path path =
     (if CHR 0x5C \<in> set path then Inl (InvalidImportPath path)
      else (let trimmed = trim_start_matches ''//'' path
            in and_then (ok_or (normalize_repo_relative_path trimmed) (InvalidImportPath trimmed))
                 (\<lambda>normalized.
               if \<not> mojom_extension normalized then Inl (InvalidImportPath trimmed) else Inr normalized)))"

definition package_import_path :: "string \<Rightarrow> string \<Rightarrow> string" where
  "package_import_path package source =
     (let package = trim_start_matches ''//'' package
      in if package = [] then source else package @ ''/'' @ source)"

definition package_relative_import :: "string \<Rightarrow> string \<Rightarrow> string option" where
  "package_relative_import package import_path =
     (let package = trim_start_matches ''//'' package
      in if package = [] then Some import_path
         else Option.bind (strip_prefix package import_path) (strip_prefix ''/''))"

definition absolute_label :: "string \<Rightarrow> string \<Rightarrow> string" where
  "absolute_label package target = package @ '':'' @ target"

definition canonical_gn_label :: "string \<Rightarrow> string" where
  "canonical_gn_label label =
     (case rsplit_once '':'' label of
        None \<Rightarrow> label
      | Some (path, target) \<Rightarrow>
          if starts_with ''//'' path \<and> target = last (split_on (CHR ''/'') path) then path else label)"

definition normalize_labels :: "string list \<Rightarrow> (mojo_error, string list) result" where
  "normalize_labels labels =
     and_then (try_map (\<lambda>l. if valid_label l then Inr (canonical_gn_label l) else Inl (InvalidGnLabel l)) labels)
       (\<lambda>labels. Inr (sort_key gn_label_key (bts_of_list labels)))"

definition generated_suffixes :: "string list" where
  "generated_suffixes =
     ['''', ''__is_mojom'', ''__check_deps_are_all_mojom'', ''__build_metadata'', ''__parser'',
      ''__parser_deps'', ''__parser_action'', ''__generate_message_ids'', ''_shared__generator'',
      ''_shared_cpp_sources'', ''_shared'', ''_mojolpm_proto'', ''__type_mappings'', ''__generator'',
      ''_headers'', ''_cpp_sources'', ''_mojolpm'', ''_java__generator'', ''_java_sources'', ''_java'',
      ''_js__generator'', ''_js'', ''_js_data_deps'', ''_js_library_for_compile'', ''_ts__generator'',
      ''_rust'', ''_rust_deps_meta'', ''_rust_meta'', ''_rust_dep_info'', ''_rust__generator'',
      ''_rust__crate_root'']"

definition generated_target_names :: "string \<Rightarrow> string list" where
  "generated_target_names target = map (\<lambda>suffix. target @ suffix) generated_suffixes"

section \<open>Validation of a contract\<close>

text \<open>The names, the generated names and the sources seen so far.\<close>

record contract_names =
  cn_targets :: "string list"
  cn_generated :: "(string \<times> string) list"
  cn_sources :: "(string \<times> string) list"

definition claim_generated :: "string \<Rightarrow> string \<Rightarrow> contract_names \<Rightarrow> (mojo_error, contract_names) result" where
  "claim_generated name generated cn =
     (case btm_get (cn_generated cn) generated of
        Some previous \<Rightarrow> Inl (GeneratedTargetCollision previous name generated)
      | None \<Rightarrow> Inr (cn\<lparr>cn_generated := btm_insert generated name (cn_generated cn)\<rparr>))"

definition claim_source ::
    "file_system \<Rightarrow> string list \<Rightarrow> string \<Rightarrow> string \<Rightarrow> contract_names \<times> string list \<Rightarrow>
     (mojo_error, contract_names \<times> string list) result" where
  "claim_source fs root name source = (\<lambda>(cn, sources).
     and_then (normalize_mojom_source source) (\<lambda>normalized.
     if \<not> is_file fs (path_join (absolute root) (components normalized))
     then Inl (MissingMojomSource normalized)
     else case btm_get (cn_sources cn) normalized of
            Some previous \<Rightarrow> Inl (DuplicateSourceOwner normalized previous name)
          | None \<Rightarrow>
              Inr (cn\<lparr>cn_sources := btm_insert normalized name (cn_sources cn)\<rparr>,
                   bts_insert normalized sources)))"

definition claim_import ::
    "string \<Rightarrow> string \<times> string \<Rightarrow> (string \<times> string) list \<Rightarrow> (mojo_error, (string \<times> string) list) result" where
  "claim_import name = (\<lambda>(import_path, label) normalized.
     and_then (normalize_import_path import_path) (\<lambda>import_path.
     if \<not> starts_with ''//'' label \<or> \<not> valid_label label
     then Inl (InvalidImportMapping name import_path label)
     else if btm_get normalized import_path \<noteq> None then Inl (DuplicateImportMapping name import_path)
     else Inr (btm_insert import_path (canonical_gn_label label) normalized)))"

definition validate_target ::
    "file_system \<Rightarrow> string list \<Rightarrow> mojo_target \<Rightarrow> contract_names \<times> mojo_target list \<Rightarrow>
     (mojo_error, contract_names \<times> mojo_target list) result" where
  "validate_target fs root target = (\<lambda>(cn, targets).
     let name = mt_name target
     in if \<not> valid_target_name name then Inl (InvalidTargetName name)
        else if name \<in> set (cn_targets cn) then Inl (DuplicateTarget name)
        else and_then (try_fold (claim_generated name) (generated_target_names name)
               (cn\<lparr>cn_targets := bts_insert name (cn_targets cn)\<rparr>)) (\<lambda>cn.
        if mt_sources target = [] then Inl (EmptyTarget name)
        else and_then (try_fold (claim_source fs root name) (mt_sources target) (cn, [])) (\<lambda>(cn, sources).
        and_then (try_fold (claim_import name) (mt_external_imports target) []) (\<lambda>imports.
        and_then (normalize_labels (mt_parser_deps target)) (\<lambda>parser_deps.
        and_then (normalize_labels (mt_visibility target)) (\<lambda>visibility.
        Inr (cn, targets @ [target\<lparr>mt_sources := sources, mt_external_imports := imports,
                                   mt_parser_deps := parser_deps, mt_visibility := visibility\<rparr>])))))))"

definition validate_contract ::
    "file_system \<Rightarrow> string list \<Rightarrow> mojo_contract \<Rightarrow> (mojo_error, mojo_contract) result" where
  "validate_contract fs root contract =
     (if mc_schema_version contract \<noteq> contract_schema_version
      then Inl (UnsupportedContractSchema (mc_schema_version contract) contract_schema_version)
      else if mc_targets contract = [] then Inl EmptyContract
      else and_then (normalize_gn_package_path (mc_gn_package_path contract)) (\<lambda>package.
      and_then (try_fold (validate_target fs root) (mc_targets contract)
          (\<lparr>cn_targets = [], cn_generated = [], cn_sources = []\<rparr>, [])) (\<lambda>(cn, targets).
      Inr (contract\<lparr>mc_gn_package_path := package, mc_targets := sort_key mt_name targets\<rparr>))))"

section \<open>The cycle check\<close>

text \<open>The search is the one of \<open>Cycles\<close>, over the dependencies of the graph in ascending order.\<close>

definition reject_dependency_cycle :: "graph \<Rightarrow> (mojo_error, unit) result" where
  "reject_dependency_cycle graph =
     (case visit_dependencies graph (map fst graph) (Map.empty, []) of
        Inl cycle \<Rightarrow> Inl (MojoDependencyCycle (join '' -> '' cycle))
      | Inr _ \<Rightarrow> Inr ())"

section \<open>Resolution of the imports\<close>

text \<open>What the loop over the sources of a target has built.\<close>

record target_scan =
  tg_sources :: "mojo_source_evidence list"
  tg_imports :: "mojo_import_evidence list"
  tg_declarations :: "mojo_declaration_evidence list"
  tg_public_deps :: "string list"
  tg_used_external :: "string list"
  tg_declaration_names :: "(string \<times> string) list"
  tg_graph :: graph

text \<open>What the loop over the targets reads: the root, the package, who owns which source, and the sources.\<close>

record package_scan =
  pk_fs :: file_system
  pk_root :: "string list"
  pk_package :: string
  pk_owner :: "(string \<times> string) list"
  pk_parsed :: "(string \<times> parsed_mojom) list"
  pk_hashes :: "(string \<times> string) list"

definition mojo_index :: "(string \<times> 'a) list \<Rightarrow> string \<Rightarrow> (mojo_error, 'a) result" where
  "mojo_index m key = ok_or (btm_get m key) (MojoIndexPanic key)"

definition scan_declaration ::
    "string \<Rightarrow> string \<Rightarrow> string option \<Rightarrow> parsed_declaration \<Rightarrow> target_scan \<Rightarrow>
     (mojo_error, target_scan) result" where
  "scan_declaration target source mojom_module declaration sc =
     (let module_name = (case mojom_module of None \<Rightarrow> [] | Some m \<Rightarrow> m);
          key = (module_name, pd_name declaration)
      in if key \<in> set (tg_declaration_names sc)
         then Inl (DuplicateDeclaration target module_name (pd_name declaration))
         else Inr (sc\<lparr>
           tg_declaration_names := bts_insert key (tg_declaration_names sc),
           tg_declarations := tg_declarations sc @
             [\<lparr>de_source = source, de_line = pd_line declaration, de_kind = pd_kind declaration,
               de_name = pd_name declaration, de_module = mojom_module\<rparr>]\<rparr>))"

text \<open>The label and the locality of an import that is not the source itself.\<close>

definition resolve_import ::
    "package_scan \<Rightarrow> mojo_target \<Rightarrow> string \<Rightarrow> nat \<Rightarrow> string \<Rightarrow>
     (mojo_error, string option \<times> bool) result" where
  "resolve_import pk target source line import_path =
     (case btm_get (pk_owner pk) import_path of
        Some owner \<Rightarrow>
          if owner = mt_name target then Inr (None, True) else Inr (Some ('':'' @ owner), True)
      | None \<Rightarrow>
          if (case package_relative_import (pk_package pk) import_path of
                Some relative \<Rightarrow> is_file (pk_fs pk) (path_join (absolute (pk_root pk)) (components relative))
              | None \<Rightarrow> False)
          then Inl (UnassignedLocalImport (mt_name target) import_path source line)
          else (case btm_get (mt_external_imports target) import_path of
                  None \<Rightarrow> Inl (MissingImportMapping (mt_name target) import_path source line)
                | Some label \<Rightarrow> Inr (Some label, False)))"

text \<open>The dependency, the used mapping and the edge of the graph that an import adds.\<close>

definition record_import ::
    "package_scan \<Rightarrow> mojo_target \<Rightarrow> string \<Rightarrow> string option \<times> bool \<Rightarrow> target_scan \<Rightarrow> target_scan" where
  "record_import pk target import_path resolved sc =
     (case resolved of
        (None, _) \<Rightarrow> sc
      | (Some label, True) \<Rightarrow>
          (case btm_get (pk_owner pk) import_path of
             Some owner \<Rightarrow>
               sc\<lparr>tg_graph := btm_update (mt_name target) [] (bts_insert owner) (tg_graph sc),
                  tg_public_deps := bts_insert label (tg_public_deps sc)\<rparr>
           | None \<Rightarrow> sc)
      | (Some label, False) \<Rightarrow>
          sc\<lparr>tg_used_external := bts_insert import_path (tg_used_external sc),
             tg_public_deps := bts_insert label (tg_public_deps sc)\<rparr>)"

definition scan_import ::
    "package_scan \<Rightarrow> mojo_target \<Rightarrow> string \<Rightarrow> parsed_import \<Rightarrow> target_scan \<Rightarrow> (mojo_error, target_scan) result" where
  "scan_import pk target source imported sc =
     and_then (normalize_import_path (pi_path imported)) (\<lambda>import_path.
     if import_path = package_import_path (pk_package pk) source
     then Inl (SelfImport source (pi_line imported))
     else and_then (resolve_import pk target source (pi_line imported) import_path) (\<lambda>(label, local).
       let sc = record_import pk target import_path (label, local) sc
       in Inr (sc\<lparr>tg_imports := tg_imports sc @
            [\<lparr>ie_source = source, ie_line = pi_line imported, ie_path = import_path,
              ie_dependency_label = label, ie_local = local\<rparr>]\<rparr>)))"

definition scan_mojom_source ::
    "package_scan \<Rightarrow> mojo_target \<Rightarrow> string \<Rightarrow> target_scan \<Rightarrow> (mojo_error, target_scan) result" where
  "scan_mojom_source pk target source sc =
     and_then (mojo_index (pk_parsed pk) source) (\<lambda>parsed.
     and_then (mojo_index (pk_hashes pk) source) (\<lambda>sha256.
     and_then (try_fold (scan_declaration (mt_name target) source (pm_module parsed)) (pm_declarations parsed)
         (sc\<lparr>tg_sources := tg_sources sc @
            [\<lparr>se_source = source, se_sha256 = sha256, se_module = pm_module parsed\<rparr>]\<rparr>)) (\<lambda>sc.
     try_fold (scan_import pk target source) (pm_imports parsed) sc)))"

definition check_import_used :: "string \<Rightarrow> string list \<Rightarrow> string \<Rightarrow> unit \<Rightarrow> (mojo_error, unit) result" where
  "check_import_used target used import_path _ =
     (if import_path \<in> set used then Inr () else Inl (UnusedImportMapping target import_path))"

text \<open>The derived orders of the evidence: field by field, \<open>None\<close> before \<open>Some\<close>.\<close>

definition option_key :: "string option \<Rightarrow> string list" where
  "option_key x = (case x of None \<Rightarrow> [] | Some s \<Rightarrow> [s])"

definition source_evidence_key :: "mojo_source_evidence \<Rightarrow> string \<times> string \<times> string list" where
  "source_evidence_key e = (se_source e, se_sha256 e, option_key (se_module e))"

definition import_evidence_key ::
    "mojo_import_evidence \<Rightarrow> string \<times> nat \<times> string \<times> string list \<times> bool" where
  "import_evidence_key e =
     (ie_source e, ie_line e, ie_path e, option_key (ie_dependency_label e), ie_local e)"

definition declaration_evidence_key ::
    "mojo_declaration_evidence \<Rightarrow> string \<times> nat \<times> nat \<times> string \<times> string list" where
  "declaration_evidence_key e =
     (de_source e, de_line e, declaration_rank (de_kind e), de_name e, option_key (de_module e))"

definition target_evidence :: "string \<Rightarrow> mojo_target \<Rightarrow> target_scan \<Rightarrow> mojo_target_evidence" where
  "target_evidence package target sc =
     \<lparr>te_name = mt_name target,
      te_cpp_label = absolute_label package (mt_name target),
      te_rust_label = absolute_label package (mt_name target @ ''_rust''),
      te_sources = sort_key source_evidence_key (tg_sources sc),
      te_imports = sort_key import_evidence_key (tg_imports sc),
      te_declarations = sort_key declaration_evidence_key (tg_declarations sc),
      te_public_deps = sort_key gn_label_key (tg_public_deps sc),
      te_parser_deps = mt_parser_deps target,
      te_visibility = mt_visibility target,
      te_testonly = mt_testonly target\<rparr>"

definition scan_target ::
    "package_scan \<Rightarrow> mojo_target \<Rightarrow> mojo_target_evidence list \<times> graph \<Rightarrow>
     (mojo_error, mojo_target_evidence list \<times> graph) result" where
  "scan_target pk target = (\<lambda>(evidence, graph).
     and_then (try_fold (scan_mojom_source pk target) (mt_sources target)
       \<lparr>tg_sources = [], tg_imports = [], tg_declarations = [], tg_public_deps = [], tg_used_external = [],
        tg_declaration_names = [], tg_graph = graph\<rparr>) (\<lambda>sc.
     and_then (try_fold (check_import_used (mt_name target) (tg_used_external sc))
         (map fst (mt_external_imports target)) ()) (\<lambda>_.
     Inr (evidence @ [target_evidence (pk_package pk) target sc],
          btm_update (mt_name target) [] id (tg_graph sc)))))"

definition owner_map :: "mojo_contract \<Rightarrow> (string \<times> string) list" where
  "owner_map contract =
     btm_of_list (concat (map (\<lambda>t.
       map (\<lambda>source. (package_import_path (mc_gn_package_path contract) source, mt_name t)) (mt_sources t))
       (mc_targets contract)))"

definition read_mojo_file :: "file_system \<Rightarrow> path \<Rightarrow> string \<Rightarrow> (mojo_error, string) result" where
  "read_mojo_file fs p shown = ok_or (read_file fs p) (MojoReadFile shown)"

definition read_mojom ::
    "mojo_codec \<Rightarrow> file_system \<Rightarrow> string list \<Rightarrow> string \<Rightarrow>
     (string \<times> parsed_mojom) list \<times> (string \<times> string) list \<Rightarrow>
     (mojo_error, (string \<times> parsed_mojom) list \<times> (string \<times> string) list) result" where
  "read_mojom c fs root source = (\<lambda>(parsed, hashes).
     and_then (read_mojo_file fs (path_join (absolute root) (components source))
         (join_path (show_absolute root) source)) (\<lambda>bytes.
     and_then (parse_mojom source bytes) (\<lambda>p.
     Inr (btm_insert source p parsed, btm_insert source (mojo_sha256_hex c bytes) hashes))))"

definition all_sources :: "mojo_contract \<Rightarrow> string list" where
  "all_sources contract = bts_of_list (concat (map mt_sources (mc_targets contract)))"

text \<open>The evidence of a validated contract.\<close>

definition scan_contract ::
    "mojo_codec \<Rightarrow> file_system \<Rightarrow> string list \<Rightarrow> mojo_contract \<Rightarrow>
     (mojo_error, mojo_target_evidence list) result" where
  "scan_contract c fs root contract =
     and_then (try_fold (read_mojom c fs root) (all_sources contract) ([], [])) (\<lambda>(parsed, hashes).
     and_then (try_fold (scan_target
           \<lparr>pk_fs = fs, pk_root = root, pk_package = mc_gn_package_path contract, pk_owner = owner_map contract,
            pk_parsed = parsed, pk_hashes = hashes\<rparr>) (mc_targets contract) ([], []))
       (\<lambda>(evidence, graph).
     and_then (reject_dependency_cycle graph) (\<lambda>_.
     Inr (sort_key te_name evidence))))"

section \<open>The generated file\<close>

definition render_target :: "mojo_target_evidence \<Rightarrow> string" where
  "render_target t =
     newline @ ''mojom('' @ quoted_gn (te_name t) @ '') {'' @ newline @
     render_list ''sources'' (map se_source (te_sources t)) @
     (if te_public_deps t \<noteq> [] then render_list ''public_deps'' (te_public_deps t) else []) @
     (if te_parser_deps t \<noteq> [] then render_list ''parser_deps'' (te_parser_deps t) else []) @
     ''  generate_rust = true'' @ newline @
     (if te_testonly t then ''  testonly = true'' @ newline else []) @
     (if te_visibility t \<noteq> [] then render_list ''visibility'' (te_visibility t) else []) @
     ''}'' @ newline"

definition build_gn_header :: string where
  "build_gn_header =
     ''# Generated by Chromifer from an explicit Mojo contract.'' @ newline @
     ''# Re-run `chromifer generate-mojo` instead of editing this file.'' @ newline @ newline @
     ''import('' @ quoted_gn ''//mojo/public/tools/bindings/mojom.gni'' @ '')'' @ newline"

definition render_build_gn :: "mojo_target_evidence list \<Rightarrow> string" where
  "render_build_gn targets = build_gn_header @ concat (map render_target targets)"

section \<open>Generation\<close>

definition provenance_path :: "string \<Rightarrow> string" where
  "provenance_path output =
     join_path (case parent_path output of None \<Rightarrow> ''.'' | Some p \<Rightarrow> p) ''chromifer-mojo.json''"

text \<open>The real path of the contract and its path in the package.\<close>

definition package_file ::
    "file_system \<Rightarrow> string list \<Rightarrow> string \<Rightarrow> (mojo_error, string list \<times> string) result" where
  "package_file fs root path =
     and_then (ok_or (canonicalize fs (components path)) (InvalidContractPath path)) (\<lambda>real.
     if take (length root) real \<noteq> root then Inl (InvalidContractPath path)
     else and_then (ok_or (normalize_repo_relative_path (utf8_lossy (join ''/'' (drop (length root) real))))
            (InvalidContractPath path)) (\<lambda>relative.
     Inr (real, relative)))"

definition package_output ::
    "file_system \<Rightarrow> string list \<Rightarrow> string \<Rightarrow> (mojo_error, string list \<times> string) result" where
  "package_output fs root path =
     (if file_name path \<noteq> Some ''BUILD.gn'' then Inl (InvalidOutputPath path)
      else and_then (ok_or
             (canonicalize fs (components (case parent_path path of None \<Rightarrow> ''.'' | Some p \<Rightarrow> p)))
             (InvalidOutputPath path)) (\<lambda>parent.
      if parent \<noteq> root then Inl (InvalidOutputPath path)
      else Inr (parent @ [''BUILD.gn''], ''BUILD.gn'')))"

definition count_all :: "(mojo_target_evidence \<Rightarrow> 'a list) \<Rightarrow> mojo_target_evidence list \<Rightarrow> nat" where
  "count_all f targets = sum_list (map (length \<circ> f) targets)"

definition provenance_of ::
    "mojo_codec \<Rightarrow> string \<Rightarrow> string \<Rightarrow> string \<Rightarrow> string \<Rightarrow> string \<Rightarrow> mojo_target_evidence list \<Rightarrow>
     mojo_provenance" where
  "provenance_of c contract_bytes contract_relative build_gn output_relative package evidence =
     \<lparr>pv_schema_version = provenance_schema_version,
      pv_contract_sha256 = mojo_sha256_hex c contract_bytes,
      pv_contract_path = contract_relative,
      pv_build_gn_sha256 = mojo_sha256_hex c build_gn,
      pv_build_gn_path = output_relative,
      pv_gn_package_path = package,
      pv_targets = evidence\<rparr>"

definition summary_of ::
    "string list \<Rightarrow> string list \<Rightarrow> string \<Rightarrow> bool \<Rightarrow> mojo_target_evidence list \<Rightarrow> mojo_summary" where
  "summary_of contract_path output_path package checked evidence =
     \<lparr>ms_contract = show_absolute contract_path,
      ms_output = show_absolute output_path,
      ms_provenance = provenance_path (show_absolute output_path),
      ms_gn_package_path = package,
      ms_target_count = length evidence,
      ms_source_count = count_all te_sources evidence,
      ms_import_count = count_all te_imports evidence,
      ms_declaration_count = count_all te_declarations evidence,
      ms_checked = checked\<rparr>"

definition generate_mojo ::
    "mojo_codec \<Rightarrow> file_system \<Rightarrow> mojo_options \<Rightarrow> (mojo_error, generated_mojo) result" where
  "generate_mojo c fs options =
     and_then (ok_or (canonicalize fs (components (mo_package_root options)))
         (InvalidPackageRoot (mo_package_root options))) (\<lambda>root.
     and_then (package_file fs root (mo_contract options)) (\<lambda>(contract_path, contract_relative).
     if extension (show_absolute contract_path) \<noteq> Some ''json''
     then Inl (InvalidContractPath (mo_contract options))
     else and_then (package_output fs root (mo_output options)) (\<lambda>(output_path, output_relative).
     and_then (read_mojo_file fs (absolute contract_path) (show_absolute contract_path)) (\<lambda>contract_bytes.
     and_then (ok_or (mojo_contract_from_json c contract_bytes) ParseContract) (\<lambda>contract.
     and_then (validate_contract fs root contract) (\<lambda>contract.
     and_then (scan_contract c fs root contract) (\<lambda>evidence.
     let build_gn = render_build_gn evidence;
         package = mc_gn_package_path contract
     in and_then (ok_or (mojo_provenance_to_json c
            (provenance_of c contract_bytes contract_relative build_gn output_relative package evidence))
            ParseContract) (\<lambda>json.
     Inr \<lparr>gm_build_gn = build_gn, gm_provenance_json = json @ newline,
          gm_summary = summary_of contract_path output_path package (mo_check options) evidence\<rparr>))))))))"

section \<open>Writing and checking\<close>

definition check_mojo_file :: "file_system \<Rightarrow> string \<Rightarrow> string \<Rightarrow> (mojo_error, unit) result" where
  "check_mojo_file fs path expected =
     (case read_file fs (components path) of
        None \<Rightarrow> Inl (MojoDrift path)
      | Some actual \<Rightarrow> if actual \<noteq> expected then Inl (MojoDrift path) else Inr ())"

definition write_mojo_file ::
    "device \<Rightarrow> string \<Rightarrow> string \<Rightarrow> disk \<Rightarrow> (mojo_error, unit) result \<times> disk" where
  "write_mojo_file v path bytes d =
     (case fs_write (dv_write_fault v path) (components path) bytes d of
        (ok, d') \<Rightarrow> (if ok then Inr () else Inl (MojoWriteFile path), d'))"

definition check_mojo_missing :: "file_system \<Rightarrow> bool \<Rightarrow> string \<Rightarrow> unit \<Rightarrow> (mojo_error, unit) result" where
  "check_mojo_missing fs force path _ =
     (if path_exists fs (components path) \<and> \<not> force then Inl (MojoOutputExists path) else Inr ())"

definition generate_mojo_and_write ::
    "mojo_codec \<Rightarrow> device \<Rightarrow> mojo_options \<Rightarrow> disk \<Rightarrow> (mojo_error, generated_mojo) result \<times> disk" where
  "generate_mojo_and_write c v options d =
     (case generate_mojo c (tree d) options of
        Inl e \<Rightarrow> (Inl e, d)
      | Inr generated \<Rightarrow>
          let output = mo_output options; provenance = provenance_path output
          in if mo_check options then
               (and_then (check_mojo_file (tree d) output (gm_build_gn generated)) (\<lambda>_.
                and_then (check_mojo_file (tree d) provenance (gm_provenance_json generated)) (\<lambda>_.
                Inr generated)), d)
             else (case try_fold (check_mojo_missing (tree d) (mo_force options)) [output, provenance] () of
                     Inl e \<Rightarrow> (Inl e, d)
                   | Inr _ \<Rightarrow>
                       (case write_mojo_file v output (gm_build_gn generated) d of
                          (Inl e, d1) \<Rightarrow> (Inl e, d1)
                        | (Inr _, d1) \<Rightarrow>
                            (case write_mojo_file v provenance (gm_provenance_json generated) d1 of
                               (Inl e, d2) \<Rightarrow> (Inl e, d2)
                             | (Inr _, d2) \<Rightarrow> (Inr generated, d2)))))"

end
