(* ===== verification/MojoSyntaxCorrect.thy ===== *)
theory MojoSyntaxCorrect
  imports MojoSyntax
begin

text \<open>
  What the Mojom reader accepts: the token sequences of the lexer and a text for each of them, and the
  grammar of the parser.
\<close>

section \<open>The lexer\<close>

definition print_byte :: "char \<Rightarrow> string" where
  "print_byte c =
     (if c = CHR 0x22 then [CHR 0x5C, CHR 0x22] else if c = CHR 0x5C then [CHR 0x5C, CHR 0x5C]
      else if c = CHR 0x0A then [CHR 0x5C, CHR ''n''] else [c])"

fun print_kind :: "token_kind \<Rightarrow> string" where
  "print_kind (Ident w) = w"
| "print_kind (StringLit s) = [CHR 0x22] @ concat (map print_byte s) @ [CHR 0x22]"
| "print_kind (Punct c) = [c]"

text \<open>Every token is followed by a space and stands on its line.\<close>

fun print_tokens :: "nat \<Rightarrow> token list \<Rightarrow> string" where
  "print_tokens line [] = []"
| "print_tokens line (t # ts) =
     replicate (tk_line t - line) (CHR 0x0A) @ print_kind (tk_kind t) @ [CHR '' ''] @ print_tokens (tk_line t) ts"

fun printable_kind :: "token_kind \<Rightarrow> bool" where
  "printable_kind (Ident w) = (w \<noteq> [] \<and> is_ident_start (hd w) \<and> list_all is_ident_byte w)"
| "printable_kind (StringLit s) = True"
| "printable_kind (Punct c) =
     (c \<notin> {CHR '' '', CHR 0x09, CHR 0x0D, CHR 0x0A, CHR 0x22} \<and> \<not> is_ident_start c)"

fun printable_tokens :: "nat \<Rightarrow> token list \<Rightarrow> bool" where
  "printable_tokens line [] = True"
| "printable_tokens line (t # ts) =
     (line \<le> tk_line t \<and> printable_kind (tk_kind t) \<and> printable_tokens (tk_line t) ts)"

lemma ident_start_bytes:
  "is_ident_start c \<Longrightarrow> c \<notin> {CHR '' '', CHR 0x09, CHR 0x0D, CHR 0x0A, CHR ''/'', CHR 0x22}"
  "is_ident_start c \<Longrightarrow> is_ident_byte c" "\<not> is_ident_byte (CHR '' '')"
  by (auto simp: is_ident_start_def is_ident_byte_def is_ascii_alphanumeric_def is_ascii_upper_def
      is_ascii_lower_def is_ascii_digit_def byte_of_def)

lemma lex_string_print:
  "lex_string path line (concat (map print_byte s) @ CHR 0x22 # rest) = Inr (s, rest)"
proof (induction s)
  case (Cons c s)
  have "lex_string path line (print_byte c @ t) = Inr (c # w, r)" if "lex_string path line t = Inr (w, r)" for t w r
    using that by (simp add: print_byte_def lex_string_Inr unescape_byte_def)
  then show ?case using Cons by simp
qed (simp add: lex_string_Inr)

lemma lex_newlines:
  "lex_mojom path line (replicate n (CHR 0x0A) @ s) = lex_mojom path (line + n) s"
  by (induction n arbitrary: line) (simp_all add: lex_mojom.simps(2))

lemma lex_space: "lex_mojom path line (CHR '' '' # s) = lex_mojom path line s"
  by (simp add: lex_mojom.simps(2))

lemma takeWhile_stop:
  "list_all P w \<Longrightarrow> \<not> P x \<Longrightarrow> takeWhile P (w @ x # s) = w \<and> dropWhile P (w @ x # s) = x # s"
  by (induction w) auto

lemma lex_kind:
  assumes "printable_kind k"
  shows "lex_mojom path line (print_kind k @ CHR '' '' # s) =
    and_then (lex_mojom path line s) (\<lambda>ts. Inr (\<lparr>tk_kind = k, tk_line = line\<rparr> # ts))"
proof (cases k)
  case (Ident w)
  with assms obtain c w' where w: "w = c # w'" "is_ident_start c" "list_all is_ident_byte w'"
    by (cases w) auto
  show ?thesis
    using takeWhile_stop [OF w(3) ident_start_bytes(3), of s] ident_start_bytes(1) [OF w(2)] w(2)
    by (simp add: Ident w(1) lex_mojom.simps(2) lex_space)
next
  case (StringLit x)
  show ?thesis
    using lex_string_print [of path line x "CHR '' '' # s"]
    by (simp add: StringLit lex_mojom.simps(2) lex_space)
next
  case (Punct c)
  with assms show ?thesis by (simp add: lex_mojom.simps(2) starts_with_def lex_space)
qed

lemma lex_printed: "printable_tokens line ts \<Longrightarrow> lex_mojom path line (print_tokens line ts) = Inr ts"
proof (induction ts arbitrary: line)
  case (Cons t ts)
  then show ?case by (simp add: lex_newlines lex_kind)
qed simp

lemma skip_block_comment_line: "skip_block_comment line s = Some (line', rest) \<Longrightarrow> line \<le> line'"
  by (induction line s rule: skip_block_comment.induct) (auto simp: Let_def split: if_splits)

lemma printable_tokens_later: "printable_tokens line' ts \<Longrightarrow> line \<le> line' \<Longrightarrow> printable_tokens line ts"
  by (cases ts) auto

lemma lex_printable: "lex_mojom path line s = Inr ts \<Longrightarrow> printable_tokens line ts"
proof (induction path line s arbitrary: ts rule: lex_mojom.induct)
  case (2 path line c s)
  show ?case
  proof (cases "c = CHR '' '' \<or> c = CHR 0x09 \<or> c = CHR 0x0D \<or> c = CHR 0x0A \<or>
      c = CHR ''/'' \<and> (starts_with ''/'' s \<or> starts_with ''*'' s)")
    case True
    have 1: "printable_tokens line ts" if "printable_tokens (Suc line) ts"
      by (rule printable_tokens_later [OF that]) simp
    have 2: "printable_tokens line ts"
      if "skip_block_comment line t = Some (line', rest)" "printable_tokens line' ts" for t line' rest
      by (rule printable_tokens_later [OF that(2) skip_block_comment_line [OF that(1)]])
    show ?thesis
      using "2.IH"(1-3) "2.IH"(4) [OF _ _ _ _ _ refl] "2.prems" True 1 2
      by (auto simp: lex_mojom.simps(2) split: if_splits option.splits)
  next
    case False
    then show ?thesis
      using 2
      by (auto simp: lex_mojom.simps(2) and_then_Inr_iff ident_start_bytes(2) list_all_iff
          split: if_splits sum.splits dest: set_takeWhileD)
  qed
qed simp

text \<open>C40: The lexer is exact: the token sequences it produces are those with well-formed identifiers, no white
  space or letters as punctuation and no line before the one it started on, and each of them is what the
  lexer reads from its printed text.\<close>

theorem lex_mojom_exact:
  "(\<exists>s. lex_mojom path line s = Inr ts) = printable_tokens line ts \<and>
   printable_tokens line ts = (lex_mojom path line (print_tokens line ts) = Inr ts)"
  using lex_printed lex_printable by blast

section \<open>The grammar\<close>

abbreviation opens :: "token \<Rightarrow> bool" where
  "opens t \<equiv> tk_kind t = Punct (CHR ''{'')"

abbreviation closes :: "token \<Rightarrow> bool" where
  "closes t \<equiv> tk_kind t = Punct (CHR ''}'')"

inductive braced :: "token list \<Rightarrow> bool" where
  braced_Nil: "braced []"
| braced_token: "\<not> opens t \<Longrightarrow> \<not> closes t \<Longrightarrow> braced ts \<Longrightarrow> braced (t # ts)"
| braced_block: "opens t \<Longrightarrow> braced b \<Longrightarrow> closes u \<Longrightarrow> braced ts \<Longrightarrow> braced (t # b @ u # ts)"

inductive dotted_name :: "token list \<Rightarrow> string list \<Rightarrow> bool" where
  dotted_last: "tk_kind t = Ident part \<Longrightarrow> tk_kind u = Punct (CHR '';'') \<Longrightarrow> dotted_name [t, u] [part]"
| dotted_more:
    "tk_kind t = Ident part \<Longrightarrow> tk_kind u = Punct (CHR ''.'') \<Longrightarrow> dotted_name ts parts \<Longrightarrow>
     dotted_name (t # u # ts) (part # parts)"

fun plain_kind :: "token_kind \<Rightarrow> bool" where
  "plain_kind (Ident w) = (w \<noteq> ''import'' \<and> w \<noteq> ''module'' \<and> declaration_keyword w = None)"
| "plain_kind (StringLit s) = True"
| "plain_kind (Punct c) = (c \<noteq> CHR ''{'' \<and> c \<noteq> CHR ''}'')"

text \<open>A file with its modules, imports and declarations, in order.\<close>

inductive mojom_file ::
    "token list \<Rightarrow> string list \<Rightarrow> parsed_import list \<Rightarrow> parsed_declaration list \<Rightarrow> bool" where
  file_Nil: "mojom_file [] [] [] []"
| file_body:
    "opens t \<Longrightarrow> braced b \<Longrightarrow> closes u \<Longrightarrow> mojom_file ts modules imported declared \<Longrightarrow>
     mojom_file (t # b @ u # ts) modules imported declared"
| file_import:
    "tk_kind t = Ident ''import'' \<Longrightarrow> tk_kind p = StringLit path \<Longrightarrow> tk_kind s = Punct (CHR '';'') \<Longrightarrow>
     mojom_file ts modules imported declared \<Longrightarrow>
     mojom_file (t # p # s # ts) modules (\<lparr>pi_path = path, pi_line = tk_line t\<rparr> # imported) declared"
| file_module:
    "tk_kind t = Ident ''module'' \<Longrightarrow> dotted_name qs parts \<Longrightarrow> mojom_file ts modules imported declared \<Longrightarrow>
     mojom_file (t # qs @ ts) (join ''.'' parts # modules) imported declared"
| file_declaration:
    "tk_kind t = Ident w \<Longrightarrow> declaration_keyword w = Some kind \<Longrightarrow> tk_kind n = Ident name \<Longrightarrow>
     mojom_file ts modules imported declared \<Longrightarrow>
     mojom_file (t # n # ts) modules imported
       (\<lparr>pd_kind = kind, pd_name = name, pd_line = tk_line t\<rparr> # declared)"
| file_token:
    "plain_kind (tk_kind t) \<Longrightarrow> mojom_file ts modules imported declared \<Longrightarrow>
     mojom_file (t # ts) modules imported declared"

lemma dotted_parse: "dotted_name qs parts \<Longrightarrow> parse_module_parts (qs @ ts) = Some (parts, ts)"
  by (induction rule: dotted_name.induct) simp_all

lemma parse_module_parts_dotted:
  "parse_module_parts ts = Some (parts, rest) \<Longrightarrow> \<exists>qs. ts = qs @ rest \<and> dotted_name qs parts"
proof (induction ts arbitrary: parts rule: parse_module_parts.induct)
  case (1 t u ts)
  obtain part c where k: "tk_kind t = Ident part" "tk_kind u = Punct c" and c: "c = CHR ''.'' \<or> c = CHR '';''"
    using "1.prems" by (auto split: token_kind.splits if_splits)
  show ?case
  proof (cases "c = CHR ''.''")
    case True
    with "1.prems" k obtain parts' where p: "parse_module_parts ts = Some (parts', rest)" "parts = part # parts'"
      by auto
    then obtain qs where "ts = qs @ rest" "dotted_name qs parts'" using "1.IH" k True by blast
    then show ?thesis using k True p(2) by (intro exI [of _ "t # u # qs"]) (auto intro: dotted_more)
  next
    case False
    with c "1.prems" k show ?thesis by (intro exI [of _ "[t, u]"]) (auto intro: dotted_last)
  qed
qed auto

lemma keyword_not_import: "declaration_keyword ''import'' = None" "declaration_keyword ''module'' = None"
  by (simp_all add: declaration_keyword_def)

lemma parse_braced: "braced b \<Longrightarrow> parse_items path e (Suc n) p (b @ ts) = parse_items path e (Suc n) p ts"
proof (induction arbitrary: n ts rule: braced.induct)
  case (braced_token t ts')
  then show ?case by (simp add: parse_items.simps(2))
next
  case (braced_block t b u ts')
  then show ?case by (simp add: parse_items.simps(2))
qed simp

lemma parse_file:
  assumes "mojom_file ts modules imported declared"
    and "modules = [] \<or> pm_module p = None \<and> length modules = 1"
  shows "parse_items path e 0 p ts =
    Inr (p\<lparr>pm_module := (if modules = [] then pm_module p else Some (hd modules)),
           pm_imports := pm_imports p @ imported, pm_declarations := pm_declarations p @ declared\<rparr>)"
  using assms
proof (induction arbitrary: p rule: mojom_file.induct)
  case file_Nil
  then show ?case by simp
next
  case (file_body t b u ts modules imported declared)
  then show ?case using parse_braced [of b path e 0] by (simp add: parse_items.simps(2))
next
  case (file_import t q path' s ts modules imported declared)
  then show ?case by (simp add: parse_items.simps(2) parse_import_def)
next
  case (file_module t qs parts ts modules imported declared)
  then show ?case by (simp add: parse_items.simps(2) dotted_parse)
next
  case (file_declaration t w kind n name ts modules imported declared)
  then have "w \<noteq> ''import''" "w \<noteq> ''module''" using keyword_not_import by auto
  with file_declaration show ?case by (simp add: parse_items.simps(2) parse_declaration_def)
next
  case (file_token t ts modules imported declared)
  then show ?case by (cases "tk_kind t") (auto simp: parse_items.simps(2))
qed

text \<open>What follows \<open>n\<close> closing braces.\<close>

inductive after_closing :: "nat \<Rightarrow> token list \<Rightarrow> token list \<Rightarrow> bool" where
  closed_all: "after_closing 0 ts ts"
| close_one: "braced b \<Longrightarrow> closes u \<Longrightarrow> after_closing n ts rest \<Longrightarrow> after_closing (Suc n) (b @ u # ts) rest"

inductive_cases after_closing_Suc: "after_closing (Suc n) ts rest"

inductive_simps after_closing_0: "after_closing 0 ts rest"

lemma after_closing_token:
  "\<not> opens t \<Longrightarrow> \<not> closes t \<Longrightarrow> after_closing (Suc n) ts rest \<Longrightarrow> after_closing (Suc n) (t # ts) rest"
  by (elim after_closing_Suc) (metis append_Cons braced_token close_one)

lemma after_closing_block:
  "opens t \<Longrightarrow> after_closing (Suc (Suc n)) ts rest \<Longrightarrow> after_closing (Suc n) (t # ts) rest"
proof (elim after_closing_Suc)
  fix b u ts1 b' u' ts2
  assume "opens t" "braced b" "closes u" "braced b'" "closes u'" "after_closing n ts2 rest"
    "ts = b @ u # ts1" "ts1 = b' @ u' # ts2"
  then show "after_closing (Suc n) (t # ts) rest"
    using close_one [OF braced_block [of t b u b'], of u' n ts2 rest] by simp
qed

lemma parse_items_file:
  "parse_items path e depth p ts = Inr q \<Longrightarrow>
   \<exists>rest modules imported declared. after_closing depth ts rest \<and> mojom_file rest modules imported declared \<and>
     (modules = [] \<and> pm_module q = pm_module p \<or>
      pm_module p = None \<and> (\<exists>m. modules = [m] \<and> pm_module q = Some m)) \<and>
     pm_imports q = pm_imports p @ imported \<and> pm_declarations q = pm_declarations p @ declared"
  (is "_ \<Longrightarrow> ?parsed depth p ts q")
proof (induction path e depth p ts rule: parse_items.induct)
  case (1 path e depth p)
  then show ?case by (auto intro: closed_all file_Nil split: if_splits)
next
  case (2 path e depth p t ts)
  consider "opens t" | "closes t" | "\<not> opens t" "\<not> closes t" "0 < depth"
    | "\<not> opens t" "\<not> closes t" "depth = 0" by blast
  then show ?case
  proof cases
    case 1
    then have "?parsed (depth + 1) p ts q" using 2(1) "2.prems" by (simp add: parse_items.simps(2))
    then obtain rest modules imported declared where a: "after_closing (Suc depth) ts rest"
      "mojom_file rest modules imported declared"
      "modules = [] \<and> pm_module q = pm_module p \<or>
       pm_module p = None \<and> (\<exists>m. modules = [m] \<and> pm_module q = Some m)"
      "pm_imports q = pm_imports p @ imported" "pm_declarations q = pm_declarations p @ declared"
      by auto
    show ?thesis
    proof (cases depth)
      case 0
      with a(1) obtain b u where "braced b" "closes u" "ts = b @ u # rest"
        by (auto simp: after_closing_0 elim: after_closing_Suc)
      with file_body [OF 1 this(1,2) a(2)] a(3-5) 0 show ?thesis by (auto intro: closed_all)
    next
      case (Suc n)
      with after_closing_block [OF 1] a show ?thesis by blast
    qed
  next
    case 2
    with "2.prems" obtain n where n: "depth = Suc n" by (cases depth) (simp_all add: parse_items.simps(2))
    with 2 have "?parsed n p ts q" using "2.IH"(2) "2.prems" by (simp add: parse_items.simps(2))
    then show ?thesis using n 2 close_one [OF braced_Nil, of t n ts] by (metis append_Nil)
  next
    case 3
    with 2(3) "2.prems" have "?parsed depth p ts q" by (simp add: parse_items.simps(2))
    moreover obtain n where "depth = Suc n" using 3(3) by (cases depth) auto
    ultimately show ?thesis using after_closing_token [OF 3(1,2)] by blast
  next
    case 4
    then have keep: ?thesis if "?parsed 0 p ts q" "plain_kind (tk_kind t)"
      unfolding 4(3) using that file_token [OF that(2)] by (simp only: after_closing_0) blast
    show ?thesis
    proof (cases "tk_kind t")
      case (Ident w)
      consider "w = ''import''" | "w = ''module''" | "plain_kind (tk_kind t)"
        | kind where "declaration_keyword w = Some kind" "w \<noteq> ''import''" "w \<noteq> ''module''"
        using Ident by (cases "declaration_keyword w") auto
      then show ?thesis
      proof cases
        case 1
        then obtain i rest where i: "parse_import path (tk_line t) ts = Inr (i, rest)"
          "parse_items path e 0 (p\<lparr>pm_imports := pm_imports p @ [i]\<rparr>) rest = Inr q"
          using "2.prems" 4 Ident by (auto simp: parse_items.simps(2) split: sum.splits)
        then have "?parsed 0 (p\<lparr>pm_imports := pm_imports p @ [i]\<rparr>) rest q"
          using 2(4) 4 Ident 1 by auto
        moreover obtain u v import_path where "ts = u # v # rest" "tk_kind u = StringLit import_path"
          "tk_kind v = Punct (CHR '';'')" "i = \<lparr>pi_path = import_path, pi_line = tk_line t\<rparr>"
          using i(1) by (auto simp: parse_import_def split: list.splits token_kind.splits if_splits)
        ultimately show ?thesis
          using file_import [of t u import_path v] Ident 1 4 by (simp add: after_closing_0) blast
      next
        case 2
        then obtain parts rest where m: "parse_module_parts ts = Some (parts, rest)" "pm_module p = None"
          "parse_items path e 0 (p\<lparr>pm_module := Some (join ''.'' parts)\<rparr>) rest = Inr q"
          using "2.prems" 4 Ident by (auto simp: parse_items.simps(2) split: option.splits if_splits)
        then have "?parsed 0 (p\<lparr>pm_module := Some (join ''.'' parts)\<rparr>) rest q"
          using "2.IH"(5) 4 Ident 2 by auto
        moreover obtain qs where "ts = qs @ rest" "dotted_name qs parts"
          using parse_module_parts_dotted [OF m(1)] by blast
        ultimately show ?thesis
          using file_module [of t qs parts] Ident 2 4 m(2) by (simp add: after_closing_0) blast
      next
        case 3
        then have "parse_items path e 0 p ts = Inr q"
          using "2.prems" 4 Ident by (simp add: parse_items.simps(2))
        then show ?thesis using keep 3 "2.IH"(6) 4 Ident by auto
      next
        case 4
        then obtain i rest where i: "parse_declaration path (tk_line t) kind ts = Inr (i, rest)"
          "parse_items path e 0 (p\<lparr>pm_declarations := pm_declarations p @ [i]\<rparr>) rest = Inr q"
          using "2.prems" \<open>depth = 0\<close> Ident by (auto simp: parse_items.simps(2) split: sum.splits)
        then have "?parsed 0 (p\<lparr>pm_declarations := pm_declarations p @ [i]\<rparr>) rest q"
          using "2.IH"(7) \<open>depth = 0\<close> Ident 4 by auto
        moreover obtain u name where "ts = u # rest" "tk_kind u = Ident name"
          "i = \<lparr>pd_kind = kind, pd_name = name, pd_line = tk_line t\<rparr>"
          using i(1) by (auto simp: parse_declaration_def split: list.splits token_kind.splits)
        ultimately show ?thesis
          using file_declaration [OF Ident 4(1), of u name] \<open>depth = 0\<close> by (simp add: after_closing_0) blast
      qed
    next
      case (StringLit s)
      then have "parse_items path e 0 p ts = Inr q"
        using "2.prems" 4 by (simp add: parse_items.simps(2))
      then show ?thesis using keep "2.IH"(8) 4 StringLit by auto
    next
      case (Punct c)
      then have "parse_items path e 0 p ts = Inr q"
        using "2.prems" 4 by (simp add: parse_items.simps(2))
      then show ?thesis using keep "2.IH"(9) 4 Punct by auto
    qed
  qed
qed

text \<open>C8: The parser is exact: it succeeds exactly on the sources whose tokens form a file of the grammar with
  at most one module, and returns that module and, in order, the imports and the declarations that stand
  outside braces.\<close>

theorem parse_mojom_exact:
  "(parse_mojom path bytes = Inr q) =
   (\<exists>ts modules imported declared.
      lex_mojom path 1 (utf8_lossy bytes) = Inr ts \<and> mojom_file ts modules imported declared \<and>
      (modules = [] \<and> pm_module q = None \<or> (\<exists>m. modules = [m] \<and> pm_module q = Some m)) \<and>
      pm_imports q = sort_key (\<lambda>i. (pi_path i, pi_line i)) imported \<and>
      pm_declarations q = sort_key (\<lambda>d. (pd_name d, declaration_rank (pd_kind d), pd_line d)) declared)"
  (is "?parsed = ?file")
proof
  assume ?parsed
  then obtain ts p where "lex_mojom path 1 (utf8_lossy bytes) = Inr ts" "q = sorted_mojom p"
    "parse_items path (max (length (lines (utf8_lossy bytes))) 1) 0
       \<lparr>pm_module = None, pm_imports = [], pm_declarations = []\<rparr> ts = Inr p"
    by (auto simp: parse_mojom_def Let_def and_then_Inr_iff)
  with parse_items_file [OF this(3)] show ?file
    by (auto simp: sorted_mojom_def after_closing_0)
next
  assume ?file
  then obtain ts modules imported declared where f:
    "lex_mojom path 1 (utf8_lossy bytes) = Inr ts" "mojom_file ts modules imported declared"
    "modules = [] \<and> pm_module q = None \<or> (\<exists>m. modules = [m] \<and> pm_module q = Some m)"
    "pm_imports q = sort_key (\<lambda>i. (pi_path i, pi_line i)) imported"
    "pm_declarations q = sort_key (\<lambda>d. (pd_name d, declaration_rank (pd_kind d), pd_line d)) declared"
    by blast
  from f(3) have modules: "modules = [] \<or> None = None \<and> length modules = 1"
    "pm_module q = (if modules = [] then None else Some (hd modules))" by auto
  have "q = sorted_mojom \<lparr>pm_module = (if modules = [] then None else Some (hd modules)),
      pm_imports = imported, pm_declarations = declared\<rparr>"
    using f(4,5) modules(2) by (simp add: sorted_mojom_def)
  then show ?parsed
    using f(1) parse_file [OF f(2), of "\<lparr>pm_module = None, pm_imports = [], pm_declarations = []\<rparr>" path] modules(1)
    by (simp add: parse_mojom_def Let_def)
qed

end
