(* ===== verification/MojoCorrect.thy ===== *)
theory MojoCorrect
  imports MojoContract MojoSyntaxCorrect "HOL-Library.Multiset"
begin

text \<open>
  What a generated Mojo package guarantees: validation leaves a well-formed contract, every import of every
  source is resolved to its owner or to a mapped label, the targets depend on each other without a cycle,
  and the generated file carries its strings through GN quoting.
\<close>

section \<open>Loops that only add\<close>

lemma try_fold_grows:
  assumes "try_fold f xs s = Inr t" and "I s"
    and step: "\<And>x u v. x \<in> set xs \<Longrightarrow> f x u = Inr v \<Longrightarrow> I u \<Longrightarrow> I v \<and> R u v \<and> Q x v"
    and refl: "\<And>u. R u u" and trans: "\<And>u v w. R u v \<Longrightarrow> R v w \<Longrightarrow> R u w"
    and mono: "\<And>x u v. Q x u \<Longrightarrow> R u v \<Longrightarrow> Q x v"
  shows "I t \<and> R s t \<and> (\<forall>x\<in>set xs. Q x t)"
  using assms(1-3)
proof (induction xs arbitrary: s)
  case Nil
  then show ?case using refl by simp
next
  case (Cons x xs)
  then obtain u where u: "f x s = Inr u" "try_fold f xs u = Inr t" by (auto split: sum.splits)
  then have 1: "I u" "R s u" "Q x u" using Cons.prems by auto
  then have 2: "I t \<and> R u t \<and> (\<forall>x\<in>set xs. Q x t)" using Cons.IH [OF u(2)] Cons.prems(3) by auto
  then show ?case using 1 trans [OF 1(2)] mono [OF 1(3)] by auto
qed

lemma try_fold_append:
  "try_fold f (xs @ ys) s = (case try_fold f xs s of Inl e \<Rightarrow> Inl e | Inr t \<Rightarrow> try_fold f ys t)"
  by (induction xs arbitrary: s) (auto split: sum.splits)

lemma try_fold_unit: "try_fold f xs () = Inr () \<longleftrightarrow> (\<forall>x\<in>set xs. f x () = Inr ())"
  by (induction xs) (auto split: sum.splits)

section \<open>The scan of a target\<close>

definition recorded :: "package_scan \<Rightarrow> mojo_target \<Rightarrow> target_scan \<Rightarrow> mojo_import_evidence \<Rightarrow> bool" where
  "recorded pk t sc e \<longleftrightarrow>
     resolve_import pk t (ie_source e) (ie_line e) (ie_path e) = Inr (ie_dependency_label e, ie_local e) \<and>
     ie_path e \<noteq> package_import_path (pk_package pk) (ie_source e) \<and>
     (\<forall>label. ie_dependency_label e = Some label \<longrightarrow>
        label \<in> set (tg_public_deps sc) \<and>
        (\<forall>owner. ie_local e \<longrightarrow> label = '':'' @ owner \<longrightarrow>
           owner \<in> set (graph_dependencies (tg_graph sc) (mt_name t))) \<and>
        (\<not> ie_local e \<longrightarrow> ie_path e \<in> set (tg_used_external sc)))"

definition declaration_key :: "mojo_declaration_evidence \<Rightarrow> string \<times> string" where
  "declaration_key d = ((case de_module d of None \<Rightarrow> [] | Some m \<Rightarrow> m), de_name d)"

definition scan_inv :: "package_scan \<Rightarrow> mojo_target \<Rightarrow> target_scan \<Rightarrow> bool" where
  "scan_inv pk t sc \<longleftrightarrow>
     ascending_keys (tg_graph sc) \<and> (\<forall>e\<in>set (tg_imports sc). recorded pk t sc e) \<and>
     (\<forall>l\<in>set (tg_public_deps sc). \<exists>e\<in>set (tg_imports sc). ie_dependency_label e = Some l) \<and>
     (\<forall>u\<in>set (tg_used_external sc). \<exists>e\<in>set (tg_imports sc). \<not> ie_local e \<and> ie_path e = u) \<and>
     set (tg_declaration_names sc) = declaration_key ` set (tg_declarations sc) \<and>
     distinct (map declaration_key (tg_declarations sc))"

definition edges_grow :: "graph \<Rightarrow> graph \<Rightarrow> bool" where
  "edges_grow g g' \<longleftrightarrow> (\<forall>n. set (graph_dependencies g n) \<subseteq> set (graph_dependencies g' n))"

definition scan_grows :: "target_scan \<Rightarrow> target_scan \<Rightarrow> bool" where
  "scan_grows sc sc' \<longleftrightarrow>
     edges_grow (tg_graph sc) (tg_graph sc') \<and> set (tg_imports sc) \<subseteq> set (tg_imports sc') \<and>
     set (tg_declarations sc) \<subseteq> set (tg_declarations sc') \<and> set (tg_sources sc) \<subseteq> set (tg_sources sc')"

lemma scan_grows_refl: "scan_grows sc sc"
  by (simp add: scan_grows_def edges_grow_def)

lemma scan_grows_trans: "scan_grows a b \<Longrightarrow> scan_grows b c \<Longrightarrow> scan_grows a c"
  unfolding scan_grows_def edges_grow_def by blast

lemma graph_dependencies_update:
  "ascending_keys g \<Longrightarrow>
   graph_dependencies (btm_update k [] f g) n =
     (if n = k then f (graph_dependencies g k) else graph_dependencies g n)"
  by (simp add: graph_dependencies_def get_btm_update)

lemma edges_grow_update:
  "ascending_keys g \<Longrightarrow> (\<And>ds. set ds \<subseteq> set (f ds)) \<Longrightarrow> edges_grow g (btm_update k [] f g)"
  by (auto simp: edges_grow_def graph_dependencies_update)

definition found_import :: "string \<Rightarrow> parsed_import \<Rightarrow> target_scan \<Rightarrow> bool" where
  "found_import source i sc \<longleftrightarrow>
     (\<exists>e\<in>set (tg_imports sc). ie_source e = source \<and> ie_line e = pi_line i \<and>
        normalize_import_path (pi_path i) = Inr (ie_path e))"

lemma resolve_import_owner:
  "resolve_import pk t source line p = Inr (label, local) \<Longrightarrow>
     (local \<longrightarrow> (\<exists>owner. btm_get (pk_owner pk) p = Some owner \<and>
        label = (if owner = mt_name t then None else Some ('':'' @ owner)))) \<and>
     (\<not> local \<longrightarrow> btm_get (pk_owner pk) p = None \<and>
        (\<exists>l. label = Some l \<and> btm_get (mt_external_imports t) p = Some l))"
  by (auto simp: resolve_import_def split: option.splits if_splits)

lemma scan_import_step:
  assumes "scan_import pk t source i sc = Inr sc'" and "scan_inv pk t sc"
  shows "scan_inv pk t sc' \<and> scan_grows sc sc' \<and> found_import source i sc'"
proof -
  from assms(1) obtain p label l where p: "normalize_import_path (pi_path i) = Inr p"
    "p \<noteq> package_import_path (pk_package pk) source"
    "resolve_import pk t source (pi_line i) p = Inr (label, l)"
    "sc' = (let sc = record_import pk t p (label, l) sc
            in sc\<lparr>tg_imports := tg_imports sc @
              [\<lparr>ie_source = source, ie_line = pi_line i, ie_path = p, ie_dependency_label = label, ie_local = l\<rparr>]\<rparr>)"
    by (auto simp: scan_import_def and_then_Inr_iff Let_def split: if_splits)
  let ?e = "\<lparr>ie_source = source, ie_line = pi_line i, ie_path = p, ie_dependency_label = label, ie_local = l\<rparr>"
  let ?r = "record_import pk t p (label, l) sc"
  note owner = resolve_import_owner [OF p(3)]
  have keep: "tg_imports ?r = tg_imports sc" "tg_declarations ?r = tg_declarations sc"
    "tg_sources ?r = tg_sources sc" "tg_declaration_names ?r = tg_declaration_names sc"
    by (auto simp: record_import_def split: option.split bool.split)
  have asc: "ascending_keys (tg_graph sc)" using assms(2) by (simp add: scan_inv_def)
  then have grow: "ascending_keys (tg_graph ?r)" "edges_grow (tg_graph sc) (tg_graph ?r)"
    by (auto simp: record_import_def ascending_btm_update edges_grow_def graph_dependencies_update
        split: option.split bool.split)
  have deps: "set (tg_public_deps ?r) = set (tg_public_deps sc) \<union> set_option label"
    using owner by (cases label; cases l) (auto simp: record_import_def split: option.splits)
  have used: "set (tg_used_external ?r) = set (tg_used_external sc) \<union> (if l then {} else {p})"
    using owner by (cases label; cases l) (auto simp: record_import_def split: option.splits)
  have edge: "owner \<in> set (graph_dependencies (tg_graph ?r) (mt_name t))"
    if "l" "label = Some ('':'' @ owner)" for owner
    using that owner asc by (auto simp: record_import_def graph_dependencies_update split: if_splits)
  have old: "recorded pk t sc' e" if "recorded pk t sc e" for e
    using that grow(2) unfolding p(4)
    by (auto simp: recorded_def Let_def deps used edges_grow_def)
  moreover have "recorded pk t sc' ?e"
    unfolding recorded_def p(4) Let_def
    by (intro conjI allI impI) (use p(2,3) edge deps used in simp_all)
  ultimately show ?thesis
    using assms(2) grow p(1) unfolding scan_inv_def scan_grows_def found_import_def p(4)
    by (auto simp: Let_def keep deps used)
qed

definition found_declaration ::
    "string \<Rightarrow> string option \<Rightarrow> parsed_declaration \<Rightarrow> target_scan \<Rightarrow> bool" where
  "found_declaration source m d sc \<longleftrightarrow>
     \<lparr>de_source = source, de_line = pd_line d, de_kind = pd_kind d, de_name = pd_name d, de_module = m\<rparr>
       \<in> set (tg_declarations sc)"

lemma scan_declaration_step:
  assumes "scan_declaration name source m d sc = Inr sc'" and "scan_inv pk t sc"
  shows "scan_inv pk t sc' \<and> scan_grows sc sc' \<and> found_declaration source m d sc'"
proof -
  let ?d = "\<lparr>de_source = source, de_line = pd_line d, de_kind = pd_kind d, de_name = pd_name d, de_module = m\<rparr>"
  have new: "declaration_key ?d \<notin> set (tg_declaration_names sc)"
    and sc': "sc' = sc\<lparr>tg_declaration_names := bts_insert (declaration_key ?d) (tg_declaration_names sc),
      tg_declarations := tg_declarations sc @ [?d]\<rparr>"
    using assms(1) by (auto simp: scan_declaration_def declaration_key_def Let_def split: if_splits)
  have "recorded pk t sc' e = recorded pk t sc e" for e by (simp add: recorded_def sc')
  then show ?thesis
    using assms(2) new unfolding scan_inv_def scan_grows_def found_declaration_def sc'
    by (auto simp: edges_grow_def)
qed

definition found_source :: "package_scan \<Rightarrow> string \<Rightarrow> target_scan \<Rightarrow> bool" where
  "found_source pk source sc \<longleftrightarrow>
     (\<exists>p h. btm_get (pk_parsed pk) source = Some p \<and> btm_get (pk_hashes pk) source = Some h \<and>
        \<lparr>se_source = source, se_sha256 = h, se_module = pm_module p\<rparr> \<in> set (tg_sources sc) \<and>
        (\<forall>i\<in>set (pm_imports p). found_import source i sc) \<and>
        (\<forall>d\<in>set (pm_declarations p). found_declaration source (pm_module p) d sc))"

lemma found_import_mono: "scan_grows u v \<Longrightarrow> found_import source i u \<Longrightarrow> found_import source i v"
  unfolding found_import_def scan_grows_def by blast

lemma found_declaration_mono:
  "scan_grows u v \<Longrightarrow> found_declaration source m d u \<Longrightarrow> found_declaration source m d v"
  unfolding found_declaration_def scan_grows_def by blast

lemma found_source_mono: "scan_grows u v \<Longrightarrow> found_source pk source u \<Longrightarrow> found_source pk source v"
proof -
  assume grows: "scan_grows u v" and "found_source pk source u"
  then obtain p h where p: "btm_get (pk_parsed pk) source = Some p" "btm_get (pk_hashes pk) source = Some h"
    "\<lparr>se_source = source, se_sha256 = h, se_module = pm_module p\<rparr> \<in> set (tg_sources u)"
    "\<forall>i\<in>set (pm_imports p). found_import source i u"
    "\<forall>d\<in>set (pm_declarations p). found_declaration source (pm_module p) d u"
    unfolding found_source_def by blast
  moreover have "set (tg_sources u) \<subseteq> set (tg_sources v)" using grows by (simp add: scan_grows_def)
  ultimately show "found_source pk source v"
    unfolding found_source_def
    using found_import_mono [OF grows] found_declaration_mono [OF grows] by (metis subsetD)
qed

lemma scan_fold:
  assumes "try_fold f xs s = Inr s'" and "scan_inv pk t s"
    and "\<And>x u v. f x u = Inr v \<Longrightarrow> scan_inv pk t u \<Longrightarrow> scan_inv pk t v \<and> scan_grows u v \<and> Q x v"
    and "\<And>x u v. scan_grows u v \<Longrightarrow> Q x u \<Longrightarrow> Q x v"
  shows "scan_inv pk t s' \<and> scan_grows s s' \<and> (\<forall>x\<in>set xs. Q x s')"
  by (rule try_fold_grows [where f = f and I = "scan_inv pk t"])
    (use assms scan_grows_refl scan_grows_trans in blast)+

lemma scan_source_step:
  assumes "scan_mojom_source pk t source sc = Inr sc'" and "scan_inv pk t sc"
  shows "scan_inv pk t sc' \<and> scan_grows sc sc' \<and> found_source pk source sc'"
proof -
  from assms(1) obtain p h sc2 where p: "btm_get (pk_parsed pk) source = Some p"
    "btm_get (pk_hashes pk) source = Some h"
    "try_fold (scan_declaration (mt_name t) source (pm_module p)) (pm_declarations p)
       (sc\<lparr>tg_sources := tg_sources sc @
          [\<lparr>se_source = source, se_sha256 = h, se_module = pm_module p\<rparr>]\<rparr>) = Inr sc2"
    "try_fold (scan_import pk t source) (pm_imports p) sc2 = Inr sc'"
    by (auto simp: scan_mojom_source_def and_then_Inr_iff mojo_index_def ok_or_Inr_iff)
  let ?e = "\<lparr>se_source = source, se_sha256 = h, se_module = pm_module p\<rparr>"
  let ?sc1 = "sc\<lparr>tg_sources := tg_sources sc @ [?e]\<rparr>"
  have 1: "scan_inv pk t ?sc1" "scan_grows sc ?sc1"
    using assms(2) by (auto simp: scan_inv_def scan_grows_def edges_grow_def recorded_def)
  have 2: "scan_inv pk t sc2 \<and> scan_grows ?sc1 sc2 \<and>
      (\<forall>d\<in>set (pm_declarations p). found_declaration source (pm_module p) d sc2)"
    by (rule scan_fold [OF p(3) 1(1)]) (rule scan_declaration_step found_declaration_mono; assumption)+
  have 3: "scan_inv pk t sc' \<and> scan_grows sc2 sc' \<and> (\<forall>i\<in>set (pm_imports p). found_import source i sc')"
    by (rule scan_fold [OF p(4) conjunct1 [OF 2]]) (rule scan_import_step found_import_mono; assumption)+
  have grows: "scan_grows ?sc1 sc'" using 2 3 by (blast intro: scan_grows_trans)
  then have "?e \<in> set (tg_sources sc')" by (auto simp: scan_grows_def)
  moreover have "found_declaration source (pm_module p) d sc'" if "d \<in> set (pm_declarations p)" for d
    using that 2 3 found_declaration_mono by blast
  ultimately have "found_source pk source sc'" using p(1,2) 3 unfolding found_source_def by blast
  moreover have "scan_grows sc sc'" using 1(2) grows by (rule scan_grows_trans)
  ultimately show ?thesis using 3 by blast
qed

text \<open>The evidence of a target, against what was read of the package.\<close>

definition evidence_of :: "package_scan \<Rightarrow> mojo_target \<Rightarrow> mojo_target_evidence \<Rightarrow> bool" where
  "evidence_of pk t E \<longleftrightarrow>
     te_name E = mt_name t \<and>
     (\<forall>s\<in>set (mt_sources t). \<exists>p h. btm_get (pk_parsed pk) s = Some p \<and> btm_get (pk_hashes pk) s = Some h \<and>
        \<lparr>se_source = s, se_sha256 = h, se_module = pm_module p\<rparr> \<in> set (te_sources E) \<and>
        (\<forall>i\<in>set (pm_imports p). \<exists>e\<in>set (te_imports E). ie_source e = s \<and> ie_line e = pi_line i \<and>
           normalize_import_path (pi_path i) = Inr (ie_path e)) \<and>
        (\<forall>d\<in>set (pm_declarations p).
           \<lparr>de_source = s, de_line = pd_line d, de_kind = pd_kind d, de_name = pd_name d,
             de_module = pm_module p\<rparr> \<in> set (te_declarations E))) \<and>
     (\<forall>e\<in>set (te_imports E).
        resolve_import pk t (ie_source e) (ie_line e) (ie_path e) = Inr (ie_dependency_label e, ie_local e) \<and>
        ie_path e \<noteq> package_import_path (pk_package pk) (ie_source e)) \<and>
     set (te_public_deps E) = {label. \<exists>e\<in>set (te_imports E). ie_dependency_label e = Some label} \<and>
     (\<forall>p\<in>fst ` set (mt_external_imports t). \<exists>e\<in>set (te_imports E). ie_path e = p \<and> \<not> ie_local e) \<and>
     distinct (map declaration_key (te_declarations E))"

definition local_edges :: "mojo_target_evidence \<Rightarrow> string set" where
  "local_edges E =
     {owner. \<exists>e\<in>set (te_imports E). ie_local e \<and> ie_dependency_label e = Some ('':'' @ owner)}"

lemma distinct_map_sort_key: "distinct (map f (sort_key k xs)) = distinct (map f xs)"
  by (metis distinct_map distinct_sort set_sort)

lemma scan_target_step:
  assumes "scan_target pk t (evidence, g) = Inr (evidence', g')" and "ascending_keys g"
  shows "\<exists>E. evidence' = evidence @ [E] \<and> evidence_of pk t E \<and> ascending_keys g' \<and> edges_grow g g' \<and>
    local_edges E \<subseteq> set (graph_dependencies g' (mt_name t))"
proof -
  let ?s0 = "\<lparr>tg_sources = [], tg_imports = [], tg_declarations = [], tg_public_deps = [],
    tg_used_external = [], tg_declaration_names = [], tg_graph = g\<rparr>"
  from assms(1) obtain sc where sc: "try_fold (scan_mojom_source pk t) (mt_sources t) ?s0 = Inr sc"
    "try_fold (check_import_used (mt_name t) (tg_used_external sc)) (map fst (mt_external_imports t)) () = Inr ()"
    "evidence' = evidence @ [target_evidence (pk_package pk) t sc]"
    "g' = btm_update (mt_name t) [] id (tg_graph sc)"
    by (auto simp: scan_target_def and_then_Inr_iff)
  let ?E = "target_evidence (pk_package pk) t sc"
  have inv: "scan_inv pk t sc \<and> scan_grows ?s0 sc \<and> (\<forall>s\<in>set (mt_sources t). found_source pk s sc)"
  proof (rule scan_fold [OF sc(1)])
    show "scan_inv pk t ?s0" using assms(2) by (simp add: scan_inv_def)
  qed (rule scan_source_step found_source_mono; assumption)+
  have "\<forall>p\<in>set (map fst (mt_external_imports t)). p \<in> set (tg_used_external sc)"
    using sc(2) unfolding try_fold_unit by (auto simp: check_import_used_def split: if_splits)
  then have "evidence_of pk t ?E"
    using inv unfolding evidence_of_def scan_inv_def found_source_def found_import_def found_declaration_def
    by (auto simp: target_evidence_def recorded_def distinct_map_sort_key)
  moreover have "ascending_keys g'" "edges_grow g g'"
    using inv by (auto simp: sc(4) scan_inv_def scan_grows_def ascending_btm_update edges_grow_def
        graph_dependencies_update)
  moreover have "local_edges ?E \<subseteq> set (graph_dependencies g' (mt_name t))"
    using inv by (auto simp: local_edges_def target_evidence_def scan_inv_def recorded_def sc(4)
        graph_dependencies_update)
  ultimately show ?thesis using sc(3) by blast
qed

lemma scan_targets_evidence:
  assumes "try_fold (scan_target pk) targets ([], []) = Inr (evidence, g)"
  shows "list_all2 (\<lambda>t E. evidence_of pk t E \<and> local_edges E \<subseteq> set (graph_dependencies g (mt_name t)))
    targets evidence"
proof -
  let ?P = "\<lambda>pre (evidence, g). ascending_keys g \<and>
    list_all2 (\<lambda>t E. evidence_of pk t E \<and> local_edges E \<subseteq> set (graph_dependencies g (mt_name t))) pre evidence"
  have "?P ([] @ targets) (evidence, g)"
  proof (rule try_fold_prefix_invariant [OF assms])
    fix pre t u v assume "?P pre u" and scan: "scan_target pk t u = Inr v"
    obtain ev1 g1 ev2 g2 where uv: "u = (ev1, g1)" "v = (ev2, g2)" by fastforce
    with \<open>?P pre u\<close> have asc: "ascending_keys g1" and old: "list_all2 (\<lambda>t E. evidence_of pk t E \<and>
        local_edges E \<subseteq> set (graph_dependencies g1 (mt_name t))) pre ev1" by simp_all
    obtain E where E: "ev2 = ev1 @ [E]" "evidence_of pk t E" "ascending_keys g2" "edges_grow g1 g2"
      "local_edges E \<subseteq> set (graph_dependencies g2 (mt_name t))"
      using scan_target_step [OF scan [unfolded uv] asc] by blast
    have "list_all2 (\<lambda>t E. evidence_of pk t E \<and> local_edges E \<subseteq> set (graph_dependencies g2 (mt_name t))) pre ev1"
      by (rule list_all2_mono [OF old]) (use E(4) in \<open>auto simp: edges_grow_def\<close>)
    then show "?P (pre @ [t]) v" using E uv by (simp add: list_all2_appendI)
  qed simp
  then show ?thesis by simp
qed

section \<open>The package\<close>

text \<open>A source of the package, with its digest and what it parses to.\<close>

definition source_reads ::
    "mojo_codec \<Rightarrow> file_system \<Rightarrow> string list \<Rightarrow> string \<Rightarrow> string \<Rightarrow> parsed_mojom \<Rightarrow> bool" where
  "source_reads c fs root source digest p \<longleftrightarrow>
     (\<exists>bytes. read_file fs (path_join (absolute root) (components source)) = Some bytes \<and>
        digest = mojo_sha256_hex c bytes \<and> parse_mojom source bytes = Inr p)"

definition owns :: "mojo_contract \<Rightarrow> string \<Rightarrow> string \<Rightarrow> bool" where
  "owns contract owner import_path \<longleftrightarrow>
     (\<exists>t\<in>set (mc_targets contract). mt_name t = owner \<and>
        (\<exists>s\<in>set (mt_sources t). import_path = package_import_path (mc_gn_package_path contract) s))"

definition in_package :: "file_system \<Rightarrow> string list \<Rightarrow> mojo_contract \<Rightarrow> string \<Rightarrow> bool" where
  "in_package fs root contract import_path \<longleftrightarrow>
     (\<exists>relative. package_relative_import (mc_gn_package_path contract) import_path = Some relative \<and>
        is_file fs (path_join (absolute root) (components relative)))"

text \<open>An import is local, with the label of another target that owns it, or has the label that the contract
  maps it to, and then it is no source of the package.\<close>

definition import_resolved ::
    "file_system \<Rightarrow> string list \<Rightarrow> mojo_contract \<Rightarrow> mojo_target \<Rightarrow> mojo_import_evidence \<Rightarrow> bool" where
  "import_resolved fs root contract t e \<longleftrightarrow>
     ie_path e \<noteq> package_import_path (mc_gn_package_path contract) (ie_source e) \<and>
     (if ie_local e
      then \<exists>owner. owns contract owner (ie_path e) \<and>
             ie_dependency_label e = (if owner = mt_name t then None else Some ('':'' @ owner))
      else (\<nexists>owner. owns contract owner (ie_path e)) \<and> \<not> in_package fs root contract (ie_path e) \<and>
           (\<exists>label. ie_dependency_label e = Some label \<and> (ie_path e, label) \<in> set (mt_external_imports t)))"

definition target_described ::
    "mojo_codec \<Rightarrow> file_system \<Rightarrow> string list \<Rightarrow> mojo_contract \<Rightarrow> mojo_target \<Rightarrow> mojo_target_evidence \<Rightarrow> bool" where
  "target_described c fs root contract t E \<longleftrightarrow>
     te_name E = mt_name t \<and>
     (\<forall>s\<in>set (mt_sources t). \<exists>p h. source_reads c fs root s h p \<and>
        \<lparr>se_source = s, se_sha256 = h, se_module = pm_module p\<rparr> \<in> set (te_sources E) \<and>
        (\<forall>i\<in>set (pm_imports p). \<exists>e\<in>set (te_imports E). ie_source e = s \<and> ie_line e = pi_line i \<and>
           normalize_import_path (pi_path i) = Inr (ie_path e)) \<and>
        (\<forall>d\<in>set (pm_declarations p).
           \<lparr>de_source = s, de_line = pd_line d, de_kind = pd_kind d, de_name = pd_name d,
             de_module = pm_module p\<rparr> \<in> set (te_declarations E))) \<and>
     (\<forall>e\<in>set (te_imports E). import_resolved fs root contract t e) \<and>
     set (te_public_deps E) = {label. \<exists>e\<in>set (te_imports E). ie_dependency_label e = Some label} \<and>
     (\<forall>p\<in>fst ` set (mt_external_imports t). \<exists>e\<in>set (te_imports E). ie_path e = p \<and> \<not> ie_local e) \<and>
     distinct (map declaration_key (te_declarations E))"

lemma read_mojom_correct:
  assumes "try_fold (read_mojom c fs root) sources ([], []) = Inr (parsed, hashes)"
    and "btm_get parsed s = Some p" and "btm_get hashes s = Some h"
  shows "source_reads c fs root s h p"
proof -
  let ?P = "\<lambda>(parsed, hashes). ascending_keys parsed \<and> ascending_keys hashes \<and>
    (\<forall>s p h. btm_get parsed s = Some p \<longrightarrow> btm_get hashes s = Some h \<longrightarrow> source_reads c fs root s h p)"
  have "?P (parsed, hashes)"
    by (rule try_fold_invariant [OF assms(1)])
      (auto simp: read_mojom_def and_then_Inr_iff read_mojo_file_def ok_or_Inr_iff source_reads_def
        ascending_btm_insert split: if_splits prod.splits)
  then show ?thesis using assms(2,3) by auto
qed

lemma owner_map_Some: "btm_get (owner_map contract) p = Some owner \<Longrightarrow> owns contract owner p"
  unfolding owner_map_def get_btm_of_list by (drule map_of_SomeD) (auto simp: owns_def)

lemma owner_map_None: "btm_get (owner_map contract) p = None \<Longrightarrow> \<not> owns contract owner p"
  unfolding owner_map_def get_btm_of_list map_of_eq_None_iff by (force simp: owns_def)

definition package_of ::
    "file_system \<Rightarrow> string list \<Rightarrow> mojo_contract \<Rightarrow> (string \<times> parsed_mojom) list \<Rightarrow> (string \<times> string) list \<Rightarrow>
     package_scan" where
  "package_of fs root contract parsed hashes =
     \<lparr>pk_fs = fs, pk_root = root, pk_package = mc_gn_package_path contract, pk_owner = owner_map contract,
      pk_parsed = parsed, pk_hashes = hashes\<rparr>"

lemma package_of_simps [simp]:
  "pk_fs (package_of fs root contract parsed hashes) = fs"
  "pk_root (package_of fs root contract parsed hashes) = root"
  "pk_package (package_of fs root contract parsed hashes) = mc_gn_package_path contract"
  "pk_owner (package_of fs root contract parsed hashes) = owner_map contract"
  "pk_parsed (package_of fs root contract parsed hashes) = parsed"
  "pk_hashes (package_of fs root contract parsed hashes) = hashes"
  by (simp_all add: package_of_def)

lemma resolve_import_external:
  assumes "resolve_import pk t source line p = Inr (label, False)"
  shows "\<not> (\<exists>relative. package_relative_import (pk_package pk) p = Some relative \<and>
    is_file (pk_fs pk) (path_join (absolute (pk_root pk)) (components relative)))"
  using assms by (cases "package_relative_import (pk_package pk) p")
    (auto simp: resolve_import_def split: option.splits if_splits)

lemma import_resolvedI:
  assumes "resolve_import (package_of fs root contract parsed hashes) t (ie_source e) (ie_line e) (ie_path e) =
      Inr (ie_dependency_label e, ie_local e)"
    and "ie_path e \<noteq> package_import_path (mc_gn_package_path contract) (ie_source e)"
  shows "import_resolved fs root contract t e"
proof (cases "ie_local e")
  case False
  then obtain label where l: "btm_get (owner_map contract) (ie_path e) = None"
    "ie_dependency_label e = Some label" "btm_get (mt_external_imports t) (ie_path e) = Some label"
    using resolve_import_owner [OF assms(1)] by auto
  have "\<not> in_package fs root contract (ie_path e)"
    using resolve_import_external [of "package_of fs root contract parsed hashes"] assms(1) False
    by (simp add: in_package_def)
  moreover have "(ie_path e, label) \<in> set (mt_external_imports t)" using l(3) by (rule map_of_SomeD)
  moreover have "\<nexists>owner. owns contract owner (ie_path e)" using owner_map_None [OF l(1)] by blast
  ultimately show ?thesis using assms(2) False l(2) by (simp add: import_resolved_def)
next
  case True
  then obtain owner where o: "btm_get (owner_map contract) (ie_path e) = Some owner"
    "ie_dependency_label e = (if owner = mt_name t then None else Some ('':'' @ owner))"
    using resolve_import_owner [OF assms(1)] by auto
  then show ?thesis using owner_map_Some [OF o(1)] assms(2) True by (auto simp: import_resolved_def)
qed

lemma evidence_of_described:
  assumes "evidence_of (package_of fs root contract parsed hashes) t E"
    and "\<And>s p h. btm_get parsed s = Some p \<Longrightarrow> btm_get hashes s = Some h \<Longrightarrow> source_reads c fs root s h p"
  shows "target_described c fs root contract t E"
proof -
  have "import_resolved fs root contract t e" if "e \<in> set (te_imports E)" for e
    using assms(1) that by (intro import_resolvedI [of fs root contract parsed hashes]) (simp_all add: evidence_of_def)
  note resolved = this
  note e = assms(1) [unfolded evidence_of_def package_of_simps]
  show ?thesis
    unfolding target_described_def
  proof (intro conjI ballI)
    fix s assume "s \<in> set (mt_sources t)"
    with e obtain p h where p: "btm_get parsed s = Some p" "btm_get hashes s = Some h"
      "\<lparr>se_source = s, se_sha256 = h, se_module = pm_module p\<rparr> \<in> set (te_sources E)"
      "\<forall>i\<in>set (pm_imports p). \<exists>e\<in>set (te_imports E). ie_source e = s \<and> ie_line e = pi_line i \<and>
         normalize_import_path (pi_path i) = Inr (ie_path e)"
      "\<forall>d\<in>set (pm_declarations p).
         \<lparr>de_source = s, de_line = pd_line d, de_kind = pd_kind d, de_name = pd_name d,
           de_module = pm_module p\<rparr> \<in> set (te_declarations E)"
      by meson
    show "\<exists>p h. source_reads c fs root s h p \<and>
        \<lparr>se_source = s, se_sha256 = h, se_module = pm_module p\<rparr> \<in> set (te_sources E) \<and>
        (\<forall>i\<in>set (pm_imports p). \<exists>e\<in>set (te_imports E). ie_source e = s \<and> ie_line e = pi_line i \<and>
           normalize_import_path (pi_path i) = Inr (ie_path e)) \<and>
        (\<forall>d\<in>set (pm_declarations p).
           \<lparr>de_source = s, de_line = pd_line d, de_kind = pd_kind d, de_name = pd_name d,
             de_module = pm_module p\<rparr> \<in> set (te_declarations E))"
      using assms(2) [OF p(1,2)] p(3-5) by (intro exI [of _ p] exI [of _ h] conjI)
  next
    fix p assume "p \<in> fst ` set (mt_external_imports t)"
    with e show "\<exists>e\<in>set (te_imports E). ie_path e = p \<and> \<not> ie_local e" by meson
  qed (use e resolved in simp_all)
qed

definition package_edges :: "mojo_target_evidence list \<Rightarrow> (string \<times> string) set" where
  "package_edges evidence = {(te_name E, owner) | E owner. E \<in> set evidence \<and> owner \<in> local_edges E}"

lemma scan_contract_correct:
  assumes "scan_contract c fs root contract = Inr evidence" and "sorted (map mt_name (mc_targets contract))"
  shows "list_all2 (target_described c fs root contract) (mc_targets contract) evidence \<and>
    acyclic (package_edges evidence)"
proof -
  from assms(1) obtain parsed hashes evidence0 g where r:
    "try_fold (read_mojom c fs root) (all_sources contract) ([], []) = Inr (parsed, hashes)"
    "try_fold (scan_target
       (package_of fs root contract parsed hashes)) (mc_targets contract) ([], []) = Inr (evidence0, g)"
    "reject_dependency_cycle g = Inr ()" "evidence = sort_key te_name evidence0"
    by (auto simp: scan_contract_def and_then_Inr_iff package_of_def)
  obtain st where st: "visit_dependencies g (map fst g) (Map.empty, []) = Inr st"
    using r(3) by (cases "visit_dependencies g (map fst g) (Map.empty, [])") (auto simp: reject_dependency_cycle_def)
  have all: "list_all2 (\<lambda>t E. target_described c fs root contract t E \<and>
      local_edges E \<subseteq> set (graph_dependencies g (mt_name t))) (mc_targets contract) evidence0"
    by (rule list_all2_mono [OF scan_targets_evidence [OF r(2)]])
      (use evidence_of_described read_mojom_correct [OF r(1)] in blast)
  then have "map te_name evidence0 = map mt_name (mc_targets contract)"
    by (induction rule: list_all2_induct) (simp_all add: target_described_def)
  then have "evidence = evidence0" using assms(2) r(4) by (simp add: sort_key_id_if_sorted)
  moreover have "package_edges evidence0 \<subseteq> dep_edges g"
  proof
    fix x assume "x \<in> package_edges evidence0"
    then obtain E owner where x: "x = (te_name E, owner)" "E \<in> set evidence0" "owner \<in> local_edges E"
      by (auto simp: package_edges_def)
    then obtain t where "target_described c fs root contract t E"
      "local_edges E \<subseteq> set (graph_dependencies g (mt_name t))"
      using all by (metis (no_types, lifting) in_set_conv_nth list_all2_conv_all_nth)
    then show "x \<in> dep_edges g" using x by (auto simp: dep_edges_def target_described_def)
  qed
  moreover have "acyclic (dep_edges g)"
    using Domain_dep_edges [of g] by (intro search_acyclic [OF st]) auto
  ultimately show ?thesis
    using all by (auto intro: acyclic_subset elim: list_all2_mono)
qed

lemma validate_contract_sorted:
  "validate_contract fs root raw = Inr contract \<Longrightarrow> sorted (map mt_name (mc_targets contract))"
  by (auto simp: validate_contract_def and_then_Inr_iff split: if_splits)

text \<open>C7: What is generated for a package describes it: every target of the validated contract has its
  evidence, with every source that was read, every declaration, and every import of these sources resolved,
  to the target that owns the imported file or else to the label the contract maps it to, which the
  package then has no file for; the public dependencies are exactly the labels of the imports, every
  mapping is used, no declaration is made twice, and the targets depend on each other without a cycle.\<close>

theorem generate_mojo_correct:
  assumes "generate_mojo c fs options = Inr g"
  shows "\<exists>root raw contract evidence.
    canonicalize fs (components (mo_package_root options)) = Some root \<and>
    validate_contract fs root raw = Inr contract \<and>
    list_all2 (target_described c fs root contract) (mc_targets contract) evidence \<and>
    acyclic (package_edges evidence) \<and> gm_build_gn g = render_build_gn evidence \<and>
    ms_import_count (gm_summary g) = sum_list (map (\<lambda>E. length (te_imports E)) evidence)"
proof -
  from assms obtain root raw contract evidence contract_path output_path where
    "canonicalize fs (components (mo_package_root options)) = Some root"
    "validate_contract fs root raw = Inr contract" "scan_contract c fs root contract = Inr evidence"
    "gm_build_gn g = render_build_gn evidence"
    "gm_summary g = summary_of contract_path output_path (mc_gn_package_path contract) (mo_check options) evidence"
    unfolding generate_mojo_def Let_def and_then_Inr_iff ok_or_Inr_iff
    by (auto simp: and_then_Inr_iff ok_or_Inr_iff split: if_splits)
  with scan_contract_correct [OF this(3) validate_contract_sorted [OF this(2)]] show ?thesis
    by (auto simp: summary_of_def count_all_def o_def)
qed

section \<open>Validation\<close>

definition label_ok :: "string \<Rightarrow> bool" where
  "label_ok label \<longleftrightarrow> (starts_with ''//'' label \<or> starts_with '':'' label) \<and> list_all gn_label_byte label"

definition target_ok :: "file_system \<Rightarrow> string list \<Rightarrow> mojo_target \<Rightarrow> bool" where
  "target_ok fs root t \<longleftrightarrow>
     valid_target_name (mt_name t) \<and> mt_sources t \<noteq> [] \<and> ascending (mt_sources t) \<and>
     (\<forall>s\<in>set (mt_sources t). repo_path s \<and> mojom_extension s \<and>
        is_file fs (path_join (absolute root) (components s))) \<and>
     ascending_keys (mt_external_imports t) \<and>
     (\<forall>(p, label)\<in>set (mt_external_imports t). repo_path p \<and> mojom_extension p \<and> label_ok label \<and>
        starts_with ''//'' label) \<and>
     (\<forall>label\<in>set (mt_parser_deps t) \<union> set (mt_visibility t). label_ok label) \<and>
     distinct (mt_parser_deps t) \<and> distinct (mt_visibility t)"

definition contract_ok :: "file_system \<Rightarrow> string list \<Rightarrow> mojo_contract \<Rightarrow> bool" where
  "contract_ok fs root contract \<longleftrightarrow>
     mc_targets contract \<noteq> [] \<and> ascending (map mt_name (mc_targets contract)) \<and>
     (\<forall>t\<in>set (mc_targets contract). target_ok fs root t) \<and>
     distinct (concat (map (generated_target_names \<circ> mt_name) (mc_targets contract))) \<and>
     distinct (concat (map mt_sources (mc_targets contract)))"

lemma claim_generated_Inr:
  "claim_generated name g cn = Inr cn' \<longleftrightarrow>
     g \<notin> fst ` set (cn_generated cn) \<and> cn' = cn\<lparr>cn_generated := btm_insert g name (cn_generated cn)\<rparr>"
  by (auto simp: claim_generated_def map_of_eq_None_iff [symmetric] split: option.splits)

lemma claim_generated_fold:
  "try_fold (claim_generated name) gs cn = Inr cn' \<Longrightarrow> ascending_keys (cn_generated cn) \<Longrightarrow>
   distinct gs \<and> set gs \<inter> fst ` set (cn_generated cn) = {} \<and> ascending_keys (cn_generated cn') \<and>
   fst ` set (cn_generated cn') = fst ` set (cn_generated cn) \<union> set gs \<and>
   cn_targets cn' = cn_targets cn \<and> cn_sources cn' = cn_sources cn"
proof (induction gs arbitrary: cn)
  case (Cons g gs)
  let ?cn = "cn\<lparr>cn_generated := btm_insert g name (cn_generated cn)\<rparr>"
  have g: "g \<notin> fst ` set (cn_generated cn)" "try_fold (claim_generated name) gs ?cn = Inr cn'"
    using Cons.prems(1) unfolding try_fold_Cons_Inr claim_generated_Inr by auto
  have "ascending_keys (cn_generated ?cn)" using Cons.prems(2) by (simp add: ascending_btm_insert)
  from Cons.IH [OF g(2) this] g(1) show ?case by auto
qed simp

definition source_ok :: "file_system \<Rightarrow> string list \<Rightarrow> string \<Rightarrow> bool" where
  "source_ok fs root s \<longleftrightarrow>
     repo_path s \<and> mojom_extension s \<and> is_file fs (path_join (absolute root) (components s))"

lemma claim_source_Inr:
  assumes "claim_source fs root name s (cn, acc) = Inr u"
  obtains n where "source_ok fs root n" and "n \<notin> fst ` set (cn_sources cn)"
    and "u = (cn\<lparr>cn_sources := btm_insert n name (cn_sources cn)\<rparr>, bts_insert n acc)"
proof -
  obtain n where n: "normalize_mojom_source s = Inr n" "is_file fs (path_join (absolute root) (components n))"
    "n \<notin> fst ` set (cn_sources cn)"
    "u = (cn\<lparr>cn_sources := btm_insert n name (cn_sources cn)\<rparr>, bts_insert n acc)"
    using assms
    by (auto simp: claim_source_def and_then_Inr_iff map_of_eq_None_iff [symmetric]
        split: option.splits if_splits)
  moreover have "source_ok fs root n"
    using n(1,2) normalize_repo_path
    by (auto simp: source_ok_def normalize_mojom_source_def and_then_Inr_iff ok_or_Inr_iff split: if_splits)
  ultimately show thesis using that by blast
qed

lemma claim_source_fold:
  "try_fold (claim_source fs root name) sources (cn, acc) = Inr (cn', acc') \<Longrightarrow>
   ascending_keys (cn_sources cn) \<Longrightarrow> ascending acc \<Longrightarrow> set acc \<subseteq> fst ` set (cn_sources cn) \<Longrightarrow>
   ascending_keys (cn_sources cn') \<and> ascending acc' \<and> (sources \<noteq> [] \<or> acc \<noteq> [] \<longrightarrow> acc' \<noteq> []) \<and>
   (\<forall>s\<in>set acc' - set acc. source_ok fs root s \<and> s \<notin> fst ` set (cn_sources cn)) \<and>
   fst ` set (cn_sources cn') = fst ` set (cn_sources cn) \<union> set acc' \<and> set acc \<subseteq> set acc' \<and>
   cn_targets cn' = cn_targets cn \<and> cn_generated cn' = cn_generated cn"
proof (induction sources arbitrary: cn acc)
  case (Cons s sources)
  then obtain u where u: "claim_source fs root name s (cn, acc) = Inr u"
    "try_fold (claim_source fs root name) sources u = Inr (cn', acc')"
    unfolding try_fold_Cons_Inr by blast
  from u(1) obtain n where ok: "source_ok fs root n" and n: "n \<notin> fst ` set (cn_sources cn)"
    and step: "u = (cn\<lparr>cn_sources := btm_insert n name (cn_sources cn)\<rparr>, bts_insert n acc)"
    by (rule claim_source_Inr)
  let ?cn = "cn\<lparr>cn_sources := btm_insert n name (cn_sources cn)\<rparr>"
  have "bts_insert n acc \<noteq> []" by (metis set_bts_insert insert_not_empty list.set(1))
  moreover have "ascending_keys (cn_sources ?cn)" "ascending (bts_insert n acc)"
    "set (bts_insert n acc) \<subseteq> fst ` set (cn_sources ?cn)"
    using Cons.prems(2-4) by (auto simp: ascending_btm_insert ascending_bts_insert)
  note IH = Cons.IH [OF u(2) [unfolded step] this]
  have "fst ` set (cn_sources cn') = fst ` set (cn_sources cn) \<union> set acc'"
    using IH by (simp add: set_eq_iff) blast
  moreover have "source_ok fs root s \<and> s \<notin> fst ` set (cn_sources cn)" if "s \<in> set acc' - set acc" for s
    using IH n ok that by (cases "s = n") simp_all
  ultimately show ?case using IH by simp
qed (simp, blast)

lemma rsplit_prefix: "rsplit_once p s = Some (a, b) \<Longrightarrow> \<exists>r. s = a @ r"
  using rsplit_once_Some by fastforce

lemma canonical_label_ok: "valid_label l \<Longrightarrow> label_ok (canonical_gn_label l)"
proof (cases "canonical_gn_label l = l")
  case False
  then obtain path target where p: "rsplit_once '':'' l = Some (path, target)" "canonical_gn_label l = path"
    "starts_with ''//'' path"
    by (auto simp: canonical_gn_label_def split: option.splits if_splits)
  moreover from rsplit_prefix [OF p(1)] obtain r where "l = path @ r" by blast
  ultimately show "valid_label l \<Longrightarrow> ?thesis" by (simp add: valid_label_def label_ok_def)
qed (simp add: valid_label_def label_ok_def)

lemma canonical_label_absolute:
  "valid_label l \<Longrightarrow> starts_with ''//'' l \<Longrightarrow> starts_with ''//'' (canonical_gn_label l)"
  by (auto simp: canonical_gn_label_def split: option.split)

lemma normalize_labels_ok:
  assumes "normalize_labels ls = Inr ls'"
  shows "(\<forall>l\<in>set ls'. label_ok l) \<and> distinct ls'"
proof -
  from assms obtain xs where xs: "ls' = sort_key gn_label_key (bts_of_list xs)"
    "list_all2 (\<lambda>l x. (if valid_label l then Inr (canonical_gn_label l) else Inl (InvalidGnLabel l)) = Inr x) ls xs"
    by (auto simp: normalize_labels_def and_then_Inr_iff try_map_Inr_iff)
  from xs(2) have "\<forall>x\<in>set xs. label_ok x"
    by (induction rule: list_all2_induct) (auto simp: canonical_label_ok split: if_splits)
  then show ?thesis using xs(1) ascending_distinct [OF ascending_bts_of_list, of xs] by simp
qed

definition import_ok :: "string \<times> string \<Rightarrow> bool" where
  "import_ok = (\<lambda>(p, label). repo_path p \<and> mojom_extension p \<and> label_ok label \<and> starts_with ''//'' label)"

lemma claim_import_Inr:
  assumes "claim_import name (p, label) acc = Inr acc'"
  obtains p' where "p' \<notin> fst ` set acc" and "acc' = btm_insert p' (canonical_gn_label label) acc"
    and "import_ok (p', canonical_gn_label label)"
proof -
  from assms obtain p' where p': "normalize_import_path p = Inr p'" "starts_with ''//'' label" "valid_label label"
    "p' \<notin> fst ` set acc" "acc' = btm_insert p' (canonical_gn_label label) acc"
    by (auto simp: claim_import_def and_then_Inr_iff map_of_eq_None_iff split: if_splits)
  moreover have "repo_path p' \<and> mojom_extension p'"
    using p'(1) normalize_repo_path
    by (auto simp: normalize_import_path_def Let_def and_then_Inr_iff ok_or_Inr_iff split: if_splits)
  ultimately show thesis
    using that canonical_label_ok canonical_label_absolute by (simp add: import_ok_def)
qed

lemma claim_import_fold:
  assumes "try_fold (claim_import name) mapped [] = Inr mapped'"
  shows "ascending_keys mapped' \<and> (\<forall>i\<in>set mapped'. import_ok i)"
proof (rule try_fold_invariant [OF assms])
  fix i u v assume inv: "ascending_keys u \<and> (\<forall>i\<in>set u. import_ok i)" and step: "claim_import name i u = Inr v"
  obtain p label where "i = (p, label)" by (cases i)
  with step obtain p' where p': "p' \<notin> fst ` set u" "v = btm_insert p' (canonical_gn_label label) u"
    "import_ok (p', canonical_gn_label label)"
    by (metis claim_import_Inr)
  have asc: "ascending_keys v" using inv by (simp add: p'(2) ascending_btm_insert)
  moreover have "import_ok (k, l)" if "(k, l) \<in> set v" for k l
  proof -
    have "btm_get v k = Some l" using that asc btm.get_Some_iff by metis
    then show ?thesis
      using inv p'(3) by (auto simp: p'(2) map_of_SomeD split: if_splits dest!: map_of_SomeD)
  qed
  ultimately show "ascending_keys v \<and> (\<forall>i\<in>set v. import_ok i)" by auto
qed simp

definition names_inv :: "file_system \<Rightarrow> string list \<Rightarrow> contract_names \<times> mojo_target list \<Rightarrow> bool" where
  "names_inv fs root = (\<lambda>(cn, targets).
     ascending_keys (cn_generated cn) \<and> ascending_keys (cn_sources cn) \<and>
     set (cn_targets cn) = mt_name ` set targets \<and> distinct (map mt_name targets) \<and>
     fst ` set (cn_generated cn) = set (concat (map (generated_target_names \<circ> mt_name) targets)) \<and>
     distinct (concat (map (generated_target_names \<circ> mt_name) targets)) \<and>
     fst ` set (cn_sources cn) = set (concat (map mt_sources targets)) \<and>
     distinct (concat (map mt_sources targets)) \<and> (\<forall>t\<in>set targets. target_ok fs root t))"

lemma validate_target_step:
  assumes "validate_target fs root t (cn, targets) = Inr v" and "names_inv fs root (cn, targets)"
  shows "names_inv fs root v"
proof -
  let ?cn = "cn\<lparr>cn_targets := bts_insert (mt_name t) (cn_targets cn)\<rparr>"
  from assms(1) obtain cn1 cn2 sources mapped parser_deps visibility where r:
    "valid_target_name (mt_name t)" "mt_name t \<notin> set (cn_targets cn)"
    "try_fold (claim_generated (mt_name t)) (generated_target_names (mt_name t)) ?cn = Inr cn1"
    "mt_sources t \<noteq> []"
    "try_fold (claim_source fs root (mt_name t)) (mt_sources t) (cn1, []) = Inr (cn2, sources)"
    "try_fold (claim_import (mt_name t)) (mt_external_imports t) [] = Inr mapped"
    "normalize_labels (mt_parser_deps t) = Inr parser_deps"
    "normalize_labels (mt_visibility t) = Inr visibility"
    "v = (cn2, targets @ [t\<lparr>mt_sources := sources, mt_external_imports := mapped,
       mt_parser_deps := parser_deps, mt_visibility := visibility\<rparr>])"
    by (auto simp: validate_target_def Let_def and_then_Inr_iff split: if_splits prod.splits)
  note inv = assms(2) [unfolded names_inv_def prod.case]
  have 1: "distinct (generated_target_names (mt_name t)) \<and>
      set (generated_target_names (mt_name t)) \<inter> fst ` set (cn_generated cn) = {} \<and>
      ascending_keys (cn_generated cn1) \<and>
      fst ` set (cn_generated cn1) = fst ` set (cn_generated cn) \<union> set (generated_target_names (mt_name t)) \<and>
      cn_targets cn1 = bts_insert (mt_name t) (cn_targets cn) \<and> cn_sources cn1 = cn_sources cn"
    using claim_generated_fold [OF r(3)] inv by simp
  then have "ascending_keys (cn_sources cn1)" using inv by simp
  note 2 = claim_source_fold [OF r(5) this]
  have ok: "target_ok fs root (t\<lparr>mt_sources := sources, mt_external_imports := mapped,
      mt_parser_deps := parser_deps, mt_visibility := visibility\<rparr>)"
    using 2 r(1,4) claim_import_fold [OF r(6)] normalize_labels_ok [OF r(7)] normalize_labels_ok [OF r(8)]
    by (auto simp: target_ok_def source_ok_def import_ok_def)
  have fresh: "set sources \<inter> fst ` set (cn_sources cn) = {}" "distinct sources"
    "fst ` set (cn_sources cn2) = fst ` set (cn_sources cn) \<union> set sources"
    using 2 1 ascending_distinct by auto
  show ?thesis
    unfolding r(9) names_inv_def prod.case
    using 1 2 inv ok fresh r(2) by auto
qed

lemma mset_concat_sort_key: "mset (concat (map f (sort_key k xs))) = mset (concat (map f xs))"
proof -
  have "mset (concat (map f ys)) = (\<Sum>x\<in>#mset ys. mset (f x))" for ys by (induction ys) auto
  then show ?thesis by simp
qed

lemma concat_sort_key:
  "distinct (concat (map f (sort_key k xs))) = distinct (concat (map f xs))"
  by (rule mset_eq_imp_distinct_iff) (rule mset_concat_sort_key)

lemma sorted_distinct_ascending: "sorted xs \<Longrightarrow> distinct xs \<Longrightarrow> ascending xs"
  by (simp add: strict_sorted_iff)

text \<open>C10: A contract that validation returns is well-formed: its targets have distinct valid names, in order; no
  two targets generate the same GN target; every source is a path in the package with the extension of a
  Mojom file, names a file, and belongs to one target only; external imports map distinct Mojom paths to
  absolute labels; labels have only label characters and are listed once.\<close>

theorem validate_contract_well_formed:
  assumes "validate_contract fs root raw = Inr contract"
  shows "contract_ok fs root contract"
proof -
  from assms obtain cn targets where t: "mc_targets raw \<noteq> []"
    "try_fold (validate_target fs root) (mc_targets raw)
       (\<lparr>cn_targets = [], cn_generated = [], cn_sources = []\<rparr>, []) = Inr (cn, targets)"
    "mc_targets contract = sort_key mt_name targets"
    by (auto simp: validate_contract_def and_then_Inr_iff split: if_splits)
  have inv: "names_inv fs root (cn, targets)"
  proof (rule try_fold_invariant [OF t(2)])
    show "names_inv fs root v" if "names_inv fs root u" "validate_target fs root x u = Inr v" for x u v
      using that by (cases u) (auto intro: validate_target_step)
  qed (simp add: names_inv_def)
  have "snd v \<noteq> []" if "validate_target fs root x u = Inr v" for x u v
    using that by (cases u) (auto simp: validate_target_def Let_def and_then_Inr_iff split: if_splits prod.splits)
  note step = this
  obtain ts x where "mc_targets raw = ts @ [x]" using t(1) by (cases "mc_targets raw" rule: rev_cases) auto
  with t(2) obtain u where "validate_target fs root x u = Inr (cn, targets)"
    by (auto simp: try_fold_append split: sum.splits)
  from step [OF this] have "targets \<noteq> []" by simp
  then have "mc_targets contract \<noteq> []" using t(3) by (metis set_empty set_sort)
  then show ?thesis
    using inv t(3)
    by (auto simp: contract_ok_def names_inv_def concat_sort_key distinct_map_sort_key
        intro: sorted_distinct_ascending)
qed

section \<open>Quoting\<close>

text \<open>A GN string literal from after its quote: the three escapes GN knows, and no bare dollar sign.\<close>

fun read_gn_string :: "string \<Rightarrow> (string \<times> string) option" where
  "read_gn_string [] = None"
| "read_gn_string (c # s) =
     (if c = CHR 0x22 then Some ([], s)
      else if c = CHR ''$'' then None
      else if c = CHR 0x5C then
        (case s of
           [] \<Rightarrow> None
         | e # s' \<Rightarrow>
             if e \<in> {CHR 0x22, CHR ''$'', CHR 0x5C}
             then map_option (\<lambda>(v, rest). (e # v, rest)) (read_gn_string s')
             else map_option (\<lambda>(v, rest). (c # v, rest)) (read_gn_string s))
      else map_option (\<lambda>(v, rest). (c # v, rest)) (read_gn_string s))"

declare read_gn_string.simps(2) [simp del]

definition escape_gn_byte :: "char \<Rightarrow> string" where
  "escape_gn_byte c = (if c \<in> {CHR 0x22, CHR ''$'', CHR 0x5C} then [CHR 0x5C, c] else [c])"

lemma replace_with_simps [simp]:
  "replace_with x w [] = []" "replace_with x w (c # s) = (if c = x then w else [c]) @ replace_with x w s"
  "replace_with x w (s @ t) = replace_with x w s @ replace_with x w t"
  by (simp_all add: replace_with_def)

lemma escape_gn_bytes: "escape_gn s = concat (map escape_gn_byte s)"
  by (induction s) (auto simp: escape_gn_def escape_gn_byte_def)

text \<open>No string can break out of its quotes in a generated file: GN reads back exactly the string that was
  quoted, whatever quotes, dollar signs and backslashes it has, and continues after it.\<close>

theorem escape_gn_roundtrip: "read_gn_string (escape_gn s @ CHR 0x22 # rest) = Some (s, rest)"
proof -
  have "read_gn_string (concat (map escape_gn_byte s) @ CHR 0x22 # rest) = Some (s, rest)"
  proof (induction s)
    case (Cons c s)
    have "read_gn_string (escape_gn_byte c @ u) = map_option (\<lambda>(v, rest). (c # v, rest)) (read_gn_string u)" for u
      by (auto simp: escape_gn_byte_def read_gn_string.simps(2))
    then show ?case using Cons by simp
  qed (simp add: read_gn_string.simps(2))
  then show ?thesis by (simp add: escape_gn_bytes)
qed

section \<open>Two oversights\<close>

text \<open>\<open>Path::parent\<close> of a bare file name is the empty path, not \<open>None\<close>, and the empty path has no real path:
  an output in the working directory is refused.\<close>

lemma bare_output_refused: "package_output fs root ''BUILD.gn'' = Inl (InvalidOutputPath ''BUILD.gn'')"
proof -
  have "parent_path ''BUILD.gn'' = Some []" "components [] = []" by code_simp+
  then show ?thesis by (simp add: package_output_def canonicalize_def)
qed

text \<open>Nothing keeps the contract apart from the files that are written: a contract with the name of the
  provenance is replaced by it.\<close>

lemma contract_overwritten:
  assumes "generate_mojo_and_write c v options d = (Inr g, d')" and "\<not> mo_check options"
    and "components (mo_contract options) = components (provenance_path (mo_output options))"
  shows "read_file (tree d') (components (mo_contract options)) = Some (gm_provenance_json g)"
proof -
  obtain d1 where "write_mojo_file v (provenance_path (mo_output options)) (gm_provenance_json g) d1 = (Inr (), d')"
    using assms(1,2)
    by (auto simp: generate_mojo_and_write_def Let_def split: sum.splits prod.splits)
  then have "fs_write (dv_write_fault v (provenance_path (mo_output options)))
      (components (provenance_path (mo_output options))) (gm_provenance_json g) d1 = (True, d')"
    by (auto simp: write_mojo_file_def split: prod.splits if_splits)
  then show ?thesis using fs_write_reads assms(3) by (metis fst_conv snd_conv)
qed

section \<open>Witnesses\<close>

text \<open>A package with two targets: one imports the other and a file of another package.\<close>

definition sample_mojo_contract :: mojo_contract where
  "sample_mojo_contract =
     \<lparr>mc_schema_version = 1, mc_gn_package_path = ''//p'',
      mc_targets =
        [\<lparr>mt_name = ''b'', mt_sources = [''b.mojom''], mt_external_imports = [(''x/c.mojom'', ''//x:c'')],
          mt_parser_deps = [], mt_visibility = [], mt_testonly = False\<rparr>,
         \<lparr>mt_name = ''a'', mt_sources = [''a.mojom''], mt_external_imports = [],
          mt_parser_deps = [], mt_visibility = [], mt_testonly = False\<rparr>]\<rparr>"

definition sample_mojo_codec :: mojo_codec where
  "sample_mojo_codec =
     \<lparr>mojo_digest = (\<lambda>_. []), mojo_contract_from_json = (\<lambda>_. Some sample_mojo_contract),
      mojo_provenance_to_json = (\<lambda>p. Some (pv_build_gn_path p))\<rparr>"

definition sample_package :: "string \<Rightarrow> disk" where
  "sample_package contract =
     \<lparr>dk_entries = [([''p''], DirEntry), ([''p'', contract], FileEntry 0), ([''p'', ''a.mojom''], FileEntry 1),
                    ([''p'', ''b.mojom''], FileEntry 2)],
      dk_inodes =
        [(0, \<lparr>ino_bytes = ''{}'', ino_mode = 0x1A4\<rparr>),
         (1, \<lparr>ino_bytes = ''module m; struct S {};'', ino_mode = 0x1A4\<rparr>),
         (2, \<lparr>ino_bytes = print_tokens 1
                [\<lparr>tk_kind = Ident ''import'', tk_line = 1\<rparr>, \<lparr>tk_kind = StringLit ''p/a.mojom'', tk_line = 1\<rparr>,
                 \<lparr>tk_kind = Punct (CHR '';''), tk_line = 1\<rparr>, \<lparr>tk_kind = Ident ''import'', tk_line = 2\<rparr>,
                 \<lparr>tk_kind = StringLit ''x/c.mojom'', tk_line = 2\<rparr>, \<lparr>tk_kind = Punct (CHR '';''), tk_line = 2\<rparr>],
              ino_mode = 0x1A4\<rparr>)],
      dk_cwd = [], dk_new_mode = 0x1A4\<rparr>"

definition sample_mojo_options :: "string \<Rightarrow> mojo_options" where
  "sample_mojo_options contract =
     \<lparr>mo_package_root = ''p'', mo_contract = ''p/'' @ contract, mo_output = ''p/BUILD.gn'', mo_force = True,
      mo_check = False\<rparr>"

lemma sample_generates:
  "case generate_mojo sample_mojo_codec (tree (sample_package ''m.json'')) (sample_mojo_options ''m.json'') of
     Inr g \<Rightarrow> ms_import_count (gm_summary g) = 2 | Inl e \<Rightarrow> False"
  by code_simp

lemma generate_mojo_correct_witness:
  "\<exists>root contract evidence.
     list_all2 (target_described sample_mojo_codec (tree (sample_package ''m.json'')) root contract)
       (mc_targets contract) evidence \<and> acyclic (package_edges evidence) \<and>
     sum_list (map (\<lambda>E. length (te_imports E)) evidence) = 2"
proof -
  obtain g where g: "generate_mojo sample_mojo_codec (tree (sample_package ''m.json''))
      (sample_mojo_options ''m.json'') = Inr g" "ms_import_count (gm_summary g) = 2"
    using sample_generates by (auto split: sum.splits)
  from generate_mojo_correct [OF g(1)] g(2) show ?thesis by metis
qed

lemma sample_validates:
  "case validate_contract (tree (sample_package ''m.json'')) [''p'']
      (sample_mojo_contract\<lparr>mc_targets := drop 1 (mc_targets sample_mojo_contract)\<rparr>) of
     Inr contract \<Rightarrow> True | Inl e \<Rightarrow> False"
  by code_simp

lemma validate_contract_well_formed_witness:
  "\<exists>contract. contract_ok (tree (sample_package ''m.json'')) [''p''] contract"
proof -
  obtain contract where c: "validate_contract (tree (sample_package ''m.json'')) [''p'']
      (sample_mojo_contract\<lparr>mc_targets := drop 1 (mc_targets sample_mojo_contract)\<rparr>) = Inr contract"
    using sample_validates by (auto split: sum.splits)
  from validate_contract_well_formed [OF c] show ?thesis by blast
qed

end
