(* ===== verification/DiskOps.thy ===== *)
theory DiskOps
  imports Disk "HOL-Library.Sublist"
begin

text \<open>
  More of \<open>std::fs\<close> on the disk: directories, removal, copies and appends, any of which the operating system
  may refuse or break off; and what each of them leaves alone.
\<close>

section \<open>Operations\<close>

text \<open>Which entries survive a removal that fails.\<close>

datatype removal_fault = Removed | Stopped "string list \<Rightarrow> bool"

definition removal_stops :: "removal_fault \<Rightarrow> bool" where
  "removal_stops f \<longleftrightarrow> (case f of Removed \<Rightarrow> False | Stopped _ \<Rightarrow> True)"

lemma removal_stops_simps [simp]: "\<not> removal_stops Removed" "removal_stops (Stopped kept)"
  by (simp_all add: removal_stops_def)

record volume = device +
  vl_mkdir_refused :: "path \<Rightarrow> bool"
  vl_removal_fault :: "path \<Rightarrow> removal_fault"

text \<open>The text of a path that has no empty and no idle segments.\<close>

fun show_component :: "component \<Rightarrow> string" where
  "show_component RootDir = []"
| "show_component CurDir = ''.''"
| "show_component ParentDir = ''..''"
| "show_component (Normal w) = w"

definition show_path :: "path \<Rightarrow> string" where
  "show_path p = (if p = [RootDir] then ''/'' else join ''/'' (map show_component p))"

text \<open>\<open>mkdir\<close>: made, refused because the parent does not exist, or refused for another reason.\<close>

datatype mkdir_outcome = Made | ParentMissing | NotMade

definition mkdir :: "volume \<Rightarrow> path \<Rightarrow> disk \<Rightarrow> mkdir_outcome \<times> disk" where
  "mkdir v p d =
     (if p = [] then (ParentMissing, d)
      else case last p of
        Normal w \<Rightarrow>
          (case follow (tree d) max_links (dk_cwd d) (butlast p) of
             None \<Rightarrow>
               (if follow_missing (tree d) max_links (dk_cwd d) (butlast p) then ParentMissing else NotMade, d)
           | Some dir \<Rightarrow>
               if entry_at d dir \<noteq> Some DirEntry \<or> entry_at d (dir @ [w]) \<noteq> None \<or> vl_mkdir_refused v p
               then (NotMade, d)
               else (Made, d\<lparr>dk_entries := (dir @ [w], DirEntry) # dk_entries d\<rparr>))
      | _ \<Rightarrow> (NotMade, d))"

text \<open>\<open>fs::create_dir_all\<close>\<close>

function create_dir_all :: "volume \<Rightarrow> path \<Rightarrow> disk \<Rightarrow> bool \<times> disk" where
  "create_dir_all v p d =
     (if p = [] then (True, d)
      else case mkdir v p d of
        (Made, d') \<Rightarrow> (True, d')
      | (NotMade, d') \<Rightarrow> (is_dir (tree d') p, d')
      | (ParentMissing, d') \<Rightarrow>
          (case create_dir_all v (butlast p) d' of
             (False, d2) \<Rightarrow> (False, d2)
           | (True, d2) \<Rightarrow>
               (case mkdir v p d2 of
                  (Made, d3) \<Rightarrow> (True, d3)
                | (_, d3) \<Rightarrow> (is_dir (tree d3) p, d3))))"
  by pat_completeness auto
termination
  by (relation "measure (\<lambda>(v, p, d). length p)") auto

declare create_dir_all.simps [simp del]

definition without :: "(string list \<Rightarrow> bool) \<Rightarrow> disk \<Rightarrow> disk" where
  "without P d = d\<lparr>dk_entries := filter (\<lambda>(real, _). \<not> P real) (dk_entries d)\<rparr>"

text \<open>\<open>fs::remove_file\<close>, and \<open>fs::remove_dir_all\<close>, which removes a link and not what it leads to.\<close>

definition remove_file :: "volume \<Rightarrow> path \<Rightarrow> disk \<Rightarrow> bool \<times> disk" where
  "remove_file v p d =
     (case link_location (tree d) p of
        None \<Rightarrow> (False, d)
      | Some real \<Rightarrow>
          if entry_at d real = None \<or> entry_at d real = Some DirEntry \<or> removal_stops (vl_removal_fault v p)
          then (False, d) else (True, without (\<lambda>q. q = real) d))"

definition remove_dir_all :: "volume \<Rightarrow> path \<Rightarrow> disk \<Rightarrow> bool \<times> disk" where
  "remove_dir_all v p d =
     (case link_location (tree d) p of
        None \<Rightarrow> (False, d)
      | Some real \<Rightarrow>
          (case entry_at d real of
             Some DirEntry \<Rightarrow>
               if real = [] then (False, d)
               else (case vl_removal_fault v p of
                       Removed \<Rightarrow> (True, without (prefix real) d)
                     | Stopped kept \<Rightarrow> (False, without (\<lambda>q. prefix real q \<and> \<not> kept q) d))
           | Some (LinkEntry _) \<Rightarrow>
               if removal_stops (vl_removal_fault v p) then (False, d) else (True, without (\<lambda>q. q = real) d)
           | _ \<Rightarrow> (False, d)))"

text \<open>\<open>fs::copy\<close> copies the mode too.\<close>

definition set_mode :: "path \<Rightarrow> 32 word \<Rightarrow> disk \<Rightarrow> disk" where
  "set_mode p mode d =
     (case Option.bind (canonicalize (tree d) p) (entry_at d) of
        Some (FileEntry i) \<Rightarrow> put_inode i ((inode_at d i)\<lparr>ino_mode := mode\<rparr>) d
      | _ \<Rightarrow> d)"

definition copy_file :: "volume \<Rightarrow> path \<Rightarrow> path \<Rightarrow> disk \<Rightarrow> bool \<times> disk" where
  "copy_file v source target d =
     (case Option.bind (canonicalize (tree d) source) (entry_at d) of
        Some (FileEntry i) \<Rightarrow>
          if dv_read_fails v (show_path source) then (False, d)
          else (case fs_write (dv_write_fault v (show_path target)) target (ino_bytes (inode_at d i)) d of
                  (True, d') \<Rightarrow> (True, set_mode target (ino_mode (inode_at d i)) d')
                | (False, d') \<Rightarrow> (False, d'))
      | _ \<Rightarrow> (False, d))"

text \<open>A file that is opened to append to it must exist.\<close>

definition append_file :: "volume \<Rightarrow> path \<Rightarrow> string \<Rightarrow> disk \<Rightarrow> bool \<times> disk" where
  "append_file v p bytes d =
     (let fault = dv_write_fault v (show_path p)
      in if fault = NotOpened then (False, d)
         else case Option.bind (canonicalize (tree d) p) (entry_at d) of
                Some (FileEntry i) \<Rightarrow>
                  (fault = NoFault,
                   put_inode i ((inode_at d i)\<lparr>ino_bytes := ino_bytes (inode_at d i) @ written_bytes fault bytes\<rparr>) d)
              | _ \<Rightarrow> (False, d))"

definition exists_at :: "disk \<Rightarrow> path \<Rightarrow> bool" where
  "exists_at d p \<longleftrightarrow> path_exists (tree d) p"

section \<open>Plain paths\<close>

text \<open>A disk whose entries form a tree.\<close>

definition tree_shaped :: "disk \<Rightarrow> bool" where
  "tree_shaped d \<longleftrightarrow> (\<forall>dir w. entry_at d (dir @ [w]) \<noteq> None \<longrightarrow> entry_at d dir = Some DirEntry)"

lemma entry_at_Nil [simp]: "entry_at d [] = Some DirEntry"
  by (simp add: entry_at_def)

lemma tree_shaped_butlast:
  "tree_shaped d \<Longrightarrow> real \<noteq> [] \<Longrightarrow> entry_at d real \<noteq> None \<Longrightarrow> entry_at d (butlast real) = Some DirEntry"
  by (metis append_butlast_last_id tree_shaped_def)

lemma tree_shaped_prefix:
  assumes "tree_shaped d" and "entry_at d (dir @ ws) \<noteq> None" and "ws \<noteq> []"
  shows "entry_at d dir = Some DirEntry"
  using assms(2,3)
proof (induction ws rule: rev_induct)
  case (snoc w ws)
  then have "entry_at d ((dir @ ws) @ [w]) \<noteq> None" by simp
  then have "entry_at d (dir @ ws) = Some DirEntry" using assms(1) unfolding tree_shaped_def by blast
  with snoc show ?case by (cases "ws = []") auto
qed simp

lemma real_dir_entry:
  assumes "tree_shaped d" and "entry_at d real = Some DirEntry"
  shows "real_dir (tree d) real"
proof -
  have "entry_at d (take k real) = Some DirEntry" if "k < length real" for k
    using tree_shaped_prefix [OF assms(1), of "take k real" "drop k real"] that assms(2) by simp
  then show ?thesis using assms(2) by (simp add: real_dir_def real_path_def fs_lookup_tree)
qed

lemma follow_absolute:
  assumes "tree_shaped d" and "entry_at d real = Some DirEntry"
  shows "follow (tree d) n dir (absolute real) = Some real"
  using follow_absolute_dir [OF real_dir_entry [OF assms], of n dir "[]"] by simp

lemma absolute_snoc: "absolute (dir @ [w]) = absolute dir @ [Normal w]"
  by (simp add: absolute_def)

lemma absolute_not_Nil [simp]: "absolute real \<noteq> []"
  by (simp add: absolute_def)

lemma link_location_absolute:
  assumes "tree_shaped d" and "entry_at d dir = Some DirEntry"
  shows "link_location (tree d) (absolute (dir @ [w])) = Some (dir @ [w])"
  using follow_absolute [OF assms] assms(2)
  by (simp add: link_location_def absolute_snoc fs_lookup_tree)

text \<open>A path on which there is no link, and what the operating system finds there.\<close>

definition unlinked :: "disk \<Rightarrow> string list \<Rightarrow> bool" where
  "unlinked d real \<longleftrightarrow> (\<forall>q t. prefix q real \<longrightarrow> entry_at d q \<noteq> Some (LinkEntry t))"

lemma unlinked_snoc:
  "unlinked d (dir @ [w]) \<longleftrightarrow> unlinked d dir \<and> (\<forall>t. entry_at d (dir @ [w]) \<noteq> Some (LinkEntry t))"
  by (auto simp: unlinked_def)

lemma unlinked_prefix: "unlinked d real \<Longrightarrow> prefix q real \<Longrightarrow> unlinked d q"
  by (auto simp: unlinked_def dest: prefix_order.trans)

lemma unlinked_entry: "unlinked d real \<Longrightarrow> entry_at d real \<noteq> Some (LinkEntry t)"
  by (simp add: unlinked_def)

lemma below_file:
  assumes "tree_shaped d" and "entry_at d dir \<noteq> Some DirEntry"
  shows "entry_at d (dir @ [w]) = None"
  using assms unfolding tree_shaped_def by blast

lemma below_missing:
  assumes "tree_shaped d" and "entry_at d dir = None" and "prefix dir q"
  shows "entry_at d q = None"
proof (rule ccontr)
  assume some: "entry_at d q \<noteq> None"
  from assms(3) obtain ws where q: "q = dir @ ws" by (auto simp: prefix_def)
  show False
  proof (cases "ws = []")
    case False
    then have "entry_at d dir = Some DirEntry" using tree_shaped_prefix [OF assms(1)] some q by blast
    then show False using assms(2) by simp
  qed (use some q assms(2) in simp)
qed

lemma follow_unlinked:
  assumes "tree_shaped d" and "unlinked d real"
  shows "follow (tree d) n dir (absolute real) = (if entry_at d real = None then None else Some real)"
proof -
  have "follow (tree d) n base (map Normal ws) = (if entry_at d (base @ ws) = None then None else Some (base @ ws))"
    if "entry_at d base = Some DirEntry" "unlinked d (base @ ws)" for base ws
    using that
  proof (induction ws arbitrary: base)
    case (Cons w ws)
    have plain: "entry_at d (base @ [w]) \<noteq> Some (LinkEntry t)" for t
      using Cons.prems(2) by (simp add: unlinked_def)
    have leaf: "entry_at d (base @ w # ws) = None" if "entry_at d (base @ [w]) \<noteq> Some DirEntry" "ws \<noteq> []"
    proof (rule ccontr)
      assume "entry_at d (base @ w # ws) \<noteq> None"
      then have "entry_at d (base @ [w]) = Some DirEntry"
        using tree_shaped_prefix [OF assms(1), of "base @ [w]" ws] that(2) by simp
      then show False using that(1) by simp
    qed
    show ?case
    proof (cases "entry_at d (base @ [w])")
      case None
      then show ?thesis using leaf by (cases "ws = []") (simp_all add: fs_lookup_tree)
    next
      case (Some e)
      then show ?thesis
        using Cons.IH [of "base @ [w]"] Cons.prems(2) plain leaf
        by (cases e) (auto simp: fs_lookup_tree)
    qed
  qed simp
  from this [of "[]" real] assms(2) show ?thesis by (simp add: absolute_def)
qed

lemma canonicalize_unlinked:
  "tree_shaped d \<Longrightarrow> unlinked d real \<Longrightarrow>
   canonicalize (tree d) (absolute real) = (if entry_at d real = None then None else Some real)"
  by (simp add: canonicalize_def follow_unlinked)

lemma is_dir_absolute:
  "tree_shaped d \<Longrightarrow> unlinked d real \<Longrightarrow> is_dir (tree d) (absolute real) \<longleftrightarrow> entry_at d real = Some DirEntry"
  by (simp add: is_dir_def metadata_def canonicalize_unlinked fs_lookup_tree)

lemma exists_at_absolute:
  "tree_shaped d \<Longrightarrow> unlinked d real \<Longrightarrow> exists_at d (absolute real) \<longleftrightarrow> entry_at d real \<noteq> None"
  by (auto simp: exists_at_def path_exists_def metadata_def canonicalize_unlinked fs_lookup_tree)

section \<open>Changes that stay in a region\<close>

text \<open>The name is the same entry, and the same contents and mode if it is a file.\<close>

definition same_at :: "disk \<Rightarrow> disk \<Rightarrow> string list \<Rightarrow> bool" where
  "same_at d d' real \<longleftrightarrow>
     entry_at d' real = entry_at d real \<and>
     (\<forall>i. entry_at d real = Some (FileEntry i) \<longrightarrow> inode_at d' i = inode_at d i)"

text \<open>No file of the region has a name outside of it.\<close>

definition private_to :: "(string list \<Rightarrow> bool) \<Rightarrow> disk \<Rightarrow> bool" where
  "private_to X d \<longleftrightarrow>
     (\<forall>real other i. X real \<longrightarrow> \<not> X other \<longrightarrow> entry_at d real = Some (FileEntry i) \<longrightarrow>
        entry_at d other \<noteq> Some (FileEntry i))"

definition well_kept :: "(string list \<Rightarrow> bool) \<Rightarrow> disk \<Rightarrow> bool" where
  "well_kept X d \<longleftrightarrow> tree_shaped d \<and> private_to X d"

definition confined :: "(string list \<Rightarrow> bool) \<Rightarrow> disk \<Rightarrow> disk \<Rightarrow> bool" where
  "confined X d d' \<longleftrightarrow> well_kept X d' \<and> (\<forall>real. \<not> X real \<longrightarrow> same_at d d' real)"

lemma same_at_refl [simp]: "same_at d d real"
  by (simp add: same_at_def)

lemma confined_refl: "well_kept X d \<Longrightarrow> confined X d d"
  by (simp add: confined_def)

lemma confined_trans: "confined X d d1 \<Longrightarrow> confined X d1 d2 \<Longrightarrow> confined X d d2"
  by (auto simp: confined_def same_at_def)

lemma confined_kept: "confined X d d' \<Longrightarrow> well_kept X d'"
  by (simp add: confined_def)

lemma entry_at_add:
  "entry_at (d\<lparr>dk_entries := (real, e) # dk_entries d\<rparr>) q =
     (if q = [] then Some DirEntry else if q = real then Some e else entry_at d q)"
  by (simp add: entry_at_def)

lemma inode_at_entries [simp]: "inode_at (d\<lparr>dk_entries := es\<rparr>) i = inode_at d i"
  by (simp add: inode_at_def split: option.split)

lemma confined_add:
  assumes "well_kept X d" and "X (dir @ [w])" and "entry_at d dir = Some DirEntry"
    and "entry_at d (dir @ [w]) = None" and "e = DirEntry \<or> e = FileEntry (fresh_inode d)"
  shows "confined X d (d\<lparr>dk_entries := (dir @ [w], e) # dk_entries d\<rparr>)"
proof -
  let ?d = "d\<lparr>dk_entries := (dir @ [w], e) # dk_entries d\<rparr>"
  have shape: "tree_shaped d" and priv: "private_to X d" using assms(1) by (simp_all add: well_kept_def)
  have "tree_shaped ?d"
    unfolding tree_shaped_def
  proof (intro allI impI)
    fix q x assume q: "entry_at ?d (q @ [x]) \<noteq> None"
    show "entry_at ?d q = Some DirEntry"
    proof (cases "q @ [x] = dir @ [w]")
      case True
      then show ?thesis using assms(3) by (simp add: entry_at_add)
    next
      case False
      then have "entry_at d (q @ [x]) \<noteq> None" using q by (simp only: entry_at_add) simp
      then have old: "entry_at d q = Some DirEntry" using shape unfolding tree_shaped_def by blast
      then show ?thesis using assms(4) by (auto simp: entry_at_add)
    qed
  qed
  moreover have "private_to X ?d"
    unfolding private_to_def
  proof (intro allI impI)
    fix real other i
    assume a: "X real" "\<not> X other" "entry_at ?d real = Some (FileEntry i)"
    then have other: "other \<noteq> dir @ [w]" using assms(2) by blast
    have "entry_at d other \<noteq> Some (FileEntry i)"
    proof (cases "real = dir @ [w]")
      case True
      then have "i = fresh_inode d" using a(3) assms(5) by (auto simp: entry_at_add)
      then show ?thesis using fresh_inode_entry by blast
    next
      case False
      then have "entry_at d real = Some (FileEntry i)" using a(3) by (simp add: entry_at_add split: if_splits)
      then show ?thesis using priv a(1,2) unfolding private_to_def by blast
    qed
    then show "entry_at ?d other \<noteq> Some (FileEntry i)" using other by (simp add: entry_at_add)
  qed
  ultimately show ?thesis
    using assms(2) by (auto simp: confined_def well_kept_def same_at_def entry_at_add)
qed

lemma confined_put_inode:
  assumes "well_kept X d" and "X real" and "entry_at d real = Some (FileEntry i)"
  shows "confined X d (put_inode i n d)"
  using assms unfolding confined_def well_kept_def tree_shaped_def private_to_def same_at_def
  by (auto simp: inode_at_put_inode)

lemma confined_create_file:
  assumes "well_kept X d" and "X (dir @ [w])" and "entry_at d dir = Some DirEntry"
    and "entry_at d (dir @ [w]) = None"
  shows "confined X d (create_file (dir @ [w]) bytes d)"
proof -
  let ?d = "d\<lparr>dk_entries := (dir @ [w], FileEntry (fresh_inode d)) # dk_entries d\<rparr>"
  have "confined X d ?d" by (rule confined_add [OF assms]) simp
  moreover from this have "confined X ?d (put_inode (fresh_inode d) n ?d)" for n
    by (intro confined_put_inode [of X ?d "dir @ [w]"] confined_kept) (simp_all add: assms(2) entry_at_add)
  ultimately show ?thesis unfolding create_file_def by (rule confined_trans)
qed

lemma mkdir_effect:
  assumes "mkdir v (absolute (dir @ [w])) d = (r, d')" and "tree_shaped d"
    and "unlinked d (dir @ [w])"
  shows "r = ParentMissing \<and> d' = d \<and> entry_at d dir = None \<or>
    r = NotMade \<and> d' = d \<or>
    r = Made \<and> entry_at d dir = Some DirEntry \<and> entry_at d (dir @ [w]) = None \<and>
      d' = d\<lparr>dk_entries := (dir @ [w], DirEntry) # dk_entries d\<rparr>"
proof -
  have "follow (tree d) max_links (dk_cwd d) (absolute dir) = (if entry_at d dir = None then None else Some dir)"
    using assms(3) by (intro follow_unlinked [OF assms(2)]) (simp add: unlinked_snoc)
  then show ?thesis
    using assms(1) by (auto simp: mkdir_def absolute_snoc split: if_splits)
qed

lemma unlinked_add:
  "unlinked d real \<Longrightarrow> unlinked (d\<lparr>dk_entries := (q, DirEntry) # dk_entries d\<rparr>) real"
  by (auto simp: unlinked_def entry_at_add)

lemma create_dir_all_snoc:
  "create_dir_all v (absolute (dir @ [w])) d =
     (case mkdir v (absolute (dir @ [w])) d of
        (Made, d') \<Rightarrow> (True, d')
      | (NotMade, d') \<Rightarrow> (is_dir (tree d') (absolute (dir @ [w])), d')
      | (ParentMissing, d') \<Rightarrow>
          (case create_dir_all v (absolute dir) d' of
             (False, d2) \<Rightarrow> (False, d2)
           | (True, d2) \<Rightarrow>
               (case mkdir v (absolute (dir @ [w])) d2 of
                  (Made, d3) \<Rightarrow> (True, d3)
                | (_, d3) \<Rightarrow> (is_dir (tree d3) (absolute (dir @ [w])), d3))))"
proof -
  have "butlast (absolute (dir @ [w])) = absolute dir" by (simp add: absolute_snoc)
  then show ?thesis by (subst create_dir_all.simps) (simp only: absolute_not_Nil if_False)
qed

text \<open>Making the directories of a path.\<close>

definition made_dirs :: "(string list \<Rightarrow> bool) \<Rightarrow> string list \<Rightarrow> disk \<Rightarrow> disk \<Rightarrow> bool" where
  "made_dirs X real d d' \<longleftrightarrow>
     confined X d d' \<and> unlinked d' real \<and> extends d d' \<and>
     (\<forall>q. entry_at d' q \<noteq> entry_at d q \<longrightarrow> prefix q real \<and> entry_at d' q = Some DirEntry)"

lemma mkdir_made:
  assumes "mkdir v (absolute (dir @ [w])) d = (r, d')" and "well_kept X d" and "unlinked d (dir @ [w])"
    and "entry_at d (dir @ [w]) = None \<Longrightarrow> X (dir @ [w])" and "entry_at d dir = Some DirEntry"
  shows "made_dirs X (dir @ [w]) d d' \<and> r \<noteq> ParentMissing \<and> (r \<noteq> Made \<longrightarrow> d' = d) \<and> (r = Made \<longrightarrow> entry_at d' (dir @ [w]) = Some DirEntry)"
proof -
  have shape: "tree_shaped d" using assms(2) by (simp add: well_kept_def)
  let ?d = "d\<lparr>dk_entries := (dir @ [w], DirEntry) # dk_entries d\<rparr>"
  consider "r = NotMade" "d' = d" | "r = Made" "entry_at d (dir @ [w]) = None" "d' = ?d"
    using mkdir_effect [OF assms(1) shape assms(3)] assms(5) by fastforce
  then show ?thesis
  proof cases
    case 1
    then show ?thesis using assms(2,3) by (simp add: made_dirs_def confined_refl)
  next
    case 2
    moreover have "confined X d ?d" by (rule confined_add [OF assms(2) assms(4) [OF 2(2)] assms(5) 2(2)]) simp
    ultimately show ?thesis
      using unlinked_add [OF assms(3)] by (auto simp: made_dirs_def extends_def entry_at_add)
  qed
qed

lemma made_dirs_trans:
  assumes "made_dirs X real d d1" and "made_dirs X real d1 d2"
  shows "made_dirs X real d d2"
proof -
  have "confined X d d2" using assms by (auto simp: made_dirs_def intro: confined_trans)
  moreover have "unlinked d2 real" and "extends d d2"
    using assms by (simp_all add: made_dirs_def extends_def)
  moreover have "prefix q real \<and> entry_at d2 q = Some DirEntry" if "entry_at d2 q \<noteq> entry_at d q" for q
  proof (cases "entry_at d2 q = entry_at d1 q")
    case True
    then show ?thesis using that assms(1) by (simp add: made_dirs_def)
  next
    case False
    then show ?thesis using assms(2) by (simp add: made_dirs_def)
  qed
  ultimately show ?thesis by (simp add: made_dirs_def)
qed

lemma create_dir_all_effect:
  assumes "create_dir_all v (absolute real) d = (ok, d')" and "well_kept X d" and "unlinked d real"
    and "\<And>q. prefix q real \<Longrightarrow> entry_at d q = None \<Longrightarrow> X q"
  shows "made_dirs X real d d' \<and> (ok \<longrightarrow> entry_at d' real = Some DirEntry)"
  using assms
proof (induction real arbitrary: d d' ok rule: rev_induct)
  case Nil
  have "mkdir v [RootDir] d = (NotMade, d)" by (simp add: mkdir_def)
  then have "d' = d" using Nil.prems(1) by (simp add: absolute_def create_dir_all.simps)
  then show ?case using Nil.prems(2,3) by (simp add: confined_refl made_dirs_def)
next
  case (snoc w dir)
  let ?p = "absolute (dir @ [w])"
  have shape: "tree_shaped d" using snoc.prems(2) by (simp add: well_kept_def)
  obtain r d1 where m: "mkdir v ?p d = (r, d1)" by (cases "mkdir v ?p d")
  have at_dir: "is_dir (tree d2) ?p \<longleftrightarrow> entry_at d2 (dir @ [w]) = Some DirEntry"
    if "made_dirs X (dir @ [w]) d d2" for d2
    using that by (intro is_dir_absolute) (simp_all add: made_dirs_def confined_def well_kept_def)
  show ?case
  proof (cases "r = ParentMissing")
    case False
    have "d1 = d \<or> entry_at d dir = Some DirEntry"
      using mkdir_effect [OF m shape snoc.prems(3)] by auto
    then have made: "made_dirs X (dir @ [w]) d d1 \<and> (r = Made \<longrightarrow> entry_at d1 (dir @ [w]) = Some DirEntry)"
    proof
      assume "d1 = d"
      moreover have "r \<noteq> Made"
        using mkdir_effect [OF m shape snoc.prems(3)] \<open>d1 = d\<close> by (auto dest!: arg_cong [where f = dk_entries])
      ultimately show ?thesis using snoc.prems(2,3) by (simp add: made_dirs_def confined_refl)
    next
      assume "entry_at d dir = Some DirEntry"
      then show ?thesis using mkdir_made [OF m snoc.prems(2,3)] snoc.prems(4) by simp
    qed
    have "ok = (r = Made \<or> is_dir (tree d1) ?p)" "d' = d1"
      using snoc.prems(1) m False by (cases r; simp add: create_dir_all_snoc)+
    then show ?thesis using made at_dir by blast
  next
    case True
    then have none: "entry_at d dir = None" "d1 = d"
      using mkdir_effect [OF m shape snoc.prems(3)] by auto
    obtain ok2 d2 where c: "create_dir_all v (absolute dir) d = (ok2, d2)"
      by (cases "create_dir_all v (absolute dir) d")
    have 2: "made_dirs X dir d d2" "ok2 \<longrightarrow> entry_at d2 dir = Some DirEntry"
      using snoc.IH [OF c snoc.prems(2)] snoc.prems(3,4) by (auto simp: unlinked_snoc)
    have leaf0: "entry_at d (dir @ [w]) = None" using below_file [OF shape] none(1) by simp
    moreover have "\<not> prefix (dir @ [w]) dir" by (auto dest: prefix_length_le)
    ultimately have leaf: "entry_at d2 (dir @ [w]) = None" using 2(1) unfolding made_dirs_def by metis
    then have clear2: "unlinked d2 (dir @ [w])" using 2(1) by (simp add: unlinked_snoc made_dirs_def)
    have kept2: "well_kept X d2" using 2(1) by (simp add: made_dirs_def confined_def)
    obtain r3 d3 where m3: "mkdir v ?p d2 = (r3, d3)" by (cases "mkdir v ?p d2")
    have result: "(ok, d') = (if \<not> ok2 then (False, d2)
        else if r3 = Made then (True, d3) else (is_dir (tree d3) ?p, d3))"
      using snoc.prems(1) m True none(2) c m3 by (cases r3; cases ok2) (simp_all add: create_dir_all_snoc)
    have up: "made_dirs X (dir @ [w]) d d2"
      using 2(1) clear2 by (auto simp: made_dirs_def)
    show ?thesis
    proof (cases ok2)
      case True
      then have dir2: "entry_at d2 dir = Some DirEntry" using 2(2) by simp
      have "X (dir @ [w])" using snoc.prems(4) leaf0 by simp
      note 3 = mkdir_made [OF m3 kept2 clear2 this dir2]
      have "made_dirs X (dir @ [w]) d d3"
        using up 3 by (blast intro: made_dirs_trans)
      then show ?thesis using result True 3 at_dir [of d3] by (auto split: if_splits)
    next
      case False
      then show ?thesis using result up by simp
    qed
  qed
qed

text \<open>In a directory that exists a directory is made or nothing changes.\<close>

lemma create_dir_all_one:
  assumes "create_dir_all v (absolute (dir @ [w])) d = (False, d')" and "tree_shaped d"
    and "unlinked d (dir @ [w])" and "entry_at d dir = Some DirEntry"
  shows "d' = d"
proof -
  obtain r d1 where m: "mkdir v (absolute (dir @ [w])) d = (r, d1)"
    by (cases "mkdir v (absolute (dir @ [w])) d")
  show ?thesis
    using mkdir_effect [OF m assms(2,3)] assms(1,4) m by (cases r) (auto simp: create_dir_all_snoc)
qed

text \<open>Where something exists nothing is made.\<close>

lemma create_dir_all_there:
  assumes "tree_shaped d" and "entry_at d dir = Some DirEntry" and "entry_at d (dir @ [w]) \<noteq> None"
  shows "create_dir_all v (absolute (dir @ [w])) d = (is_dir (tree d) (absolute (dir @ [w])), d)"
proof -
  have "mkdir v (absolute (dir @ [w])) d = (NotMade, d)"
    using assms(2,3) follow_absolute [OF assms(1,2)] by (simp add: mkdir_def absolute_snoc)
  then show ?thesis by (simp add: create_dir_all_snoc)
qed

text \<open>Writing to a name in a directory that exists.\<close>

definition writes_at :: "(string list \<Rightarrow> bool) \<Rightarrow> string list \<Rightarrow> disk \<Rightarrow> disk \<Rightarrow> bool" where
  "writes_at X real d d' \<longleftrightarrow>
     confined X d d' \<and> extends d d' \<and>
     (\<forall>q. entry_at d' q \<noteq> entry_at d q \<longrightarrow> q = real \<and> (\<exists>i. entry_at d' q = Some (FileEntry i)))"

definition plain_target :: "disk \<Rightarrow> string list \<Rightarrow> string \<Rightarrow> bool" where
  "plain_target d dir w \<longleftrightarrow>
     tree_shaped d \<and> entry_at d dir = Some DirEntry \<and> (\<forall>t. entry_at d (dir @ [w]) \<noteq> Some (LinkEntry t))"

lemma plain_target_opens:
  assumes "plain_target d dir w"
  shows "open_target (tree d) max_links (dk_cwd d) (absolute (dir @ [w])) = Some (dir @ [w])"
proof -
  have t: "tree_shaped d" "entry_at d dir = Some DirEntry" using assms by (simp_all add: plain_target_def)
  have "\<forall>t. fs_lookup (tree d) (dir @ [w]) \<noteq> Some (Symlink t)"
  proof (intro allI notI)
    fix t assume "fs_lookup (tree d) (dir @ [w]) = Some (Symlink t)"
    then obtain e where "entry_at d (dir @ [w]) = Some e" "node_of d e = Symlink t"
      by (auto simp: fs_lookup_tree)
    then show False using assms by (cases e) (auto simp: plain_target_def)
  qed
  then show ?thesis
    unfolding absolute_snoc using t
    by (intro open_target_append [OF follow_absolute [OF t]]) (simp_all add: fs_lookup_tree)
qed

lemma plain_target_resolves:
  assumes "plain_target d dir w"
  shows "Option.bind (canonicalize (tree d) (absolute (dir @ [w]))) (entry_at d) = entry_at d (dir @ [w])"
proof -
  have t: "tree_shaped d" "entry_at d dir = Some DirEntry"
    and w: "entry_at d (dir @ [w]) \<noteq> Some (LinkEntry t)" for t
    using assms by (simp_all add: plain_target_def)
  have "follow (tree d) max_links (dk_cwd d) (absolute (dir @ [w])) =
      follow (tree d) max_links dir [Normal w]"
    unfolding absolute_snoc using follow_absolute_dir [OF real_dir_entry [OF t]] .
  also have "\<dots> = (if entry_at d (dir @ [w]) = None then None else Some (dir @ [w]))"
    using w by (cases "entry_at d (dir @ [w])") (auto simp: fs_lookup_tree node_of_def split: disk_entry.split)
  finally show ?thesis by (simp add: canonicalize_def)
qed

lemma dk_cwd_put_inode [simp]: "dk_cwd (put_inode i n d) = dk_cwd d"
  by (simp add: put_inode_def)

lemma entry_at_create_file:
  "entry_at (create_file real bytes d) q =
     (if q = [] then Some DirEntry else if q = real then Some (FileEntry (fresh_inode d)) else entry_at d q)"
  by (simp add: create_file_def entry_at_add)

lemma dk_cwd_create_file [simp]: "dk_cwd (create_file real bytes d) = dk_cwd d"
  by (simp add: create_file_def)

lemma writes_at_refl: "well_kept X d \<Longrightarrow> writes_at X q d d"
  by (simp add: writes_at_def confined_refl)

lemma writes_at_put_inode:
  assumes "well_kept X d" and "X real" and "entry_at d real = Some (FileEntry i)"
  shows "writes_at X q d (put_inode i n d)"
  using confined_put_inode [OF assms] by (simp add: writes_at_def extends_def)

lemma writes_at_create_file:
  assumes "well_kept X d" and "X (dir @ [w])" and "entry_at d dir = Some DirEntry"
    and "entry_at d (dir @ [w]) = None"
  shows "writes_at X (dir @ [w]) d (create_file (dir @ [w]) bytes d)"
  using confined_create_file [OF assms] assms(4)
  by (simp add: writes_at_def extends_def entry_at_create_file)

lemma fs_write_effect:
  assumes "fs_write fault (absolute (dir @ [w])) bytes d = (ok, d')" and "well_kept X d"
    and "plain_target d dir w" and "X (dir @ [w])"
  shows "writes_at X (dir @ [w]) d d' \<and> (ok \<longrightarrow> (\<exists>i. entry_at d' (dir @ [w]) = Some (FileEntry i)))"
proof -
  let ?p = "absolute (dir @ [w])"
  have dir: "entry_at d dir = Some DirEntry" using assms(3) by (simp add: plain_target_def)
  note opened = plain_target_opens [OF assms(3)]
  show ?thesis
  proof (cases "fault = NotOpened \<or> entry_at d (dir @ [w]) = Some DirEntry")
    case True
    then have "d' = d \<and> \<not> ok" using assms(1) opened by (auto simp: fs_write_def split: if_splits)
    then show ?thesis using writes_at_refl [OF assms(2)] by simp
  next
    case False
    then have fault: "fault \<noteq> NotOpened" by simp
    consider i where "entry_at d (dir @ [w]) = Some (FileEntry i)" | "entry_at d (dir @ [w]) = None"
      using assms(3) False unfolding plain_target_def by (metis disk_entry.exhaust option.exhaust)
    then show ?thesis
    proof cases
      case 1
      then have "d' = put_inode i ((inode_at d i)\<lparr>ino_bytes := written_bytes fault bytes\<rparr>) d"
        using assms(1) opened fault by (simp add: fs_write_def)
      then show ?thesis using writes_at_put_inode [OF assms(2,4) 1] 1 by simp
    next
      case 2
      then have "d' = create_file (dir @ [w]) (written_bytes fault bytes) d"
        using assms(1) opened fault by (simp add: fs_write_def)
      then show ?thesis using writes_at_create_file [OF assms(2,4) dir 2] by (simp add: entry_at_create_file)
    qed
  qed
qed

lemma append_file_effect:
  assumes "append_file v (absolute (dir @ [w])) bytes d = (ok, d')" and "well_kept X d"
    and "plain_target d dir w" and "X (dir @ [w])"
  shows "writes_at X (dir @ [w]) d d'"
proof -
  let ?p = "absolute (dir @ [w])"
  let ?fault = "dv_write_fault v (show_path ?p)"
  note found = plain_target_resolves [OF assms(3)]
  show ?thesis
  proof (cases "?fault \<noteq> NotOpened \<and> (\<exists>i. entry_at d (dir @ [w]) = Some (FileEntry i))")
    case True
    then obtain i where i: "entry_at d (dir @ [w]) = Some (FileEntry i)" by blast
    have "d' = put_inode i ((inode_at d i)\<lparr>ino_bytes :=
        ino_bytes (inode_at d i) @ written_bytes ?fault bytes\<rparr>) d"
      using assms(1) i found True by (simp add: append_file_def Let_def)
    then show ?thesis using writes_at_put_inode [OF assms(2,4) i] by simp
  next
    case False
    then have "d' = d"
      using assms(1) found
      by (cases "entry_at d (dir @ [w])") (auto simp: append_file_def Let_def split: if_splits disk_entry.splits)
    then show ?thesis using writes_at_refl [OF assms(2)] by simp
  qed
qed

lemma set_mode_effect:
  assumes "well_kept X d" and "plain_target d dir w" and "X (dir @ [w])"
    and "entry_at d (dir @ [w]) = Some (FileEntry i)"
  shows "writes_at X (dir @ [w]) d (set_mode (absolute (dir @ [w])) mode d)"
  using writes_at_put_inode [OF assms(1,3,4)] assms(4) plain_target_resolves [OF assms(2)]
  by (simp add: set_mode_def)

lemma writes_at_trans: "writes_at X q d d1 \<Longrightarrow> writes_at X q d1 d2 \<Longrightarrow> writes_at X q d d2"
proof -
  assume 1: "writes_at X q d d1" and 2: "writes_at X q d1 d2"
  have "confined X d d2" using 1 2 by (auto simp: writes_at_def intro: confined_trans)
  moreover have "extends d d2" using 1 2 by (simp add: writes_at_def extends_def)
  moreover have "r = q \<and> (\<exists>i. entry_at d2 r = Some (FileEntry i))" if "entry_at d2 r \<noteq> entry_at d r" for r
  proof (cases "entry_at d2 r = entry_at d1 r")
    case True
    then show ?thesis using that 1 by (simp add: writes_at_def)
  next
    case False
    then show ?thesis using 2 by (simp add: writes_at_def)
  qed
  ultimately show ?thesis by (simp add: writes_at_def)
qed

lemma writes_at_plain:
  assumes "writes_at X (dir @ [w]) d d'" and "plain_target d dir w"
  shows "plain_target d' dir w \<and> well_kept X d'"
proof -
  have kept: "well_kept X d'" and up: "extends d d'"
    and new: "entry_at d' (dir @ [w]) \<noteq> entry_at d (dir @ [w]) \<Longrightarrow> \<exists>i. entry_at d' (dir @ [w]) = Some (FileEntry i)"
    using assms(1) unfolding writes_at_def confined_def by blast+
  have "entry_at d' dir = Some DirEntry"
    using assms(2) extends_entry [OF up] by (simp add: plain_target_def)
  moreover have "entry_at d' (dir @ [w]) \<noteq> Some (LinkEntry t)" for t
    using new assms(2) unfolding plain_target_def by (cases "entry_at d' (dir @ [w]) = entry_at d (dir @ [w])") auto
  ultimately show ?thesis using kept by (simp add: plain_target_def well_kept_def)
qed

lemma copy_file_effect:
  assumes "copy_file v source (absolute (dir @ [w])) d = (ok, d')" and "well_kept X d"
    and "plain_target d dir w" and "X (dir @ [w])"
  shows "writes_at X (dir @ [w]) d d'"
proof (cases "\<exists>i. Option.bind (canonicalize (tree d) source) (entry_at d) = Some (FileEntry i) \<and>
    \<not> dv_read_fails v (show_path source)")
  case False
  then have "d' = d"
    using assms(1) by (cases "Option.bind (canonicalize (tree d) source) (entry_at d)")
      (auto simp: copy_file_def split: disk_entry.splits)
  then show ?thesis using writes_at_refl [OF assms(2)] by simp
next
  case True
  then obtain i where i: "Option.bind (canonicalize (tree d) source) (entry_at d) = Some (FileEntry i)"
    "\<not> dv_read_fails v (show_path source)" by blast
  let ?p = "absolute (dir @ [w])"
  obtain ok1 d1 where w: "fs_write (dv_write_fault v (show_path ?p)) ?p (ino_bytes (inode_at d i)) d = (ok1, d1)"
    by (cases "fs_write (dv_write_fault v (show_path ?p)) ?p (ino_bytes (inode_at d i)) d")
  have 1: "writes_at X (dir @ [w]) d d1"
    and made: "ok1 \<longrightarrow> (\<exists>j. entry_at d1 (dir @ [w]) = Some (FileEntry j))"
    using fs_write_effect [OF w assms(2-4)] by blast+
  note plain = writes_at_plain [OF 1 assms(3)]
  show ?thesis
  proof (cases ok1)
    case False
    then show ?thesis using assms(1) i w 1 by (simp add: copy_file_def)
  next
    case True
    then have d': "d' = set_mode ?p (ino_mode (inode_at d i)) d1"
      using assms(1) i w by (simp add: copy_file_def)
    obtain j where "entry_at d1 (dir @ [w]) = Some (FileEntry j)" using made True by blast
    with set_mode_effect [of X d1 dir w j] plain assms(4) have "writes_at X (dir @ [w]) d1 d'"
      by (simp add: d')
    then show ?thesis by (rule writes_at_trans [OF 1])
  qed
qed

section \<open>Removal\<close>

lemma entry_at_without:
  "entry_at (without P d) q = (if q = [] then Some DirEntry else if P q then None else entry_at d q)"
proof -
  have "map_of (filter (\<lambda>(real, _). \<not> P real) es) q = (if P q then None else map_of es q)" for es :: "(string list \<times> disk_entry) list"
    by (induction es) auto
  then show ?thesis by (simp add: entry_at_def without_def)
qed

lemma confined_without:
  assumes "well_kept X d" and "\<And>q. P q \<Longrightarrow> X q" and "\<And>q w. P q \<Longrightarrow> P (q @ [w])"
  shows "confined X d (without P d)"
proof -
  have inode: "inode_at (without P d) i = inode_at d i" for i by (simp add: without_def)
  have "tree_shaped (without P d)"
    using assms(1,3) unfolding well_kept_def tree_shaped_def
    by (auto simp: entry_at_without split: if_splits) blast
  moreover have "private_to X (without P d)"
    using assms(1,2) unfolding well_kept_def private_to_def
    by (auto simp: entry_at_without split: if_splits)
  ultimately show ?thesis
    using assms(2) unfolding confined_def well_kept_def same_at_def
    by (auto simp: entry_at_without inode)
qed

lemma remove_dir_all_effect:
  assumes "tree_shaped d" and "unlinked d real" and "entry_at d real = Some DirEntry" and "real \<noteq> []"
    and "vl_removal_fault v (absolute real) = Removed"
  shows "remove_dir_all v (absolute real) d = (True, without (prefix real) d)"
proof -
  obtain dir w where real: "real = dir @ [w]" using assms(4) by (cases real rule: rev_cases) auto
  have "entry_at d dir = Some DirEntry"
    using tree_shaped_butlast [OF assms(1,4)] assms(3) real by simp
  then have "link_location (tree d) (absolute real) = Some real"
    using link_location_absolute [OF assms(1)] real by simp
  then show ?thesis using assms(3-5) by (simp add: remove_dir_all_def)
qed

lemma remove_file_effect:
  assumes "tree_shaped d" and "unlinked d real" and "real \<noteq> []" and "entry_at d real \<noteq> Some DirEntry"
    and "vl_removal_fault v (absolute real) = Removed"
  shows "remove_file v (absolute real) d =
    (if entry_at d real = None then (False, d) else (True, without (\<lambda>q. q = real) d))"
proof -
  obtain dir w where real: "real = dir @ [w]" using assms(3) by (cases real rule: rev_cases) auto
  show ?thesis
  proof (cases "entry_at d dir = Some DirEntry")
    case True
    then show ?thesis
      using link_location_absolute [OF assms(1) True, of w] assms(4,5) real
      by (auto simp: remove_file_def)
  next
    case False
    have "entry_at d dir = None \<or> (\<exists>i. entry_at d dir = Some (FileEntry i))"
      using False unlinked_entry [OF unlinked_prefix [OF assms(2)], of dir] real
      by (metis disk_entry.exhaust option.exhaust prefixI)
    moreover have "follow (tree d) max_links (dk_cwd d) (absolute dir) = (if entry_at d dir = None then None else Some dir)"
      using unlinked_prefix [OF assms(2)] real by (intro follow_unlinked [OF assms(1)]) simp
    ultimately have "link_location (tree d) (absolute real) = None"
      unfolding real by (auto simp: link_location_def absolute_snoc fs_lookup_tree)
    moreover have "entry_at d real = None" unfolding real using below_file [OF assms(1) False] .
    ultimately show ?thesis by (simp add: remove_file_def)
  qed
qed

end
