(* ===== verification/Effects.thy ===== *)
theory Effects
  imports Prelude
begin

text \<open>
  Functions that read and change a state and may fail: a step from a state to a result and the state after
  it. An early return keeps what was done before it. Their specifications are triples of a condition on the
  state before and a condition on the result and the state after.
\<close>

type_synonym ('s, 'e, 'a) effect = "'s \<Rightarrow> ('e, 'a) result \<times> 's"

definition lift_result :: "('e, 'a) result \<Rightarrow> ('s, 'e, 'a) effect" where
  "lift_result r s = (r, s)"

definition inspect :: "('s \<Rightarrow> ('e, 'a) result) \<Rightarrow> ('s, 'e, 'a) effect" where
  "inspect f s = (f s, s)"

text \<open>The operator \<open>?\<close> with the rest of the function.\<close>

definition then_do :: "('s, 'e, 'a) effect \<Rightarrow> ('a \<Rightarrow> ('s, 'e, 'b) effect) \<Rightarrow> ('s, 'e, 'b) effect" where
  "then_do m f s = (case m s of (Inl e, s') \<Rightarrow> (Inl e, s') | (Inr x, s') \<Rightarrow> f x s')"

text \<open>An operation that tells only whether it succeeded.\<close>

definition or_fail :: "('s \<Rightarrow> bool \<times> 's) \<Rightarrow> 'e \<Rightarrow> ('s, 'e, unit) effect" where
  "or_fail m e s = (case m s of (ok, s') \<Rightarrow> (if ok then Inr () else Inl e, s'))"

fun each_do :: "('a \<Rightarrow> ('s, 'e, unit) effect) \<Rightarrow> 'a list \<Rightarrow> ('s, 'e, unit) effect" where
  "each_do f [] = lift_result (Inr ())"
| "each_do f (x # xs) = then_do (f x) (\<lambda>_. each_do f xs)"

section \<open>Triples\<close>

definition triple :: "('s \<Rightarrow> bool) \<Rightarrow> ('s, 'e, 'a) effect \<Rightarrow> (('e, 'a) result \<Rightarrow> 's \<Rightarrow> bool) \<Rightarrow> bool" where
  "triple P m Q \<longleftrightarrow> (\<forall>s. P s \<longrightarrow> Q (fst (m s)) (snd (m s)))"

text \<open>An invariant, whatever the result.\<close>

abbreviation keeps :: "('s \<Rightarrow> bool) \<Rightarrow> ('s, 'e, 'a) effect \<Rightarrow> bool" where
  "keeps P m \<equiv> triple P m (\<lambda>_. P)"

named_theorems triple_intros

lemma tripleI: "(\<And>s r s'. P s \<Longrightarrow> m s = (r, s') \<Longrightarrow> Q r s') \<Longrightarrow> triple P m Q"
  by (simp add: triple_def prod_eq_iff)

lemma tripleD: "triple P m Q \<Longrightarrow> m s = (r, s') \<Longrightarrow> P s \<Longrightarrow> Q r s'"
  by (auto simp: triple_def dest: spec [of _ s])

lemma triple_consequence:
  "triple P m Q \<Longrightarrow> (\<And>s. P' s \<Longrightarrow> P s) \<Longrightarrow> (\<And>r s. Q r s \<Longrightarrow> Q' r s) \<Longrightarrow> triple P' m Q'"
  by (simp add: triple_def)

lemma triple_lift: "(\<And>s. P s \<Longrightarrow> Q r s) \<Longrightarrow> triple P (lift_result r) Q"
  by (simp add: triple_def lift_result_def)

lemma triple_inspect: "(\<And>s. P s \<Longrightarrow> Q (f s) s) \<Longrightarrow> triple P (inspect f) Q"
  by (simp add: triple_def inspect_def)

lemma triple_then_do:
  assumes "triple P m R" and "\<And>e s. R (Inl e) s \<Longrightarrow> Q (Inl e) s" and "\<And>x. triple (R (Inr x)) (f x) Q"
  shows "triple P (then_do m f) Q"
proof (rule tripleI)
  fix s r s' assume s: "P s" "then_do m f s = (r, s')"
  obtain r1 s1 where m: "m s = (r1, s1)" by (cases "m s")
  have R: "R r1 s1" using assms(1) m s(1) by (rule tripleD)
  show "Q r s'"
  proof (cases r1)
    case (Inl e)
    then show ?thesis using s(2) m R assms(2) [of e s1] by (auto simp: then_do_def)
  next
    case (Inr x)
    then have "f x s1 = (r, s')" using s(2) m by (simp add: then_do_def)
    then show ?thesis using tripleD [OF assms(3)] R Inr by blast
  qed
qed

lemma keeps_lift [triple_intros]: "keeps P (lift_result r)"
  by (rule triple_lift)

lemma keeps_inspect [triple_intros]: "keeps P (inspect f)"
  by (rule triple_inspect)

lemma keeps_then_do [triple_intros]: "keeps P m \<Longrightarrow> (\<And>x. keeps P (f x)) \<Longrightarrow> keeps P (then_do m f)"
  by (rule triple_then_do)

text \<open>What was computed before is known in the rest of the function.\<close>

lemma triple_then_lift:
  assumes "\<And>x. r = Inr x \<Longrightarrow> triple P (f x) Q" and "\<And>e s. r = Inl e \<Longrightarrow> P s \<Longrightarrow> Q (Inl e) s"
  shows "triple P (then_do (lift_result r) f) Q"
  using assms by (cases r) (auto simp: triple_def then_do_def lift_result_def)

lemma keeps_or_fail [triple_intros]: "(\<And>s. P s \<Longrightarrow> P (snd (m s))) \<Longrightarrow> keeps P (or_fail m e)"
  by (simp add: triple_def or_fail_def split: prod.split) (metis snd_conv)

lemma keeps_each_do: "(\<And>x. x \<in> set xs \<Longrightarrow> keeps P (f x)) \<Longrightarrow> keeps P (each_do f xs)"
  by (induction xs) (auto intro: triple_intros)

text \<open>A loop whose condition may grow with every round that succeeds.\<close>

lemma triple_each_do:
  assumes "\<And>x. x \<in> set xs \<Longrightarrow> keeps P (f x)"
    and "\<And>x. x \<in> set xs \<Longrightarrow> triple P (f x) (\<lambda>r s. r = Inr () \<longrightarrow> Q x s)"
    and "\<And>x y. x \<in> set xs \<Longrightarrow> y \<in> set xs \<Longrightarrow> triple (\<lambda>s. P s \<and> Q y s) (f x) (\<lambda>_. Q y)"
  shows "triple P (each_do f xs) (\<lambda>r s. r = Inr () \<longrightarrow> (\<forall>x\<in>set xs. Q x s))"
proof -
  have "triple (\<lambda>s. P s \<and> (\<forall>x\<in>set seen. Q x s)) (each_do f ys)
      (\<lambda>r s. r = Inr () \<longrightarrow> (\<forall>x\<in>set seen \<union> set ys. Q x s))"
    if "set seen \<union> set ys \<subseteq> set xs" for ys seen
    using that
  proof (induction ys arbitrary: seen)
    case Nil
    show ?case by (simp add: triple_def lift_result_def)
  next
    case (Cons y ys)
    have y: "y \<in> set xs" using Cons.prems by simp
    have step: "triple (\<lambda>s. P s \<and> (\<forall>x\<in>set seen. Q x s)) (f y)
        (\<lambda>r s. P s \<and> (\<forall>x\<in>set seen. Q x s) \<and> (r = Inr () \<longrightarrow> Q y s))"
    proof (rule tripleI)
      fix s r s' assume s: "P s \<and> (\<forall>x\<in>set seen. Q x s)" "f y s = (r, s')"
      show "P s' \<and> (\<forall>x\<in>set seen. Q x s') \<and> (r = Inr () \<longrightarrow> Q y s')"
        using s(1) Cons.prems tripleD [OF assms(1) [OF y] s(2)] tripleD [OF assms(2) [OF y] s(2)]
          tripleD [OF assms(3) [OF y] s(2)] by auto
    qed
    show ?case
      unfolding each_do.simps
    proof (rule triple_then_do [OF step])
      fix u :: unit
      have "triple (\<lambda>s. P s \<and> (\<forall>x\<in>set (y # seen). Q x s)) (each_do f ys)
          (\<lambda>r s. r = Inr () \<longrightarrow> (\<forall>x\<in>set (y # seen) \<union> set ys. Q x s))"
        using Cons.prems by (intro Cons.IH) auto
      then show "triple (\<lambda>s. P s \<and> (\<forall>x\<in>set seen. Q x s) \<and> (Inr u = Inr () \<longrightarrow> Q y s)) (each_do f ys)
          (\<lambda>r s. r = Inr () \<longrightarrow> (\<forall>x\<in>set seen \<union> set (y # ys). Q x s))"
        by (rule triple_consequence) auto
    qed simp
  qed
  from this [of "[]" xs] show ?thesis by simp
qed

end
