(* ===== verification/Provenance.thy ===== *)
theory Provenance
  imports Prelude
begin

text \<open>
  The provenance files of generated packages, as \<open>crates/chromifer-build/src/lib.rs\<close> and
  \<open>crates/chromifer-cabi/src/lib.rs\<close> declare them.
\<close>

section \<open>Build provenance\<close>

record header_include_evidence =
  hi_header :: string
  hi_source :: string
  hi_line :: nat

record mapped_dependency =
  md_cargo_name :: string
  md_package_name :: string
  md_gn_label :: string
  md_public :: bool
  md_cargo_target :: "string option"
  md_gn_condition :: "string option"

record consumer_provenance =
  cp_target_name :: string
  cp_sources :: "string list"
  cp_cxx_bindings :: "string list"
  cp_required_headers :: "string list"
  cp_deps :: "string list"
  cp_public_deps :: "string list"
  cp_visibility :: "string list"
  cp_header_includes :: "header_include_evidence list"

record consumer_contract_provenance =
  cc_path :: string
  cc_sha256 :: string

record bridge_provenance =
  bp_schema_version :: "32 word"
  bp_package :: string
  bp_version :: string
  bp_cargo_manifest_sha256 :: string
  bp_target_name :: string
  bp_crate_root :: string
  bp_edition :: string
  bp_sources :: "string list"
  bp_cxx_bindings :: "string list"
  bp_gn_package_path :: "string option"
  bp_generated_cxx_headers :: "string list"
  bp_features :: "string list"
  bp_no_default_features :: bool
  bp_dependencies :: "mapped_dependency list"
  bp_additional_deps :: "string list"
  bp_additional_public_deps :: "string list"
  bp_visibility :: "string list"
  bp_allow_unsafe :: bool
  bp_consumer :: "consumer_provenance option"
  bp_additional_consumers :: "consumer_provenance list"
  bp_consumer_contract :: "consumer_contract_provenance option"
  bp_build_gn_sha256 :: string

section \<open>C ABI provenance\<close>

datatype abi_type =
    AbiVoid | AbiBool | AbiI8 | AbiU8 | AbiI16 | AbiU16 | AbiI32 | AbiU32 | AbiI64 | AbiU64
  | AbiIsize | AbiUsize | AbiF32 | AbiF64 | ConstI8Ptr | MutI8Ptr | ConstU8Ptr | MutU8Ptr
  | ConstVoidPtr | MutVoidPtr

record c_abi_parameter =
  ap_name :: string
  ap_type :: abi_type

record source_digest =
  sd_source :: string
  sd_sha256 :: string

record export_evidence =
  xe_name :: string
  xe_source :: string
  xe_line :: nat
  xe_unsafe_function :: bool
  xe_return_type :: abi_type
  xe_parameters :: "c_abi_parameter list"

record c_abi_provenance =
  ca_schema_version :: "32 word"
  ca_contract_sha256 :: string
  ca_contract_path :: string
  ca_header_sha256 :: string
  ca_header_path :: string
  ca_header_guard :: string
  ca_sources :: "source_digest list"
  ca_symbols :: "export_evidence list"

end
