(* ===== verification/Integration.thy ===== *)
theory Integration
  imports DiskOps Effects Provenance Hex Collections
begin

text \<open>
  \<open>crates/chromifer-integration/src/lib.rs\<close>: a generated package is laid over a GN checkout, built and run,
  and the overlay is removed again. Processes, the operating system, \<open>PATH\<close>, SHA-256 and the JSON parsers are
  the fields of \<open>host\<close>; the disk is the state that the steps read and change.
\<close>

section \<open>Data\<close>

record integration_options =
  io_repo_root :: string
  io_source_root :: string
  io_contract :: string
  io_gn :: string
  io_ninja :: string
  io_rustc :: string

datatype rust_template_mode = Existing | HostAdapter

text \<open>The exit code is an \<open>i32\<close> that is only compared.\<close>

record integration_contract =
  ic_schema_version :: "32 word"
  ic_package_root :: string
  ic_build_provenance :: string
  ic_c_abi_provenance :: string
  ic_destination :: string
  ic_source_inputs :: "string list"
  ic_endpoint_source :: string
  ic_endpoint_target :: string
  ic_integration_target :: string
  ic_out_dir :: string
  ic_rust_template :: rust_template_mode
  ic_native_rustc :: "string option"
  ic_expected_exit_code :: int

record integration_tool =
  ti_requested :: string
  ti_invocation_path :: string
  ti_resolved_path :: string
  ti_sha256 :: string
  ti_bytes :: nat
  ti_version :: string

record toolchain_identity =
  tc_gn :: integration_tool
  tc_ninja :: integration_tool
  tc_rustc :: "integration_tool option"

record integration_summary =
  is_package :: string
  is_destination :: string
  is_root_target :: string
  is_endpoint_target :: string
  is_out_dir :: string
  is_target_count :: nat
  is_endpoint_path :: string
  is_endpoint_sha256 :: string
  is_endpoint_bytes :: nat
  is_endpoint_exit_code :: int
  is_tools :: toolchain_identity

datatype integration_error =
    InvalidRepoRoot string
  | InvalidSourceRoot string
  | ReadFailed string
  | JsonError
  | UnsupportedContractSchema "32 word" "32 word"
  | InvalidContract string
  | InvalidPath string
  | UnsupportedBuildProvenance "32 word"
  | UnsupportedCAbiProvenance "32 word"
  | BuildDigestMismatch
  | CAbiDigestMismatch string
  | DestinationExists string
  | AdapterExists string
  | MissingRustTemplate string
  | MissingExecutable string
  | LaunchError string
  | CommandFailed string string string
  | EndpointExitMismatch int int
  | InvalidProject string
  | MissingTarget string
  | MissingEndpointOutput
  | ToolChanged string
  | OverlayIo string

text \<open>The resolved path of a tool is a real path.\<close>

record resolved_tool =
  rt_requested :: string
  rt_invocation_path :: string
  rt_resolved_path :: "string list"
  rt_sha256 :: string
  rt_bytes :: nat
  rt_version :: string

record toolchain_runtime =
  tr_gn :: resolved_tool
  tr_ninja :: resolved_tool
  tr_rustc :: "resolved_tool option"

record overlay_guard =
  og_paths :: "path list"
  og_active :: bool

text \<open>\<open>serde_json::Value\<close>; the entries of an object have distinct keys.\<close>

datatype json =
  JNull | JBool bool | JNumber string | JString string | JArray "json list" | JObject "(string \<times> json) list"

text \<open>\<open>std::process\<close>: how a process ended, and its output; a process may change the disk.\<close>

datatype exit_status = ExitCode nat | KilledBy string

record process_result =
  pr_status :: exit_status
  pr_stdout :: string
  pr_stderr :: string

record host =
  ho_volume :: volume
  ho_os :: string
  ho_path :: "string option"
  ho_process :: "string \<Rightarrow> string list \<Rightarrow> string list \<Rightarrow> disk \<Rightarrow> process_result option \<times> disk"
  ho_digest :: "string \<Rightarrow> string"
  ho_contract_from_json :: "string \<Rightarrow> integration_contract option"
  ho_build_from_json :: "string \<Rightarrow> bridge_provenance option"
  ho_c_abi_from_json :: "string \<Rightarrow> c_abi_provenance option"
  ho_value_from_json :: "string \<Rightarrow> json option"

type_synonym 'a on_disk = "(disk, integration_error, 'a) effect"

definition integration_schema_version :: "32 word" where
  "integration_schema_version = 1"

definition build_provenance_schema_version :: "32 word" where
  "build_provenance_schema_version = 4"

definition c_abi_provenance_schema_version :: "32 word" where
  "c_abi_provenance_schema_version = 1"

definition default_integration_target :: string where
  "default_integration_target = ''integration''"

section \<open>Text\<close>

definition shown :: "string \<Rightarrow> string" where
  "shown p = replace_char (CHR 0x5C) (CHR ''/'') (utf8_lossy p)"

definition shown_path :: "path \<Rightarrow> string" where
  "shown_path p = shown (show_path p)"

definition integration_gn_escape :: "string \<Rightarrow> string" where
  "integration_gn_escape s =
     replace_with (CHR ''$'') [CHR 0x5C, CHR ''$'']
       (replace_with (CHR 0x22) [CHR 0x5C, CHR 0x22] (replace_with (CHR 0x5C) [CHR 0x5C, CHR 0x5C] s))"

definition integration_sha256 :: "host \<Rightarrow> string \<Rightarrow> string" where
  "integration_sha256 h bytes = encode_hex (ho_digest h bytes)"

definition is_identifier :: "string \<Rightarrow> bool" where
  "is_identifier s \<longleftrightarrow> s \<noteq> [] \<and> list_all (\<lambda>c. is_ascii_alphanumeric c \<or> c \<in> set ''_-.'') s"

definition normalized_exact :: "string \<Rightarrow> (integration_error, string) result" where
  "normalized_exact s =
     and_then (ok_or (normalize_repo_relative_path s) (InvalidPath s)) (\<lambda>normalized.
     if normalized \<noteq> replace_char (CHR 0x5C) (CHR ''/'') s then Inl (InvalidPath s) else Inr normalized)"

section \<open>Reading and resolving\<close>

definition read_bytes_at :: "host \<Rightarrow> disk \<Rightarrow> path \<Rightarrow> (integration_error, string) result" where
  "read_bytes_at h d p =
     (if dv_read_fails (ho_volume h) (show_path p) then Inl (ReadFailed (shown_path p))
      else ok_or (read_file (tree d) p) (ReadFailed (shown_path p)))"

definition file_identity :: "host \<Rightarrow> disk \<Rightarrow> path \<Rightarrow> (integration_error, string \<times> nat) result" where
  "file_identity h d p =
     and_then (read_bytes_at h d p) (\<lambda>bytes. Inr (integration_sha256 h bytes, length bytes))"

definition canonical_dir :: "disk \<Rightarrow> string \<Rightarrow> string list option" where
  "canonical_dir d p =
     (if lstat d (components p) = Some DirEntry then canonicalize (tree d) (components p) else None)"

definition canonical_file :: "disk \<Rightarrow> string list \<Rightarrow> string \<Rightarrow> (integration_error, string list) result" where
  "canonical_file d root p =
     and_then (ok_or (canonicalize (tree d) (path_join (absolute root) (components p))) (InvalidPath (shown p)))
       (\<lambda>canonical.
     if \<not> prefix root canonical \<or> \<not> is_file (tree d) (absolute canonical)
     then Inl (InvalidPath (shown p)) else Inr canonical)"

fun reject_symlinks_below :: "disk \<Rightarrow> string \<Rightarrow> path \<Rightarrow> path \<Rightarrow> (integration_error, unit) result" where
  "reject_symlinks_below d relative current [] = Inr ()"
| "reject_symlinks_below d relative current (Normal w # cs) =
     (case lstat d (current @ [Normal w]) of
        None \<Rightarrow> Inl (InvalidPath relative)
      | Some (LinkEntry _) \<Rightarrow> Inl (InvalidPath relative)
      | Some _ \<Rightarrow> reject_symlinks_below d relative (current @ [Normal w]) cs)"
| "reject_symlinks_below d relative current (_ # cs) = Inl (InvalidPath relative)"

definition reject_symlink_components :: "disk \<Rightarrow> string list \<Rightarrow> string \<Rightarrow> (integration_error, unit) result" where
  "reject_symlink_components d root relative =
     and_then (normalized_exact relative) (\<lambda>normalized.
     reject_symlinks_below d normalized (absolute root) (components normalized))"

definition resolve_below ::
  "(file_system \<Rightarrow> path \<Rightarrow> bool) \<Rightarrow> disk \<Rightarrow> string list \<Rightarrow> string \<Rightarrow> (integration_error, string list) result" where
  "resolve_below ok d root relative =
     and_then (reject_symlink_components d root relative) (\<lambda>_.
     and_then (ok_or (canonicalize (tree d) (path_join (absolute root) (components relative))) (InvalidPath relative))
       (\<lambda>canonical.
     if \<not> prefix root canonical \<or> \<not> ok (tree d) (absolute canonical)
     then Inl (InvalidPath relative) else Inr canonical))"

definition resolve_directory :: "disk \<Rightarrow> string list \<Rightarrow> string \<Rightarrow> (integration_error, string list) result" where
  "resolve_directory = resolve_below is_dir"

definition resolve_file :: "disk \<Rightarrow> string list \<Rightarrow> string \<Rightarrow> (integration_error, string list) result" where
  "resolve_file = resolve_below is_file"

text \<open>The parents of an overlay path that exist are directories and not links.\<close>

fun overlay_parents :: "disk \<Rightarrow> string list \<Rightarrow> string \<Rightarrow> path \<Rightarrow> path \<Rightarrow> (integration_error, unit) result" where
  "overlay_parents d root relative current [] = Inr ()"
| "overlay_parents d root relative current (Normal w # cs) =
     (let p = current @ [Normal w]
      in if \<not> exists_at d p then Inr ()
         else if lstat d p \<noteq> Some DirEntry then Inl (InvalidPath relative)
         else case canonicalize (tree d) p of
                None \<Rightarrow> Inl (InvalidPath relative)
              | Some canonical \<Rightarrow>
                  if \<not> prefix root canonical then Inl (InvalidPath relative)
                  else overlay_parents d root relative p cs)"
| "overlay_parents d root relative current (_ # cs) = Inl (InvalidPath relative)"

definition validate_overlay_parent :: "disk \<Rightarrow> string list \<Rightarrow> string \<Rightarrow> (integration_error, unit) result" where
  "validate_overlay_parent d root relative =
     and_then (normalized_exact relative) (\<lambda>normalized.
     overlay_parents d root normalized (absolute root) (butlast (components normalized)))"

section \<open>The contract\<close>

definition require :: "bool \<Rightarrow> 'e \<Rightarrow> ('e, unit) result" where
  "require b e = (if b then Inr () else Inl e)"

definition contract_paths :: "integration_contract \<Rightarrow> (string \<times> string) list" where
  "contract_paths c =
     [(''package_root'', ic_package_root c), (''build_provenance'', ic_build_provenance c),
      (''c_abi_provenance'', ic_c_abi_provenance c), (''destination'', ic_destination c),
      (''endpoint_source'', ic_endpoint_source c), (''out_dir'', ic_out_dir c)]"

definition check_field :: "string \<Rightarrow> string \<Rightarrow> (integration_error, unit) result" where
  "check_field field text =
     (case normalized_exact text of
        Inl _ \<Rightarrow> Inl (InvalidContract (field @ '' `'' @ text @ ''` is not a normalized relative path''))
      | Inr _ \<Rightarrow> Inr ())"

definition check_source_input :: "string \<Rightarrow> string list \<Rightarrow> (integration_error, string list) result" where
  "check_source_input input seen =
     (case normalized_exact input of
        Inl _ \<Rightarrow> Inl (InvalidContract (''source input `'' @ input @ ''` is not a normalized relative path''))
      | Inr normalized \<Rightarrow>
          if normalized \<in> set seen then Inl (InvalidContract (''duplicate source input `'' @ input @ ''`''))
          else Inr (bts_insert normalized seen))"

definition template_path :: string where
  "template_path = ''build/rust/rust_static_library.gni''"

definition check_template :: "host \<Rightarrow> integration_contract \<Rightarrow> string list \<Rightarrow> (integration_error, unit) result" where
  "check_template h c inputs =
     and_then (require (ic_rust_template c = HostAdapter \<longrightarrow> ho_os h = ''linux'')
       (InvalidContract ''host_adapter currently supports Linux only'')) (\<lambda>_.
     and_then (require (ic_rust_template c = HostAdapter \<longrightarrow> ic_native_rustc c = None)
       (InvalidContract ''native_rustc is only valid with existing Rust template mode'')) (\<lambda>_.
     and_then (require (ic_rust_template c = Existing \<longrightarrow> template_path \<in> set inputs)
       (InvalidContract (''existing Rust template mode must list `'' @ template_path @ ''` in source_inputs'')))
       (\<lambda>_.
     if ic_rust_template c = Existing
     then and_then (ok_or (ic_native_rustc c)
            (InvalidContract ''existing Rust template mode must declare native_rustc'')) (\<lambda>native.
          require (native \<in> set inputs) (InvalidContract ''native_rustc must also appear in source_inputs''))
     else Inr ())))"

definition check_identifier :: "string \<times> string \<Rightarrow> (integration_error, unit) result" where
  "check_identifier = (\<lambda>(field, text).
     require (is_identifier text)
       (InvalidContract (field @ '' `'' @ text @ ''` is not a valid GN target identifier'')))"

definition validate_integration_contract ::
  "host \<Rightarrow> integration_contract \<Rightarrow> (integration_error, unit) result" where
  "validate_integration_contract h c =
     and_then (require (ic_schema_version c = integration_schema_version)
       (UnsupportedContractSchema (ic_schema_version c) integration_schema_version)) (\<lambda>_.
     and_then (try_fold (\<lambda>(field, text) _. check_field field text) (contract_paths c) ()) (\<lambda>_.
     and_then (case ic_native_rustc c of None \<Rightarrow> Inr () | Some native \<Rightarrow> check_field ''native_rustc'' native) (\<lambda>_.
     and_then (require (ic_source_inputs c \<noteq> []) (InvalidContract
       ''source_inputs must declare the GN checkout files required by the integration'')) (\<lambda>_.
     and_then (try_fold check_source_input (ic_source_inputs c) []) (\<lambda>inputs.
     and_then (check_template h c inputs) (\<lambda>_.
     and_then (require (starts_with ''out/'' (ic_out_dir c))
       (InvalidContract ''out_dir must be below `out/`'')) (\<lambda>_.
     and_then (require (0 \<le> ic_expected_exit_code c \<and> ic_expected_exit_code c \<le> 255)
       (InvalidContract ''expected_exit_code must be between 0 and 255'')) (\<lambda>_.
     try_fold (\<lambda>field_text _. check_identifier field_text)
       [(''endpoint_target'', ic_endpoint_target c), (''integration_target'', ic_integration_target c)] ()))))))))"

section \<open>Provenance\<close>

definition verify_digest :: "host \<Rightarrow> disk \<Rightarrow> string list \<Rightarrow> string \<Rightarrow> (integration_error, unit) result" where
  "verify_digest h d real expected =
     and_then (read_bytes_at h d (absolute real)) (\<lambda>bytes.
     require (integration_sha256 h bytes = expected) (CAbiDigestMismatch (shown_path (absolute real))))"

definition verify_c_abi_file ::
  "host \<Rightarrow> disk \<Rightarrow> string list \<Rightarrow> string \<Rightarrow> string \<Rightarrow> (integration_error, unit) result" where
  "verify_c_abi_file h d package_root relative expected =
     and_then (resolve_file d package_root relative) (\<lambda>real. verify_digest h d real expected)"

definition validate_provenance ::
  "host \<Rightarrow> disk \<Rightarrow> string list \<Rightarrow> string list \<Rightarrow> integration_contract \<Rightarrow> bridge_provenance \<Rightarrow> c_abi_provenance \<Rightarrow>
     (integration_error, unit) result" where
  "validate_provenance h d repo_root package_root c build c_abi =
     and_then (require (bp_schema_version build = build_provenance_schema_version)
       (UnsupportedBuildProvenance (bp_schema_version build))) (\<lambda>_.
     and_then (require (ca_schema_version c_abi = c_abi_provenance_schema_version)
       (UnsupportedCAbiProvenance (ca_schema_version c_abi))) (\<lambda>_.
     and_then (require (bp_gn_package_path build = Some (''//'' @ ic_destination c))
       (InvalidContract (''destination must match generated GN package path `'' @
          (case bp_gn_package_path build of None \<Rightarrow> ''<missing>'' | Some p \<Rightarrow> p) @ ''`''))) (\<lambda>_.
     and_then (ok_or (bp_consumer build) (InvalidContract ''build provenance has no C++ consumer'')) (\<lambda>consumer.
     and_then (require (cp_sources consumer \<noteq> [])
       (InvalidContract ''build provenance consumer has no sources'')) (\<lambda>_.
     and_then (read_bytes_at h d (absolute package_root @ [Normal ''BUILD.gn''])) (\<lambda>build_bytes.
     and_then (require (integration_sha256 h build_bytes = bp_build_gn_sha256 build) BuildDigestMismatch) (\<lambda>_.
     and_then (verify_c_abi_file h d package_root (ca_contract_path c_abi) (ca_contract_sha256 c_abi)) (\<lambda>_.
     and_then (verify_c_abi_file h d package_root (ca_header_path c_abi) (ca_header_sha256 c_abi)) (\<lambda>_.
     and_then (try_fold (\<lambda>source _. verify_c_abi_file h d package_root (sd_source source) (sd_sha256 source))
       (ca_sources c_abi) ()) (\<lambda>_.
     and_then (resolve_file d repo_root (ic_package_root c @ ''/'' @ ic_endpoint_source c)) (\<lambda>endpoint.
     require (prefix package_root endpoint) (InvalidPath (shown_path (absolute endpoint))))))))))))))"

section \<open>Processes and tools\<close>

definition show_status :: "exit_status \<Rightarrow> string" where
  "show_status st = (case st of ExitCode n \<Rightarrow> ''exit status: '' @ show_nat n | KilledBy text \<Rightarrow> text)"

definition status_code :: "exit_status \<Rightarrow> int" where
  "status_code st = (case st of ExitCode n \<Rightarrow> int n | KilledBy _ \<Rightarrow> - 1)"

definition command_failed :: "string \<Rightarrow> string list \<Rightarrow> process_result \<Rightarrow> integration_error" where
  "command_failed program args p =
     (let out = trim (utf8_lossy (pr_stdout p)); err = trim (utf8_lossy (pr_stderr p))
      in CommandFailed (shown program @ '' '' @ join '' '' args) (show_status (pr_status p))
           (if out = [] then err else if err = [] then out else out @ newline @ err))"

text \<open>Launches a process; the error names \<open>label\<close>.\<close>

definition launch :: "host \<Rightarrow> string \<Rightarrow> string \<Rightarrow> string list \<Rightarrow> string list \<Rightarrow> process_result on_disk" where
  "launch h label program cwd args d =
     (case ho_process h program cwd args d of
        (None, d') \<Rightarrow> (Inl (LaunchError label), d') | (Some p, d') \<Rightarrow> (Inr p, d'))"

definition run_checked :: "host \<Rightarrow> string \<Rightarrow> string list \<Rightarrow> string list \<Rightarrow> string on_disk" where
  "run_checked h program cwd args =
     then_do (launch h (shown program) program cwd args) (\<lambda>p.
     lift_result (if pr_status p = ExitCode 0 then Inr (pr_stdout p) else Inl (command_failed program args p)))"

fun find_on_path :: "disk \<Rightarrow> string list \<Rightarrow> string \<Rightarrow> string list \<Rightarrow> string option" where
  "find_on_path d cwd requested [] = None"
| "find_on_path d cwd requested (dir # dirs) =
     (let directory =
            (if dir = [] then show_path (absolute cwd)
             else if starts_with ''/'' dir then dir else join_path (show_path (absolute cwd)) dir);
          candidate = join_path directory requested
      in if is_file (tree d) (components candidate) then Some candidate
         else find_on_path d cwd requested dirs)"

definition resolve_executable ::
  "host \<Rightarrow> disk \<Rightarrow> string \<Rightarrow> string list \<Rightarrow> (integration_error, string) result" where
  "resolve_executable h d requested cwd =
     (if starts_with ''/'' requested \<or> 1 < length (components requested)
      then (let p = (if starts_with ''/'' requested then requested
                     else join_path (show_path (absolute cwd)) requested)
            in if is_file (tree d) (components p) then Inr p else Inl (MissingExecutable (shown requested)))
      else case ho_path h of
             None \<Rightarrow> Inl (MissingExecutable (shown requested))
           | Some dirs \<Rightarrow>
               ok_or (find_on_path d cwd requested (split_on (CHR '':'') dirs))
                 (MissingExecutable (shown requested)))"

definition resolve_tool :: "host \<Rightarrow> string \<Rightarrow> string list \<Rightarrow> string list \<Rightarrow> resolved_tool on_disk" where
  "resolve_tool h requested cwd version_args =
     then_do (inspect (\<lambda>d.
       and_then (resolve_executable h d requested cwd) (\<lambda>invocation.
       and_then (ok_or (canonicalize (tree d) (components invocation)) (MissingExecutable (shown requested)))
         (\<lambda>resolved.
       and_then (file_identity h d (absolute resolved)) (\<lambda>(sha256, bytes).
       Inr (invocation, resolved, sha256, bytes)))))) (\<lambda>(invocation, resolved, sha256, bytes).
     then_do (launch h (shown requested) invocation cwd version_args) (\<lambda>p.
     lift_result
       (if pr_status p \<noteq> ExitCode 0 then Inl (command_failed invocation version_args p)
        else let version = trim (utf8_lossy (pr_stdout p))
             in if version = []
                then Inl (InvalidContract (''tool `'' @ shown requested @ ''` returned an empty version''))
                else Inr \<lparr>rt_requested = shown requested, rt_invocation_path = invocation,
                          rt_resolved_path = resolved, rt_sha256 = sha256, rt_bytes = bytes,
                          rt_version = version\<rparr>)))"

definition new_toolchain :: "host \<Rightarrow> integration_options \<Rightarrow> string list \<Rightarrow> integration_contract \<Rightarrow> toolchain_runtime on_disk" where
  "new_toolchain h opts cwd c =
     then_do (case ic_rust_template c of
                HostAdapter \<Rightarrow> then_do (resolve_tool h (io_rustc opts) cwd [''--version'']) (\<lambda>t. lift_result (Inr (Some t)))
              | Existing \<Rightarrow>
                  (case ic_native_rustc c of
                     None \<Rightarrow> lift_result (Inr None)
                   | Some native \<Rightarrow>
                       then_do (resolve_tool h native cwd [''--version'']) (\<lambda>t. lift_result (Inr (Some t)))))
       (\<lambda>rustc.
     then_do (resolve_tool h (io_gn opts) cwd [''--version'']) (\<lambda>gn.
     then_do (resolve_tool h (io_ninja opts) cwd [''--version'']) (\<lambda>ninja.
     lift_result (Inr \<lparr>tr_gn = gn, tr_ninja = ninja, tr_rustc = rustc\<rparr>))))"

definition tool_unchanged :: "host \<Rightarrow> disk \<Rightarrow> resolved_tool \<Rightarrow> (integration_error, unit) result" where
  "tool_unchanged h d t =
     and_then (file_identity h d (absolute (rt_resolved_path t))) (\<lambda>(sha256, bytes).
     and_then (require (sha256 = rt_sha256 t \<and> bytes = rt_bytes t) (ToolChanged (rt_requested t))) (\<lambda>_.
     and_then (ok_or (canonicalize (tree d) (components (rt_invocation_path t))) (ToolChanged (rt_requested t)))
       (\<lambda>invocation.
     require (invocation = rt_resolved_path t) (ToolChanged (rt_requested t)))))"

definition verify_unchanged :: "host \<Rightarrow> disk \<Rightarrow> toolchain_runtime \<Rightarrow> (integration_error, unit) result" where
  "verify_unchanged h d tools =
     and_then (try_fold (\<lambda>t _. tool_unchanged h d t) [tr_gn tools, tr_ninja tools] ()) (\<lambda>_.
     case tr_rustc tools of None \<Rightarrow> Inr () | Some t \<Rightarrow> tool_unchanged h d t)"

definition integration_tool_of :: "resolved_tool \<Rightarrow> integration_tool" where
  "integration_tool_of t =
     \<lparr>ti_requested = rt_requested t, ti_invocation_path = shown (rt_invocation_path t),
      ti_resolved_path = shown_path (absolute (rt_resolved_path t)), ti_sha256 = rt_sha256 t,
      ti_bytes = rt_bytes t, ti_version = rt_version t\<rparr>"

definition into_identity :: "toolchain_runtime \<Rightarrow> toolchain_identity" where
  "into_identity tools =
     \<lparr>tc_gn = integration_tool_of (tr_gn tools), tc_ninja = integration_tool_of (tr_ninja tools),
      tc_rustc = map_option integration_tool_of (tr_rustc tools)\<rparr>"

section \<open>The overlay guard\<close>

record workspace =
  ws_disk :: disk
  ws_guard :: overlay_guard

type_synonym 'a in_workspace = "(workspace, integration_error, 'a) effect"

definition new_guard :: overlay_guard where
  "new_guard = \<lparr>og_paths = [], og_active = True\<rparr>"

definition track :: "path \<Rightarrow> overlay_guard \<Rightarrow> overlay_guard" where
  "track p g = g\<lparr>og_paths := og_paths g @ [p]\<rparr>"

definition tracking :: "path \<Rightarrow> unit in_workspace" where
  "tracking p w = (Inr (), w\<lparr>ws_guard := track p (ws_guard w)\<rparr>)"

definition using_disk :: "'a on_disk \<Rightarrow> 'a in_workspace" where
  "using_disk m w = (case m (ws_disk w) of (r, d) \<Rightarrow> (r, w\<lparr>ws_disk := d\<rparr>))"

definition remove_tracked :: "volume \<Rightarrow> path \<Rightarrow> disk \<Rightarrow> bool \<times> disk" where
  "remove_tracked v p d = (if is_dir (tree d) p then remove_dir_all v p d else remove_file v p d)"

text \<open>\<open>cleanup\<close> stops at the first removal that fails, and \<open>drop\<close> goes on; what does not exist for
  \<open>Path::exists\<close> is skipped by the first only.\<close>

fun remove_all :: "volume \<Rightarrow> path list \<Rightarrow> unit on_disk" where
  "remove_all v [] d = (Inr (), d)"
| "remove_all v (p # ps) d =
     (if \<not> exists_at d p then remove_all v ps d
      else case remove_tracked v p d of
             (True, d') \<Rightarrow> remove_all v ps d'
           | (False, d') \<Rightarrow> (Inl (OverlayIo (shown_path p)), d'))"

definition cleanup :: "volume \<Rightarrow> unit in_workspace" where
  "cleanup v =
     then_do (\<lambda>w. using_disk (remove_all v (rev (og_paths (ws_guard w)))) w) (\<lambda>_ w.
     (Inr (), w\<lparr>ws_guard := (ws_guard w)\<lparr>og_active := False\<rparr>\<rparr>))"

definition drop_guard :: "volume \<Rightarrow> workspace \<Rightarrow> disk" where
  "drop_guard v w =
     (if og_active (ws_guard w)
      then fold (\<lambda>p d. snd (remove_tracked v p d)) (rev (og_paths (ws_guard w))) (ws_disk w)
      else ws_disk w)"

fun track_missing :: "string \<Rightarrow> path \<Rightarrow> path \<Rightarrow> unit in_workspace" where
  "track_missing relative current [] = lift_result (Inr ())"
| "track_missing relative current (Normal w # cs) =
     then_do (inspect (\<lambda>s. Inr (exists_at (ws_disk s) (current @ [Normal w])))) (\<lambda>there.
     then_do (if there then lift_result (Inr ()) else tracking (current @ [Normal w])) (\<lambda>_.
     track_missing relative (current @ [Normal w]) cs))"
| "track_missing relative current (_ # cs) = lift_result (Inl (InvalidPath relative))"

definition track_missing_parents :: "string list \<Rightarrow> string \<Rightarrow> unit in_workspace" where
  "track_missing_parents root relative =
     then_do (lift_result (normalized_exact relative)) (\<lambda>normalized.
     track_missing normalized (absolute root) (butlast (components normalized)))"

section \<open>The package\<close>

definition integration_targets :: "integration_contract \<Rightarrow> string \<Rightarrow> string" where
  "integration_targets c consumer_target =
     (let quoted = (\<lambda>s. [CHR 0x22] @ s @ [CHR 0x22])
      in newline @ ''# Generated by Chromifer'' @ [CHR 0x27] @ ''s GN endpoint integration harness.'' @ newline @
         ''executable('' @ quoted (ic_endpoint_target c) @ '') {'' @ newline @
         ''  sources = [ '' @ quoted (ic_endpoint_source c) @ '' ]'' @ newline @
         ''  include_dirs = [ '' @ quoted ''//'' @ '' ]'' @ newline @
         ''  deps = [ '' @ quoted ('':'' @ consumer_target) @ '' ]'' @ newline @ ''}'' @ newline @ newline @
         ''group('' @ quoted (ic_integration_target c) @ '') {'' @ newline @
         ''  deps = [ '' @ quoted ('':'' @ ic_endpoint_target c) @ '' ]'' @ newline @ ''}'' @ newline)"

definition append_integration_targets ::
  "host \<Rightarrow> path \<Rightarrow> integration_contract \<Rightarrow> consumer_provenance \<Rightarrow> unit on_disk" where
  "append_integration_targets h build_gn c consumer =
     or_fail (append_file (ho_volume h) build_gn (integration_targets c (cp_target_name consumer)))
       (OverlayIo (shown_path build_gn))"

definition header_below :: "integration_contract \<Rightarrow> string \<Rightarrow> (integration_error, string) result" where
  "header_below c header =
     ok_or (strip_prefix (ic_destination c @ ''/'') header)
       (InvalidContract (''consumer header `'' @ header @ ''` is outside destination''))"

definition package_files ::
  "integration_contract \<Rightarrow> bridge_provenance \<Rightarrow> c_abi_provenance \<Rightarrow> consumer_provenance \<Rightarrow>
     (integration_error, string list) result" where
  "package_files c build c_abi consumer =
     and_then (try_map (header_below c) (cp_required_headers consumer)) (\<lambda>headers.
     Inr (bts_of_list
       ([''BUILD.gn'', bp_crate_root build, ic_endpoint_source c, ca_contract_path c_abi, ca_header_path c_abi] @
        bp_sources build @ cp_sources consumer @ headers @ map sd_source (ca_sources c_abi))))"

definition copy_package_file :: "host \<Rightarrow> string list \<Rightarrow> path \<Rightarrow> string \<Rightarrow> unit on_disk" where
  "copy_package_file h package_root destination relative =
     then_do (lift_result (normalized_exact relative)) (\<lambda>normalized.
     then_do (inspect (\<lambda>d. resolve_file d package_root normalized)) (\<lambda>source.
     let target = path_join destination (components normalized)
     in then_do (or_fail (create_dir_all (ho_volume h) (butlast target)) (OverlayIo (shown_path (butlast target)))) (\<lambda>_.
        or_fail (copy_file (ho_volume h) (absolute source) target) (OverlayIo (shown_path target)))))"

definition materialize_package ::
  "host \<Rightarrow> string list \<Rightarrow> path \<Rightarrow> integration_contract \<Rightarrow> bridge_provenance \<Rightarrow> c_abi_provenance \<Rightarrow>
     consumer_provenance \<Rightarrow> unit on_disk" where
  "materialize_package h package_root destination c build c_abi consumer =
     then_do (or_fail (create_dir_all (ho_volume h) destination) (OverlayIo (shown_path destination))) (\<lambda>_.
     then_do (lift_result (package_files c build c_abi consumer)) (\<lambda>files.
     then_do (each_do (copy_package_file h package_root destination) files) (\<lambda>_.
     append_integration_targets h (destination @ [Normal ''BUILD.gn'']) c consumer)))"

section \<open>The Rust template\<close>

definition host_compile_script :: string where
  "host_compile_script =
     ''#!/usr/bin/env python3'' @ newline @ ''import pathlib'' @ newline @ ''import subprocess'' @ newline @
     ''import sys'' @ newline @ newline @
     ''rustc, crate_root, output, edition, crate_name, unsafe_policy = sys.argv[1:]'' @ newline @
     ''pathlib.Path(output).parent.mkdir(parents=True, exist_ok=True)'' @ newline @
     ''command = [rustc, crate_root, '--crate-name', crate_name, '--crate-type', 'staticlib', '--edition', '' @
     ''edition, '-C', 'panic=abort', '-o', output]'' @ newline @
     ''if unsafe_policy == 'deny':'' @ newline @
     ''    command.extend(['-F', 'unsafe-code'])'' @ newline @
     ''subprocess.run(command, check=True)'' @ newline"

definition dq :: "string \<Rightarrow> string" where
  "dq s = [CHR 0x22] @ s @ [CHR 0x22]"

definition host_rust_template :: "string \<Rightarrow> string" where
  "host_rust_template rustc =
     concat (map (\<lambda>l. l @ newline)
       [''template('' @ dq ''rust_static_library'' @ '') {'',
        ''  _crate_name = target_name'',
        ''  _archive_target = target_name + '' @ dq ''__archive'',
        ''  _link_config = target_name + '' @ dq ''__link'',
        ''  _archive_dir = get_label_info('' @ dq '':$_archive_target'' @ '', '' @ dq ''target_out_dir'' @ '')'',
        ''  _archive = '' @ dq ''$_archive_dir/lib${_crate_name}.a'',
        ''  _unsafe_policy = '' @ dq ''deny'',
        ''  if (defined(invoker.allow_unsafe) && invoker.allow_unsafe) {'',
        ''    _unsafe_policy = '' @ dq ''allow'',
        ''  }'', [],
        ''  action(_archive_target) {'',
        ''    script = '' @ dq ''//build/rust/compile_staticlib.py'',
        ''    sources = invoker.sources'',
        ''    inputs = [ invoker.crate_root ]'',
        ''    outputs = [ _archive ]'',
        ''    args = ['',
        ''      '' @ dq (integration_gn_escape (shown rustc)) @ '','',
        ''      rebase_path(invoker.crate_root, root_build_dir),'',
        ''      rebase_path(_archive, root_build_dir),'',
        ''      invoker.edition,'',
        ''      _crate_name,'',
        ''      _unsafe_policy,'',
        ''    ]'',
        ''  }'', [],
        ''  config(_link_config) {'',
        ''    include_dirs = [ '' @ dq ''//'' @ '' ]'',
        ''    libs = [ _archive ]'',
        ''    if (is_linux) {'',
        ''      libs += [ '' @ dq ''dl'' @ '', '' @ dq ''pthread'' @ '', '' @ dq ''m'' @ '' ]'',
        ''    }'',
        ''  }'', [],
        ''  group(_crate_name) {'',
        ''    public_deps = [ '' @ dq '':$_archive_target'' @ '' ]'',
        ''    public_configs = [ '' @ dq '':$_link_config'' @ '' ]'',
        ''    if (defined(invoker.visibility)) {'',
        ''      visibility = invoker.visibility'',
        ''    }'',
        ''  }'',
        ''}''])"

definition adapter_directory :: "string list \<Rightarrow> path" where
  "adapter_directory root = absolute root @ components ''build/rust''"

definition write_overlay :: "host \<Rightarrow> path \<Rightarrow> string \<Rightarrow> unit on_disk" where
  "write_overlay h p bytes =
     or_fail (fs_write (dv_write_fault (ho_volume h) (show_path p)) p bytes) (OverlayIo (shown_path p))"

text \<open>The directory is tracked once it has been made.\<close>

definition install_host_adapter :: "host \<Rightarrow> string list \<Rightarrow> string \<Rightarrow> unit in_workspace" where
  "install_host_adapter h root rustc =
     (let directory = adapter_directory root
      in then_do (inspect (\<lambda>w. validate_overlay_parent (ws_disk w) root ''build/rust'')) (\<lambda>_.
         then_do (inspect (\<lambda>w. require (\<not> exists_at (ws_disk w) directory) (AdapterExists (shown_path directory)))) (\<lambda>_.
         then_do (using_disk (or_fail (create_dir_all (ho_volume h) directory) (OverlayIo (shown_path directory)))) (\<lambda>_.
         then_do (tracking directory) (\<lambda>_.
         then_do (using_disk (write_overlay h (directory @ [Normal ''compile_staticlib.py'']) host_compile_script)) (\<lambda>_.
         using_disk (write_overlay h (directory @ [Normal ''rust_static_library.gni'']) (host_rust_template rustc))))))))"

definition provide_template :: "host \<Rightarrow> string list \<Rightarrow> integration_contract \<Rightarrow> toolchain_runtime \<Rightarrow> unit in_workspace" where
  "provide_template h root c tools =
     (if ic_rust_template c = HostAdapter
      then then_do (lift_result (ok_or (tr_rustc tools) (InvalidContract ''host adapter has no resolved Rustc'')))
             (\<lambda>rustc. install_host_adapter h root (rt_invocation_path rustc))
      else inspect (\<lambda>w.
             case resolve_file (ws_disk w) root template_path of
               Inl _ \<Rightarrow> Inl (MissingRustTemplate (shown_path (absolute root @ components template_path)))
             | Inr _ \<Rightarrow> Inr ()))"

section \<open>The project export\<close>

definition json_get :: "string \<Rightarrow> json \<Rightarrow> json option" where
  "json_get key v = (case v of JObject entries \<Rightarrow> map_of entries key | _ \<Rightarrow> None)"

definition json_object :: "json \<Rightarrow> (string \<times> json) list option" where
  "json_object v = (case v of JObject entries \<Rightarrow> Some entries | _ \<Rightarrow> None)"

definition json_array :: "json \<Rightarrow> json list option" where
  "json_array v = (case v of JArray vs \<Rightarrow> Some vs | _ \<Rightarrow> None)"

definition json_strings :: "json list \<Rightarrow> string list" where
  "json_strings vs = concat (map (\<lambda>v. case v of JString s \<Rightarrow> [s] | _ \<Rightarrow> []) vs)"

definition endpoint_from_project ::
  "host \<Rightarrow> string \<Rightarrow> string list \<Rightarrow> string \<Rightarrow> (integration_error, nat \<times> path) result" where
  "endpoint_from_project h bytes root label =
     and_then (ok_or (ho_value_from_json h bytes) JsonError) (\<lambda>project.
     and_then (ok_or (Option.bind (json_get ''targets'' project) json_object) (InvalidProject ''missing targets object''))
       (\<lambda>targets.
     and_then (ok_or (map_of targets label) (MissingTarget label)) (\<lambda>target.
     and_then (ok_or (Option.bind (json_get ''outputs'' target) json_array) MissingEndpointOutput) (\<lambda>outputs.
     and_then (ok_or (List.find (starts_with ''//'') (json_strings outputs)) MissingEndpointOutput) (\<lambda>output.
     and_then (normalized_exact (trim_start_matches ''//'' output)) (\<lambda>relative.
     Inr (length targets, absolute root @ components relative)))))))"

section \<open>A run\<close>

record integration_plan =
  ip_source_root :: "string list"
  ip_package_root :: "string list"
  ip_contract :: integration_contract
  ip_build :: bridge_provenance
  ip_c_abi :: c_abi_provenance
  ip_consumer :: consumer_provenance
  ip_tools :: toolchain_runtime

definition source_root_of :: "disk \<Rightarrow> string \<Rightarrow> string list option" where
  "source_root_of d p =
     (case canonical_dir d p of
        None \<Rightarrow> None
      | Some root \<Rightarrow>
          if is_file (tree d) (absolute root @ [Normal ''.gn'']) \<and> is_file (tree d) (absolute root @ [Normal ''BUILD.gn''])
          then Some root else None)"

text \<open>What is read and checked before any tool runs: the source and package roots, the contract and the
  provenance files.\<close>

definition read_inputs ::
  "host \<Rightarrow> integration_options \<Rightarrow> disk \<Rightarrow>
     (integration_error, string list \<times> string list \<times> integration_contract \<times> bridge_provenance \<times> c_abi_provenance) result" where
  "read_inputs h opts d =
     and_then (ok_or (canonical_dir d (io_repo_root opts)) (InvalidRepoRoot (shown (io_repo_root opts)))) (\<lambda>repo_root.
     and_then (ok_or (source_root_of d (io_source_root opts)) (InvalidSourceRoot (shown (io_source_root opts)))) (\<lambda>source_root.
     and_then (canonical_file d repo_root (io_contract opts)) (\<lambda>contract_path.
     and_then (read_bytes_at h d (absolute contract_path)) (\<lambda>contract_bytes.
     and_then (ok_or (ho_contract_from_json h contract_bytes) JsonError) (\<lambda>c.
     and_then (validate_integration_contract h c) (\<lambda>_.
     and_then (try_map (resolve_file d source_root) (ic_source_inputs c)) (\<lambda>_.
     and_then (resolve_directory d repo_root (ic_package_root c)) (\<lambda>package_root.
     and_then (resolve_file d repo_root (ic_build_provenance c)) (\<lambda>build_path.
     and_then (resolve_file d repo_root (ic_c_abi_provenance c)) (\<lambda>c_abi_path.
     and_then (require (prefix package_root build_path \<and> prefix package_root c_abi_path)
       (InvalidContract ''build and C ABI provenance must be inside package_root'')) (\<lambda>_.
     and_then (read_bytes_at h d (absolute build_path)) (\<lambda>build_bytes.
     and_then (ok_or (ho_build_from_json h build_bytes) JsonError) (\<lambda>build.
     and_then (read_bytes_at h d (absolute c_abi_path)) (\<lambda>c_abi_bytes.
     and_then (ok_or (ho_c_abi_from_json h c_abi_bytes) JsonError) (\<lambda>c_abi.
     and_then (validate_provenance h d repo_root package_root c build c_abi) (\<lambda>_.
     Inr (source_root, package_root, c, build, c_abi)))))))))))))))))"

definition destination_of :: "integration_plan \<Rightarrow> path" where
  "destination_of plan = path_join (absolute (ip_source_root plan)) (components (ic_destination (ip_contract plan)))"

definition out_dir_of :: "integration_plan \<Rightarrow> path" where
  "out_dir_of plan = path_join (absolute (ip_source_root plan)) (components (ic_out_dir (ip_contract plan)))"

definition prepare :: "host \<Rightarrow> integration_options \<Rightarrow> integration_plan on_disk" where
  "prepare h opts =
     then_do (inspect (read_inputs h opts)) (\<lambda>(source_root, package_root, c, build, c_abi).
     then_do (new_toolchain h opts source_root c) (\<lambda>tools.
     then_do (lift_result (ok_or (bp_consumer build) (InvalidContract ''build provenance has no C++ consumer'')))
       (\<lambda>consumer.
     let plan = \<lparr>ip_source_root = source_root, ip_package_root = package_root, ip_contract = c, ip_build = build,
                 ip_c_abi = c_abi, ip_consumer = consumer, ip_tools = tools\<rparr>
     in then_do (inspect (\<lambda>d. require (\<not> exists_at d (destination_of plan))
            (DestinationExists (shown_path (destination_of plan))))) (\<lambda>_.
        lift_result (Inr plan)))))"

definition lay_out_package :: "host \<Rightarrow> integration_plan \<Rightarrow> unit in_workspace" where
  "lay_out_package h plan =
     (let root = ip_source_root plan; c = ip_contract plan
      in then_do (inspect (\<lambda>w. validate_overlay_parent (ws_disk w) root (ic_destination c))) (\<lambda>_.
         then_do (track_missing_parents root (ic_destination c)) (\<lambda>_.
         then_do (tracking (destination_of plan)) (\<lambda>_.
         then_do (using_disk (materialize_package h (ip_package_root plan) (destination_of plan) c (ip_build plan)
           (ip_c_abi plan) (ip_consumer plan))) (\<lambda>_.
         provide_template h root c (ip_tools plan))))))"

definition root_target_of :: "integration_contract \<Rightarrow> string" where
  "root_target_of c = ''//'' @ ic_destination c @ '':'' @ ic_integration_target c"

definition endpoint_label_of :: "integration_contract \<Rightarrow> string" where
  "endpoint_label_of c = ''//'' @ ic_destination c @ '':'' @ ic_endpoint_target c"

definition gn_args :: "integration_plan \<Rightarrow> string list" where
  "gn_args plan =
     (let c = ip_contract plan
      in [''gen'', ic_out_dir c, ''--root-target='' @ root_target_of c, ''--ide=json'',
          ''--json-file-name=project.json'',
          ''--ninja-executable='' @ shown (rt_invocation_path (tr_ninja (ip_tools plan)))])"

definition ninja_args :: "integration_contract \<Rightarrow> string list" where
  "ninja_args c = [''-C'', ic_out_dir c, ic_destination c @ '':'' @ ic_endpoint_target c]"

text \<open>Builds the endpoint and runs it: the number of targets, the endpoint and its exit code.\<close>

definition build_and_run :: "host \<Rightarrow> integration_plan \<Rightarrow> (nat \<times> path \<times> int) on_disk" where
  "build_and_run h plan =
     (let root = ip_source_root plan; c = ip_contract plan; out_dir = out_dir_of plan
      in then_do (inspect (\<lambda>d. validate_overlay_parent d root (ic_out_dir c))) (\<lambda>_.
         then_do (or_fail (create_dir_all (ho_volume h) out_dir) (OverlayIo (shown_path out_dir))) (\<lambda>_.
         then_do (run_checked h (rt_invocation_path (tr_gn (ip_tools plan))) root (gn_args plan)) (\<lambda>_.
         then_do (inspect (\<lambda>d. and_then (read_bytes_at h d (out_dir @ [Normal ''project.json''])) (\<lambda>bytes.
           endpoint_from_project h bytes root (endpoint_label_of c)))) (\<lambda>(target_count, endpoint).
         then_do (run_checked h (rt_invocation_path (tr_ninja (ip_tools plan))) root (ninja_args c)) (\<lambda>_.
         then_do (launch h (shown_path endpoint) (show_path endpoint) root []) (\<lambda>p.
         lift_result
           (if status_code (pr_status p) \<noteq> ic_expected_exit_code c
            then Inl (EndpointExitMismatch (status_code (pr_status p)) (ic_expected_exit_code c))
            else Inr (target_count, endpoint, status_code (pr_status p))))))))))"

definition integration_summary_of :: "host \<Rightarrow> integration_plan \<Rightarrow> nat \<Rightarrow> path \<Rightarrow> string \<Rightarrow> int \<Rightarrow> integration_summary" where
  "integration_summary_of h plan target_count endpoint bytes code =
     (let c = ip_contract plan
      in \<lparr>is_package = bp_package (ip_build plan), is_destination = ic_destination c,
          is_root_target = root_target_of c, is_endpoint_target = endpoint_label_of c, is_out_dir = ic_out_dir c,
          is_target_count = target_count, is_endpoint_path = shown_path endpoint,
          is_endpoint_sha256 = integration_sha256 h bytes, is_endpoint_bytes = length bytes,
          is_endpoint_exit_code = code, is_tools = into_identity (ip_tools plan)\<rparr>)"

definition run_overlay :: "host \<Rightarrow> integration_plan \<Rightarrow> integration_summary in_workspace" where
  "run_overlay h plan =
     then_do (lay_out_package h plan) (\<lambda>_.
     then_do (using_disk (build_and_run h plan)) (\<lambda>(target_count, endpoint, code).
     then_do (inspect (\<lambda>w. read_bytes_at h (ws_disk w) endpoint)) (\<lambda>bytes.
     then_do (cleanup (ho_volume h)) (\<lambda>_.
     then_do (inspect (\<lambda>w. verify_unchanged h (ws_disk w) (ip_tools plan))) (\<lambda>_.
     lift_result (Inr (integration_summary_of h plan target_count endpoint bytes code)))))))"

text \<open>The guard is dropped on every way out.\<close>

definition run_integration :: "host \<Rightarrow> integration_options \<Rightarrow> integration_summary on_disk" where
  "run_integration h opts =
     then_do (prepare h opts) (\<lambda>plan d.
     (case run_overlay h plan \<lparr>ws_disk = d, ws_guard = new_guard\<rparr> of
        (r, w) \<Rightarrow> (r, drop_guard (ho_volume h) w)))"

end
