(* ===== verification/IntegrationCorrect.thy ===== *)
theory IntegrationCorrect
  imports Integration
begin

text \<open>
  What a run leaves behind: the overlay is removed on every way out, and nothing else of the checkout has
  changed but the build directory.
\<close>

section \<open>Paths of the contract\<close>

definition path_segments :: "string \<Rightarrow> string list" where
  "path_segments s = normal_segments (components s)"

lemma normal_segments_map_Normal [simp]: "normal_segments (map Normal ws) = ws"
  by (induction ws) (simp_all add: normal_segments_def)

lemma normalized_components:
  assumes "normalized_exact s = Inr n"
  shows "components n = map Normal (path_segments n)" and "path_segments n \<noteq> []"
    and "list_all proper_segment (path_segments n)" and "n = join ''/'' (path_segments n)"
    and "CHR 0x5C \<notin> set s \<Longrightarrow> n = s"
proof -
  have n: "normalize_repo_relative_path s = Some n" and exact: "n = replace_char (CHR 0x5C) (CHR ''/'') s"
    using assms by (auto simp: normalized_exact_def and_then_Inr_iff ok_or_Inr_iff split: if_splits)
  from normalize_repo_path [OF n] obtain ws where ws: "ws \<noteq> []" "list_all proper_segment ws" "n = join ''/'' ws"
    by (auto simp: repo_path_def)
  have cs: "components n = map Normal ws" using components_repo_path [OF ws(1,2)] ws(3) by simp
  then have seg: "path_segments n = ws" by (simp add: path_segments_def)
  show "components n = map Normal (path_segments n)" and "path_segments n \<noteq> []"
    and "list_all proper_segment (path_segments n)" and "n = join ''/'' (path_segments n)"
    using cs seg ws by simp_all
  show "n = s" if "CHR 0x5C \<notin> set s" using exact replace_char_id [OF that] by simp
qed

lemma path_join_absolute: "path_join (absolute root) (map Normal ws) = absolute (root @ ws)"
  by (cases ws) (simp_all add: path_join_def is_absolute_def absolute_def)

lemma absolute_append: "absolute root @ map Normal ws = absolute (root @ ws)"
  by (simp add: absolute_def)

lemma out_dir_segments:
  assumes "normalized_exact s = Inr s" and "starts_with ''out/'' s"
  shows "hd (path_segments s) = ''out''"
proof -
  note n = normalized_components [OF assms(1)]
  obtain r where r: "s = ''out'' @ CHR ''/'' # r" using assms(2) by (auto simp: starts_with_iff)
  have "split_on (CHR ''/'') s = path_segments s"
    using n(2,3) by (subst n(4), intro split_on_join) (auto simp: list_all_iff proper_segment_def)
  moreover have "split_on (CHR ''/'') s = ''out'' # split_on (CHR ''/'') r"
    unfolding r by (rule split_on_append) simp
  ultimately show ?thesis by (metis list.sel(1))
qed

section \<open>Regions\<close>

definition dest_real :: "integration_plan \<Rightarrow> string list" where
  "dest_real plan = ip_source_root plan @ path_segments (ic_destination (ip_contract plan))"

definition out_real :: "integration_plan \<Rightarrow> string list" where
  "out_real plan = ip_source_root plan @ path_segments (ic_out_dir (ip_contract plan))"

definition adapter_real :: "integration_plan \<Rightarrow> string list" where
  "adapter_real plan = ip_source_root plan @ [''build'', ''rust'']"

text \<open>Where the package, the Rust adapter and the build go, on the disk as the run finds it.\<close>

definition package_region :: "integration_plan \<Rightarrow> disk \<Rightarrow> string list \<Rightarrow> bool" where
  "package_region plan d q \<longleftrightarrow> (\<exists>t. prefix t (dest_real plan) \<and> entry_at d t = None \<and> prefix t q)"

definition adapter_region :: "integration_plan \<Rightarrow> disk \<Rightarrow> string list \<Rightarrow> bool" where
  "adapter_region plan d q \<longleftrightarrow>
     entry_at d (ip_source_root plan @ [''build'']) = Some DirEntry \<and> entry_at d (adapter_real plan) = None \<and>
     prefix (adapter_real plan) q"

definition build_region :: "integration_plan \<Rightarrow> disk \<Rightarrow> string list \<Rightarrow> bool" where
  "build_region plan d q \<longleftrightarrow> prefix (out_real plan) q \<or> (prefix q (out_real plan) \<and> entry_at d q = None)"

text \<open>The checkout a run is made for: no links on the paths of the overlay, no second names for files of
  the build directory, a package that is laid neither into \<open>out\<close> nor into \<open>build\<close>, and, for the host
  adapter, a directory \<open>build\<close>.\<close>

definition overlay_ready :: "integration_plan \<Rightarrow> disk \<Rightarrow> bool" where
  "overlay_ready plan d \<longleftrightarrow>
     well_kept (build_region plan d) d \<and>
     entry_at d (ip_source_root plan) = Some DirEntry \<and>
     unlinked d (dest_real plan) \<and> unlinked d (out_real plan) \<and>
     CHR 0x5C \<notin> set (ic_destination (ip_contract plan)) \<and> CHR 0x5C \<notin> set (ic_out_dir (ip_contract plan)) \<and>
     hd (path_segments (ic_destination (ip_contract plan))) \<notin> {''out'', ''build''} \<and>
     (ic_rust_template (ip_contract plan) = HostAdapter \<longrightarrow>
        entry_at d (ip_source_root plan @ [''build'']) = Some DirEntry)"

text \<open>What the contract of a plan that was prepared guarantees.\<close>

definition plan_paths :: "integration_plan \<Rightarrow> bool" where
  "plan_paths plan \<longleftrightarrow>
     normalized_exact (ic_destination (ip_contract plan)) = Inr (ic_destination (ip_contract plan)) \<and>
     normalized_exact (ic_out_dir (ip_contract plan)) = Inr (ic_out_dir (ip_contract plan)) \<and>
     starts_with ''out/'' (ic_out_dir (ip_contract plan))"

definition quiet_start :: "integration_plan \<Rightarrow> disk \<Rightarrow> bool" where
  "quiet_start plan d \<longleftrightarrow>
     overlay_ready plan d \<and> plan_paths plan \<and> entry_at d (dest_real plan) = None"

lemma quiet_startD:
  assumes "quiet_start plan d"
  shows "tree_shaped d" and "entry_at d (ip_source_root plan) = Some DirEntry"
    and "unlinked d (dest_real plan)" and "unlinked d (out_real plan)"
    and "well_kept (build_region plan d) d" and "entry_at d (dest_real plan) = None"
  using assms by (simp_all add: quiet_start_def overlay_ready_def well_kept_def)

lemma root_prefix_entry:
  assumes "quiet_start plan d" and "prefix q (ip_source_root plan)"
  shows "entry_at d q = Some DirEntry"
proof -
  from assms(2) obtain ws where ws: "ip_source_root plan = q @ ws" by (auto simp: prefix_def)
  show ?thesis
  proof (cases "ws = []")
    case True
    then show ?thesis using quiet_startD(2) [OF assms(1)] ws by simp
  next
    case False
    then show ?thesis
      using tree_shaped_prefix [OF quiet_startD(1) [OF assms(1)], of q ws] quiet_startD(2) [OF assms(1)] ws by simp
  qed
qed

text \<open>A name below the root is told by its first segment.\<close>

definition first_segment_below :: "integration_plan \<Rightarrow> string \<Rightarrow> string list \<Rightarrow> bool" where
  "first_segment_below plan w q \<longleftrightarrow> prefix (ip_source_root plan @ [w]) q"

lemma first_segment_below_unique: "first_segment_below plan w q \<Longrightarrow> first_segment_below plan x q \<Longrightarrow> w = x"
  by (auto simp: first_segment_below_def prefix_def)

lemma first_segment_below_path:
  assumes "prefix t (ip_source_root plan @ w # ws)" and "\<not> prefix t (ip_source_root plan)" and "prefix t q"
  shows "first_segment_below plan w q"
proof -
  have "prefix (ip_source_root plan @ [w]) t"
  proof -
    have "length (ip_source_root plan) < length t"
    proof (rule ccontr)
      assume "\<not> length (ip_source_root plan) < length t"
      moreover have "prefix (ip_source_root plan) (ip_source_root plan @ w # ws)" by simp
      ultimately have "prefix t (ip_source_root plan)"
        using assms(1) by (meson leI prefix_length_prefix)
      then show False using assms(2) by simp
    qed
    moreover have "prefix (ip_source_root plan @ [w]) (ip_source_root plan @ w # ws)" by simp
    ultimately show ?thesis using assms(1) by (metis Suc_leI length_append_singleton prefix_length_prefix)
  qed
  then show ?thesis using assms(3) unfolding first_segment_below_def by (rule prefix_order.trans)
qed

lemma package_below:
  assumes "quiet_start plan d" and "package_region plan d q"
  shows "\<exists>w. w \<notin> {''out'', ''build''} \<and> first_segment_below plan w q"
proof -
  obtain t where t: "prefix t (dest_real plan)" "entry_at d t = None" "prefix t q"
    using assms(2) by (auto simp: package_region_def)
  let ?s = "ic_destination (ip_contract plan)"
  have "normalized_exact ?s = Inr ?s" using assms(1) by (simp add: quiet_start_def plan_paths_def)
  then obtain w ws where w: "path_segments ?s = w # ws"
    using normalized_components(2) by (cases "path_segments ?s") auto
  moreover have "w \<notin> {''out'', ''build''}"
    using assms(1) w by (simp add: quiet_start_def overlay_ready_def)
  moreover have "\<not> prefix t (ip_source_root plan)" using root_prefix_entry [OF assms(1)] t(2) by auto
  ultimately show ?thesis using first_segment_below_path [of t plan w ws q] t by (auto simp: dest_real_def)
qed

lemma build_below:
  assumes "quiet_start plan d" and "build_region plan d q"
  shows "first_segment_below plan ''out'' q"
proof -
  let ?s = "ic_out_dir (ip_contract plan)"
  have n: "normalized_exact ?s = Inr ?s" and "starts_with ''out/'' ?s"
    using assms(1) by (simp_all add: quiet_start_def plan_paths_def)
  then have "hd (path_segments ?s) = ''out''" and "path_segments ?s \<noteq> []"
    using out_dir_segments normalized_components(2) by simp_all
  then obtain ws where ws: "path_segments ?s = ''out'' # ws" by (cases "path_segments ?s") auto
  then have o: "out_real plan = ip_source_root plan @ ''out'' # ws" by (simp add: out_real_def)
  show ?thesis
  proof (cases "prefix (out_real plan) q")
    case True
    then show ?thesis
      using first_segment_below_path [of "out_real plan" plan "''out''" ws q] o
      by (auto simp: prefix_def)
  next
    case False
    then have q: "prefix q (out_real plan)" "entry_at d q = None" using assms(2) by (auto simp: build_region_def)
    then have "\<not> prefix q (ip_source_root plan)" using root_prefix_entry [OF assms(1)] by auto
    then show ?thesis using first_segment_below_path [of q plan "''out''" ws q] q o by simp
  qed
qed

lemma adapter_below: "adapter_region plan d q \<Longrightarrow> first_segment_below plan ''build'' q"
  by (auto simp: adapter_region_def adapter_real_def first_segment_below_def prefix_def)

lemma regions_apart:
  assumes "quiet_start plan d"
  shows "\<not> (package_region plan d q \<and> adapter_region plan d q)"
    and "\<not> (package_region plan d q \<and> build_region plan d q)"
    and "\<not> (adapter_region plan d q \<and> build_region plan d q)"
  using package_below [OF assms, of q] build_below [OF assms, of q] adapter_below [of plan d q]
  by (auto dest: first_segment_below_unique)

lemma package_region_missing:
  "tree_shaped d \<Longrightarrow> package_region plan d q \<Longrightarrow> entry_at d q = None"
  by (auto simp: package_region_def intro: below_missing)

lemma adapter_region_missing:
  "tree_shaped d \<Longrightarrow> adapter_region plan d q \<Longrightarrow> entry_at d q = None"
  by (auto simp: adapter_region_def intro: below_missing)

section \<open>Changes in one of several regions\<close>

lemma confined_apart:
  assumes "confined X d d'" and "well_kept Y d" and "\<And>q. \<not> (X q \<and> Y q)"
  shows "well_kept Y d'"
proof -
  have shape: "tree_shaped d'" and priv: "private_to X d'"
    and same: "\<And>q. \<not> X q \<Longrightarrow> entry_at d' q = entry_at d q"
    using assms(1) by (auto simp: confined_def well_kept_def same_at_def)
  have "entry_at d' other \<noteq> Some (FileEntry i)"
    if a: "Y real" "\<not> Y other" "entry_at d' real = Some (FileEntry i)" for real other i
  proof (cases "X other")
    case True
    moreover have "\<not> X real" using assms(3) a(1) by blast
    ultimately show ?thesis using priv a(3) unfolding private_to_def by blast
  next
    case False
    moreover have "\<not> X real" using assms(3) a(1) by blast
    ultimately show ?thesis
      using same a assms(2) unfolding well_kept_def private_to_def by metis
  qed
  then show ?thesis using shape unfolding well_kept_def private_to_def by blast
qed

text \<open>A change that brings no new links.\<close>

definition plain_change :: "(string list \<Rightarrow> bool) \<Rightarrow> disk \<Rightarrow> disk \<Rightarrow> bool" where
  "plain_change X d d' \<longleftrightarrow>
     confined X d d' \<and> (\<forall>q t. entry_at d' q = Some (LinkEntry t) \<longrightarrow> entry_at d q = Some (LinkEntry t))"

lemma plain_change_made_dirs: "made_dirs X real d d' \<Longrightarrow> plain_change X d d'"
  unfolding plain_change_def made_dirs_def by (metis disk_entry.distinct(5) option.inject)

lemma plain_change_writes_at: "writes_at X real d d' \<Longrightarrow> plain_change X d d'"
  unfolding plain_change_def writes_at_def by (metis disk_entry.distinct(3) option.inject)

lemma plain_change_without:
  assumes "well_kept X d" and "\<And>q. P q \<Longrightarrow> X q" and "\<And>q w. P q \<Longrightarrow> P (q @ [w])"
  shows "plain_change X d (without P d)"
proof -
  have "confined X d (without P d)" by (rule confined_without) (fact assms)+
  then show ?thesis by (auto simp: plain_change_def entry_at_without split: if_splits)
qed

lemma plain_change_refl: "well_kept X d \<Longrightarrow> plain_change X d d"
  by (simp add: plain_change_def confined_refl)

text \<open>The disk during a run that began on \<open>d0\<close>: \<open>a\<close> when the adapter may have been installed, \<open>b\<close> when
  the build may have begun.\<close>

definition overlay_inv :: "integration_plan \<Rightarrow> disk \<Rightarrow> bool \<Rightarrow> bool \<Rightarrow> disk \<Rightarrow> bool" where
  "overlay_inv plan d0 a b d \<longleftrightarrow>
     well_kept (package_region plan d0) d \<and> well_kept (adapter_region plan d0) d \<and>
     well_kept (build_region plan d0) d \<and>
     (\<forall>q. \<not> package_region plan d0 q \<longrightarrow> \<not> (a \<and> adapter_region plan d0 q) \<longrightarrow>
        \<not> (b \<and> build_region plan d0 q) \<longrightarrow> same_at d0 d q) \<and>
     (\<forall>q t. package_region plan d0 q \<or> adapter_region plan d0 q \<longrightarrow> entry_at d q \<noteq> Some (LinkEntry t))"

lemma overlay_inv_start:
  assumes "quiet_start plan d"
  shows "overlay_inv plan d a b d"
proof -
  have "private_to X d" if "\<And>q. X q \<Longrightarrow> entry_at d q = None" for X
    using that unfolding private_to_def by auto
  then show ?thesis
    using quiet_startD [OF assms] package_region_missing adapter_region_missing
    by (auto simp: overlay_inv_def well_kept_def)
qed

lemma overlay_inv_package:
  assumes "quiet_start plan d0" and "overlay_inv plan d0 a b d" and "plain_change (package_region plan d0) d d'"
  shows "overlay_inv plan d0 a b d'"
proof -
  have conf: "confined (package_region plan d0) d d'" using assms(3) by (simp add: plain_change_def)
  have kept: "well_kept (adapter_region plan d0) d'" "well_kept (build_region plan d0) d'"
    using assms(2) regions_apart [OF assms(1)]
    by (auto simp: overlay_inv_def intro!: confined_apart [OF conf])
  have "same_at d0 d' q" if "\<not> package_region plan d0 q" "\<not> (a \<and> adapter_region plan d0 q)"
      "\<not> (b \<and> build_region plan d0 q)" for q
    using that assms(2) conf unfolding overlay_inv_def confined_def same_at_def by metis
  moreover have "entry_at d' q \<noteq> Some (LinkEntry t)"
    if "package_region plan d0 q \<or> adapter_region plan d0 q" for q t
    using that assms(2,3) unfolding overlay_inv_def plain_change_def by metis
  ultimately show ?thesis using kept conf unfolding overlay_inv_def confined_def by blast
qed

lemma overlay_inv_adapter:
  assumes "quiet_start plan d0" and "overlay_inv plan d0 a b d" and "plain_change (adapter_region plan d0) d d'"
  shows "overlay_inv plan d0 True b d'"
proof -
  have conf: "confined (adapter_region plan d0) d d'" using assms(3) by (simp add: plain_change_def)
  have kept: "well_kept (package_region plan d0) d'" "well_kept (build_region plan d0) d'"
    using assms(2) regions_apart [OF assms(1)]
    by (auto simp: overlay_inv_def intro!: confined_apart [OF conf])
  have "same_at d0 d' q" if "\<not> package_region plan d0 q" "\<not> adapter_region plan d0 q"
      "\<not> (b \<and> build_region plan d0 q)" for q
    using that assms(2) conf unfolding overlay_inv_def confined_def same_at_def by metis
  moreover have "entry_at d' q \<noteq> Some (LinkEntry t)"
    if "package_region plan d0 q \<or> adapter_region plan d0 q" for q t
    using that assms(2,3) unfolding overlay_inv_def plain_change_def by metis
  ultimately show ?thesis using kept conf unfolding overlay_inv_def confined_def by blast
qed

lemma overlay_inv_build:
  assumes "quiet_start plan d0" and "overlay_inv plan d0 a b d" and "confined (build_region plan d0) d d'"
  shows "overlay_inv plan d0 a True d'"
proof -
  note conf = assms(3)
  have kept: "well_kept (package_region plan d0) d'" "well_kept (adapter_region plan d0) d'"
    using assms(2) regions_apart [OF assms(1)]
    by (auto simp: overlay_inv_def intro!: confined_apart [OF conf])
  have "same_at d0 d' q" if "\<not> package_region plan d0 q" "\<not> (a \<and> adapter_region plan d0 q)"
      "\<not> build_region plan d0 q" for q
    using that assms(2) conf unfolding overlay_inv_def confined_def same_at_def by metis
  moreover have "entry_at d' q \<noteq> Some (LinkEntry t)"
    if "package_region plan d0 q \<or> adapter_region plan d0 q" for q t
    using that assms(2) conf regions_apart [OF assms(1), of q]
    unfolding overlay_inv_def confined_def same_at_def by metis
  ultimately show ?thesis using kept conf unfolding overlay_inv_def confined_def by blast
qed

section \<open>Paths of the overlay\<close>

text \<open>Every name on the path is one of the overlay, or one of the checkout that stays and is no link.\<close>

definition overlay_path :: "integration_plan \<Rightarrow> disk \<Rightarrow> string list \<Rightarrow> bool" where
  "overlay_path plan d0 real \<longleftrightarrow>
     (\<forall>q. prefix q real \<longrightarrow> package_region plan d0 q \<or> adapter_region plan d0 q \<or>
        (entry_at d0 q \<noteq> None \<and> (\<forall>t. entry_at d0 q \<noteq> Some (LinkEntry t)) \<and> \<not> build_region plan d0 q))"

lemma prefix_append_cases: "prefix q (p @ ws) \<Longrightarrow> prefix q p \<or> prefix p q"
  by (meson prefixI prefix_same_cases)

lemma root_not_build:
  assumes "quiet_start plan d0" and "prefix q (ip_source_root plan)"
  shows "\<not> build_region plan d0 q"
proof
  assume "build_region plan d0 q"
  then have "prefix (ip_source_root plan @ [''out'']) q" using build_below [OF assms(1)] by (simp add: first_segment_below_def)
  then have "prefix (ip_source_root plan @ [''out'']) (ip_source_root plan)"
    using assms(2) by (rule prefix_order.trans)
  then show False by (auto dest: prefix_length_le)
qed

lemma destination_segments:
  assumes "quiet_start plan d0"
  obtains w ws where "dest_real plan = ip_source_root plan @ w # ws" and "w \<notin> {''out'', ''build''}"
proof -
  let ?s = "ic_destination (ip_contract plan)"
  have n: "normalized_exact ?s = Inr ?s" using assms by (simp add: quiet_start_def plan_paths_def)
  then obtain w ws where "path_segments ?s = w # ws"
    using normalized_components(2) by (cases "path_segments ?s") auto
  then show thesis
    using that [of w ws] assms by (simp add: dest_real_def quiet_start_def overlay_ready_def)
qed

lemma overlay_path_package:
  assumes "quiet_start plan d0"
  shows "overlay_path plan d0 (dest_real plan @ ws)"
  unfolding overlay_path_def
proof (intro allI impI)
  fix q assume q: "prefix q (dest_real plan @ ws)"
  note dest = quiet_startD(6) [OF assms]
  obtain w ws where w: "dest_real plan = ip_source_root plan @ w # ws" "w \<notin> {''out'', ''build''}"
    by (rule destination_segments [OF assms])
  show "package_region plan d0 q \<or> adapter_region plan d0 q \<or>
      (entry_at d0 q \<noteq> None \<and> (\<forall>t. entry_at d0 q \<noteq> Some (LinkEntry t)) \<and> \<not> build_region plan d0 q)"
  proof (cases "package_region plan d0 q")
    case False
    then have "\<not> prefix (dest_real plan) q" using dest by (auto simp: package_region_def)
    then have up: "prefix q (dest_real plan)" using prefix_append_cases [OF q] by blast
    then have some: "entry_at d0 q \<noteq> None" using False by (auto simp: package_region_def)
    moreover have "entry_at d0 q \<noteq> Some (LinkEntry t)" for t
      using unlinked_entry [OF unlinked_prefix [OF quiet_startD(3) [OF assms] up]] .
    moreover have "\<not> build_region plan d0 q"
    proof (cases "prefix q (ip_source_root plan)")
      case True
      then show ?thesis by (rule root_not_build [OF assms])
    next
      case False
      then have "first_segment_below plan w q" using first_segment_below_path [of q plan w ws q] up w(1) by simp
      then show ?thesis using build_below [OF assms] w(2) by (auto dest: first_segment_below_unique)
    qed
    ultimately show ?thesis by blast
  qed simp
qed

lemma overlay_path_adapter:
  assumes "quiet_start plan d0" and "entry_at d0 (ip_source_root plan @ [''build'']) = Some DirEntry"
    and "entry_at d0 (adapter_real plan) = None"
  shows "overlay_path plan d0 (adapter_real plan @ ws)"
  unfolding overlay_path_def
proof (intro allI impI)
  fix q assume q: "prefix q (adapter_real plan @ ws)"
  let ?build = "ip_source_root plan @ [''build'']"
  have r: "adapter_real plan = ?build @ [''rust'']" by (simp add: adapter_real_def)
  show "package_region plan d0 q \<or> adapter_region plan d0 q \<or>
      (entry_at d0 q \<noteq> None \<and> (\<forall>t. entry_at d0 q \<noteq> Some (LinkEntry t)) \<and> \<not> build_region plan d0 q)"
  proof (cases "prefix (adapter_real plan) q")
    case True
    then show ?thesis using assms(2,3) by (simp add: adapter_region_def)
  next
    case False
    then have "prefix q (adapter_real plan)" using prefix_append_cases [OF q] by blast
    then have "prefix q ?build" using False unfolding r prefix_snoc by blast
    then have "q = ?build \<or> prefix q (ip_source_root plan)" by auto
    then show ?thesis
    proof
      assume "q = ?build"
      moreover have "\<not> build_region plan d0 ?build"
        using build_below [OF assms(1), of ?build] by (auto simp: first_segment_below_def)
      ultimately show ?thesis using assms(2) by simp
    next
      assume "prefix q (ip_source_root plan)"
      then show ?thesis using root_prefix_entry [OF assms(1)] root_not_build [OF assms(1)] by simp
    qed
  qed
qed

text \<open>During a run such a path has no links, and what is missing on it is one of the overlay.\<close>

lemma overlay_path_inv:
  assumes "overlay_inv plan d0 a b d" and "overlay_path plan d0 real" and "prefix q real"
  shows "entry_at d q \<noteq> Some (LinkEntry t)"
    and "entry_at d q = None \<Longrightarrow> package_region plan d0 q \<or> adapter_region plan d0 q"
proof -
  have *: "package_region plan d0 q \<or> adapter_region plan d0 q \<or>
      (same_at d0 d q \<and> entry_at d0 q \<noteq> None \<and> (\<forall>t. entry_at d0 q \<noteq> Some (LinkEntry t)))"
    using assms unfolding overlay_path_def overlay_inv_def by meson
  then show "entry_at d q \<noteq> Some (LinkEntry t)"
    using assms(1) unfolding overlay_inv_def same_at_def by metis
  show "package_region plan d0 q \<or> adapter_region plan d0 q" if "entry_at d q = None"
    using * that unfolding same_at_def by metis
qed

lemma overlay_path_unlinked:
  "overlay_inv plan d0 a b d \<Longrightarrow> overlay_path plan d0 real \<Longrightarrow> unlinked d real"
  unfolding unlinked_def by (auto dest: overlay_path_inv(1))

lemma overlay_inv_shape: "overlay_inv plan d0 a b d \<Longrightarrow> tree_shaped d"
  by (simp add: overlay_inv_def well_kept_def)

lemma package_region_up: "package_region plan d0 q \<Longrightarrow> prefix q r \<Longrightarrow> package_region plan d0 r"
  unfolding package_region_def by (meson prefix_order.trans)

lemma adapter_region_up: "adapter_region plan d0 q \<Longrightarrow> prefix q r \<Longrightarrow> adapter_region plan d0 r"
  unfolding adapter_region_def by (meson prefix_order.trans)

lemma missing_on_package_path:
  assumes "quiet_start plan d0" and "overlay_inv plan d0 a b d" and "prefix q (dest_real plan @ ws)"
    and "entry_at d q = None"
  shows "package_region plan d0 q"
proof -
  have "\<not> adapter_region plan d0 q"
  proof
    assume ad: "adapter_region plan d0 q"
    obtain w us where w: "dest_real plan = ip_source_root plan @ w # us" "w \<notin> {''out'', ''build''}"
      by (rule destination_segments [OF assms(1)])
    have long: "prefix (ip_source_root plan @ [''build'']) q"
      using adapter_below [OF ad] by (simp add: first_segment_below_def)
    moreover have "prefix (ip_source_root plan @ [w]) (dest_real plan @ ws)" using w(1) by simp
    moreover have "prefix (ip_source_root plan @ [''build'']) (dest_real plan @ ws)"
      using long assms(3) by (rule prefix_order.trans)
    ultimately have "w = ''build''" using w by (auto simp: prefix_def)
    then show False using w(2) by simp
  qed
  then show ?thesis
    using overlay_path_inv(2) [OF assms(2) overlay_path_package [OF assms(1)] assms(3,4)] by blast
qed

section \<open>Laying out the package\<close>

lemma package_region_dest: "quiet_start plan d0 \<Longrightarrow> package_region plan d0 (dest_real plan @ ws)"
  by (auto simp: package_region_def dest: quiet_startD(6))

lemma create_package_dir:
  assumes "quiet_start plan d0" and "overlay_inv plan d0 a b d"
    and "create_dir_all v (absolute (dest_real plan @ ws)) d = (ok, d')"
  shows "overlay_inv plan d0 a b d' \<and> (ok \<longrightarrow> entry_at d' (dest_real plan @ ws) = Some DirEntry)"
proof -
  have kept: "well_kept (package_region plan d0) d" using assms(2) by (simp add: overlay_inv_def)
  have "made_dirs (package_region plan d0) (dest_real plan @ ws) d d' \<and>
      (ok \<longrightarrow> entry_at d' (dest_real plan @ ws) = Some DirEntry)"
    by (rule create_dir_all_effect [OF assms(3) kept])
      (use assms overlay_path_unlinked overlay_path_package missing_on_package_path in blast)+
  then show ?thesis
    using overlay_inv_package [OF assms(1,2)] plain_change_made_dirs by blast
qed

text \<open>A file that is written below a directory of the package.\<close>

lemma package_target:
  assumes "quiet_start plan d0" and "overlay_inv plan d0 a b d"
    and "entry_at d (dest_real plan @ ws) = Some DirEntry"
  shows "plain_target d (dest_real plan @ ws) w"
  using assms overlay_inv_shape overlay_path_inv(1) [OF assms(2) overlay_path_package [OF assms(1), of "ws @ [w]"]]
  by (simp add: plain_target_def)

lemma keeps_create_package_dir:
  assumes "quiet_start plan d0"
  shows "triple (overlay_inv plan d0 a b) (or_fail (create_dir_all v (absolute (dest_real plan @ ws))) e)
    (\<lambda>r d. overlay_inv plan d0 a b d \<and> (r = Inr () \<longrightarrow> entry_at d (dest_real plan @ ws) = Some DirEntry))"
proof (rule tripleI)
  fix d r d' assume d: "overlay_inv plan d0 a b d"
    and m: "or_fail (create_dir_all v (absolute (dest_real plan @ ws))) e d = (r, d')"
  obtain ok d2 where c: "create_dir_all v (absolute (dest_real plan @ ws)) d = (ok, d2)"
    by (cases "create_dir_all v (absolute (dest_real plan @ ws)) d")
  have "d' = d2" "r = Inr () \<longleftrightarrow> ok" using m c by (auto simp: or_fail_def split: if_splits)
  then show "overlay_inv plan d0 a b d' \<and> (r = Inr () \<longrightarrow> entry_at d' (dest_real plan @ ws) = Some DirEntry)"
    using create_package_dir [OF assms d c] by simp
qed

lemma copy_package_file_keeps:
  assumes "quiet_start plan d0"
  shows "keeps (overlay_inv plan d0 a b) (copy_package_file h package_root (absolute (dest_real plan)) relative)"
proof -
  let ?I = "overlay_inv plan d0 a b"
  have copied: "triple (\<lambda>d. ?I d \<and> entry_at d (dest_real plan @ ws) = Some DirEntry)
      (or_fail (copy_file v source (absolute (dest_real plan @ ws @ [w]))) e) (\<lambda>_. ?I)" for v source ws w e
  proof (rule tripleI)
    fix d r d' assume d: "?I d \<and> entry_at d (dest_real plan @ ws) = Some DirEntry"
      and m: "or_fail (copy_file v source (absolute (dest_real plan @ ws @ [w]))) e d = (r, d')"
    obtain ok d2 where c: "copy_file v source (absolute ((dest_real plan @ ws) @ [w])) d = (ok, d2)"
      by (cases "copy_file v source (absolute ((dest_real plan @ ws) @ [w])) d")
    have "writes_at (package_region plan d0) ((dest_real plan @ ws) @ [w]) d d2"
    proof (rule copy_file_effect [OF c])
      show "well_kept (package_region plan d0) d" using d by (simp add: overlay_inv_def)
      show "plain_target d (dest_real plan @ ws) w" using package_target [OF assms] d by blast
      show "package_region plan d0 ((dest_real plan @ ws) @ [w])"
        using package_region_dest [OF assms, of "ws @ [w]"] by simp
    qed
    then have "?I d2" using overlay_inv_package [OF assms] d plain_change_writes_at by blast
    then show "?I d'" using m c by (simp add: or_fail_def split: if_splits)
  qed
  have body: "keeps ?I (let target = path_join (absolute (dest_real plan)) (components n)
      in then_do (or_fail (create_dir_all v (butlast target)) (e1 target)) (\<lambda>_.
         or_fail (copy_file v source target) (e2 target)))"
    if n: "normalized_exact s = Inr n" for v source n s e1 e2
  proof -
    note seg = normalized_components [OF n]
    obtain ws w where ws: "path_segments n = ws @ [w]" using seg(2) by (cases "path_segments n" rule: rev_cases) auto
    then have target: "path_join (absolute (dest_real plan)) (components n) = absolute (dest_real plan @ ws @ [w])"
      by (simp only: seg(1) path_join_absolute)
    moreover have "butlast (absolute (dest_real plan @ ws @ [w])) = absolute (dest_real plan @ ws)"
      by (simp add: absolute_def butlast_append)
    ultimately show ?thesis
      unfolding Let_def
      by (auto intro!: triple_then_do [OF keeps_create_package_dir [OF assms]] copied
          elim: triple_consequence)
  qed
  show ?thesis
    unfolding copy_package_file_def
    by (rule triple_then_lift) (auto intro!: keeps_then_do [OF keeps_inspect] body)
qed

lemma append_targets_keeps:
  assumes "quiet_start plan d0"
  shows "keeps (overlay_inv plan d0 a b)
    (append_integration_targets h (absolute (dest_real plan) @ [Normal ''BUILD.gn'']) c consumer)"
  unfolding append_integration_targets_def
proof (rule keeps_or_fail)
  fix d assume d: "overlay_inv plan d0 a b d"
  let ?p = "absolute (dest_real plan @ [''BUILD.gn''])" let ?bytes = "integration_targets c (cp_target_name consumer)"
  obtain ok d2 where m: "append_file (ho_volume h) ?p ?bytes d = (ok, d2)"
    by (cases "append_file (ho_volume h) ?p ?bytes d")
  have "overlay_inv plan d0 a b d2"
  proof (cases "entry_at d (dest_real plan) = Some DirEntry")
    case True
    have "writes_at (package_region plan d0) (dest_real plan @ [''BUILD.gn'']) d d2"
    proof (rule append_file_effect [OF m])
      show "well_kept (package_region plan d0) d" using d by (simp add: overlay_inv_def)
      show "plain_target d (dest_real plan) ''BUILD.gn''" using package_target [OF assms d, of "[]"] True by simp
      show "package_region plan d0 (dest_real plan @ [''BUILD.gn''])" by (rule package_region_dest [OF assms])
    qed
    then show ?thesis using overlay_inv_package [OF assms d] plain_change_writes_at by blast
  next
    case False
    have none: "entry_at d (dest_real plan @ [''BUILD.gn'']) = None"
      using below_file [OF overlay_inv_shape [OF d] False] .
    have "canonicalize (tree d) ?p = None"
      using canonicalize_unlinked [OF overlay_inv_shape [OF d] overlay_path_unlinked [OF d overlay_path_package [OF assms]]]
        none by simp
    then have "d2 = d" using m by (simp add: append_file_def Let_def split: if_splits)
    then show ?thesis using d by simp
  qed
  then show "overlay_inv plan d0 a b
      (snd (append_file (ho_volume h) (absolute (dest_real plan) @ [Normal ''BUILD.gn'']) ?bytes d))"
    using m by (simp add: absolute_snoc)
qed

lemma materialize_keeps:
  assumes "quiet_start plan d0"
  shows "keeps (overlay_inv plan d0 a b)
    (materialize_package h package_root (absolute (dest_real plan)) c build c_abi consumer)"
  unfolding materialize_package_def
proof (rule triple_then_do)
  show "keeps (overlay_inv plan d0 a b)
      (or_fail (create_dir_all (ho_volume h) (absolute (dest_real plan))) (OverlayIo (shown_path (absolute (dest_real plan)))))"
    by (rule triple_consequence [OF keeps_create_package_dir [OF assms, of a b "ho_volume h" "[]", simplified]]) auto
qed (auto intro!: triple_intros keeps_each_do copy_package_file_keeps [OF assms] append_targets_keeps [OF assms])

section \<open>Installing the adapter\<close>

definition adapter_possible :: "integration_plan \<Rightarrow> disk \<Rightarrow> bool" where
  "adapter_possible plan d0 \<longleftrightarrow> quiet_start plan d0 \<and>
     entry_at d0 (ip_source_root plan @ [''build'']) = Some DirEntry \<and> entry_at d0 (adapter_real plan) = None"

lemma adapter_region_all: "adapter_possible plan d0 \<Longrightarrow> adapter_region plan d0 (adapter_real plan @ ws)"
  by (simp add: adapter_possible_def adapter_region_def)

lemma adapter_path: "adapter_possible plan d0 \<Longrightarrow> overlay_path plan d0 (adapter_real plan @ ws)"
  using overlay_path_adapter by (simp add: adapter_possible_def)

lemma build_dir_stays:
  assumes "adapter_possible plan d0" and "overlay_inv plan d0 a b d"
  shows "entry_at d (ip_source_root plan @ [''build'']) = Some DirEntry"
proof -
  let ?q = "ip_source_root plan @ [''build'']"
  have start: "quiet_start plan d0" and d: "entry_at d0 ?q = Some DirEntry"
    using assms(1) by (simp_all add: adapter_possible_def)
  have "\<not> package_region plan d0 ?q" "\<not> adapter_region plan d0 ?q"
    using package_region_missing adapter_region_missing quiet_startD(1) [OF start] d by fastforce+
  moreover have "\<not> build_region plan d0 ?q"
    using build_below [OF start, of ?q] by (auto simp: first_segment_below_def)
  ultimately have "same_at d0 d ?q" using assms(2) unfolding overlay_inv_def by blast
  then show ?thesis using d by (simp add: same_at_def)
qed

lemma create_adapter_dir:
  assumes "adapter_possible plan d0" and "overlay_inv plan d0 False b d"
    and "create_dir_all v (absolute (adapter_real plan)) d = (ok, d')"
  shows "if ok then overlay_inv plan d0 True b d' \<and> entry_at d' (adapter_real plan) = Some DirEntry else d' = d"
proof -
  have start: "quiet_start plan d0" using assms(1) by (simp add: adapter_possible_def)
  have kept: "well_kept (adapter_region plan d0) d" using assms(2) by (simp add: overlay_inv_def)
  have up: "entry_at d (ip_source_root plan @ [''build'']) = Some DirEntry" by (rule build_dir_stays [OF assms(1,2)])
  have real: "adapter_real plan = (ip_source_root plan @ [''build'']) @ [''rust'']" by (simp add: adapter_real_def)
  have unl: "unlinked d (adapter_real plan)"
    using overlay_path_unlinked [OF assms(2) adapter_path [OF assms(1), of "[]"]] by simp
  have made: "made_dirs (adapter_region plan d0) (adapter_real plan) d d' \<and>
      (ok \<longrightarrow> entry_at d' (adapter_real plan) = Some DirEntry)"
  proof (rule create_dir_all_effect [OF assms(3) kept unl])
    fix q assume q: "prefix q (adapter_real plan)" "entry_at d q = None"
    have "q = adapter_real plan"
    proof (rule ccontr)
      assume "q \<noteq> adapter_real plan"
      then have "prefix q (ip_source_root plan @ [''build''])" using q(1) unfolding real prefix_snoc by blast
      then have "entry_at d (ip_source_root plan @ [''build'']) = None"
        using below_missing [OF overlay_inv_shape [OF assms(2)] q(2)] by blast
      then show False using up by simp
    qed
    then show "adapter_region plan d0 q" using adapter_region_all [OF assms(1), of "[]"] by simp
  qed
  show ?thesis
  proof (cases ok)
    case True
    moreover have "overlay_inv plan d0 True b d'"
      using overlay_inv_adapter [OF start assms(2) plain_change_made_dirs] made by blast
    ultimately show ?thesis using made by simp
  next
    case False
    then show ?thesis
      using create_dir_all_one [of v "ip_source_root plan @ [''build'']" "''rust''" d d']
        assms(3) overlay_inv_shape [OF assms(2)] unl up unfolding real by simp
  qed
qed

lemma write_adapter_keeps:
  assumes "adapter_possible plan d0"
  shows "keeps (\<lambda>d. overlay_inv plan d0 True b d \<and> entry_at d (adapter_real plan) = Some DirEntry)
    (write_overlay h (absolute (adapter_real plan) @ [Normal w]) bytes)"
  unfolding write_overlay_def
proof (rule keeps_or_fail)
  fix d assume d: "overlay_inv plan d0 True b d \<and> entry_at d (adapter_real plan) = Some DirEntry"
  let ?p = "absolute (adapter_real plan @ [w])" let ?fault = "dv_write_fault (ho_volume h) (show_path ?p)"
  have start: "quiet_start plan d0" using assms by (simp add: adapter_possible_def)
  obtain ok d2 where m: "fs_write ?fault ?p bytes d = (ok, d2)" by (cases "fs_write ?fault ?p bytes d")
  have "writes_at (adapter_region plan d0) (adapter_real plan @ [w]) d d2"
  proof (rule conjunct1 [OF fs_write_effect [OF m]])
    show "well_kept (adapter_region plan d0) d" using d by (simp add: overlay_inv_def)
    show "plain_target d (adapter_real plan) w"
      using d overlay_inv_shape overlay_path_inv(1) [OF _ adapter_path [OF assms, of "[w]"]]
      by (auto simp: plain_target_def)
    show "adapter_region plan d0 (adapter_real plan @ [w])" by (rule adapter_region_all [OF assms])
  qed
  then have "overlay_inv plan d0 True b d2" "entry_at d2 (adapter_real plan) = Some DirEntry"
    using overlay_inv_adapter [OF start] d plain_change_writes_at extends_entry
    by (blast, auto simp: writes_at_def dest: extends_entry)
  then show "overlay_inv plan d0 True b (snd (fs_write (dv_write_fault (ho_volume h)
      (show_path (absolute (adapter_real plan) @ [Normal w]))) (absolute (adapter_real plan) @ [Normal w]) bytes d)) \<and>
    entry_at (snd (fs_write (dv_write_fault (ho_volume h)
      (show_path (absolute (adapter_real plan) @ [Normal w]))) (absolute (adapter_real plan) @ [Normal w]) bytes d))
      (adapter_real plan) = Some DirEntry"
    using m by (simp add: absolute_snoc)
qed

section \<open>The guard\<close>

text \<open>What is tracked is a path of the overlay, and everything the package may make is below it.\<close>

definition overlay_target :: "integration_plan \<Rightarrow> disk \<Rightarrow> string list \<Rightarrow> bool" where
  "overlay_target plan d0 t \<longleftrightarrow>
     overlay_path plan d0 t \<and> (package_region plan d0 t \<or> adapter_region plan d0 t)"

definition tracks :: "integration_plan \<Rightarrow> disk \<Rightarrow> overlay_guard \<Rightarrow> bool" where
  "tracks plan d0 g \<longleftrightarrow>
     og_active g \<and> (\<forall>p\<in>set (og_paths g). \<exists>t. p = absolute t \<and> overlay_target plan d0 t)"

definition tracks_package :: "integration_plan \<Rightarrow> disk \<Rightarrow> overlay_guard \<Rightarrow> bool" where
  "tracks_package plan d0 g \<longleftrightarrow>
     (\<forall>t. prefix t (dest_real plan) \<longrightarrow> entry_at d0 t = None \<longrightarrow> absolute t \<in> set (og_paths g))"

definition early :: "integration_plan \<Rightarrow> disk \<Rightarrow> workspace \<Rightarrow> bool" where
  "early plan d0 w \<longleftrightarrow> ws_disk w = d0 \<and> tracks plan d0 (ws_guard w)"

definition under_way :: "integration_plan \<Rightarrow> disk \<Rightarrow> bool \<Rightarrow> bool \<Rightarrow> workspace \<Rightarrow> bool" where
  "under_way plan d0 a b w \<longleftrightarrow>
     overlay_inv plan d0 a b (ws_disk w) \<and> tracks plan d0 (ws_guard w) \<and> tracks_package plan d0 (ws_guard w) \<and>
     (a \<longrightarrow> absolute (adapter_real plan) \<in> set (og_paths (ws_guard w)))"

text \<open>The guard knows everything that has to be removed.\<close>

definition covered :: "integration_plan \<Rightarrow> disk \<Rightarrow> workspace \<Rightarrow> bool" where
  "covered plan d0 w \<longleftrightarrow> early plan d0 w \<or> (\<exists>a b. under_way plan d0 a b w)"

definition restored :: "integration_plan \<Rightarrow> disk \<Rightarrow> disk \<Rightarrow> bool" where
  "restored plan d0 d \<longleftrightarrow>
     (\<exists>a b. overlay_inv plan d0 a b d) \<and>
     (\<forall>q. package_region plan d0 q \<or> adapter_region plan d0 q \<longrightarrow> entry_at d q = None)"

lemma restored_same:
  assumes "quiet_start plan d0" and "restored plan d0 d" and "\<not> build_region plan d0 q"
  shows "same_at d0 d q"
proof (cases "package_region plan d0 q \<or> adapter_region plan d0 q")
  case True
  then have "entry_at d0 q = None"
    using package_region_missing adapter_region_missing quiet_startD(1) [OF assms(1)] by blast
  moreover have "entry_at d q = None" using assms(2) True unfolding restored_def by blast
  ultimately show ?thesis by (simp add: same_at_def)
next
  case False
  then show ?thesis using assms(2,3) unfolding restored_def overlay_inv_def by blast
qed

lemma overlay_inv_cong:
  assumes "overlay_inv plan d0 a b d" and "\<And>q. entry_at d' q = entry_at d q" and "\<And>i. inode_at d' i = inode_at d i"
  shows "overlay_inv plan d0 a b d'"
  using assms(1) unfolding overlay_inv_def well_kept_def tree_shaped_def private_to_def same_at_def
  by (simp add: assms(2,3))

text \<open>Removing a path of the overlay.\<close>

definition removals_work :: "volume \<Rightarrow> bool" where
  "removals_work v \<longleftrightarrow> (\<forall>p. vl_removal_fault v p = Removed)"

lemma remove_tracked_effect:
  assumes "quiet_start plan d0" and "overlay_inv plan d0 a b d" and "overlay_target plan d0 t" and "removals_work v"
    and "remove_tracked v (absolute t) d = (ok, d')"
  shows "overlay_inv plan d0 a b d' \<and>
    (\<forall>q. entry_at d' q = (if prefix t q then None else entry_at d q))"
proof -
  have shape: "tree_shaped d" using overlay_inv_shape [OF assms(2)] .
  have unl: "unlinked d t" using assms(2,3) by (auto simp: overlay_target_def intro: overlay_path_unlinked)
  have target: "package_region plan d0 t \<or> adapter_region plan d0 t" using assms(3) by (simp add: overlay_target_def)
  have t: "t \<noteq> []" using target quiet_startD(1) [OF assms(1)] package_region_missing [of d0 plan t]
      adapter_region_missing [of d0 plan t] by auto
  have fine: "vl_removal_fault v (absolute t) = Removed" using assms(4) by (simp add: removals_work_def)
  have inv: "overlay_inv plan d0 a b (without P d)"
    if P: "\<And>q. P q \<Longrightarrow> prefix t q" "\<And>q w. P q \<Longrightarrow> P (q @ [w])" for P
    using target
  proof
    assume "package_region plan d0 t"
    then have "plain_change (package_region plan d0) d (without P d)"
      using assms(2) P package_region_up by (intro plain_change_without) (auto simp: overlay_inv_def)
    then show ?thesis by (rule overlay_inv_package [OF assms(1,2)])
  next
    assume ad: "adapter_region plan d0 t"
    then have ch: "plain_change (adapter_region plan d0) d (without P d)"
      using assms(2) P adapter_region_up by (intro plain_change_without) (auto simp: overlay_inv_def)
    show ?thesis
    proof (cases a)
      case True
      then show ?thesis using overlay_inv_adapter [OF assms(1,2) ch] by simp
    next
      case False
      text \<open>The adapter has not been installed: there is nothing to remove.\<close>
      have "entry_at d q = None" if "P q" for q
      proof -
        have "adapter_region plan d0 q" using adapter_region_up [OF ad] P(1) that by blast
        then have "same_at d0 d q" "entry_at d0 q = None"
          using False assms(2) regions_apart [OF assms(1), of q] adapter_region_missing [OF quiet_startD(1) [OF assms(1)]]
          unfolding overlay_inv_def by blast+
        then show ?thesis by (simp add: same_at_def)
      qed
      then have same: "entry_at (without P d) q = entry_at d q" for q by (auto simp: entry_at_without)
      show ?thesis by (rule overlay_inv_cong [OF assms(2) same]) (simp add: without_def)
    qed
  qed
  consider "entry_at d t = Some DirEntry" | i where "entry_at d t = Some (FileEntry i)" | "entry_at d t = None"
    using unlinked_entry [OF unl] by (metis disk_entry.exhaust option.exhaust)
  then show ?thesis
  proof cases
    case 1
    then have "d' = without (prefix t) d"
      using assms(5) remove_dir_all_effect [OF shape unl 1 t fine] is_dir_absolute [OF shape unl]
      by (simp add: remove_tracked_def)
    then show ?thesis using inv [of "prefix t"] t by (auto simp: entry_at_without)
  next
    case 2
    have below: "entry_at d q = None" if "prefix t q" "q \<noteq> t" for q
    proof (rule ccontr)
      assume "entry_at d q \<noteq> None"
      moreover from that obtain ws where "q = t @ ws" "ws \<noteq> []" by (auto simp: prefix_def)
      ultimately have "entry_at d t = Some DirEntry" using tree_shaped_prefix [OF shape, of t ws] by simp
      then show False using 2 by simp
    qed
    have d': "d' = without (\<lambda>q. q = t) d"
      using assms(5) remove_file_effect [OF shape unl t _ fine] is_dir_absolute [OF shape unl] 2
      by (simp add: remove_tracked_def)
    have entries: "entry_at d' q = entry_at (without (prefix t) d) q" for q
      using below [of q] by (auto simp: d' entry_at_without)
    have inode: "inode_at d' i = inode_at (without (prefix t) d) i" for i by (simp add: d' without_def)
    have "overlay_inv plan d0 a b d'"
      by (rule overlay_inv_cong [OF inv [of "prefix t"] entries inode]) (auto intro: prefix_order.trans)
    then show ?thesis using entries t by (auto simp: entry_at_without)
  next
    case 3
    then have "d' = d"
      using assms(5) remove_file_effect [OF shape unl t _ fine] is_dir_absolute [OF shape unl]
      by (simp add: remove_tracked_def)
    then show ?thesis using assms(2) below_missing [OF shape 3] by auto
  qed
qed

definition no_growth :: "disk \<Rightarrow> disk \<Rightarrow> bool" where
  "no_growth d d' \<longleftrightarrow> (\<forall>q. entry_at d q = None \<longrightarrow> entry_at d' q = None)"

lemma covered_restored:
  assumes "quiet_start plan d0" and "covered plan d0 w" and "\<exists>a b. overlay_inv plan d0 a b d"
    and "no_growth (ws_disk w) d"
    and "\<And>t q. absolute t \<in> set (og_paths (ws_guard w)) \<Longrightarrow> prefix t q \<Longrightarrow> entry_at d q = None"
  shows "restored plan d0 d"
proof -
  have "entry_at d q = None" if q: "package_region plan d0 q \<or> adapter_region plan d0 q" for q
    using assms(2) unfolding covered_def
  proof
    assume "early plan d0 w"
    then have "entry_at (ws_disk w) q = None"
      using q package_region_missing adapter_region_missing quiet_startD(1) [OF assms(1)] by (auto simp: early_def)
    then show ?thesis using assms(4) by (simp add: no_growth_def)
  next
    assume "\<exists>a b. under_way plan d0 a b w"
    then obtain a b where w: "under_way plan d0 a b w" by blast
    show ?thesis
      using q
    proof
      assume "package_region plan d0 q"
      then obtain t where "prefix t (dest_real plan)" "entry_at d0 t = None" "prefix t q"
        by (auto simp: package_region_def)
      then show ?thesis using w assms(5) by (auto simp: under_way_def tracks_package_def)
    next
      assume ad: "adapter_region plan d0 q"
      show ?thesis
      proof (cases a)
        case True
        then have "absolute (adapter_real plan) \<in> set (og_paths (ws_guard w))" using w by (simp add: under_way_def)
        then show ?thesis using assms(5) ad by (auto simp: adapter_region_def)
      next
        case False
        then have "same_at d0 (ws_disk w) q"
          using w ad regions_apart [OF assms(1), of q] unfolding under_way_def overlay_inv_def by blast
        moreover have "entry_at d0 q = None" using ad adapter_region_missing quiet_startD(1) [OF assms(1)] by blast
        ultimately show ?thesis using assms(4) by (simp add: same_at_def no_growth_def)
      qed
    qed
  qed
  then show ?thesis using assms(3) unfolding restored_def by blast
qed

lemma covered_inv: "quiet_start plan d0 \<Longrightarrow> covered plan d0 w \<Longrightarrow>
    (\<exists>a b. overlay_inv plan d0 a b (ws_disk w)) \<and> tracks plan d0 (ws_guard w)"
  unfolding covered_def early_def under_way_def using overlay_inv_start by blast

lemma drop_removes:
  assumes "quiet_start plan d0" and "removals_work v" and "overlay_inv plan d0 a b d"
    and "\<And>p. p \<in> set ps \<Longrightarrow> \<exists>t. p = absolute t \<and> overlay_target plan d0 t"
  shows "overlay_inv plan d0 a b (fold (\<lambda>p d. snd (remove_tracked v p d)) ps d) \<and>
    no_growth d (fold (\<lambda>p d. snd (remove_tracked v p d)) ps d) \<and>
    (\<forall>t q. absolute t \<in> set ps \<longrightarrow> prefix t q \<longrightarrow>
       entry_at (fold (\<lambda>p d. snd (remove_tracked v p d)) ps d) q = None)"
  using assms(3,4)
proof (induction ps arbitrary: d)
  case Nil
  then show ?case by (simp add: no_growth_def)
next
  case (Cons p ps)
  obtain t where t: "p = absolute t" "overlay_target plan d0 t" using Cons.prems(2) [of p] by auto
  obtain ok d1 where r: "remove_tracked v (absolute t) d = (ok, d1)" by (cases "remove_tracked v (absolute t) d")
  note 1 = remove_tracked_effect [OF assms(1) Cons.prems(1) t(2) assms(2) r]
  have inj: "absolute u = absolute t \<longleftrightarrow> u = t" for u
    by (auto simp: absolute_def dest: map_injective [OF _ injI])
  have IH: "overlay_inv plan d0 a b (fold (\<lambda>p d. snd (remove_tracked v p d)) ps d1) \<and>
    no_growth d1 (fold (\<lambda>p d. snd (remove_tracked v p d)) ps d1) \<and>
    (\<forall>t q. absolute t \<in> set ps \<longrightarrow> prefix t q \<longrightarrow>
       entry_at (fold (\<lambda>p d. snd (remove_tracked v p d)) ps d1) q = None)"
    using 1 Cons.prems(2) by (intro Cons.IH) auto
  then show ?case
    using 1 r t(1) inj by (auto simp: no_growth_def)
qed

lemma drop_guard_restores:
  assumes "quiet_start plan d0" and "removals_work v" and "covered plan d0 w"
  shows "restored plan d0 (drop_guard v w)"
proof -
  obtain a b where inv: "overlay_inv plan d0 a b (ws_disk w)" and tr: "tracks plan d0 (ws_guard w)"
    using covered_inv [OF assms(1,3)] by blast
  have targets: "\<exists>t. p = absolute t \<and> overlay_target plan d0 t" if "p \<in> set (rev (og_paths (ws_guard w)))" for p
    using tr that by (auto simp: tracks_def)
  note dropped = drop_removes [where ps = "rev (og_paths (ws_guard w))", OF assms(1,2) inv targets]
  have "drop_guard v w = fold (\<lambda>p d. snd (remove_tracked v p d)) (rev (og_paths (ws_guard w))) (ws_disk w)"
    using tr by (simp add: drop_guard_def tracks_def)
  then show ?thesis
    using dropped by (intro covered_restored [OF assms(1,3)]) (auto simp only: set_rev)
qed

text \<open>\<open>cleanup\<close> that succeeds has removed the overlay too; one that fails leaves the rest to \<open>drop\<close>.\<close>

lemma remove_all_effect:
  assumes "quiet_start plan d0" and "removals_work v" and "overlay_inv plan d0 a b d"
    and "\<And>p. p \<in> set ps \<Longrightarrow> \<exists>t. p = absolute t \<and> overlay_target plan d0 t"
    and "remove_all v ps d = (r, d')"
  shows "overlay_inv plan d0 a b d' \<and> no_growth d d' \<and>
    (r = Inr () \<longrightarrow> (\<forall>t q. absolute t \<in> set ps \<longrightarrow> prefix t q \<longrightarrow> entry_at d' q = None))"
  using assms(3-5)
proof (induction ps arbitrary: d)
  case Nil
  then show ?case by (simp add: no_growth_def)
next
  case (Cons p ps)
  obtain t where t: "p = absolute t" "overlay_target plan d0 t" using Cons.prems(2) [of p] by auto
  have inj: "absolute u = absolute t \<longleftrightarrow> u = t" for u
    by (auto simp: absolute_def dest: map_injective [OF _ injI])
  have shape: "tree_shaped d" and unl: "unlinked d t"
    using Cons.prems(1) t(2) overlay_inv_shape by (auto simp: overlay_target_def intro: overlay_path_unlinked)
  show ?case
  proof (cases "exists_at d p")
    case False
    then have none: "entry_at d t = None" using exists_at_absolute [OF shape unl] t(1) by simp
    have IH: "overlay_inv plan d0 a b d' \<and> no_growth d d' \<and>
        (r = Inr () \<longrightarrow> (\<forall>t q. absolute t \<in> set ps \<longrightarrow> prefix t q \<longrightarrow> entry_at d' q = None))"
      using False Cons.prems by (intro Cons.IH) auto
    then show ?thesis using below_missing [OF shape none] t(1) inj by (auto simp: no_growth_def)
  next
    case True
    obtain ok d1 where rm: "remove_tracked v (absolute t) d = (ok, d1)" by (cases "remove_tracked v (absolute t) d")
    note 1 = remove_tracked_effect [OF assms(1) Cons.prems(1) t(2) assms(2) rm]
    show ?thesis
    proof (cases ok)
      case False
      then show ?thesis using True Cons.prems(3) rm t(1) 1 by (auto simp: no_growth_def)
    next
      case ok: True
      have IH: "overlay_inv plan d0 a b d' \<and> no_growth d1 d' \<and>
          (r = Inr () \<longrightarrow> (\<forall>t q. absolute t \<in> set ps \<longrightarrow> prefix t q \<longrightarrow> entry_at d' q = None))"
        using True ok rm t(1) 1 Cons.prems by (intro Cons.IH) auto
      then show ?thesis using 1 t(1) inj by (auto simp: no_growth_def)
    qed
  qed
qed

text \<open>The state after the guard was dropped, or before it is.\<close>

definition settled :: "integration_plan \<Rightarrow> disk \<Rightarrow> workspace \<Rightarrow> bool" where
  "settled plan d0 w \<longleftrightarrow>
     covered plan d0 w \<or> (\<not> og_active (ws_guard w) \<and> restored plan d0 (ws_disk w))"

lemma settled_drop:
  assumes "quiet_start plan d0" and "removals_work v" and "settled plan d0 w"
  shows "restored plan d0 (drop_guard v w)"
proof (cases "covered plan d0 w")
  case True
  then show ?thesis by (rule drop_guard_restores [OF assms(1,2)])
next
  case False
  then show ?thesis using assms(3) by (simp add: settled_def drop_guard_def)
qed

section \<open>Steps of a run\<close>

lemma using_disk_triple:
  assumes "triple P m Q"
  shows "triple (\<lambda>w. P (ws_disk w) \<and> F (ws_guard w)) (using_disk m) (\<lambda>r w. Q r (ws_disk w) \<and> F (ws_guard w))"
proof (rule tripleI)
  fix w r w' assume w: "P (ws_disk w) \<and> F (ws_guard w)" "using_disk m w = (r, w')"
  obtain r1 d where m: "m (ws_disk w) = (r1, d)" by (cases "m (ws_disk w)")
  then show "Q r (ws_disk w') \<and> F (ws_guard w')"
    using w tripleD [OF assms m] by (auto simp: using_disk_def)
qed

definition guard_ready :: "integration_plan \<Rightarrow> disk \<Rightarrow> bool \<Rightarrow> overlay_guard \<Rightarrow> bool" where
  "guard_ready plan d0 a g \<longleftrightarrow> tracks plan d0 g \<and> tracks_package plan d0 g \<and>
     (a \<longrightarrow> absolute (adapter_real plan) \<in> set (og_paths g))"

lemma under_way_iff:
  "under_way plan d0 a b = (\<lambda>w. overlay_inv plan d0 a b (ws_disk w) \<and> guard_ready plan d0 a (ws_guard w))"
  by (auto simp: under_way_def guard_ready_def fun_eq_iff)

lemma keeps_under_way:
  "keeps (overlay_inv plan d0 a b) m \<Longrightarrow> keeps (under_way plan d0 a b) (using_disk m)"
  unfolding under_way_iff by (rule using_disk_triple)

text \<open>The missing parents of the destination are tracked, from the root down.\<close>

fun paths_down :: "string list \<Rightarrow> string list \<Rightarrow> string list list" where
  "paths_down base [] = []"
| "paths_down base (w # ws) = (base @ [w]) # paths_down (base @ [w]) ws"

lemma set_paths_down: "t \<in> set (paths_down base ws) \<longleftrightarrow> prefix base t \<and> t \<noteq> base \<and> prefix t (base @ ws)"
proof (induction base ws rule: paths_down.induct)
  case (1 base)
  then show ?case by (auto dest: prefix_order.antisym)
next
  case (2 base w ws)
  have "prefix (base @ [w]) t \<or> t = base" if "prefix base t" "prefix t (base @ w # ws)"
    using that by (auto simp: prefix_def append_eq_Cons_conv Cons_eq_append_conv)
  then show ?case using 2 by (auto dest: append_prefixD prefix_length_le)
qed

lemma track_missing_effect:
  assumes "\<And>t. t \<in> set (paths_down base ws) \<Longrightarrow> exists_at (ws_disk w) (absolute t) \<longleftrightarrow> entry_at (ws_disk w) t \<noteq> None"
  shows "track_missing relative (absolute base) (map Normal ws) w =
    (Inr (), w\<lparr>ws_guard := fold track
       (map absolute (filter (\<lambda>t. entry_at (ws_disk w) t = None) (paths_down base ws))) (ws_guard w)\<rparr>)"
  using assms
proof (induction ws arbitrary: base w)
  case Nil
  then show ?case by (simp add: lift_result_def)
next
  case (Cons x ws)
  have IH: "track_missing relative (absolute (base @ [x])) (map Normal ws) w' =
      (Inr (), w'\<lparr>ws_guard := fold track
         (map absolute (filter (\<lambda>t. entry_at (ws_disk w') t = None) (paths_down (base @ [x]) ws))) (ws_guard w')\<rparr>)"
    if "ws_disk w' = ws_disk w" for w'
    using Cons.prems that by (intro Cons.IH) simp
  show ?case
  proof (cases "entry_at (ws_disk w) (base @ [x]) = None")
    case True
    then have "\<not> exists_at (ws_disk w) (absolute (base @ [x]))" using Cons.prems by simp
    then show ?thesis
      using IH [of "w\<lparr>ws_guard := track (absolute (base @ [x])) (ws_guard w)\<rparr>"] True
      by (simp add: then_do_def inspect_def tracking_def absolute_snoc)
  next
    case False
    then have "exists_at (ws_disk w) (absolute (base @ [x]))" using Cons.prems by simp
    then show ?thesis
      using IH [of w] False by (auto simp: then_do_def inspect_def lift_result_def absolute_snoc)
  qed
qed

lemma fold_track: "fold track ps g = g\<lparr>og_paths := og_paths g @ ps\<rparr>"
  by (induction ps arbitrary: g) (simp_all add: track_def)

lemma destination_of_real:
  assumes "quiet_start plan d0"
  shows "destination_of plan = absolute (dest_real plan)"
proof -
  have "normalized_exact (ic_destination (ip_contract plan)) = Inr (ic_destination (ip_contract plan))"
    using assms by (simp add: quiet_start_def plan_paths_def)
  from normalized_components(1) [OF this] show ?thesis
    by (simp only: destination_of_def dest_real_def path_join_absolute)
qed

lemma out_dir_of_real:
  assumes "quiet_start plan d0"
  shows "out_dir_of plan = absolute (out_real plan)"
proof -
  have "normalized_exact (ic_out_dir (ip_contract plan)) = Inr (ic_out_dir (ip_contract plan))"
    using assms by (simp add: quiet_start_def plan_paths_def)
  from normalized_components(1) [OF this] show ?thesis
    by (simp only: out_dir_of_def out_real_def path_join_absolute)
qed

lemma package_target_missing:
  assumes "quiet_start plan d0" and "prefix t (dest_real plan)" and "entry_at d0 t = None"
  shows "overlay_target plan d0 t"
proof -
  have "overlay_path plan d0 t"
    using overlay_path_package [OF assms(1), of "[]"] assms(2) unfolding overlay_path_def
    by (auto dest: prefix_order.trans)
  then show ?thesis using assms(2,3) by (auto simp: overlay_target_def package_region_def)
qed

lemma track_parents_effect:
  assumes "quiet_start plan d0" and "early plan d0 w"
    and "track_missing_parents (ip_source_root plan) (ic_destination (ip_contract plan)) w = (r, w')"
  shows "r = Inr () \<and> early plan d0 w' \<and>
    (\<forall>t. prefix t (dest_real plan) \<longrightarrow> t \<noteq> dest_real plan \<longrightarrow> entry_at d0 t = None \<longrightarrow>
       absolute t \<in> set (og_paths (ws_guard w')))"
proof -
  let ?s = "ic_destination (ip_contract plan)" let ?root = "ip_source_root plan"
  have n: "normalized_exact ?s = Inr ?s" using assms(1) by (simp add: quiet_start_def plan_paths_def)
  obtain ws x where ws: "path_segments ?s = ws @ [x]"
    using normalized_components(2) [OF n] by (cases "path_segments ?s" rule: rev_cases) auto
  have cs: "butlast (components ?s) = map Normal ws" using normalized_components(1) [OF n] ws by simp
  have dest: "dest_real plan = (?root @ ws) @ [x]" by (simp add: dest_real_def ws)
  have disk: "ws_disk w = d0" using assms(2) by (simp add: early_def)
  let ?missing = "filter (\<lambda>t. entry_at d0 t = None) (paths_down ?root ws)"
  have up: "prefix t (dest_real plan)" if "t \<in> set (paths_down ?root ws)" for t
    using that unfolding set_paths_down dest by (meson prefix_order.trans prefixI)
  have "track_missing ?s (absolute ?root) (map Normal ws) w =
      (Inr (), w\<lparr>ws_guard := fold track (map absolute ?missing) (ws_guard w)\<rparr>)"
    using track_missing_effect [of ?root ws w ?s]
      exists_at_absolute [OF quiet_startD(1) [OF assms(1)] unlinked_prefix [OF quiet_startD(3) [OF assms(1)] up]]
    by (simp add: disk)
  then have eq: "r = Inr ()" "w' = w\<lparr>ws_guard := (ws_guard w)\<lparr>og_paths := og_paths (ws_guard w) @ map absolute ?missing\<rparr>\<rparr>"
    using assms(3) by (simp_all add: track_missing_parents_def then_do_def lift_result_def n cs fold_track)
  have "early plan d0 w'"
    using assms(2) package_target_missing [OF assms(1) up] unfolding early_def tracks_def eq(2) by auto
  moreover have "absolute t \<in> set (og_paths (ws_guard w'))"
    if t: "prefix t (dest_real plan)" "t \<noteq> dest_real plan" "entry_at d0 t = None" for t
  proof -
    have "\<not> prefix t ?root" using root_prefix_entry [OF assms(1)] t(3) by auto
    moreover have "prefix t (?root @ ws)" using t(1,2) unfolding dest prefix_snoc by blast
    ultimately have "t \<in> set (paths_down ?root ws)"
      unfolding set_paths_down using prefix_append_cases by blast
    then show ?thesis using t(3) by (simp add: eq(2))
  qed
  ultimately show ?thesis using eq(1) by blast
qed

lemma tracking_destination:
  assumes "quiet_start plan d0" and "early plan d0 w"
    and "\<forall>t. prefix t (dest_real plan) \<longrightarrow> t \<noteq> dest_real plan \<longrightarrow> entry_at d0 t = None \<longrightarrow>
       absolute t \<in> set (og_paths (ws_guard w))"
    and "tracking (destination_of plan) w = (r, w')"
  shows "under_way plan d0 False False w'"
proof -
  have w': "w' = w\<lparr>ws_guard := track (absolute (dest_real plan)) (ws_guard w)\<rparr>"
    using assms(4) destination_of_real [OF assms(1)] by (simp add: tracking_def)
  have "overlay_target plan d0 (dest_real plan)"
    using package_target_missing [OF assms(1) _ quiet_startD(6) [OF assms(1)]] by simp
  then have "tracks plan d0 (ws_guard w')"
    using assms(2) by (auto simp: w' track_def tracks_def early_def)
  moreover have "tracks_package plan d0 (ws_guard w')"
    using assms(3) by (auto simp: w' track_def tracks_package_def)
  ultimately show ?thesis
    using assms(2) overlay_inv_start [OF assms(1)] by (simp add: under_way_def w' early_def)
qed

lemma covered_under_way: "under_way plan d0 a b w \<Longrightarrow> covered plan d0 w"
  unfolding covered_def by blast

text \<open>Installing the adapter: what was made before a step failed is tracked.\<close>

lemma install_adapter_triple:
  assumes "quiet_start plan d0"
    and "entry_at d0 (ip_source_root plan @ [''build'']) = Some DirEntry"
  shows "triple (under_way plan d0 False False) (install_host_adapter h (ip_source_root plan) rustc)
    (\<lambda>r w. covered plan d0 w \<and> (r = Inr () \<longrightarrow> under_way plan d0 True False w))"
proof -
  let ?root = "ip_source_root plan" let ?dir = "adapter_directory ?root"
  have dir: "?dir = absolute (adapter_real plan)"
  proof -
    have "components ''build/rust'' = map Normal [''build'', ''rust'']" by code_simp
    then show ?thesis by (simp only: adapter_directory_def absolute_append adapter_real_def)
  qed
  let ?U = "under_way plan d0 False False"
  let ?create = "using_disk (or_fail (create_dir_all (ho_volume h) ?dir) (OverlayIo (shown_path ?dir)))"
  have build: "entry_at (ws_disk w) (?root @ [''build'']) = Some DirEntry"
    and shape: "tree_shaped (ws_disk w)" if w: "?U w" for w
  proof -
    let ?q = "?root @ [''build'']"
    show "tree_shaped (ws_disk w)" using w overlay_inv_shape by (auto simp: under_way_def)
    have "\<not> package_region plan d0 ?q"
      using package_region_missing [OF quiet_startD(1) [OF assms(1)]] assms(2) by force
    then have "same_at d0 (ws_disk w) ?q" using w unfolding under_way_def overlay_inv_def by blast
    then show "entry_at (ws_disk w) ?q = Some DirEntry" using assms(2) by (simp add: same_at_def)
  qed
  have made: "triple (\<lambda>w. ?U w \<and> \<not> exists_at (ws_disk w) ?dir) ?create
      (\<lambda>r w. if r = Inr () then adapter_possible plan d0 \<and> overlay_inv plan d0 True False (ws_disk w) \<and>
          entry_at (ws_disk w) (adapter_real plan) = Some DirEntry \<and> guard_ready plan d0 False (ws_guard w)
        else ?U w)"
  proof (rule tripleI)
    fix w r w' assume w: "?U w \<and> \<not> exists_at (ws_disk w) ?dir" and m: "?create w = (r, w')"
    obtain ok d where c: "create_dir_all (ho_volume h) ?dir (ws_disk w) = (ok, d)"
      by (cases "create_dir_all (ho_volume h) ?dir (ws_disk w)")
    have res: "r = Inr () \<longleftrightarrow> ok" "w' = w\<lparr>ws_disk := d\<rparr>"
      using m c by (auto simp: using_disk_def or_fail_def split: if_splits)
    show "if r = Inr () then adapter_possible plan d0 \<and> overlay_inv plan d0 True False (ws_disk w') \<and>
          entry_at (ws_disk w') (adapter_real plan) = Some DirEntry \<and> guard_ready plan d0 False (ws_guard w')
        else ?U w'"
    proof (cases "entry_at (ws_disk w) (adapter_real plan) = None")
      case True
      have "\<not> package_region plan d0 (adapter_real plan)"
        using package_below [OF assms(1), of "adapter_real plan"]
        by (auto simp: first_segment_below_def adapter_real_def prefix_def)
      then have "same_at d0 (ws_disk w) (adapter_real plan)"
        using w unfolding under_way_def overlay_inv_def by blast
      then have "adapter_possible plan d0"
        using assms True by (simp add: adapter_possible_def same_at_def)
      then show ?thesis
        using create_adapter_dir [of plan d0 False "ws_disk w" "ho_volume h" ok d] c w dir res
        by (auto simp: under_way_iff)
    next
      case False
      have real: "adapter_real plan = (?root @ [''build'']) @ [''rust'']" by (simp add: adapter_real_def)
      have "\<not> is_dir (tree (ws_disk w)) ?dir"
        using w by (auto simp: is_dir_def exists_at_def path_exists_def)
      then have "d = ws_disk w \<and> \<not> ok"
        using create_dir_all_there [of "ws_disk w" "?root @ [''build'']" "''rust''" "ho_volume h"]
          c False build [of w] shape [of w] w dir unfolding real by simp
      then show ?thesis using w res by simp
    qed
  qed
  have target: "overlay_target plan d0 (adapter_real plan)" if "adapter_possible plan d0"
    using adapter_region_all [OF that, of "[]"] adapter_path [OF that, of "[]"] by (simp add: overlay_target_def)
  let ?A = "\<lambda>w. (overlay_inv plan d0 True False (ws_disk w) \<and> entry_at (ws_disk w) (adapter_real plan) = Some DirEntry) \<and>
      (adapter_possible plan d0 \<and> guard_ready plan d0 True (ws_guard w))"
  have tracked: "triple (\<lambda>w. adapter_possible plan d0 \<and> overlay_inv plan d0 True False (ws_disk w) \<and>
      entry_at (ws_disk w) (adapter_real plan) = Some DirEntry \<and> guard_ready plan d0 False (ws_guard w))
      (tracking ?dir) (\<lambda>_. ?A)"
    using target by (auto simp: triple_def tracking_def track_def guard_ready_def tracks_def tracks_package_def dir)
  have written: "keeps ?A (using_disk (write_overlay h (?dir @ [Normal w]) bytes))" for w bytes
  proof (cases "adapter_possible plan d0")
    case True
    show ?thesis using using_disk_triple [OF write_adapter_keeps [OF True]] dir by simp
  qed (simp add: triple_def)
  let ?Q = "\<lambda>r w. covered plan d0 w \<and> (r = Inr () \<longrightarrow> under_way plan d0 True False w)"
  have A: "?A w \<Longrightarrow> covered plan d0 w \<and> under_way plan d0 True False w" for w
    using covered_under_way by (auto simp: under_way_iff)
  let ?scripts = "then_do (using_disk (write_overlay h (?dir @ [Normal ''compile_staticlib.py'']) host_compile_script))
      (\<lambda>_. using_disk (write_overlay h (?dir @ [Normal ''rust_static_library.gni'']) (host_rust_template rustc)))"
  have writes: "triple ?A ?scripts ?Q"
    by (rule triple_consequence [OF keeps_then_do [OF written written]]) (use A in auto)
  have track: "triple (\<lambda>w. if Inr x = Inr () then adapter_possible plan d0 \<and> overlay_inv plan d0 True False (ws_disk w) \<and>
          entry_at (ws_disk w) (adapter_real plan) = Some DirEntry \<and> guard_ready plan d0 False (ws_guard w)
        else ?U w) (then_do (tracking ?dir) (\<lambda>_. ?scripts)) ?Q" for x :: unit
    using triple_then_do [OF tracked _ writes] A by simp
  have create: "triple (\<lambda>w. ?U w \<and> \<not> exists_at (ws_disk w) ?dir)
      (then_do ?create (\<lambda>_. then_do (tracking ?dir) (\<lambda>_. ?scripts))) ?Q"
    by (rule triple_then_do [OF made _ track]) (use covered_under_way in auto)
  have check: "triple ?U (then_do (inspect (\<lambda>w. require (\<not> exists_at (ws_disk w) ?dir) (AdapterExists (shown_path ?dir))))
      (\<lambda>_. then_do ?create (\<lambda>_. then_do (tracking ?dir) (\<lambda>_. ?scripts)))) ?Q"
  proof (rule triple_then_do)
    show "triple ?U (inspect (\<lambda>w. require (\<not> exists_at (ws_disk w) ?dir) (AdapterExists (shown_path ?dir))))
        (\<lambda>r w. ?U w \<and> (r = Inr () \<longrightarrow> \<not> exists_at (ws_disk w) ?dir))"
      by (rule triple_inspect) (simp add: require_def)
  qed (use create covered_under_way in auto)
  show ?thesis
    unfolding install_host_adapter_def Let_def
    by (rule triple_then_do [OF keeps_inspect _ check]) (use covered_under_way in auto)
qed

section \<open>The whole run\<close>

text \<open>Processes keep to the build directory: they change nothing outside of it, and give no file in it a
  name outside.\<close>

definition processes_contained :: "host \<Rightarrow> (string list \<Rightarrow> bool) \<Rightarrow> bool" where
  "processes_contained h X \<longleftrightarrow>
     (\<forall>program cwd args d. well_kept X d \<longrightarrow> confined X d (snd (ho_process h program cwd args d)))"

lemma launch_keeps:
  assumes "quiet_start plan d0" and "processes_contained h (build_region plan d0)"
  shows "keeps (overlay_inv plan d0 a True) (launch h label program cwd args)"
proof (rule tripleI)
  fix d r d' assume d: "overlay_inv plan d0 a True d" "launch h label program cwd args d = (r, d')"
  have "d' = snd (ho_process h program cwd args d)"
    using d(2) by (auto simp: launch_def split: prod.splits option.splits)
  moreover have "well_kept (build_region plan d0) d" using d(1) by (simp add: overlay_inv_def)
  ultimately have "confined (build_region plan d0) d d'" using assms(2) by (simp add: processes_contained_def)
  then show "overlay_inv plan d0 a True d'" by (rule overlay_inv_build [OF assms(1) d(1)])
qed

lemma run_checked_keeps:
  assumes "quiet_start plan d0" and "processes_contained h (build_region plan d0)"
  shows "keeps (overlay_inv plan d0 a True) (run_checked h program cwd args)"
  unfolding run_checked_def by (intro triple_intros launch_keeps [OF assms])

lemma create_out_dir:
  assumes "quiet_start plan d0" and "overlay_inv plan d0 a False d"
    and "create_dir_all v (absolute (out_real plan)) d = (ok, d')"
  shows "overlay_inv plan d0 a True d'"
proof -
  have same: "same_at d0 d q" if q: "prefix q (out_real plan)" for q
  proof -
    have "\<not> package_region plan d0 q \<and> \<not> adapter_region plan d0 q"
    proof (cases "entry_at d0 q = None")
      case True
      then have "build_region plan d0 q" using q by (simp add: build_region_def)
      then show ?thesis using regions_apart [OF assms(1), of q] by blast
    next
      case False
      then show ?thesis
        using package_region_missing [OF quiet_startD(1) [OF assms(1)], of plan q]
          adapter_region_missing [OF quiet_startD(1) [OF assms(1)], of plan q] by auto
    qed
    then show ?thesis using assms(2) unfolding overlay_inv_def by blast
  qed
  have kept: "well_kept (build_region plan d0) d" using assms(2) by (simp add: overlay_inv_def)
  have "unlinked d (out_real plan)"
    using quiet_startD(4) [OF assms(1)] same unfolding unlinked_def same_at_def by simp
  moreover have "build_region plan d0 q" if "prefix q (out_real plan)" "entry_at d q = None" for q
    using same [OF that(1)] that by (simp add: build_region_def same_at_def)
  ultimately have "made_dirs (build_region plan d0) (out_real plan) d d'"
    using create_dir_all_effect [OF assms(3) kept] by blast
  then show ?thesis using overlay_inv_build [OF assms(1,2)] by (simp add: made_dirs_def)
qed

lemma build_and_run_triple:
  assumes "quiet_start plan d0" and "processes_contained h (build_region plan d0)"
  shows "triple (overlay_inv plan d0 a False) (build_and_run h plan)
    (\<lambda>_ d. overlay_inv plan d0 a False d \<or> overlay_inv plan d0 a True d)"
proof -
  let ?F = "overlay_inv plan d0 a False" let ?T = "overlay_inv plan d0 a True"
  have made: "triple ?F (or_fail (create_dir_all (ho_volume h) (out_dir_of plan)) e) (\<lambda>_. ?T)" for e
  proof (rule tripleI)
    fix d r d' assume d: "?F d" "or_fail (create_dir_all (ho_volume h) (out_dir_of plan)) e d = (r, d')"
    obtain ok d2 where c: "create_dir_all (ho_volume h) (absolute (out_real plan)) d = (ok, d2)"
      by (cases "create_dir_all (ho_volume h) (absolute (out_real plan)) d")
    then have "d' = d2" using d(2) out_dir_of_real [OF assms(1)] by (simp add: or_fail_def split: if_splits)
    then show "?T d'" using create_out_dir [OF assms(1) d(1) c] by simp
  qed
  note kept = run_checked_keeps [OF assms] launch_keeps [OF assms]
  have rest: "triple ?T m (\<lambda>_ d. ?F d \<or> ?T d)" if "keeps ?T m" for m :: "'b on_disk"
    using that by (simp add: triple_def)
  show ?thesis
    unfolding build_and_run_def Let_def
    by (rule triple_then_do [OF keeps_inspect], simp, rule triple_then_do [OF made], simp, rule rest)
      (auto intro!: triple_intros kept split: prod.split)
qed

lemma provide_template_triple:
  assumes "quiet_start plan d0"
  shows "triple (under_way plan d0 False False)
    (provide_template h (ip_source_root plan) (ip_contract plan) (ip_tools plan))
    (\<lambda>r w. covered plan d0 w \<and> (r = Inr () \<longrightarrow> (\<exists>a. under_way plan d0 a False w)))"
proof (cases "ic_rust_template (ip_contract plan) = HostAdapter")
  case True
  then have build: "entry_at d0 (ip_source_root plan @ [''build'']) = Some DirEntry"
    using assms by (simp add: quiet_start_def overlay_ready_def)
  show ?thesis
    unfolding provide_template_def using True
    by (simp, intro triple_then_lift triple_consequence [OF install_adapter_triple [OF assms build]])
      (auto intro: covered_under_way)
next
  case False
  then show ?thesis
    unfolding provide_template_def by (auto intro!: triple_inspect intro: covered_under_way)
qed

lemma lay_out_package_triple:
  assumes "quiet_start plan d0"
  shows "triple (early plan d0) (lay_out_package h plan)
    (\<lambda>r w. covered plan d0 w \<and> (r = Inr () \<longrightarrow> (\<exists>a. under_way plan d0 a False w)))"
proof -
  let ?Q = "\<lambda>r w. covered plan d0 w \<and> (r = Inr () \<longrightarrow> (\<exists>a. under_way plan d0 a False w))"
  let ?U = "under_way plan d0 False False" let ?root = "ip_source_root plan" let ?c = "ip_contract plan"
  have early: "early plan d0 w \<Longrightarrow> covered plan d0 w" for w by (simp add: covered_def)
  let ?rest = "\<lambda>_. provide_template h ?root ?c (ip_tools plan)"
  let ?fill = "using_disk (materialize_package h (ip_package_root plan) (destination_of plan) ?c (ip_build plan)
      (ip_c_abi plan) (ip_consumer plan))"
  have "keeps ?U ?fill"
    using keeps_under_way [OF materialize_keeps [OF assms]] destination_of_real [OF assms] by simp
  then have fill: "triple ?U (then_do ?fill ?rest) ?Q"
    by (rule triple_then_do [OF _ _ provide_template_triple [OF assms]]) (use covered_under_way in auto)
  let ?parents = "\<lambda>w. \<forall>t. prefix t (dest_real plan) \<longrightarrow> t \<noteq> dest_real plan \<longrightarrow> entry_at d0 t = None \<longrightarrow>
       absolute t \<in> set (og_paths (ws_guard w))"
  have track: "triple (\<lambda>w. early plan d0 w \<and> ?parents w) (tracking (destination_of plan)) (\<lambda>_. ?U)"
    by (rule tripleI) (use tracking_destination [OF assms] in blast)
  have track: "triple (\<lambda>w. early plan d0 w \<and> ?parents w)
      (then_do (tracking (destination_of plan)) (\<lambda>_. then_do ?fill ?rest)) ?Q"
    by (rule triple_then_do [OF track _ fill]) (use covered_under_way in auto)
  have parents: "triple (early plan d0) (track_missing_parents ?root (ic_destination ?c))
      (\<lambda>_ w. early plan d0 w \<and> ?parents w)"
    by (rule tripleI) (use track_parents_effect [OF assms] in blast)
  have parents: "triple (early plan d0) (then_do (track_missing_parents ?root (ic_destination ?c))
      (\<lambda>_. then_do (tracking (destination_of plan)) (\<lambda>_. then_do ?fill ?rest))) ?Q"
    by (rule triple_then_do [OF parents _ track]) (use early in auto)
  show ?thesis
    unfolding lay_out_package_def Let_def
    by (rule triple_then_do [OF keeps_inspect _ parents]) (use early in auto)
qed

lemma cleanup_settled:
  assumes "quiet_start plan d0" and "removals_work v"
  shows "triple (\<lambda>w. \<exists>a b. under_way plan d0 a b w) (cleanup v) (\<lambda>_. settled plan d0)"
proof (rule tripleI)
  fix w r w' assume "\<exists>a b. under_way plan d0 a b w" and c: "cleanup v w = (r, w')"
  then obtain a b where w: "under_way plan d0 a b w" by blast
  let ?ps = "rev (og_paths (ws_guard w))"
  obtain r1 d where m: "remove_all v ?ps (ws_disk w) = (r1, d)" by (cases "remove_all v ?ps (ws_disk w)")
  have inv: "overlay_inv plan d0 a b (ws_disk w)"
    and targets: "\<And>p. p \<in> set ?ps \<Longrightarrow> \<exists>t. p = absolute t \<and> overlay_target plan d0 t"
    using w by (auto simp: under_way_def tracks_def)
  note removed = remove_all_effect [OF assms inv targets m]
  show "settled plan d0 w'"
  proof (cases r1)
    case (Inl e)
    then have "w' = w\<lparr>ws_disk := d\<rparr>" using c m by (simp add: cleanup_def then_do_def using_disk_def)
    then have "under_way plan d0 a b w'" using w removed by (simp add: under_way_def)
    then show ?thesis using covered_under_way by (simp add: settled_def)
  next
    case (Inr u)
    then have w': "w' = w\<lparr>ws_disk := d, ws_guard := (ws_guard w)\<lparr>og_active := False\<rparr>\<rparr>"
      using c m by (simp add: cleanup_def then_do_def using_disk_def)
    have "restored plan d0 d"
      using removed Inr by (intro covered_restored [OF assms(1) covered_under_way [OF w]]) auto
    then show ?thesis by (simp add: settled_def w')
  qed
qed

lemma run_overlay_settled:
  assumes "quiet_start plan d0" and "removals_work (ho_volume h)"
    and "processes_contained h (build_region plan d0)"
  shows "triple (early plan d0) (run_overlay h plan) (\<lambda>_. settled plan d0)"
proof -
  let ?W = "\<lambda>w. \<exists>a b. under_way plan d0 a b w" let ?S = "settled plan d0"
  have settled: "covered plan d0 w \<Longrightarrow> ?S w" for w by (simp add: settled_def)
  have after: "?W w \<Longrightarrow> ?S w" for w using covered_under_way by (auto intro: settled)
  have verify: "keeps ?S (then_do (inspect (\<lambda>w. verify_unchanged h (ws_disk w) (ip_tools plan)))
      (\<lambda>_. lift_result (Inr (integration_summary_of h plan n endpoint bytes code))))" for n endpoint bytes code
    by (intro triple_intros)
  have cleaned: "triple ?W (then_do (cleanup (ho_volume h)) (\<lambda>_. then_do
      (inspect (\<lambda>w. verify_unchanged h (ws_disk w) (ip_tools plan)))
      (\<lambda>_. lift_result (Inr (integration_summary_of h plan n endpoint bytes code))))) (\<lambda>_. ?S)" for n endpoint bytes code
    by (rule triple_then_do [OF cleanup_settled [OF assms(1,2)] _ verify]) simp
  have read: "triple ?W (then_do (inspect (\<lambda>w. read_bytes_at h (ws_disk w) endpoint)) (\<lambda>bytes.
      then_do (cleanup (ho_volume h)) (\<lambda>_. then_do
      (inspect (\<lambda>w. verify_unchanged h (ws_disk w) (ip_tools plan)))
      (\<lambda>_. lift_result (Inr (integration_summary_of h plan n endpoint bytes code)))))) (\<lambda>_. ?S)" for n endpoint code
    by (rule triple_then_do [OF keeps_inspect _ cleaned]) (use after in auto)
  have built: "triple (\<lambda>w. \<exists>a. under_way plan d0 a False w) (using_disk (build_and_run h plan)) (\<lambda>_. ?W)"
  proof (rule tripleI)
    fix w r w' assume "\<exists>a. under_way plan d0 a False w" and m: "using_disk (build_and_run h plan) w = (r, w')"
    then obtain a where w: "under_way plan d0 a False w" by blast
    have "(overlay_inv plan d0 a False (ws_disk w') \<or> overlay_inv plan d0 a True (ws_disk w')) \<and>
        guard_ready plan d0 a (ws_guard w')"
      by (rule tripleD [OF using_disk_triple [OF build_and_run_triple [OF assms(1,3)]] m])
        (use w in \<open>simp add: under_way_iff\<close>)
    then show "?W w'" by (auto simp: under_way_iff)
  qed
  have built: "triple (\<lambda>w. covered plan d0 w \<and> (Inr x = Inr () \<longrightarrow> (\<exists>a. under_way plan d0 a False w)))
      (using_disk (build_and_run h plan)) (\<lambda>_. ?W)" for x :: unit
    by (rule triple_consequence [OF built]) auto
  show ?thesis
    unfolding run_overlay_def
  proof (rule triple_then_do [OF lay_out_package_triple [OF assms(1)] _ triple_then_do [OF built]])
    show "triple ?W (case y of (target_count, endpoint, code) \<Rightarrow>
          then_do (inspect (\<lambda>w. read_bytes_at h (ws_disk w) endpoint)) (\<lambda>bytes.
          then_do (cleanup (ho_volume h)) (\<lambda>_.
          then_do (inspect (\<lambda>w. verify_unchanged h (ws_disk w) (ip_tools plan))) (\<lambda>_.
          lift_result (Inr (integration_summary_of h plan target_count endpoint bytes code)))))) (\<lambda>_. ?S)" for y
      by (cases y) (simp add: read)
  qed (auto intro: settled after)
qed

lemma then_do_Inr_iff:
  "then_do m f s = (Inr y, s') \<longleftrightarrow> (\<exists>x s1. m s = (Inr x, s1) \<and> f x s1 = (Inr y, s'))"
  by (auto simp: then_do_def split: prod.splits sum.splits)

lemma inspect_Inr_iff [simp]: "inspect f s = (Inr y, s') \<longleftrightarrow> f s = Inr y \<and> s' = s"
  by (auto simp: inspect_def)

lemma lift_Inr_iff [simp]: "lift_result r s = (Inr y, s') \<longleftrightarrow> r = Inr y \<and> s' = s"
  by (auto simp: lift_result_def)

lemma require_Inr_iff [simp]: "require b e = Inr u \<longleftrightarrow> b"
  by (simp add: require_def)

lemma validated_paths:
  assumes "validate_integration_contract h c = Inr u"
  shows "\<exists>n. normalized_exact (ic_destination c) = Inr n" and "\<exists>n. normalized_exact (ic_out_dir c) = Inr n"
    and "starts_with ''out/'' (ic_out_dir c)"
proof -
  have field: "\<exists>n. normalized_exact x = Inr n" if "check_field f x = Inr v" for f x v
    using that by (cases "normalized_exact x") (simp_all add: check_field_def)
  from assms obtain x where
    paths: "try_fold (\<lambda>(field, text) _. check_field field text) (contract_paths c) () = Inr x"
    and "starts_with ''out/'' (ic_out_dir c)"
    unfolding validate_integration_contract_def and_then_Inr_iff require_Inr_iff by blast
  from paths obtain u1 u2 where "check_field ''destination'' (ic_destination c) = Inr u1"
      and "check_field ''out_dir'' (ic_out_dir c) = Inr u2"
    unfolding contract_paths_def try_fold_Cons_Inr prod.case by blast
  then show "\<exists>n. normalized_exact (ic_destination c) = Inr n" and "\<exists>n. normalized_exact (ic_out_dir c) = Inr n"
    using field by simp_all
  show "starts_with ''out/'' (ic_out_dir c)" by fact
qed

lemma prepared_plan:
  assumes "prepare h opts d = (Inr plan, d0)"
  shows "validate_integration_contract h (ip_contract plan) = Inr () \<and> \<not> exists_at d0 (destination_of plan)"
  using assms
  by (auto simp: prepare_def then_do_Inr_iff read_inputs_def and_then_Inr_iff Let_def)

lemma prepared_quiet:
  assumes "prepare h opts d = (Inr plan, d0)" and "overlay_ready plan d0"
  shows "quiet_start plan d0"
proof -
  let ?c = "ip_contract plan"
  note p = prepared_plan [OF assms(1)]
  obtain n where n: "normalized_exact (ic_destination ?c) = Inr n" using validated_paths(1) p by blast
  obtain o' where o: "normalized_exact (ic_out_dir ?c) = Inr o'" using validated_paths(2) p by blast
  have dest: "normalized_exact (ic_destination ?c) = Inr (ic_destination ?c)"
    using n normalized_components(5) [OF n] assms(2) by (simp add: overlay_ready_def)
  have out: "normalized_exact (ic_out_dir ?c) = Inr (ic_out_dir ?c)"
    using o normalized_components(5) [OF o] assms(2) by (simp add: overlay_ready_def)
  have "tree_shaped d0" and unl: "unlinked d0 (dest_real plan)"
    using assms(2) by (simp_all add: overlay_ready_def well_kept_def)
  have "destination_of plan = absolute (dest_real plan)"
    using normalized_components(1) [OF dest] by (simp only: destination_of_def dest_real_def path_join_absolute)
  then have "entry_at d0 (dest_real plan) = None"
    using p exists_at_absolute [OF \<open>tree_shaped d0\<close> unl] by simp
  then show ?thesis
    using assms(2) dest out validated_paths(3) [OF conjunct1 [OF p]] by (simp add: quiet_start_def plan_paths_def)
qed

text \<open>C3: however a run ends, with success, with an error or with a failed process, every name outside the
  build directory is what it was when the tools had been resolved: the same entry, with the same contents and
  mode. The hypotheses are that the checkout is ready for an overlay, that the processes keep to the build
  directory, and that the operating system does not refuse to remove the overlay.\<close>

theorem run_integration_restores:
  assumes "prepare h opts d = (Inr plan, d0)" and "overlay_ready plan d0"
    and "processes_contained h (build_region plan d0)" and "removals_work (ho_volume h)"
    and "run_integration h opts d = (r, d')" and "\<not> build_region plan d0 real"
  shows "same_at d0 d' real"
proof -
  have start: "quiet_start plan d0" by (rule prepared_quiet [OF assms(1,2)])
  let ?w = "\<lparr>ws_disk = d0, ws_guard = new_guard\<rparr>"
  obtain r2 w where w: "run_overlay h plan ?w = (r2, w)" by (cases "run_overlay h plan ?w")
  have "early plan d0 ?w" by (simp add: early_def tracks_def new_guard_def)
  then have "settled plan d0 w"
    by (rule tripleD [OF run_overlay_settled [OF start assms(4,3)] w])
  then have "restored plan d0 (drop_guard (ho_volume h) w)" by (rule settled_drop [OF start assms(4)])
  moreover have "d' = drop_guard (ho_volume h) w"
    using assms(1,5) w by (simp add: run_integration_def then_do_def)
  ultimately show ?thesis using restored_same [OF start _ assms(6)] by simp
qed

text \<open>C9: a run that reports success ran the endpoint of a validated contract with the expected exit code,
  from a package whose \<open>BUILD.gn\<close> had the digest of its provenance, with tools that are, on the disk it
  leaves, the files the summary names by digest and length.\<close>

theorem run_integration_success:
  assumes "run_integration h opts d = (Inr s, d')"
  shows "\<exists>plan d0. prepare h opts d = (Inr plan, d0) \<and>
    validate_integration_contract h (ip_contract plan) = Inr () \<and>
    is_endpoint_exit_code s = ic_expected_exit_code (ip_contract plan) \<and>
    (\<exists>bytes. read_bytes_at h d (absolute (ip_package_root plan) @ [Normal ''BUILD.gn'']) = Inr bytes \<and>
       integration_sha256 h bytes = bp_build_gn_sha256 (ip_build plan)) \<and>
    verify_unchanged h d' (ip_tools plan) = Inr () \<and> is_tools s = into_identity (ip_tools plan)"
proof -
  obtain plan d0 where p: "prepare h opts d = (Inr plan, d0)"
    using assms by (auto simp: run_integration_def then_do_Inr_iff)
  obtain w where w: "run_overlay h plan \<lparr>ws_disk = d0, ws_guard = new_guard\<rparr> = (Inr s, w)"
    and d': "d' = drop_guard (ho_volume h) w"
    using assms p by (auto simp: run_integration_def then_do_def split: prod.splits)
  from w obtain w1 n endpoint code w2 bytes u w3 where
    run: "using_disk (build_and_run h plan) w1 = (Inr (n, endpoint, code), w2)"
    and clean: "cleanup (ho_volume h) w2 = (Inr u, w3)"
    and verify: "verify_unchanged h (ws_disk w3) (ip_tools plan) = Inr ()" and "w = w3"
    and s: "s = integration_summary_of h plan n endpoint bytes code"
    by (auto simp: run_overlay_def then_do_Inr_iff)
  have "d' = ws_disk w3"
    using clean d' \<open>w = w3\<close> by (auto simp: cleanup_def then_do_Inr_iff drop_guard_def)
  moreover have "code = ic_expected_exit_code (ip_contract plan)"
    using run by (auto simp: using_disk_def build_and_run_def Let_def then_do_Inr_iff split: prod.splits if_splits)
  moreover have "\<exists>bytes. read_bytes_at h d (absolute (ip_package_root plan) @ [Normal ''BUILD.gn'']) = Inr bytes \<and>
       integration_sha256 h bytes = bp_build_gn_sha256 (ip_build plan)"
    using p by (auto simp: prepare_def then_do_Inr_iff read_inputs_def and_then_Inr_iff Let_def validate_provenance_def)
  ultimately show ?thesis
    using p prepared_plan [OF p] verify s by (auto simp: integration_summary_of_def Let_def)
qed

section \<open>A run on a small checkout\<close>

lemma tree_shaped_finite:
  assumes "list_all (\<lambda>(real, _). real = [] \<or> entry_at d (butlast real) = Some DirEntry) (dk_entries d)"
  shows "tree_shaped d"
  unfolding tree_shaped_def
proof (intro allI impI)
  fix dir w assume "entry_at d (dir @ [w]) \<noteq> None"
  then obtain e where "(dir @ [w], e) \<in> set (dk_entries d)"
    by (auto simp: entry_at_def dest: map_of_SomeD)
  then show "entry_at d dir = Some DirEntry" using assms by (auto simp: list_all_iff)
qed

lemma private_to_finite:
  assumes "list_all (\<lambda>(p, e). list_all (\<lambda>(q, f). p = q \<or> e \<noteq> f \<or> e = DirEntry) (dk_entries d)) (dk_entries d)"
  shows "private_to X d"
  unfolding private_to_def
proof (intro allI impI notI)
  fix real other i
  assume a: "X real" "\<not> X other" "entry_at d real = Some (FileEntry i)" "entry_at d other = Some (FileEntry i)"
  then have "(real, FileEntry i) \<in> set (dk_entries d)" "(other, FileEntry i) \<in> set (dk_entries d)"
    by (auto simp: entry_at_def split: if_splits dest: map_of_SomeD)
  then have "real = other" using assms by (fastforce simp: list_all_iff)
  then show False using a(1,2) by simp
qed

lemma unlinked_finite:
  assumes "list_all (\<lambda>(p, e). case e of LinkEntry _ \<Rightarrow> False | _ \<Rightarrow> True) (dk_entries d)"
  shows "unlinked d real"
  unfolding unlinked_def
proof (intro allI impI notI)
  fix q t assume "entry_at d q = Some (LinkEntry t)"
  then have "(q, LinkEntry t) \<in> set (dk_entries d)"
    by (auto simp: entry_at_def split: if_splits dest: map_of_SomeD)
  then show False using assms by (auto simp: list_all_iff)
qed

definition sample_checkout :: disk where
  "sample_checkout =
     \<lparr>dk_entries =
        [([''r''], DirEntry), ([''r'', ''.gn''], FileEntry 0), ([''r'', ''BUILD.gn''], FileEntry 1),
         ([''r'', ''c''], FileEntry 2), ([''r'', ''t''], FileEntry 3), ([''r'', ''build''], DirEntry),
         ([''r'', ''p''], DirEntry), ([''r'', ''p'', ''BUILD.gn''], FileEntry 4), ([''r'', ''p'', ''b''], FileEntry 5),
         ([''r'', ''p'', ''a''], FileEntry 6), ([''r'', ''p'', ''e''], FileEntry 7),
         ([''r'', ''out''], DirEntry), ([''r'', ''out'', ''o''], DirEntry),
         ([''r'', ''out'', ''o'', ''project.json''], FileEntry 8)],
      dk_inodes = [], dk_cwd = [], dk_new_mode = 0\<rparr>"

definition sample_integration :: integration_contract where
  "sample_integration =
     \<lparr>ic_schema_version = 1, ic_package_root = ''p'', ic_build_provenance = ''p/b'', ic_c_abi_provenance = ''p/a'',
      ic_destination = ''d'', ic_source_inputs = [''.gn''], ic_endpoint_source = ''e'', ic_endpoint_target = ''e'',
      ic_integration_target = ''i'', ic_out_dir = ''out/o'', ic_rust_template = HostAdapter,
      ic_native_rustc = None, ic_expected_exit_code = 0\<rparr>"

definition sample_consumer :: consumer_provenance where
  "sample_consumer =
     \<lparr>cp_target_name = ''k'', cp_sources = [''e''], cp_cxx_bindings = [], cp_required_headers = [], cp_deps = [],
      cp_public_deps = [], cp_visibility = [], cp_header_includes = []\<rparr>"

definition sample_bridge :: bridge_provenance where
  "sample_bridge =
     \<lparr>bp_schema_version = 4, bp_package = ''p'', bp_version = [], bp_cargo_manifest_sha256 = [], bp_target_name = [],
      bp_crate_root = ''e'', bp_edition = [], bp_sources = [], bp_cxx_bindings = [], bp_gn_package_path = Some ''//d'',
      bp_generated_cxx_headers = [], bp_features = [], bp_no_default_features = False, bp_dependencies = [],
      bp_additional_deps = [], bp_additional_public_deps = [], bp_visibility = [], bp_allow_unsafe = False,
      bp_consumer = Some sample_consumer, bp_additional_consumers = [], bp_consumer_contract = None,
      bp_build_gn_sha256 = []\<rparr>"

definition sample_c_abi :: c_abi_provenance where
  "sample_c_abi =
     \<lparr>ca_schema_version = 1, ca_contract_sha256 = [], ca_contract_path = ''a'', ca_header_sha256 = [],
      ca_header_path = ''b'', ca_header_guard = [], ca_sources = [], ca_symbols = []\<rparr>"

text \<open>Every process prints a version and changes nothing.\<close>

definition sample_host :: host where
  "sample_host =
     \<lparr>ho_volume = \<lparr>dv_read_fails = \<lambda>_. False, dv_write_fault = \<lambda>_. NoFault, vl_mkdir_refused = \<lambda>_. False,
                   vl_removal_fault = \<lambda>_. Removed\<rparr>,
      ho_os = ''linux'', ho_path = None,
      ho_process = \<lambda>_ _ _ d. (Some \<lparr>pr_status = ExitCode 0, pr_stdout = ''1'', pr_stderr = []\<rparr>, d),
      ho_digest = \<lambda>_. [], ho_contract_from_json = \<lambda>_. Some sample_integration,
      ho_build_from_json = \<lambda>_. Some sample_bridge, ho_c_abi_from_json = \<lambda>_. Some sample_c_abi,
      ho_value_from_json = \<lambda>_. Some (JObject [(''targets'',
        JObject [(''//d:e'', JObject [(''outputs'', JArray [JString ''//t''])])])])\<rparr>"

definition sample_options :: integration_options where
  "sample_options =
     \<lparr>io_repo_root = ''/r'', io_source_root = ''/r'', io_contract = ''c'', io_gn = ''/r/t'', io_ninja = ''/r/t'',
      io_rustc = ''/r/t''\<rparr>"

definition sample_plan :: integration_plan where
  "sample_plan =
     (let tool = \<lparr>rt_requested = ''/r/t'', rt_invocation_path = ''/r/t'', rt_resolved_path = [''r'', ''t''],
                  rt_sha256 = [], rt_bytes = 0, rt_version = ''1''\<rparr>
      in \<lparr>ip_source_root = [''r''], ip_package_root = [''r'', ''p''], ip_contract = sample_integration,
          ip_build = sample_bridge, ip_c_abi = sample_c_abi, ip_consumer = sample_consumer,
          ip_tools = \<lparr>tr_gn = tool, tr_ninja = tool, tr_rustc = Some tool\<rparr>\<rparr>)"

lemma sample_prepared: "prepare sample_host sample_options sample_checkout = (Inr sample_plan, sample_checkout)"
  by code_simp

lemma sample_ready: "overlay_ready sample_plan sample_checkout"
proof -
  have "tree_shaped sample_checkout" by (rule tree_shaped_finite) code_simp
  moreover have "private_to X sample_checkout" for X by (rule private_to_finite) code_simp
  moreover have "unlinked sample_checkout real" for real by (rule unlinked_finite) code_simp
  moreover have "entry_at sample_checkout (ip_source_root sample_plan) = Some DirEntry"
    "CHR 0x5C \<notin> set (ic_destination (ip_contract sample_plan))" "CHR 0x5C \<notin> set (ic_out_dir (ip_contract sample_plan))"
    "hd (path_segments (ic_destination (ip_contract sample_plan))) \<notin> {''out'', ''build''}"
    "entry_at sample_checkout (ip_source_root sample_plan @ [''build'']) = Some DirEntry"
    by code_simp+
  ultimately show ?thesis by (simp add: overlay_ready_def well_kept_def)
qed

lemma run_integration_restores_witness:
  "\<exists>r d'. run_integration sample_host sample_options sample_checkout = (r, d') \<and>
     same_at sample_checkout d' [''r'', ''d'']"
proof -
  obtain r d' where run: "run_integration sample_host sample_options sample_checkout = (r, d')"
    by (cases "run_integration sample_host sample_options sample_checkout")
  have "processes_contained sample_host X" for X
    by (simp add: processes_contained_def sample_host_def confined_refl)
  moreover have "removals_work (ho_volume sample_host)" by (simp add: removals_work_def sample_host_def)
  moreover have "\<not> build_region sample_plan sample_checkout [''r'', ''d'']"
    unfolding build_region_def by code_simp
  ultimately show ?thesis
    using run run_integration_restores [OF sample_prepared sample_ready _ _ run] by blast
qed

text \<open>The same with a template of the checkout and its compiler.\<close>

definition existing_checkout :: disk where
  "existing_checkout = sample_checkout\<lparr>dk_entries :=
     [([''r'', ''build'', ''rust''], DirEntry),
      ([''r'', ''build'', ''rust'', ''rust_static_library.gni''], FileEntry 9)] @ dk_entries sample_checkout\<rparr>"

definition existing_host :: host where
  "existing_host = sample_host\<lparr>ho_contract_from_json := \<lambda>_. Some (sample_integration
     \<lparr>ic_rust_template := Existing, ic_native_rustc := Some ''p/e'', ic_source_inputs := [template_path, ''p/e'']\<rparr>)\<rparr>"

lemma run_integration_success_witness:
  "\<exists>(s :: integration_summary) d' (plan :: integration_plan). run_integration existing_host sample_options existing_checkout = (Inr s, d') \<and>
     is_endpoint_exit_code s = ic_expected_exit_code (ip_contract plan) \<and> is_tools s = into_identity (ip_tools plan)"
proof -
  let ?run = "run_integration existing_host sample_options existing_checkout"
  have "\<not> isl (fst ?run)" by code_simp
  then obtain s where "fst ?run = Inr s" by (cases "fst ?run") auto
  then obtain d' where run: "?run = (Inr s, d')" by (cases ?run) auto
  from run_integration_success [OF run] show ?thesis using run by blast
qed

section \<open>Limits\<close>

text \<open>A directory \<open>build\<close> that the adapter needed is not tracked: it stays when the adapter is removed.\<close>

definition bare_checkout :: disk where
  "bare_checkout = \<lparr>dk_entries = [([''r''], DirEntry)], dk_inodes = [], dk_cwd = [], dk_new_mode = 0\<rparr>"

definition full_host :: host where
  "full_host = sample_host\<lparr>ho_volume := (ho_volume sample_host)\<lparr>dv_write_fault := \<lambda>_. NotOpened\<rparr>\<rparr>"

lemma adapter_parent_left:
  "case install_host_adapter full_host [''r''] rustc \<lparr>ws_disk = bare_checkout, ws_guard = new_guard\<rparr> of
     (r, w) \<Rightarrow> isl r \<and> entry_at (drop_guard (ho_volume full_host) w) [''r'', ''build''] = Some DirEntry"
proof -
  let ?w = "\<lparr>ws_disk = bare_checkout, ws_guard = new_guard\<rparr>" let ?dir = "adapter_directory [''r'']"
  let ?steps = "then_do (inspect (\<lambda>w. validate_overlay_parent (ws_disk w) [''r''] ''build/rust'')) (\<lambda>_.
      then_do (inspect (\<lambda>w. require (\<not> exists_at (ws_disk w) ?dir) (AdapterExists (shown_path ?dir)))) (\<lambda>_.
      then_do (using_disk (or_fail (create_dir_all (ho_volume full_host) ?dir) (OverlayIo (shown_path ?dir)))) (\<lambda>_.
      then_do (tracking ?dir) (\<lambda>_. lift_result (Inl JsonError) :: unit in_workspace))))"
  have refused: "then_do (using_disk (write_overlay full_host p bytes)) f = lift_result (Inl (OverlayIo (shown_path p)))"
    for p bytes and f :: "unit \<Rightarrow> unit in_workspace"
    by (simp add: fun_eq_iff then_do_def using_disk_def write_overlay_def or_fail_def lift_result_def full_host_def
        sample_host_def fs_write_def)
  have same: "snd (install_host_adapter full_host [''r''] rustc ?w) = snd (?steps ?w) \<and>
      isl (fst (install_host_adapter full_host [''r''] rustc ?w)) = isl (fst (?steps ?w))"
    unfolding install_host_adapter_def Let_def refused
    by (simp add: then_do_def lift_result_def split: prod.split sum.split)
  have steps: "isl (fst (?steps ?w))"
    "entry_at (drop_guard (ho_volume full_host) (snd (?steps ?w))) [''r'', ''build''] = Some DirEntry"
    by code_simp+
  then show ?thesis by (simp only: case_prod_beta conjunct1 [OF same] conjunct2 [OF same] simp_thms)
qed

text \<open>A link that leads nowhere does not exist for the checks before, is tracked, and is removed by the run that
  fails because of it.\<close>

definition linked_checkout :: disk where
  "linked_checkout = bare_checkout\<lparr>dk_entries := ([''r'', ''d''], LinkEntry ''x'') # dk_entries bare_checkout\<rparr>"

lemma dangling_link_removed:
  "\<not> exists_at linked_checkout (destination_of sample_plan) \<and>
   (case lay_out_package sample_host sample_plan \<lparr>ws_disk = linked_checkout, ws_guard = new_guard\<rparr> of
      (r, w) \<Rightarrow> isl r \<and> entry_at (drop_guard (ho_volume sample_host) w) [''r'', ''d''] = None)"
  by code_simp

text \<open>A native compiler at the top of the checkout is one segment, and so looked for on \<open>PATH\<close>: the tool that
  is resolved is not the file of the checkout that the contract lists.\<close>

lemma native_rustc_from_path:
  "resolve_executable (sample_host\<lparr>ho_path := Some ''/r/p''\<rparr>) sample_checkout ''e'' [''r''] = Inr ''/r/p/e''"
  by code_simp

end
