(* ===== verification/Spec2Isabelle.thy ===== *)
theory Spec2Isabelle
  imports Migration GnImport CoverageCorrect ComponentsCorrect OwnersCorrect SourceCorrect PilotCorrect AttestationCorrect MojoCorrect IntegrationCorrect
begin

text \<open>
  A verification development for Chromifer, the tool that plans and audits the incremental replacement of
  Chromium components by Rust components.

  The program. A manifest (\<open>crates/chromifer-manifest\<close>) lists targets, compatibility gates and modules;
  a module has a migration state, its sources and its dependencies, each with a boundary (how the call
  crosses languages) and the evidence for it. The other crates produce, annotate or read manifests:
  \<open>chromifer-gn\<close> imports a GN project graph, \<open>chromifer-source\<close> scans the sources for boundaries,
  \<open>chromifer-owners\<close> resolves OWNERS files, \<open>chromifer-coverage\<close> joins LLVM coverage with the manifest,
  \<open>chromifer-components\<close> groups modules and ranks the groups, \<open>chromifer-planner\<close> decides which
  transitions are allowed, \<open>chromifer-migration\<close> validates the evidence of a migration pilot,
  \<open>chromifer-attestation\<close> signs evidence files and verifies the signatures, \<open>chromifer-mojo\<close> generates
  the Mojo targets of a package, and \<open>chromifer-integration\<close> builds and runs a generated package in a checkout.

  Shared theories.
  \<^item> \<open>Prelude\<close>: results (\<open>Result\<close> is a sum, \<open>Err\<close> on the left), fallible loops (\<open>try_fold\<close>, \<open>try_map\<close>) with
    their invariant rules, Rust strings as byte strings, number formatting, FNV-1a, saturating words.
  \<^item> \<open>Collections\<close>: \<open>BTreeSet\<close> and \<open>BTreeMap\<close> as ascending lists; the locales \<open>ordered_set\<close>,
    \<open>ordered_map\<close> and \<open>keyed_lookup\<close> state what clients rely on and are interpreted on these lists.
  \<^item> \<open>Paths\<close> and \<open>FileSystem\<close>: \<open>std::path\<close> on Unix, path normalisation, and a finite tree of directories,
    files and symbolic links with resolution (at most 40 links, as on Linux), UTF-8 and lossy decoding.
    Commands that only read see a tree that does not change while they run.
  \<^item> \<open>Disk\<close>, \<open>DiskOps\<close>, \<open>Effects\<close>: names, inodes and modes of a disk with the writes, copies, directories and
    removals of \<open>std::fs\<close>, any of which may fail or break off; what each of them leaves alone (\<open>confined\<close>);
    functions that change a state and may return early, with triples for them.
  \<^item> \<open>Checks\<close>: the contracts of validators that push onto an error vector (\<open>error_pass\<close>, \<open>seen_pass\<close>).

  Components, each with the theorems about it.
  \<^item> \<open>Manifest\<close>, \<open>Cycles\<close>, \<open>Validation\<close> (\<open>chromifer-manifest/src/lib.rs\<close>): every type, the gate
    deserialiser, \<open>validate\<close> with every check, and the depth-first cycle search. Validation accepts
    exactly the manifests of a declarative predicate; the search finds a cycle exactly when there is one,
    and what it reports is one.
  \<^item> \<open>Planner\<close>, \<open>Migration\<close> (\<open>chromifer-planner\<close>): assessments and the frontier; runs of allowed transitions
    keep manifests valid and every edge of a Rust-owned module audited, and are finite.
  \<^item> \<open>Gn\<close>, \<open>GnGraph\<close>, \<open>GnImport\<close> (\<open>chromifer-gn\<close>): aliases, closures over the target graph, fresh
    identifiers, the import; effective dependencies are reachability through targets not imported.
  \<^item> \<open>Coverage\<close>, \<open>CoverageCorrect\<close> (\<open>chromifer-coverage\<close>): reports verify against what they were made
    from; source files stay below the root; exact percentages.
  \<^item> \<open>Components\<close>, \<open>ComponentsCorrect\<close> (\<open>chromifer-components\<close>): groups partition modules, edges count
    dependencies, eligibility, and the order and entries of the ranking.
  \<^item> \<open>Owners\<close>, \<open>OwnersCorrect\<close> (\<open>chromifer-owners\<close>): the resolver with its cache threaded through; the
    result is that of an inductive definition of who owns a file, the cache is invisible, patterns mean
    their language, and include cycles are circles of includes.
  \<^item> \<open>Source\<close>, \<open>SourcePool\<close>, \<open>SourceCorrect\<close> (\<open>chromifer-source\<close>): the scan with its worker pool as a step
    relation over all interleavings; the output does not depend on the interleaving, every run ends, the
    scan overrides nothing and is idempotent.
  \<^item> \<open>Exposure\<close>, \<open>CommentSyntax\<close>, \<open>ExposureCorrect\<close>, \<open>Pilot\<close>, \<open>PilotCorrect\<close> (\<open>chromifer-migration\<close>): the
    exposure measurement with a comment stripper that is exact against a grammar of sources, loading and every check of the pilot validation with its message; acceptance is a
    declarative predicate, from which follows what a complete pilot is backed by.
  \<^item> \<open>Hex\<close>, \<open>Attestation\<close>, \<open>AttestationCorrect\<close> (\<open>chromifer-attestation\<close>): signing, key derivation and
    verification over the disk. Signing touches no input, what was signed verifies, what verifies was signed
    over exactly this evidence and runner.
  \<^item> \<open>MojoSyntax\<close>, \<open>MojoSyntaxCorrect\<close>, \<open>GnText\<close>, \<open>MojoContract\<close>, \<open>MojoCorrect\<close> (\<open>chromifer-mojo\<close>): the Mojom lexer and
    parser, contracts, import resolution and the generated \<open>BUILD.gn\<close>. The lexer and the parser are exact
    against printed tokens and a grammar; a validated contract is well-formed; a generated package resolves
    every import and has no target cycle.
  \<^item> \<open>Provenance\<close>, \<open>Integration\<close>, \<open>IntegrationCorrect\<close> (\<open>chromifer-integration\<close>): a run lays a package over a
    checkout, builds and executes it, and removes the overlay through a guard that is dropped on every way out.
    Everything outside the build directory is as before, whatever fails; what a success stands for.

  Integers and floats. Counters of fixed width are words, so that wrap-around and saturation are those of
  the code in release builds; lengths, line numbers and \<open>usize\<close> indices are natural numbers. An \<open>f64\<close> is what
  comparisons see of it: a rational, an infinity or not a number.

  Termination and bounds. Searches over graphs and includes recurse on the finite set of nodes or files
  still unvisited; walks in the file system on the number of links left (40) and the path; the worker
  pool has at most 8 workers, and each step takes a module, so a run has at most as many steps as modules
  and workers. No definition uses fuel.

  Parameters. SHA-256, the JSON and TOML codecs, the Rust parser and \<open>git\<close> are arguments of the definitions
  that use them (records \<open>codecs\<close>, \<open>tools\<close>, \<open>parsers\<close>, \<open>crypto\<close>, \<open>mojo_codec\<close>, \<open>host\<close>); which reads, writes and removals the
  operating system refuses is an argument too (\<open>device\<close>, \<open>volume\<close>). Processes are functions from a disk to a
  result and a disk.

  Not modelled. Reading and writing of manifests as TOML (\<open>Manifest::load\<close>, \<open>to_toml_pretty\<close>,
  \<open>GnProject::load\<close>); panics of worker threads; the kinds of operating-system errors beyond not found;
  paths with NUL bytes or trailing slashes. The crates \<open>build\<close>, \<open>cabi\<close>, \<open>safety\<close>, \<open>gates\<close>,
  \<open>checkout\<close> and \<open>evidence\<close> (of \<open>build\<close> and \<open>cabi\<close> only the provenance types are) and the command line
  (argument parsing and printing) are not modelled.
\<close>

end
